(* ===== verification/Wallet_Prelude.thy ===== *)
theory Wallet_Prelude
  imports Main "HOL-Library.Word" "HOL-Library.Char_ord" "HOL-Library.List_Lexorder" "HOL-Library.Sublist"
begin

unbundle bit_operations_syntax

text \<open>
  Shared vocabulary of the development: the Rust scalar types at their width, Rust strings as
  UTF-8 byte sequences, results as sums, the JSON values the protocol crates match on, and the
  generic list and word lemmas the component theories use.

  Conventions.
  \<^item> \<open>u8\<close>, \<open>u16\<close>, \<open>u32\<close>, \<open>u64\<close> are words; \<open>i64\<close> is \<open>int\<close> with the bounds and the
    saturating and checked operations written out; \<open>usize\<close> is \<open>nat\<close> (a 64-bit target).
  \<^item> A Rust \<open>String\<close> is its UTF-8 byte sequence; it is an Isabelle \<open>string\<close>, whose characters
    are bytes, so \<open>len\<close> is \<open>length\<close> and a literal of the source is a literal here.
  \<^item> \<open>Result<T, E>\<close> is \<open>'e + 't\<close> with \<open>Inl\<close> the error; \<open>Result<T, ()>\<close> and \<open>Option<T>\<close> are
    \<open>'t option\<close>; \<open>?\<close> is \<open>bind_result\<close>.
  \<^item> \<open>serde_json::Value\<close> is the datatype \<open>json\<close> with the constructors the sources match on and
    its documented projections. The JSON parser and printer themselves, base64url, signature
    verification, digests and inflate are never defined: they are arguments of the definitions
    that call them.
\<close>

section \<open>Scalars\<close>

type_synonym u8 = "8 word"
type_synonym u16 = "16 word"
type_synonym u32 = "32 word"
type_synonym u64 = "64 word"
type_synonym bytes = "8 word list"

definition i64_min :: int where
  "i64_min = - (2 ^ 63)"

definition i64_max :: int where
  "i64_max = 2 ^ 63 - 1"

definition in_i64 :: "int \<Rightarrow> bool" where
  "in_i64 x \<longleftrightarrow> i64_min \<le> x \<and> x \<le> i64_max"

definition saturating_i64 :: "int \<Rightarrow> int" where
  "saturating_i64 x = max i64_min (min i64_max x)"

definition saturating_add_i64 :: "int \<Rightarrow> int \<Rightarrow> int" where
  "saturating_add_i64 a b = saturating_i64 (a + b)"

definition saturating_sub_i64 :: "int \<Rightarrow> int \<Rightarrow> int" where
  "saturating_sub_i64 a b = saturating_i64 (a - b)"

definition checked_add_i64 :: "int \<Rightarrow> int \<Rightarrow> int option" where
  "checked_add_i64 a b = (if in_i64 (a + b) then Some (a + b) else None)"

lemmas i64_defs = i64_min_def i64_max_def in_i64_def saturating_i64_def saturating_add_i64_def
  saturating_sub_i64_def checked_add_i64_def

lemma saturating_i64_range [simp]: "in_i64 (saturating_i64 x)"
  by (simp add: i64_defs)

lemma saturating_i64_id: "in_i64 x \<Longrightarrow> saturating_i64 x = x"
  by (simp add: i64_defs)

section \<open>Results\<close>

definition bind_result :: "'e + 'a \<Rightarrow> ('a \<Rightarrow> 'e + 'b) \<Rightarrow> 'e + 'b" where
  "bind_result r f = (case r of Inl e \<Rightarrow> Inl e | Inr x \<Rightarrow> f x)"

definition ok_or :: "'a option \<Rightarrow> 'e \<Rightarrow> 'e + 'a" where
  "ok_or x e = (case x of None \<Rightarrow> Inl e | Some v \<Rightarrow> Inr v)"

definition ensure :: "bool \<Rightarrow> 'e \<Rightarrow> 'e + unit" where
  "ensure b e = (if b then Inr () else Inl e)"

definition map_err :: "('e \<Rightarrow> 'f) \<Rightarrow> 'e + 'a \<Rightarrow> 'f + 'a" where
  "map_err f r = (case r of Inr v \<Rightarrow> Inr v | Inl e \<Rightarrow> Inl (f e))"

lemma map_err_simps [simp]:
  "map_err f (Inr v) = Inr v"
  "map_err f (Inl e) = Inl (f e)"
  by (simp_all add: map_err_def)

lemma map_err_Inr_iff [simp]: "map_err f r = Inr v \<longleftrightarrow> r = Inr v"
  by (cases r) simp_all

lemma bind_result_simps [simp]:
  "bind_result (Inl e) f = Inl e"
  "bind_result (Inr x) f = f x"
  by (simp_all add: bind_result_def)

lemma ok_or_simps [simp]:
  "ok_or None e = Inl e"
  "ok_or (Some v) e = Inr v"
  by (simp_all add: ok_or_def)

lemma bind_result_cong [fundef_cong]:
  "r = r' \<Longrightarrow> (\<And>x. r' = Inr x \<Longrightarrow> f x = g x) \<Longrightarrow> bind_result r f = bind_result r' g"
  by (cases r') simp_all

lemma bind_result_Inr_iff:
  "bind_result r f = Inr y \<longleftrightarrow> (\<exists>x. r = Inr x \<and> f x = Inr y)"
  by (cases r) simp_all

lemma ok_or_Inr_iff [simp]: "ok_or x e = Inr v \<longleftrightarrow> x = Some v"
  by (cases x) simp_all

lemma ensure_Inr_iff [simp]: "ensure b e = Inr u \<longleftrightarrow> b"
  by (simp add: ensure_def)

lemma ensure_simps [simp]:
  "ensure True e = Inr ()"
  "ensure False e = Inl e"
  by (simp_all add: ensure_def)

section \<open>Strings\<close>

definition as_bytes :: "string \<Rightarrow> bytes" where
  "as_bytes s = map of_char s"

definition char_of_byte :: "u8 \<Rightarrow> char" where
  "char_of_byte b = char_of (unat b)"

lemma unat_byte_lt [simp]: "unat (b :: u8) < 256"
  using unsigned_less [of b] by simp

lemma of_char_char_of_byte [simp]: "of_char (char_of_byte b) = b"
proof -
  have "(of_char (char_of (unat b)) :: nat) = unat b"
    by simp
  then have "(of_nat (of_char (char_of (unat b)) :: nat) :: u8) = b"
    by simp
  then show ?thesis by (simp only: char_of_byte_def of_nat_of_char)
qed

lemma char_of_byte_of_char [simp]: "char_of_byte (of_char c) = c"
proof -
  have "unat (of_nat (of_char c :: nat) :: u8) = (of_char c :: nat)"
    by (subst unat_of_nat) simp
  then have "unat (of_char c :: u8) = (of_char c :: nat)"
    by (simp only: of_nat_of_char)
  then show ?thesis by (simp add: char_of_byte_def)
qed

lemma length_as_bytes [simp]: "length (as_bytes s) = length s"
  by (simp add: as_bytes_def)

lemma map_char_of_byte_as_bytes [simp]: "map char_of_byte (as_bytes s) = s"
  by (simp add: as_bytes_def comp_def)

lemma as_bytes_map_char_of_byte [simp]: "as_bytes (map char_of_byte b) = b"
  by (simp add: as_bytes_def comp_def)

lemma as_bytes_inject [simp]: "as_bytes s = as_bytes t \<longleftrightarrow> s = t"
  by (metis map_char_of_byte_as_bytes)

lemma as_bytes_append [simp]: "as_bytes (s @ t) = as_bytes s @ as_bytes t"
  by (simp add: as_bytes_def)

text \<open>
  UTF-8 as \<open>core::str::from_utf8\<close> accepts it: shortest forms only, no surrogates, at most
  U+10FFFF. \<open>utf8_chars\<close> returns the code points, or \<open>None\<close> on an ill-formed sequence.
\<close>

definition is_cont :: "u8 \<Rightarrow> bool" where
  "is_cont b \<longleftrightarrow> 0x80 \<le> b \<and> b \<le> 0xBF"

definition utf8_second_ok :: "u8 \<Rightarrow> u8 \<Rightarrow> bool" where
  "utf8_second_ok b c \<longleftrightarrow>
     (if b = 0xE0 then 0xA0 \<le> c \<and> c \<le> 0xBF
      else if b = 0xED then 0x80 \<le> c \<and> c \<le> 0x9F
      else if b = 0xF0 then 0x90 \<le> c \<and> c \<le> 0xBF
      else if b = 0xF4 then 0x80 \<le> c \<and> c \<le> 0x8F
      else is_cont c)"

fun utf8_chars :: "bytes \<Rightarrow> nat list option" where
  "utf8_chars [] = Some []"
| "utf8_chars (b # bs) =
     (if b < 0x80 then map_option (Cons (unat b)) (utf8_chars bs)
      else if 0xC2 \<le> b \<and> b \<le> 0xDF then
        (case bs of
           c # cs \<Rightarrow> if is_cont c
             then map_option (Cons ((unat b mod 32) * 64 + unat c mod 64)) (utf8_chars cs)
             else None
         | [] \<Rightarrow> None)
      else if 0xE0 \<le> b \<and> b \<le> 0xEF then
        (case bs of
           c # d # ds \<Rightarrow> if utf8_second_ok b c \<and> is_cont d
             then map_option (Cons ((unat b mod 16) * 4096 + (unat c mod 64) * 64 + unat d mod 64))
                    (utf8_chars ds)
             else None
         | _ \<Rightarrow> None)
      else if 0xF0 \<le> b \<and> b \<le> 0xF4 then
        (case bs of
           c # d # e # es \<Rightarrow> if utf8_second_ok b c \<and> is_cont d \<and> is_cont e
             then map_option (Cons ((unat b mod 8) * 262144 + (unat c mod 64) * 4096
                    + (unat d mod 64) * 64 + unat e mod 64)) (utf8_chars es)
             else None
         | _ \<Rightarrow> None)
      else None)"

definition valid_utf8 :: "bytes \<Rightarrow> bool" where
  "valid_utf8 b \<longleftrightarrow> utf8_chars b \<noteq> None"

definition from_utf8 :: "bytes \<Rightarrow> string option" where
  "from_utf8 b = (if valid_utf8 b then Some (map char_of_byte b) else None)"

definition valid_str :: "string \<Rightarrow> bool" where
  "valid_str s \<longleftrightarrow> valid_utf8 (as_bytes s)"

lemma from_utf8_as_bytes [simp]: "valid_str s \<Longrightarrow> from_utf8 (as_bytes s) = Some s"
  by (simp add: from_utf8_def valid_str_def)

lemma from_utf8_Some_iff: "from_utf8 b = Some s \<longleftrightarrow> valid_str s \<and> b = as_bytes s"
  by (auto simp: from_utf8_def valid_str_def)

lemma from_utf8_None_iff: "from_utf8 b = None \<longleftrightarrow> \<not> valid_utf8 b"
  by (simp add: from_utf8_def)

text \<open>\<open>char::is_whitespace\<close>: the Unicode \<open>White_Space\<close> property.\<close>

definition is_whitespace :: "nat \<Rightarrow> bool" where
  "is_whitespace c \<longleftrightarrow>
     (9 \<le> c \<and> c \<le> 13) \<or> c = 0x20 \<or> c = 0x85 \<or> c = 0xA0 \<or> c = 0x1680
     \<or> (0x2000 \<le> c \<and> c \<le> 0x200A) \<or> c = 0x2028 \<or> c = 0x2029 \<or> c = 0x202F \<or> c = 0x205F
     \<or> c = 0x3000"

text \<open>\<open>s.trim().is_empty()\<close>: every character of \<open>s\<close> is white space.\<close>

definition str_is_blank :: "string \<Rightarrow> bool" where
  "str_is_blank s =
     (case utf8_chars (as_bytes s) of None \<Rightarrow> False | Some cs \<Rightarrow> list_all is_whitespace cs)"

lemma str_is_blank_empty [simp]: "str_is_blank []"
  by (simp add: str_is_blank_def as_bytes_def)

text \<open>\<open>s.split(c)\<close> on a one-byte separator: always at least one part.\<close>

fun split_str :: "char \<Rightarrow> string \<Rightarrow> string list" where
  "split_str c [] = [[]]"
| "split_str c (x # xs) =
     (if x = c then [] # split_str c xs
      else (case split_str c xs of [] \<Rightarrow> [[x]] | p # ps \<Rightarrow> (x # p) # ps))"

lemma split_str_nonempty [simp]: "split_str c s \<noteq> []"
  by (induction s) (auto split: list.splits)

text \<open>\<open>parts.join(c)\<close>, the inverse of splitting.\<close>

fun join_str :: "char \<Rightarrow> string list \<Rightarrow> string" where
  "join_str c [] = []"
| "join_str c [p] = p"
| "join_str c (p # q # ps) = p @ c # join_str c (q # ps)"

lemma join_str_Cons_hd: "join_str c ((x # p) # ps) = x # join_str c (p # ps)"
  by (cases ps) simp_all

lemma join_split_str: "join_str c (split_str c s) = s"
proof (induction s)
  case (Cons x s)
  then show ?case
    by (cases "split_str c s") (auto simp: join_str_Cons_hd)
qed simp

lemma split_str_parts: "p \<in> set (split_str c s) \<Longrightarrow> c \<notin> set p"
  by (induction s arbitrary: p) (fastforce split: list.splits if_splits)+

lemma split_str_no_sep: "c \<notin> set p \<Longrightarrow> split_str c p = [p]"
  by (induction p) auto

lemma split_str_sep: "c \<notin> set p \<Longrightarrow> split_str c (p @ c # s) = p # split_str c s"
  by (induction p) auto

lemma split_join_str:
  "ps \<noteq> [] \<Longrightarrow> \<forall>p \<in> set ps. c \<notin> set p \<Longrightarrow> split_str c (join_str c ps) = ps"
  by (induction c ps rule: join_str.induct) (auto simp: split_str_no_sep split_str_sep)

lemma split_str_three:
  assumes "length (split_str c s) = 3"
  shows "s = split_str c s ! 0 @ [c] @ split_str c s ! 1 @ [c] @ split_str c s ! 2"
proof -
  obtain p q r where parts: "split_str c s = [p, q, r]"
    using assms by (auto simp: length_Suc_conv numeral_3_eq_3)
  with join_split_str [of c s] show ?thesis by simp
qed

text \<open>\<open>s.split_once(c)\<close>: the text before and after the first \<open>c\<close>.\<close>

fun split_once_str :: "char \<Rightarrow> string \<Rightarrow> (string \<times> string) option" where
  "split_once_str c [] = None"
| "split_once_str c (x # xs) =
     (if x = c then Some ([], xs)
      else map_option (\<lambda>(p, q). (x # p, q)) (split_once_str c xs))"

lemma split_once_str_Some:
  "split_once_str c s = Some (p, q) \<Longrightarrow> s = p @ c # q \<and> c \<notin> set p"
  by (induction s arbitrary: p) (auto split: if_splits)

definition to_lower_ascii :: "char \<Rightarrow> char" where
  "to_lower_ascii c =
     (let n = (of_char c :: nat) in if 65 \<le> n \<and> n \<le> 90 then char_of (n + 32) else c)"

definition eq_ignore_ascii_case :: "string \<Rightarrow> string \<Rightarrow> bool" where
  "eq_ignore_ascii_case s t \<longleftrightarrow> map to_lower_ascii s = map to_lower_ascii t"

section \<open>Subsequences\<close>

lemma subseq_set: "subseq xs ys \<Longrightarrow> x \<in> set xs \<Longrightarrow> x \<in> set ys"
  by (induction rule: list_emb.induct) auto

lemma subseq_sorted_wrt: "subseq xs ys \<Longrightarrow> sorted_wrt P ys \<Longrightarrow> sorted_wrt P xs"
  by (induction rule: list_emb.induct) (auto dest: subseq_set)

lemma subseq_distinct_list: "subseq xs ys \<Longrightarrow> distinct ys \<Longrightarrow> distinct xs"
  by (induction rule: list_emb.induct) (auto dest: subseq_set)

section \<open>Ordered maps\<close>

text \<open>
  \<open>BTreeMap\<close> as the association list its iterator yields: keys strictly increasing. Lookup is
  \<open>map_of\<close>; strings compare by their bytes.
\<close>

fun btree_insert :: "'k :: linorder \<Rightarrow> 'v \<Rightarrow> ('k \<times> 'v) list \<Rightarrow> ('k \<times> 'v) list" where
  "btree_insert k v [] = [(k, v)]"
| "btree_insert k v ((k', v') # m) =
     (if k < k' then (k, v) # (k', v') # m
      else if k = k' then (k, v) # m
      else (k', v') # btree_insert k v m)"

definition btree_ok :: "('k :: linorder \<times> 'v) list \<Rightarrow> bool" where
  "btree_ok m \<longleftrightarrow> sorted_wrt (<) (map fst m)"

lemma map_of_btree_insert [simp]: "map_of (btree_insert k v m) = (map_of m)(k \<mapsto> v)"
  by (induction k v m rule: btree_insert.induct) (auto simp: fun_eq_iff)

lemma fst_set_btree_insert: "fst ` set (btree_insert k v m) = insert k (fst ` set m)"
  by (induction k v m rule: btree_insert.induct) auto

lemma btree_insert_ok: "btree_ok m \<Longrightarrow> btree_ok (btree_insert k v m)"
proof (induction k v m rule: btree_insert.induct)
  case (2 k v k' v' m)
  then show ?case
    using fst_set_btree_insert [of k v m] by (auto simp: btree_ok_def)
qed (simp add: btree_ok_def)

lemma btree_ok_Nil [simp]: "btree_ok []"
  by (simp add: btree_ok_def)

lemma btree_ok_distinct: "btree_ok m \<Longrightarrow> distinct (map fst m)"
  by (simp add: btree_ok_def strict_sorted_iff)

lemma btree_ext:
  assumes "btree_ok a" "btree_ok b" "map_of a = map_of b"
  shows "a = b"
proof -
  have keys: "map fst a = map fst b"
  proof (rule sorted_distinct_set_unique)
    show "sorted (map fst a)" "sorted (map fst b)" "distinct (map fst a)" "distinct (map fst b)"
      using assms(1,2) by (auto simp: btree_ok_def strict_sorted_iff)
    show "set (map fst a) = set (map fst b)"
      using assms(3) by (metis dom_map_of_conv_image_fst set_map)
  qed
  have rebuild: "map (\<lambda>k. (k, the (map_of m k))) (map fst m) = m" if "distinct (map fst m)" for m :: "('a \<times> 'b) list"
    using that unfolding map_map comp_def by (intro map_idI) auto
  show ?thesis
    using rebuild [OF btree_ok_distinct [OF assms(1)]] rebuild [OF btree_ok_distinct [OF assms(2)]]
      keys assms(3) by metis
qed

text \<open>Collecting entries with distinct keys, in whatever order they come, gives the ordered map.\<close>

abbreviation btree_collect :: "('k :: linorder \<times> 'v) list \<Rightarrow> ('k \<times> 'v) list \<Rightarrow> ('k \<times> 'v) list" where
  "btree_collect m kvs \<equiv> foldl (\<lambda>m (k, v). btree_insert k v m) m kvs"

lemma btree_collect_ok: "btree_ok m \<Longrightarrow> btree_ok (btree_collect m kvs)"
  by (induction kvs arbitrary: m) (auto simp: btree_insert_ok)

lemma map_of_btree_collect:
  "distinct (map fst kvs) \<Longrightarrow> map_of (btree_collect m kvs) = map_of m ++ map_of kvs"
proof (induction kvs arbitrary: m)
  case (Cons kv kvs)
  obtain k v where kv: "kv = (k, v)" by (cases kv)
  have "k \<notin> dom (map_of kvs)" using Cons.prems by (simp add: kv dom_map_of_conv_image_fst)
  with Cons show ?case by (auto simp: kv map_add_def fun_eq_iff split: option.split)
qed simp

lemma btree_rebuild:
  assumes "btree_ok m" "set kvs = set m" "distinct (map fst kvs)"
  shows "btree_collect [] kvs = m"
proof (rule btree_ext)
  show "btree_ok (btree_collect [] kvs)" by (rule btree_collect_ok) simp
  have "map_of kvs = map_of m"
    using assms btree_ok_distinct [OF assms(1)] by (simp add: map_of_inject_set)
  then show "map_of (btree_collect [] kvs) = map_of m" by (simp add: map_of_btree_collect [OF assms(3)])
qed (rule assms(1))

section \<open>JSON values\<close>

datatype json_number = PosInt u64 | NegInt int | Float u64

datatype json =
    JNull
  | JBool bool
  | JNumber json_number
  | JString string
  | JArray "json list"
  | JObject "(string \<times> json) list"

definition json_get :: "string \<Rightarrow> json \<Rightarrow> json option" where
  "json_get k v = (case v of JObject m \<Rightarrow> map_of m k | _ \<Rightarrow> None)"

definition json_as_str :: "json \<Rightarrow> string option" where
  "json_as_str v = (case v of JString s \<Rightarrow> Some s | _ \<Rightarrow> None)"

definition json_as_bool :: "json \<Rightarrow> bool option" where
  "json_as_bool v = (case v of JBool b \<Rightarrow> Some b | _ \<Rightarrow> None)"

definition json_as_array :: "json \<Rightarrow> json list option" where
  "json_as_array v = (case v of JArray a \<Rightarrow> Some a | _ \<Rightarrow> None)"

definition json_as_u64 :: "json \<Rightarrow> u64 option" where
  "json_as_u64 v = (case v of JNumber (PosInt n) \<Rightarrow> Some n | _ \<Rightarrow> None)"

definition json_as_i64 :: "json \<Rightarrow> int option" where
  "json_as_i64 v =
     (case v of
        JNumber (PosInt n) \<Rightarrow> if uint n \<le> i64_max then Some (uint n) else None
      | JNumber (NegInt i) \<Rightarrow> Some i
      | _ \<Rightarrow> None)"

definition json_get_str :: "string \<Rightarrow> json \<Rightarrow> string option" where
  "json_get_str k v = Option.bind (json_get k v) json_as_str"

definition json_get_u64 :: "string \<Rightarrow> json \<Rightarrow> u64 option" where
  "json_get_u64 k v = Option.bind (json_get k v) json_as_u64"

definition unwrap_or :: "'a \<Rightarrow> 'a option \<Rightarrow> 'a" where
  "unwrap_or d x = (case x of None \<Rightarrow> d | Some v \<Rightarrow> v)"

lemma unwrap_or_simps [simp]:
  "unwrap_or d None = d"
  "unwrap_or d (Some v) = v"
  by (simp_all add: unwrap_or_def)

lemmas json_defs = json_get_def json_as_str_def json_as_bool_def json_as_array_def
  json_as_u64_def json_as_i64_def json_get_str_def json_get_u64_def

section \<open>Words\<close>

lemma word_eqI_unat: "unat a = unat b \<Longrightarrow> a = b"
  by (rule unsigned_word_eqI)

text \<open>Big-endian conversions, \<open>to_be_bytes\<close> and \<open>from_be_bytes\<close>, on the value.\<close>

fun be_bytes :: "nat \<Rightarrow> nat \<Rightarrow> bytes" where
  "be_bytes 0 n = []"
| "be_bytes (Suc k) n = be_bytes k (n div 256) @ [of_nat (n mod 256)]"

definition be_value :: "bytes \<Rightarrow> nat" where
  "be_value bs = foldl (\<lambda>acc b. acc * 256 + unat b) 0 bs"

lemma length_be_bytes [simp]: "length (be_bytes k n) = k"
  by (induction k arbitrary: n) simp_all

lemma be_value_snoc [simp]: "be_value (bs @ [b]) = be_value bs * 256 + unat b"
  by (simp add: be_value_def)

lemma be_value_Nil [simp]: "be_value [] = 0"
  by (simp add: be_value_def)

lemma be_value_be_bytes: "n < 256 ^ k \<Longrightarrow> be_value (be_bytes k n) = n"
proof (induction k arbitrary: n)
  case 0
  then show ?case by simp
next
  case (Suc k)
  have "n div 256 < 256 ^ k"
    using Suc.prems by (simp add: less_mult_imp_div_less mult.commute)
  then have "be_value (be_bytes k (n div 256)) = n div 256"
    by (rule Suc.IH)
  moreover have "unat (of_nat (n mod 256) :: u8) = n mod 256"
    by (simp add: unat_of_nat)
  ultimately show ?case by simp
qed

lemma be_bytes_be_value: "length bs = k \<Longrightarrow> be_bytes k (be_value bs) = bs"
proof (induction k arbitrary: bs)
  case 0
  then show ?case by simp
next
  case (Suc k)
  then obtain xs b where bs: "bs = xs @ [b]" and len: "length xs = k"
    by (metis length_Suc_conv_rev)
  have "(be_value xs * 256 + unat b) div 256 = be_value xs"
    using unat_byte_lt [of b] by simp
  moreover have "(be_value xs * 256 + unat b) mod 256 = unat b"
    using unat_byte_lt [of b] by simp
  ultimately show ?case
    using Suc.IH [OF len] by (simp add: bs)
qed

lemma be_value_bound: "be_value bs < 256 ^ length bs"
proof (induction bs rule: rev_induct)
  case Nil
  then show ?case by simp
next
  case (snoc b bs)
  have "be_value bs * 256 + unat b < (be_value bs + 1) * 256"
    using unat_byte_lt [of b] by simp
  also have "\<dots> \<le> 256 ^ length bs * 256"
    using snoc by (intro mult_right_mono) auto
  finally show ?case by (simp add: mult.commute)
qed

end
