(* ===== verification/Wallet_Std.thy ===== *)
theory Wallet_Std
  imports Wallet_Prelude
begin

text \<open>
  What the components use of Rust's standard library beyond the prelude: trimmed and control-free
  text, ASCII classes, checked \<open>usize\<close> arithmetic, little-endian bytes and length-prefixed fields,
  with the lemmas that make such an encoding injective.
\<close>

section \<open>Text\<close>

text \<open>The characters of a Rust string, which is always well-formed UTF-8.\<close>

definition str_chars :: "string \<Rightarrow> nat list" where
  "str_chars s = (case utf8_chars (as_bytes s) of None \<Rightarrow> [] | Some cs \<Rightarrow> cs)"

text \<open>\<open>s.trim() == s\<close> and \<open>s.chars().any(char::is_control)\<close>.\<close>

definition str_is_trimmed :: "string \<Rightarrow> bool" where
  "str_is_trimmed s \<longleftrightarrow>
     (case str_chars s of [] \<Rightarrow> True | cs \<Rightarrow> \<not> is_whitespace (hd cs) \<and> \<not> is_whitespace (last cs))"

definition is_control :: "nat \<Rightarrow> bool" where
  "is_control c \<longleftrightarrow> c \<le> 0x1F \<or> (0x7F \<le> c \<and> c \<le> 0x9F)"

definition str_has_control :: "string \<Rightarrow> bool" where
  "str_has_control s \<longleftrightarrow> list_ex is_control (str_chars s)"

definition is_ascii_uppercase :: "u8 \<Rightarrow> bool" where
  "is_ascii_uppercase b \<longleftrightarrow> 0x41 \<le> b \<and> b \<le> 0x5A"

definition is_ascii_lowercase :: "u8 \<Rightarrow> bool" where
  "is_ascii_lowercase b \<longleftrightarrow> 0x61 \<le> b \<and> b \<le> 0x7A"

definition is_ascii_digit :: "u8 \<Rightarrow> bool" where
  "is_ascii_digit b \<longleftrightarrow> 0x30 \<le> b \<and> b \<le> 0x39"

definition is_ascii_alphanumeric :: "u8 \<Rightarrow> bool" where
  "is_ascii_alphanumeric b \<longleftrightarrow> is_ascii_digit b \<or> is_ascii_uppercase b \<or> is_ascii_lowercase b"

section \<open>Orderings and searches\<close>

datatype ordering = Less | Equal | Greater

definition cmp :: "'a :: linorder \<Rightarrow> 'a \<Rightarrow> ordering" where
  "cmp a b = (if a < b then Less else if a = b then Equal else Greater)"

text \<open>\<open>Iterator::position\<close> and \<open>Iterator::min_by\<close>; the latter keeps the first of equal elements.\<close>

fun position :: "('a \<Rightarrow> bool) \<Rightarrow> 'a list \<Rightarrow> nat option" where
  "position P [] = None"
| "position P (x # xs) = (if P x then Some 0 else map_option Suc (position P xs))"

definition min_by :: "('a \<Rightarrow> 'a \<Rightarrow> ordering) \<Rightarrow> 'a list \<Rightarrow> 'a option" where
  "min_by c xs = (case xs of [] \<Rightarrow> None | x # xs \<Rightarrow> Some (foldl (\<lambda>a b. if c a b = Greater then b else a) x xs))"

lemma position_Some: "position P xs = Some i \<Longrightarrow> i < length xs \<and> P (xs ! i) \<and> (\<forall>j < i. \<not> P (xs ! j))"
proof (induction xs arbitrary: i)
  case (Cons x xs)
  then show ?case by (auto simp: nth_Cons split: if_splits nat.splits)
qed simp

lemma position_None: "position P xs = None \<longleftrightarrow> (\<forall>x \<in> set xs. \<not> P x)"
  by (induction xs) auto

lemma position_distinct:
  assumes "i < length xs" "P (xs ! i)" "\<And>j. j < length xs \<Longrightarrow> P (xs ! j) \<Longrightarrow> j = i"
  shows "position P xs = Some i"
proof (cases "position P xs")
  case None
  with assms(1,2) show ?thesis by (auto simp: position_None dest: nth_mem)
next
  case (Some j)
  with position_Some [OF Some] assms(3) show ?thesis by auto
qed

lemma min_by_key:
  fixes key :: "'a \<Rightarrow> 'k :: linorder"
  assumes "\<And>a b. c a b = cmp (key a) (key b)" "min_by c xs = Some m"
  shows "m \<in> set xs \<and> (\<forall>x \<in> set xs. key m \<le> key x)"
proof -
  have "foldl (\<lambda>a b. if c a b = Greater then b else a) x ys \<in> set (x # ys)
      \<and> (\<forall>y \<in> set (x # ys). key (foldl (\<lambda>a b. if c a b = Greater then b else a) x ys) \<le> key y)" for x ys
  proof (induction ys arbitrary: x)
    case (Cons y ys)
    from Cons [of "if c x y = Greater then y else x"] show ?case
      by (auto simp: assms(1) cmp_def split: if_splits)
  qed simp
  with assms(2) show ?thesis by (cases xs) (auto simp: min_by_def)
qed

section \<open>Results\<close>

lemma bind_result_assoc: "bind_result (bind_result r f) g = bind_result r (\<lambda>x. bind_result (f x) g)"
  by (cases r) simp_all

lemma bind_result_if: "bind_result (if b then r else q) f = (if b then bind_result r f else bind_result q f)"
  by simp

section \<open>Sizes\<close>

text \<open>\<open>usize::checked_add\<close> and \<open>usize::checked_sub\<close> on a 64-bit target.\<close>

definition checked_add_usize :: "nat \<Rightarrow> nat \<Rightarrow> nat option" where
  "checked_add_usize a b = (if a + b < 2 ^ 64 then Some (a + b) else None)"

definition checked_sub_usize :: "nat \<Rightarrow> nat \<Rightarrow> nat option" where
  "checked_sub_usize a b = (if b \<le> a then Some (a - b) else None)"

lemma checked_add_usize_Some [simp]: "checked_add_usize a b = Some c \<longleftrightarrow> c = a + b \<and> a + b < 2 ^ 64"
  by (auto simp: checked_add_usize_def)

lemma checked_sub_usize_Some [simp]: "checked_sub_usize a b = Some c \<longleftrightarrow> c = a - b \<and> b \<le> a"
  by (auto simp: checked_sub_usize_def)

text \<open>\<open>u64::try_from(n)\<close> for a \<open>usize\<close>.\<close>

definition u64_try_from :: "nat \<Rightarrow> u64 option" where
  "u64_try_from n = (if n < 2 ^ 64 then Some (of_nat n) else None)"

lemma u64_try_from_small [simp]: "n < 2 ^ 64 \<Longrightarrow> u64_try_from n = Some (of_nat n)"
  by (simp add: u64_try_from_def)

section \<open>Little-endian and length-prefixed bytes\<close>

definition le_bytes :: "nat \<Rightarrow> nat \<Rightarrow> bytes" where
  "le_bytes k n = rev (be_bytes k n)"

lemma length_le_bytes [simp]: "length (le_bytes k n) = k"
  by (simp add: le_bytes_def)

lemma le_bytes_inject: "m < 256 ^ k \<Longrightarrow> n < 256 ^ k \<Longrightarrow> le_bytes k m = le_bytes k n \<longleftrightarrow> m = n"
  by (metis be_value_be_bytes le_bytes_def rev_rev_ident)

definition u64_le :: "u64 \<Rightarrow> bytes" where
  "u64_le w = le_bytes 8 (unat w)"

definition i64_le :: "int \<Rightarrow> bytes" where
  "i64_le x = u64_le (word_of_int x)"

lemma length_u64_le [simp]: "length (u64_le w) = 8" "length (i64_le x) = 8"
  by (simp_all add: u64_le_def i64_le_def)

lemma u64_le_inject [simp]: "u64_le v = u64_le w \<longleftrightarrow> v = w"
proof
  assume "u64_le v = u64_le w"
  moreover have "unat v < 256 ^ 8" "unat w < 256 ^ 8"
    using unsigned_less [of v, where ?'a = nat] unsigned_less [of w, where ?'a = nat] by simp_all
  ultimately show "v = w" unfolding u64_le_def using le_bytes_inject word_eqI_unat by blast
qed simp

lemma i64_le_inject: "in_i64 x \<Longrightarrow> in_i64 y \<Longrightarrow> i64_le x = i64_le y \<longleftrightarrow> x = y"
proof
  assume x: "in_i64 x" and y: "in_i64 y" and "i64_le x = i64_le y"
  then have "(word_of_int x :: u64) = word_of_int y" by (simp add: i64_le_def)
  then have "x mod 2 ^ 64 = y mod 2 ^ 64"
    by (simp add: word_of_int_eq_iff take_bit_eq_mod)
  then have "2 ^ 64 dvd x - y" by (simp only: mod_eq_dvd_iff)
  moreover have "\<bar>x - y\<bar> < 2 ^ 64" using x y by (simp add: i64_defs, linarith)
  ultimately show "x = y" using dvd_imp_le_int [of "x - y" "2 ^ 64"] by auto
qed simp

text \<open>A length prefix of eight bytes, then the bytes.\<close>

definition put_bytes :: "bytes \<Rightarrow> bytes \<Rightarrow> bytes" where
  "put_bytes buf bytes = buf @ u64_le (of_nat (length bytes)) @ bytes"

lemma fixed_prefix_eq: "length a = length b \<Longrightarrow> a @ r = b @ s \<longleftrightarrow> a = b \<and> r = s"
  by simp

lemma put_bytes_eq_iff:
  assumes "length b < 2 ^ 64" "length c < 2 ^ 64"
  shows "put_bytes [] b @ r = put_bytes [] c @ s \<longleftrightarrow> b = c \<and> r = s"
proof
  assume eq: "put_bytes [] b @ r = put_bytes [] c @ s"
  then have "u64_le (of_nat (length b)) = u64_le (of_nat (length c))" and rest: "b @ r = c @ s"
    unfolding put_bytes_def by simp_all
  then have "unat (of_nat (length b) :: u64) = unat (of_nat (length c) :: u64)" by simp
  with assms have "length b = length c" by (simp add: unat_of_nat take_bit_eq_mod)
  with rest show "b = c \<and> r = s" by simp
qed simp

lemma put_bytes_append: "put_bytes buf b = buf @ put_bytes [] b"
  by (simp add: put_bytes_def)

section \<open>External codecs\<close>

text \<open>
  The base64url and JSON libraries the sources call, as one parameter: \<open>Base64UrlUnpadded::decode_vec\<close>
  and \<open>encode_string\<close>, \<open>serde_json::from_slice\<close> and \<open>to_vec\<close>. \<open>None\<close> is their error.
\<close>

record text_codec =
  b64_decode :: "string \<Rightarrow> bytes option"
  b64_encode :: "bytes \<Rightarrow> string"
  json_from_slice :: "bytes \<Rightarrow> json option"
  json_to_vec :: "json \<Rightarrow> bytes option"

text \<open>\<open>Map::remove\<close>, \<open>Map::contains_key\<close> and \<open>Value::as_object\<close>; a \<open>Map\<close> is a \<open>BTreeMap\<close>.\<close>

definition map_remove :: "'k \<Rightarrow> ('k \<times> 'v) list \<Rightarrow> ('k \<times> 'v) list" where
  "map_remove k m = filter (\<lambda>(x, _). x \<noteq> k) m"

definition has_key :: "'k \<Rightarrow> ('k \<times> 'v) list \<Rightarrow> bool" where
  "has_key k m \<longleftrightarrow> k \<in> set (map fst m)"

definition json_as_object :: "json \<Rightarrow> (string \<times> json) list option" where
  "json_as_object v = (case v of JObject m \<Rightarrow> Some m | _ \<Rightarrow> None)"

lemma has_key_map_of: "has_key k m \<longleftrightarrow> map_of m k \<noteq> None"
  by (auto simp: has_key_def map_of_eq_None_iff)

lemma set_map_remove: "set (map_remove k m) = {e \<in> set m. fst e \<noteq> k}"
  by (auto simp: map_remove_def)

lemma map_of_map_remove [simp]: "map_of (map_remove k m) = (map_of m)(k := None)"
  by (induction m) (auto simp: map_remove_def)

lemma json_as_object_Some [simp]: "json_as_object v = Some m \<longleftrightarrow> v = JObject m"
  by (cases v) (auto simp: json_as_object_def)

lemma json_as_str_Some [simp]: "json_as_str v = Some s \<longleftrightarrow> v = JString s"
  by (cases v) (auto simp: json_as_str_def)

lemma json_as_array_Some [simp]: "json_as_array v = Some a \<longleftrightarrow> v = JArray a"
  by (cases v) (auto simp: json_as_array_def)

text \<open>\<open>json!\<close> on a signed integer keeps non-negative numbers unsigned.\<close>

definition json_of_i64 :: "int \<Rightarrow> json" where
  "json_of_i64 i = JNumber (if i \<ge> 0 then PosInt (word_of_int i) else NegInt i)"

lemma json_of_i64_read: "in_i64 i \<Longrightarrow> json_as_i64 (json_of_i64 i) = Some i"
  by (auto simp: json_of_i64_def json_defs i64_defs uint_word_of_int take_bit_int_eq_self)

end
