(* ===== verification/Crypto_Traits.thy ===== *)
theory Crypto_Traits
  imports Wallet_Prelude
begin

text \<open>
  The crypto boundary, \<open>crates/crypto-traits/src/lib.rs\<close>: key handles, algorithm identifiers and
  errors are data; the traits are implemented by the platform, so a \<open>Verifier\<close>, \<open>Signer\<close> or
  \<open>Digest\<close> is a function argument of the operations that use it, with the types named here.
\<close>

datatype key_ref = KeyRef string

datatype alg = Es256 | Es384 | EdDsa

datatype certificate_signature_alg =
  EcdsaSha256 | EcdsaSha384 | Ed25519 | RsaPkcs1Sha256 | RsaPkcs1Sha384 | RsaPkcs1Sha512

datatype certificate_public_key_alg = EcP256 | EcP384 | Ed25519Key | Rsa

datatype crypto_error = NotFound | Unsupported | Backend string

type_synonym signer = "key_ref \<Rightarrow> alg \<Rightarrow> bytes \<Rightarrow> crypto_error + bytes"

type_synonym verifier = "alg \<Rightarrow> bytes \<Rightarrow> bytes \<Rightarrow> bytes \<Rightarrow> crypto_error + unit"

type_synonym certificate_verifier =
  "certificate_signature_alg \<Rightarrow> bytes \<Rightarrow> bytes \<Rightarrow> bytes \<Rightarrow> crypto_error + unit"

type_synonym digest = "bytes \<Rightarrow> bytes"

definition verified :: "'e + unit \<Rightarrow> bool" where
  "verified r \<longleftrightarrow> r = Inr ()"

end
