(* ===== verification/Sdjwt.thy ===== *)
theory Sdjwt
  imports Wallet_Std Crypto_Traits
begin

text \<open>
  SD-JWT processing, \<open>crates/sdjwt/src/lib.rs\<close>: the combined serialisation, disclosures, the
  recursive replacement of digest placeholders in the signed payload, and the verification of a
  presentation with its key-binding JWT. Base64url, JSON, the digest and the verifier are arguments.
\<close>

section \<open>Limits, errors and data\<close>

definition MAX_COMPACT_BYTES :: nat where
  "MAX_COMPACT_BYTES = 1024 * 1024"

definition MAX_JWS_BYTES :: nat where
  "MAX_JWS_BYTES = 512 * 1024"

definition MAX_DISCLOSURE_BYTES :: nat where
  "MAX_DISCLOSURE_BYTES = 64 * 1024"

definition MAX_DISCLOSURES :: nat where
  "MAX_DISCLOSURES = 256"

definition MAX_NESTING_DEPTH :: nat where
  "MAX_NESTING_DEPTH = 32"

definition MAX_EMBEDDED_DIGESTS :: nat where
  "MAX_EMBEDDED_DIGESTS = 4096"

definition MAX_PROCESSED_JSON_BYTES :: nat where
  "MAX_PROCESSED_JSON_BYTES = 2 * 1024 * 1024"

definition SD_CLAIM :: string where
  "SD_CLAIM = ''_sd''"

definition SD_ALG_CLAIM :: string where
  "SD_ALG_CLAIM = ''_sd_alg''"

datatype sdjwt_error =
    SJ_Malformed
  | SJ_InvalidBase64
  | SJ_TooLarge
  | SJ_InvalidJson
  | SJ_AlgNone
  | SJ_UnsupportedAlg
  | SJ_InvalidType
  | SJ_UnknownCriticalParam
  | SJ_UnsupportedHashAlg
  | SJ_UnknownDisclosure
  | SJ_DuplicateClaim
  | SJ_KeyBindingMismatch
  | SJ_Crypto crypto_error

record key_binding_check =
  kb_device_public_key :: bytes
  kb_expected_aud :: string
  kb_expected_nonce :: string
  kb_device_alg :: alg

record disclosure =
  d_raw :: string
  d_salt :: string
  d_name :: "string option"
  d_value :: json

datatype claim_path_element = PName string | PIndex nat

record verified_disclosure =
  vd_raw :: string
  vd_digest :: string
  vd_path :: "claim_path_element list"
  vd_parent_digest :: "string option"
  vd_value :: json

record processed_sdjwt =
  ps_claims :: "(string \<times> json) list"
  ps_disclosures :: "verified_disclosure list"

record sdjwt_vc =
  issuer_jwt :: string
  vc_disclosures :: "string list"
  key_binding_jwt :: "string option"

section \<open>Parsing\<close>

definition disclosure_parse :: "text_codec \<Rightarrow> string \<Rightarrow> sdjwt_error + disclosure" where
  "disclosure_parse C raw =
     (if length raw > MAX_DISCLOSURE_BYTES then Inl SJ_TooLarge
      else
        bind_result (ok_or (b64_decode C raw) SJ_InvalidBase64) (\<lambda>bytes.
        bind_result (ok_or (json_from_slice C bytes) SJ_InvalidJson) (\<lambda>json.
        bind_result (ok_or (json_as_array json) SJ_InvalidJson) (\<lambda>arr.
        case arr of
          [a, b, c] \<Rightarrow>
            bind_result (ok_or (json_as_str a) SJ_InvalidJson) (\<lambda>salt.
            bind_result (ok_or (json_as_str b) SJ_InvalidJson) (\<lambda>name.
              Inr \<lparr>d_raw = raw, d_salt = salt, d_name = Some name, d_value = c\<rparr>))
        | [a, b] \<Rightarrow>
            bind_result (ok_or (json_as_str a) SJ_InvalidJson) (\<lambda>salt.
              Inr \<lparr>d_raw = raw, d_salt = salt, d_name = None, d_value = b\<rparr>)
        | _ \<Rightarrow> Inl SJ_InvalidJson))))"

definition digest_b64 :: "text_codec \<Rightarrow> digest \<Rightarrow> disclosure \<Rightarrow> string" where
  "digest_b64 C digest d = b64_encode C (digest (as_bytes (d_raw d)))"

definition count_char :: "char \<Rightarrow> string \<Rightarrow> nat" where
  "count_char c s = length (filter (\<lambda>x. x = c) s)"

definition sdjwt_parse :: "string \<Rightarrow> sdjwt_error + sdjwt_vc" where
  "sdjwt_parse compact =
     (if length compact > MAX_COMPACT_BYTES then Inl SJ_TooLarge
      else
        let parts = split_str (CHR ''~'') compact in
        if length parts < 2 then Inl SJ_Malformed
        else
          let jwt = hd parts; parts = tl parts in
          if length jwt > MAX_JWS_BYTES then Inl SJ_TooLarge
          else if jwt = [] \<or> count_char (CHR ''.'') jwt \<noteq> 2 then Inl SJ_Malformed
          else
            let kb = last parts; parts = butlast parts in
            bind_result
              (if kb = [] then Inr None
               else if length kb > MAX_JWS_BYTES then Inl SJ_TooLarge
               else if count_char (CHR ''.'') kb \<noteq> 2 then Inl SJ_Malformed
               else Inr (Some kb))
              (\<lambda>kb_jwt.
                if length parts > MAX_DISCLOSURES \<or> list_ex (\<lambda>p. length p > MAX_DISCLOSURE_BYTES) parts
                then Inl SJ_TooLarge
                else if list_ex (\<lambda>p. p = []) parts then Inl SJ_Malformed
                else Inr \<lparr>issuer_jwt = jwt, vc_disclosures = parts, key_binding_jwt = kb_jwt\<rparr>))"

definition split_jws :: "text_codec \<Rightarrow> string \<Rightarrow> sdjwt_error + json \<times> bytes \<times> string \<times> bytes" where
  "split_jws C jwt =
     (if length jwt > MAX_JWS_BYTES then Inl SJ_TooLarge
      else
        case split_str (CHR ''.'') jwt of
          [h, p, s] \<Rightarrow>
            bind_result (ok_or (b64_decode C h) SJ_InvalidBase64) (\<lambda>header_bytes.
            bind_result (ok_or (json_from_slice C header_bytes) SJ_InvalidJson) (\<lambda>header.
            bind_result (ok_or (b64_decode C p) SJ_InvalidBase64) (\<lambda>payload_bytes.
            bind_result (ok_or (b64_decode C s) SJ_InvalidBase64) (\<lambda>signature.
              Inr (header, payload_bytes, h @ ''.'' @ p, signature)))))
        | _ \<Rightarrow> Inl SJ_Malformed)"

fun check_crit_names :: "json list \<Rightarrow> sdjwt_error + unit" where
  "check_crit_names [] = Inr ()"
| "check_crit_names (c # cs) =
     bind_result (ok_or (json_as_str c) SJ_InvalidJson) (\<lambda>name.
       if name \<notin> {''alg'', ''typ'', ''kid''} then Inl SJ_UnknownCriticalParam
       else check_crit_names cs)"

definition parse_jose_alg :: "json \<Rightarrow> sdjwt_error + alg" where
  "parse_jose_alg header =
     bind_result (ok_or (json_as_object header) SJ_InvalidJson) (\<lambda>obj.
     bind_result
       (case map_of obj ''crit'' of
          None \<Rightarrow> Inr ()
        | Some crit \<Rightarrow>
            bind_result (ok_or (json_as_array crit) SJ_InvalidJson) check_crit_names)
       (\<lambda>_.
         let name = Option.bind (map_of obj ''alg'') json_as_str in
         if name = Some ''none'' then Inl SJ_AlgNone
         else if name = Some ''ES256'' then Inr Es256
         else if name = Some ''ES384'' then Inr Es384
         else if name = Some ''EdDSA'' then Inr EdDsa
         else Inl SJ_UnsupportedAlg))"

section \<open>Disclosure processing\<close>

record disclosure_processor =
  disclosure_by_digest :: "(string \<times> disclosure) list"
  used_disclosures :: "string list"
  encountered_digests :: "string list"
  dp_verified :: "verified_disclosure list"
  embedded_digest_count :: nat
  output_budget :: nat

definition encounter_digest :: "text_codec \<Rightarrow> string \<Rightarrow> disclosure_processor \<Rightarrow> sdjwt_error + disclosure_processor" where
  "encounter_digest C d st =
     bind_result (ok_or (b64_decode C d) SJ_InvalidBase64) (\<lambda>decoded.
       if length decoded \<noteq> 32 then Inl SJ_InvalidJson
       else
         bind_result (ok_or (checked_add_usize (embedded_digest_count st) 1) SJ_TooLarge) (\<lambda>n.
           if n > MAX_EMBEDDED_DIGESTS then Inl SJ_TooLarge
           else if d \<in> set (encountered_digests st) then Inl SJ_DuplicateClaim
           else Inr (st\<lparr>embedded_digest_count := n, encountered_digests := encountered_digests st @ [d]\<rparr>)))"

definition consume_budget :: "text_codec \<Rightarrow> json \<Rightarrow> disclosure_processor \<Rightarrow> sdjwt_error + disclosure_processor" where
  "consume_budget C v st =
     bind_result (ok_or (json_to_vec C v) SJ_InvalidJson) (\<lambda>bytes.
     bind_result (ok_or (checked_add_usize (output_budget st) (length bytes)) SJ_TooLarge) (\<lambda>n.
       if n > MAX_PROCESSED_JSON_BYTES then Inl SJ_TooLarge else Inr (st\<lparr>output_budget := n\<rparr>)))"

definition record_disclosure ::
    "string \<Rightarrow> disclosure \<Rightarrow> claim_path_element list \<Rightarrow> string option \<Rightarrow> disclosure_processor
      \<Rightarrow> sdjwt_error + disclosure_processor" where
  "record_disclosure d disclosure path parent st =
     (if d \<in> set (used_disclosures st) then Inl SJ_DuplicateClaim
      else
        Inr (st\<lparr>used_disclosures := used_disclosures st @ [d],
                dp_verified := dp_verified st @
                  [\<lparr>vd_raw = d_raw disclosure, vd_digest = d, vd_path = path, vd_parent_digest = parent,
                     vd_value = d_value disclosure\<rparr>]\<rparr>))"

text \<open>The checks at the start of an object: reserved names, then the \<open>_sd\<close> array is taken out.\<close>

definition open_object :: "bool \<Rightarrow> (string \<times> json) list \<Rightarrow> sdjwt_error + (string \<times> json) list \<times> json list" where
  "open_object is_root object =
     bind_result
       (if is_root then Inr (map_remove SD_ALG_CLAIM object)
        else if has_key SD_ALG_CLAIM object then Inl SJ_InvalidJson
        else Inr object)
       (\<lambda>object.
         if has_key ''...'' object then Inl SJ_InvalidJson
         else
           case map_of object SD_CLAIM of
             None \<Rightarrow> Inr (object, [])
           | Some (JArray values) \<Rightarrow> Inr (map_remove SD_CLAIM object, values)
           | Some _ \<Rightarrow> Inl SJ_InvalidJson)"

definition member_name :: "disclosure \<Rightarrow> (string \<times> json) list \<Rightarrow> sdjwt_error + string" where
  "member_name d object =
     bind_result (ok_or (d_name d) SJ_InvalidJson) (\<lambda>name.
       if name \<in> {SD_CLAIM, SD_ALG_CLAIM, ''...''} then Inl SJ_InvalidJson
       else if has_key name object then Inl SJ_DuplicateClaim
       else Inr name)"

definition array_placeholder :: "json \<Rightarrow> sdjwt_error + string option" where
  "array_placeholder element =
     (case element of
        JObject object \<Rightarrow>
          if has_key ''...'' object then
            (if length object \<noteq> 1 then Inl SJ_InvalidJson
             else bind_result (ok_or (Option.bind (map_of object ''...'') json_as_str) SJ_InvalidJson)
               (\<lambda>d. Inr (Some d)))
          else Inr None
      | _ \<Rightarrow> Inr None)"

text \<open>
  \<open>process_value\<close> and its three loops: over the permanent members, over the digests of \<open>_sd\<close> and
  over the elements of an array. The loops carry the depth of the values they process.
\<close>

function (sequential) process_value ::
    "text_codec \<Rightarrow> json \<Rightarrow> claim_path_element list \<Rightarrow> string option \<Rightarrow> nat \<Rightarrow> bool \<Rightarrow> disclosure_processor
      \<Rightarrow> sdjwt_error + json \<times> disclosure_processor"
  and process_members ::
    "text_codec \<Rightarrow> (string \<times> json) list \<Rightarrow> claim_path_element list \<Rightarrow> string option \<Rightarrow> nat
      \<Rightarrow> disclosure_processor \<Rightarrow> sdjwt_error + (string \<times> json) list \<times> disclosure_processor"
  and process_digests ::
    "text_codec \<Rightarrow> json list \<Rightarrow> (string \<times> json) list \<Rightarrow> claim_path_element list \<Rightarrow> string option \<Rightarrow> nat
      \<Rightarrow> disclosure_processor \<Rightarrow> sdjwt_error + (string \<times> json) list \<times> disclosure_processor"
  and process_elements ::
    "text_codec \<Rightarrow> json list \<Rightarrow> json list \<Rightarrow> claim_path_element list \<Rightarrow> string option \<Rightarrow> nat
      \<Rightarrow> disclosure_processor \<Rightarrow> sdjwt_error + json list \<times> disclosure_processor" where
  "process_value C v path parent depth is_root st =
     (if depth > MAX_NESTING_DEPTH then Inl SJ_TooLarge
      else
        case v of
          JObject object \<Rightarrow>
            bind_result (open_object is_root object) (\<lambda>(object, digest_values).
            bind_result (process_members C object path parent (depth + 1) st) (\<lambda>(object, st).
            bind_result (process_digests C digest_values object path parent (depth + 1) st) (\<lambda>(object, st).
              Inr (JObject object, st))))
        | JArray array \<Rightarrow>
            bind_result (process_elements C array [] path parent (depth + 1) st) (\<lambda>(processed, st).
              Inr (JArray processed, st))
        | _ \<Rightarrow> Inr (v, st))"
| "process_members C [] path parent cdepth st = Inr ([], st)"
| "process_members C ((name, child) # members) path parent cdepth st =
     bind_result (process_value C child (path @ [PName name]) parent cdepth False st) (\<lambda>(child, st).
     bind_result (process_members C members path parent cdepth st) (\<lambda>(members, st).
       Inr ((name, child) # members, st)))"
| "process_digests C [] object path parent cdepth st = Inr (object, st)"
| "process_digests C (digest_value # digest_values) object path parent cdepth st =
     bind_result (ok_or (json_as_str digest_value) SJ_InvalidJson) (\<lambda>d.
     bind_result (encounter_digest C d st) (\<lambda>st.
     case map_of (disclosure_by_digest st) d of
       None \<Rightarrow> process_digests C digest_values object path parent cdepth st
     | Some disclosure \<Rightarrow>
         bind_result (member_name disclosure object) (\<lambda>name.
         bind_result (consume_budget C (d_value disclosure) st) (\<lambda>st.
         bind_result (record_disclosure d disclosure (path @ [PName name]) parent st) (\<lambda>st.
         bind_result (process_value C (d_value disclosure) (path @ [PName name]) (Some d) cdepth False st) (\<lambda>(v, st).
           process_digests C digest_values (btree_insert name v object) path parent cdepth st))))))"
| "process_elements C [] processed path parent cdepth st = Inr (processed, st)"
| "process_elements C (element # elements) processed path parent cdepth st =
     bind_result (array_placeholder element) (\<lambda>placeholder.
     case placeholder of
       Some d \<Rightarrow>
         bind_result (encounter_digest C d st) (\<lambda>st.
         case map_of (disclosure_by_digest st) d of
           None \<Rightarrow> process_elements C elements processed path parent cdepth st
         | Some disclosure \<Rightarrow>
             bind_result (ensure (d_name disclosure = None) SJ_InvalidJson) (\<lambda>_.
             bind_result (consume_budget C (d_value disclosure) st) (\<lambda>st.
             bind_result (record_disclosure d disclosure (path @ [PIndex (length processed)]) parent st) (\<lambda>st.
             bind_result (process_value C (d_value disclosure) (path @ [PIndex (length processed)]) (Some d) cdepth
               False st) (\<lambda>(v, st).
               process_elements C elements (processed @ [v]) path parent cdepth st)))))
     | None \<Rightarrow>
         bind_result (process_value C element (path @ [PIndex (length processed)]) parent cdepth False st) (\<lambda>(v, st).
           process_elements C elements (processed @ [v]) path parent cdepth st))"
  by pat_completeness auto
termination
  by (relation "measures
       [case_sum (\<lambda>x. case x of Inl (_, _, _, _, d, _) \<Rightarrow> 34 - d | Inr (_, _, _, _, d, _) \<Rightarrow> 34 - d)
          (\<lambda>x. case x of Inl (_, _, _, _, _, d, _) \<Rightarrow> 34 - d | Inr (_, _, _, _, _, d, _) \<Rightarrow> 34 - d),
        case_sum (\<lambda>x. case x of Inl _ \<Rightarrow> 0 | Inr (_, ms, _) \<Rightarrow> 1 + length ms)
          (\<lambda>x. case x of Inl (_, ds, _) \<Rightarrow> 1 + length ds | Inr (_, es, _) \<Rightarrow> 1 + length es)]")
    (auto simp: MAX_NESTING_DEPTH_def)

declare process_value.simps [simp del] process_members.simps [simp del] process_digests.simps [simp del]
  process_elements.simps [simp del]

fun index_disclosures ::
    "text_codec \<Rightarrow> digest \<Rightarrow> string list \<Rightarrow> (string \<times> disclosure) list \<Rightarrow> sdjwt_error + (string \<times> disclosure) list" where
  "index_disclosures C digest [] m = Inr m"
| "index_disclosures C digest (raw # raws) m =
     bind_result (disclosure_parse C raw) (\<lambda>disclosure.
       let d = digest_b64 C digest disclosure in
       if has_key d m then Inl SJ_DuplicateClaim
       else index_disclosures C digest raws (btree_insert d disclosure m))"

definition check_hash_alg :: "(string \<times> json) list \<Rightarrow> sdjwt_error + unit" where
  "check_hash_alg obj =
     (case map_of obj SD_ALG_CLAIM of
        None \<Rightarrow> Inr ()
      | Some (JString v) \<Rightarrow> if v = ''sha-256'' then Inr () else Inl SJ_UnsupportedHashAlg
      | Some _ \<Rightarrow> Inl SJ_InvalidJson)"

definition verify_and_process ::
    "text_codec \<Rightarrow> sdjwt_vc \<Rightarrow> verifier \<Rightarrow> digest \<Rightarrow> bytes \<Rightarrow> alg \<Rightarrow> sdjwt_error + processed_sdjwt" where
  "verify_and_process C vc verifier digest issuer_public_key expected_alg =
     bind_result (split_jws C (issuer_jwt vc)) (\<lambda>(header, payload_bytes, signing_input, signature).
     bind_result (parse_jose_alg header) (\<lambda>hdr_alg.
     if hdr_alg \<noteq> expected_alg then Inl SJ_UnsupportedAlg
     else if json_get_str ''typ'' header \<noteq> Some ''dc+sd-jwt'' then Inl SJ_InvalidType
     else
       bind_result (map_err SJ_Crypto (verifier expected_alg issuer_public_key (as_bytes signing_input) signature)) (\<lambda>_.
       bind_result (ok_or (json_from_slice C payload_bytes) SJ_InvalidJson) (\<lambda>payload.
       bind_result (ok_or (json_as_object payload) SJ_InvalidJson) (\<lambda>obj.
       bind_result (check_hash_alg obj) (\<lambda>_.
       bind_result (index_disclosures C digest (vc_disclosures vc) []) (\<lambda>by_digest.
       bind_result (ok_or (json_to_vec C payload) SJ_InvalidJson) (\<lambda>initial_bytes.
       bind_result
         (process_value C payload [] None 0 True
            \<lparr>disclosure_by_digest = by_digest, used_disclosures = [], encountered_digests = [], dp_verified = [],
              embedded_digest_count = 0, output_budget = length initial_bytes\<rparr>)
         (\<lambda>(payload, processor).
         if length (used_disclosures processor) \<noteq> length (disclosure_by_digest processor)
         then Inl SJ_UnknownDisclosure
         else
           bind_result (ok_or (json_to_vec C payload) SJ_InvalidJson) (\<lambda>bytes.
           if length bytes > MAX_PROCESSED_JSON_BYTES then Inl SJ_TooLarge
           else
             bind_result (ok_or (json_as_object payload) SJ_InvalidJson) (\<lambda>claims.
               Inr \<lparr>ps_claims = claims, ps_disclosures = dp_verified processor\<rparr>)))))))))))"

definition verify_and_disclose ::
    "text_codec \<Rightarrow> sdjwt_vc \<Rightarrow> verifier \<Rightarrow> digest \<Rightarrow> bytes \<Rightarrow> alg \<Rightarrow> sdjwt_error + (string \<times> json) list" where
  "verify_and_disclose C vc verifier digest issuer_public_key expected_alg =
     bind_result (verify_and_process C vc verifier digest issuer_public_key expected_alg) (\<lambda>p. Inr (ps_claims p))"

definition issuer_algorithm :: "text_codec \<Rightarrow> sdjwt_vc \<Rightarrow> sdjwt_error + alg" where
  "issuer_algorithm C vc =
     bind_result (split_jws C (issuer_jwt vc)) (\<lambda>(header, _, _, _).
       if json_get_str ''typ'' header \<noteq> Some ''dc+sd-jwt'' then Inl SJ_InvalidType
       else parse_jose_alg header)"

definition issuer_payload :: "text_codec \<Rightarrow> sdjwt_vc \<Rightarrow> sdjwt_error + (string \<times> json) list" where
  "issuer_payload C vc =
     bind_result (split_jws C (issuer_jwt vc)) (\<lambda>(_, payload, _, _).
     bind_result (ok_or (json_from_slice C payload) SJ_InvalidJson) (\<lambda>v.
       ok_or (json_as_object v) SJ_InvalidJson))"

text \<open>The text that \<open>sd_hash\<close> covers: the issuer JWT and the disclosures, each followed by a tilde.\<close>

definition presentation_text :: "sdjwt_vc \<Rightarrow> string" where
  "presentation_text vc =
     foldl (\<lambda>acc d. acc @ ''~'' @ d) (issuer_jwt vc) (vc_disclosures vc) @ ''~''"

definition verify_presentation ::
    "text_codec \<Rightarrow> sdjwt_vc \<Rightarrow> verifier \<Rightarrow> digest \<Rightarrow> bytes \<Rightarrow> alg \<Rightarrow> key_binding_check
      \<Rightarrow> sdjwt_error + (string \<times> json) list" where
  "verify_presentation C vc verifier digest issuer_public_key issuer_alg kb =
     bind_result (verify_and_disclose C vc verifier digest issuer_public_key issuer_alg) (\<lambda>claims.
     bind_result (ok_or (key_binding_jwt vc) SJ_KeyBindingMismatch) (\<lambda>kb_jwt.
     bind_result (split_jws C kb_jwt) (\<lambda>(header, payload_bytes, signing_input, signature).
     bind_result (parse_jose_alg header) (\<lambda>kb_alg.
     if kb_alg \<noteq> kb_device_alg kb \<or> json_get_str ''typ'' header \<noteq> Some ''kb+jwt'' then Inl SJ_KeyBindingMismatch
     else
       bind_result
         (map_err SJ_Crypto (verifier (kb_device_alg kb) (kb_device_public_key kb) (as_bytes signing_input) signature)) (\<lambda>_.
       bind_result (ok_or (json_from_slice C payload_bytes) SJ_InvalidJson) (\<lambda>payload.
       bind_result (ok_or (json_as_object payload) SJ_InvalidJson) (\<lambda>obj.
       if Option.bind (map_of obj ''iat'') json_as_i64 = None then Inl SJ_KeyBindingMismatch
       else if Option.bind (map_of obj ''aud'') json_as_str \<noteq> Some (kb_expected_aud kb) then Inl SJ_KeyBindingMismatch
       else if Option.bind (map_of obj ''nonce'') json_as_str \<noteq> Some (kb_expected_nonce kb) then Inl SJ_KeyBindingMismatch
       else if Option.bind (map_of obj ''sd_hash'') json_as_str
           \<noteq> Some (b64_encode C (digest (as_bytes (presentation_text vc)))) then Inl SJ_KeyBindingMismatch
       else Inr claims)))))))"

section \<open>Serialisation\<close>

text \<open>The combined serialisation, as the presenters write it.\<close>

definition serialise :: "sdjwt_vc \<Rightarrow> string" where
  "serialise vc = presentation_text vc @ (case key_binding_jwt vc of None \<Rightarrow> [] | Some kb \<Rightarrow> kb)"

lemma foldl_tilde: "foldl (\<lambda>acc d. acc @ ''~'' @ d) a ds = a @ concat (map (\<lambda>d. CHR ''~'' # d) ds)"
  by (induction ds arbitrary: a) simp_all

lemma join_tilde: "join_str (CHR ''~'') (a # ds) = a @ concat (map (\<lambda>d. CHR ''~'' # d) ds)"
  by (induction ds arbitrary: a) simp_all

lemma serialise_join:
  "serialise vc = join_str (CHR ''~'')
     (issuer_jwt vc # vc_disclosures vc @ [case key_binding_jwt vc of None \<Rightarrow> [] | Some kb \<Rightarrow> kb])"
  unfolding join_tilde serialise_def presentation_text_def foldl_tilde by simp

lemma sdjwt_parse_Inr:
  assumes "sdjwt_parse c = Inr vc"
  shows "serialise vc = c \<and> (\<forall>d \<in> set (vc_disclosures vc). CHR ''~'' \<notin> set d \<and> d \<noteq> [])
    \<and> CHR ''~'' \<notin> set (issuer_jwt vc)"
proof -
  obtain j rest where split: "split_str (CHR ''~'') c = j # rest" by (cases "split_str (CHR ''~'') c") simp_all
  from assms have "rest \<noteq> []" by (auto simp: sdjwt_parse_def split Let_def split: if_splits)
  then have rest: "rest = butlast rest @ [last rest]" by simp
  from assms split \<open>rest \<noteq> []\<close>
  have vc: "issuer_jwt vc = j" "vc_disclosures vc = butlast rest" "\<not> list_ex (\<lambda>p. p = []) (butlast rest)"
      "(case key_binding_jwt vc of None \<Rightarrow> [] | Some kb \<Rightarrow> kb) = last rest"
    by (auto simp: sdjwt_parse_def Let_def bind_result_Inr_iff split: if_splits)
  have "serialise vc = join_str (CHR ''~'') (split_str (CHR ''~'') c)"
    unfolding serialise_join vc split rest [symmetric] ..
  moreover have "CHR ''~'' \<notin> set p" if "p \<in> set (j # rest)" for p
    using split_str_parts [of p "CHR ''~''" c] that by (simp add: split)
  ultimately show ?thesis
    using vc by (auto simp: join_split_str list_ex_iff dest: in_set_butlastD)
qed

section \<open>Where a disclosure comes from\<close>

text \<open>A digest is mentioned by a value when it is in an \<open>_sd\<close> array or an array placeholder somewhere inside.\<close>

fun mentions :: "json \<Rightarrow> string \<Rightarrow> bool" where
  "mentions (JObject m) d \<longleftrightarrow>
     (case map_of m SD_CLAIM of Some (JArray vs) \<Rightarrow> JString d \<in> set vs | _ \<Rightarrow> False) \<or> list_ex (\<lambda>(_, v). mentions v d) m"
| "mentions (JArray xs) d \<longleftrightarrow> list_ex (\<lambda>x. x = JObject [(''...'', JString d)] \<or> mentions x d) xs"
| "mentions _ d \<longleftrightarrow> False"

definition grows :: "disclosure_processor \<Rightarrow> disclosure_processor \<Rightarrow> verified_disclosure list \<Rightarrow> bool" where
  "grows st st' vs \<longleftrightarrow>
     disclosure_by_digest st' = disclosure_by_digest st \<and> dp_verified st' = dp_verified st @ vs
     \<and> used_disclosures st' = used_disclosures st @ map vd_digest vs
     \<and> (\<forall>v \<in> set vs. \<exists>dsc. map_of (disclosure_by_digest st) (vd_digest v) = Some dsc
           \<and> vd_raw v = d_raw dsc \<and> vd_value v = d_value dsc)
     \<and> (distinct (used_disclosures st) \<longrightarrow> distinct (used_disclosures st'))"

definition sourced :: "(string \<Rightarrow> bool) \<Rightarrow> string option \<Rightarrow> verified_disclosure list \<Rightarrow> bool" where
  "sourced here parent vs \<longleftrightarrow>
     (\<forall>v \<in> set vs. (vd_parent_digest v = parent \<and> here (vd_digest v))
        \<or> (\<exists>u \<in> set vs. vd_parent_digest v = Some (vd_digest u) \<and> mentions (vd_value u) (vd_digest v)))"

definition traces :: "(string \<Rightarrow> bool) \<Rightarrow> string option \<Rightarrow> disclosure_processor \<Rightarrow> disclosure_processor \<Rightarrow> bool" where
  "traces here parent st st' \<longleftrightarrow> (\<exists>vs. grows st st' vs \<and> sourced here parent vs)"

lemma traces_refl [intro, simp]: "traces here parent st st"
  unfolding traces_def by (intro exI [of _ "[]"]) (simp add: grows_def sourced_def)

lemma traces_trans: "traces here parent st st1 \<Longrightarrow> traces here parent st1 st2 \<Longrightarrow> traces here parent st st2"
  unfolding traces_def grows_def sourced_def
  by (elim exE conjE, rule_tac x = "vs @ vsa" in exI) auto

lemma traces_mono: "traces here parent st st' \<Longrightarrow> (\<And>d. here d \<Longrightarrow> here' d) \<Longrightarrow> traces here' parent st st'"
  unfolding traces_def sourced_def by blast

lemma traces_encounter: "encounter_digest C d st = Inr st' \<Longrightarrow> traces here parent st st'"
  unfolding traces_def grows_def sourced_def
  by (intro exI [of _ "[]"]) (auto simp: encounter_digest_def bind_result_Inr_iff split: if_splits)

lemma traces_budget: "consume_budget C v st = Inr st' \<Longrightarrow> traces here parent st st'"
  unfolding traces_def grows_def sourced_def
  by (intro exI [of _ "[]"]) (auto simp: consume_budget_def bind_result_Inr_iff split: if_splits)

lemma traces_map: "traces here parent st st' \<Longrightarrow> disclosure_by_digest st' = disclosure_by_digest st"
  by (auto simp: traces_def grows_def)

lemma traces_admit:
  assumes "record_disclosure d dsc path parent st = Inr st1" "traces (mentions (d_value dsc)) (Some d) st1 st2"
    and "map_of (disclosure_by_digest st) d = Some dsc" "here d"
  shows "traces here parent st st2"
proof -
  let ?u = "\<lparr>vd_raw = d_raw dsc, vd_digest = d, vd_path = path, vd_parent_digest = parent, vd_value = d_value dsc\<rparr>"
  from assms(2) obtain vs where vs: "grows st1 st2 vs" "sourced (mentions (d_value dsc)) (Some d) vs"
    by (auto simp: traces_def)
  have "grows st st2 (?u # vs)"
    using assms(1,3) vs(1) by (auto simp: grows_def record_disclosure_def split: if_splits)
  moreover have "sourced here parent (?u # vs)"
    using assms(4) vs(2) by (auto simp: sourced_def)
  ultimately show ?thesis unfolding traces_def by blast
qed

lemma array_placeholder_Inr:
  "array_placeholder e = Inr (Some d) \<Longrightarrow> e = JObject [(''...'', JString d)]"
  by (cases e) (auto simp: array_placeholder_def bind_result_Inr_iff has_key_def length_Suc_conv bind_eq_Some_conv
      split: if_splits)

lemma open_object_mentions:
  assumes "open_object r m = Inr (m', vs)"
  shows "JString d \<in> set vs \<Longrightarrow> mentions (JObject m) d" "(k, v) \<in> set m' \<Longrightarrow> mentions v d \<Longrightarrow> mentions (JObject m) d"
proof -
  have sub: "set m' \<subseteq> set m" and vs: "vs \<noteq> [] \<Longrightarrow> map_of m SD_CLAIM = Some (JArray vs)"
    using assms
    by (auto simp: open_object_def bind_result_Inr_iff set_map_remove SD_CLAIM_def SD_ALG_CLAIM_def
        split: if_splits option.splits json.splits)
  show "JString d \<in> set vs \<Longrightarrow> mentions (JObject m) d" using vs by fastforce
  show "(k, v) \<in> set m' \<Longrightarrow> mentions v d \<Longrightarrow> mentions (JObject m) d" using sub by (auto simp: list_ex_iff)
qed

lemma process_traces:
  "process_value C v path parent depth r st = Inr (v', st') \<Longrightarrow> traces (mentions v) parent st st'"
  "process_members C ms path parent cd st = Inr (ms', st') \<Longrightarrow> traces (\<lambda>d. \<exists>(k, v) \<in> set ms. mentions v d) parent st st'"
  "process_digests C ds obj path parent cd st = Inr (obj', st') \<Longrightarrow> traces (\<lambda>d. JString d \<in> set ds) parent st st'"
  "process_elements C es acc path parent cd st = Inr (acc', st') \<Longrightarrow>
     traces (\<lambda>d. \<exists>x \<in> set es. x = JObject [(''...'', JString d)] \<or> mentions x d) parent st st'"
proof (induction C v path parent depth r st and C ms path parent cd st and C ds obj path parent cd st
    and C es acc path parent cd st arbitrary: v' st' and ms' st' and obj' st' and acc' st'
    rule: process_value_process_members_process_digests_process_elements.induct)
  case (1 C v path parent depth r st)
  show ?case
  proof (cases v)
    case (JObject m)
    with "1.prems" obtain m1 ds m2 st1 m3 where *: "\<not> MAX_NESTING_DEPTH < depth" "open_object r m = Inr (m1, ds)"
        "process_members C m1 path parent (depth + 1) st = Inr (m2, st1)"
        "process_digests C ds m2 path parent (depth + 1) st1 = Inr (m3, st')"
      by (auto simp: process_value.simps [of C] bind_result_Inr_iff split: if_splits)
    have "traces (\<lambda>d. \<exists>(k, v) \<in> set m1. mentions v d) parent st st1"
      by (rule "1.IH"(2) [OF *(1) JObject *(2) refl *(3)])
    then have "traces (mentions v) parent st st1"
      by (rule traces_mono) (use open_object_mentions(2) [OF *(2)] JObject in blast)
    moreover have "traces (\<lambda>d. JString d \<in> set ds) parent st1 st'"
      by (rule "1.IH"(3) [OF *(1) JObject *(2) refl *(3) refl *(4)])
    then have "traces (mentions v) parent st1 st'"
      by (rule traces_mono) (use open_object_mentions(1) [OF *(2)] JObject in blast)
    ultimately show ?thesis by (rule traces_trans)
  next
    case (JArray xs)
    with "1.prems" obtain acc where *: "\<not> MAX_NESTING_DEPTH < depth"
        "process_elements C xs [] path parent (depth + 1) st = Inr (acc, st')"
      by (auto simp: process_value.simps [of C] bind_result_Inr_iff split: if_splits)
    have "traces (\<lambda>d. \<exists>x \<in> set xs. x = JObject [(''...'', JString d)] \<or> mentions x d) parent st st'"
      by (rule "1.IH"(1) [OF *(1) JArray *(2)])
    then show ?thesis by (rule traces_mono) (auto simp: JArray list_ex_iff)
  qed (use "1.prems" in \<open>auto simp: process_value.simps [of C] split: if_splits\<close>)
next
  case (2 C path parent cd st)
  then show ?case by (simp add: process_members.simps)
next
  case (3 C name child ms path parent cd st)
  from "3.prems" obtain c1 st1 ms1 where *: "process_value C child (path @ [PName name]) parent cd False st = Inr (c1, st1)"
      "process_members C ms path parent cd st1 = Inr (ms1, st')"
    by (auto simp: process_members.simps bind_result_Inr_iff)
  show ?case
    by (rule traces_trans [OF traces_mono [OF "3.IH"(1) [OF *(1)]] traces_mono [OF "3.IH"(2) [OF *(1) refl *(2)]]]) auto
next
  case (4 C obj path parent cd st)
  then show ?case by (simp add: process_digests.simps)
next
  case (5 C dv ds obj path parent cd st)
  from "5.prems" obtain d st1 where d: "ok_or (json_as_str dv) SJ_InvalidJson = Inr d" "encounter_digest C d st = Inr st1"
    by (auto simp: process_digests.simps bind_result_Inr_iff)
  note same = traces_map [OF traces_encounter [OF d(2)]]
  show ?case
  proof (cases "map_of (disclosure_by_digest st1) d")
    case None
    with "5.prems" d have "process_digests C ds obj path parent cd st1 = Inr (obj', st')"
      by (auto simp: process_digests.simps)
    from traces_mono [OF "5.IH"(1) [OF d None this], of "\<lambda>x. JString x \<in> set (dv # ds)"] show ?thesis
      by (intro traces_trans [OF traces_encounter [OF d(2)]]) auto
  next
    case (Some dsc)
    with "5.prems" d obtain n st2 st3 v st4 where *: "member_name dsc obj = Inr n" "consume_budget C (d_value dsc) st1 = Inr st2"
        "record_disclosure d dsc (path @ [PName n]) parent st2 = Inr st3"
        "process_value C (d_value dsc) (path @ [PName n]) (Some d) cd False st3 = Inr (v, st4)"
        "process_digests C ds (btree_insert n v obj) path parent cd st4 = Inr (obj', st')"
      by (auto simp: process_digests.simps bind_result_Inr_iff)
    have "traces (mentions (d_value dsc)) (Some d) st3 st4"
      by (rule "5.IH"(2) [OF d Some *(1-4)])
    then have "traces (\<lambda>x. JString x \<in> set (dv # ds)) parent st2 st4"
      by (rule traces_admit [OF *(3)]) (use Some d(1) traces_map [OF traces_budget [OF *(2)]] in simp_all)
    moreover have "traces (\<lambda>x. JString x \<in> set ds) parent st4 st'"
      by (rule "5.IH"(3) [OF d Some *(1-4) refl *(5)])
    then have "traces (\<lambda>x. JString x \<in> set (dv # ds)) parent st4 st'" by (rule traces_mono) simp
    ultimately show ?thesis
      using traces_encounter [OF d(2)] traces_budget [OF *(2)] by (meson traces_trans)
  qed
next
  case (6 C acc path parent cd st)
  then show ?case by (simp add: process_elements.simps)
next
  case (7 C e es acc path parent cd st)
  let ?here = "\<lambda>es d. \<exists>x \<in> set es. x = JObject [(''...'', JString d)] \<or> mentions x d"
  from "7.prems" obtain ph where ph: "array_placeholder e = Inr ph"
    by (auto simp: process_elements.simps bind_result_Inr_iff)
  show ?case
  proof (cases ph)
    case None
    with "7.prems" ph obtain v st1 where *: "process_value C e (path @ [PIndex (length acc)]) parent cd False st = Inr (v, st1)"
        "process_elements C es (acc @ [v]) path parent cd st1 = Inr (acc', st')"
      by (auto simp: process_elements.simps bind_result_Inr_iff)
    show ?thesis
      by (rule traces_trans [OF traces_mono [OF "7.IH"(1) [OF ph None *(1)]]
            traces_mono [OF "7.IH"(2) [OF ph None *(1) refl *(2)]]]) auto
  next
    case (Some d)
    with ph have e: "e = JObject [(''...'', JString d)]" by (simp add: array_placeholder_Inr)
    from "7.prems" ph Some obtain st1 where d: "encounter_digest C d st = Inr st1"
      by (auto simp: process_elements.simps bind_result_Inr_iff)
    show ?thesis
    proof (cases "map_of (disclosure_by_digest st1) d")
      case None
      with "7.prems" ph Some d have "process_elements C es acc path parent cd st1 = Inr (acc', st')"
        by (auto simp: process_elements.simps)
      from traces_mono [OF "7.IH"(3) [OF ph Some d None this], of "?here (e # es)"] show ?thesis
        by (intro traces_trans [OF traces_encounter [OF d]]) auto
    next
      case dsc: (Some dsc)
      with "7.prems" ph Some d obtain st2 st3 v st4 where *: "ensure (d_name dsc = None) SJ_InvalidJson = Inr ()"
          "consume_budget C (d_value dsc) st1 = Inr st2"
          "record_disclosure d dsc (path @ [PIndex (length acc)]) parent st2 = Inr st3"
          "process_value C (d_value dsc) (path @ [PIndex (length acc)]) (Some d) cd False st3 = Inr (v, st4)"
          "process_elements C es (acc @ [v]) path parent cd st4 = Inr (acc', st')"
        by (auto simp: process_elements.simps bind_result_Inr_iff)
      have "traces (mentions (d_value dsc)) (Some d) st3 st4"
        by (rule "7.IH"(4) [OF ph Some d dsc *(1-4)])
      then have "traces (?here (e # es)) parent st2 st4"
        by (rule traces_admit [OF *(3)]) (use dsc e traces_map [OF traces_budget [OF *(2)]] in simp_all)
      moreover have "traces (?here es) parent st4 st'"
        by (rule "7.IH"(5) [OF ph Some d dsc *(1-4) refl *(5)])
      then have "traces (?here (e # es)) parent st4 st'" by (rule traces_mono) auto
      ultimately show ?thesis
        using traces_encounter [OF d] traces_budget [OF *(2)] by (meson traces_trans)
    qed
  qed
qed

section \<open>The processed payload has no placeholders left\<close>

abbreviation reserved_names :: "string set" where
  "reserved_names \<equiv> {SD_CLAIM, SD_ALG_CLAIM, ''...''}"

fun json_clean :: "json \<Rightarrow> bool" where
  "json_clean (JObject m) \<longleftrightarrow> list_all (\<lambda>(k, v). k \<notin> reserved_names \<and> json_clean v) m"
| "json_clean (JArray xs) \<longleftrightarrow> list_all json_clean xs"
| "json_clean _ \<longleftrightarrow> True"

lemma list_all_btree_insert: "list_all P m \<Longrightarrow> P (k, v) \<Longrightarrow> list_all P (btree_insert k v m)"
  by (induction k v m rule: btree_insert.induct) auto

lemma open_object_names: "open_object r m = Inr (m', vs) \<Longrightarrow> fst ` set m' \<inter> reserved_names = {}"
  by (auto simp: open_object_def bind_result_Inr_iff set_map_remove has_key_def map_of_eq_None_iff
      split: if_splits option.splits json.splits)

lemma process_clean:
  "process_value C v path parent depth r st = Inr (v', st') \<Longrightarrow> json_clean v'"
  "process_members C ms path parent cd st = Inr (ms', st') \<Longrightarrow>
     map fst ms' = map fst ms \<and> list_all (json_clean \<circ> snd) ms'"
  "process_digests C ds obj path parent cd st = Inr (obj', st') \<Longrightarrow> json_clean (JObject obj) \<Longrightarrow> json_clean (JObject obj')"
  "process_elements C es acc path parent cd st = Inr (acc', st') \<Longrightarrow> list_all json_clean acc \<Longrightarrow> list_all json_clean acc'"
proof (induction C v path parent depth r st and C ms path parent cd st and C ds obj path parent cd st
    and C es acc path parent cd st arbitrary: v' st' and ms' st' and obj' st' and acc' st'
    rule: process_value_process_members_process_digests_process_elements.induct)
  case (1 C v path parent depth r st)
  show ?case
  proof (cases v)
    case (JObject m)
    with "1.prems" obtain m1 ds m2 st1 m3 where *: "\<not> MAX_NESTING_DEPTH < depth" "open_object r m = Inr (m1, ds)"
        "process_members C m1 path parent (depth + 1) st = Inr (m2, st1)"
        "process_digests C ds m2 path parent (depth + 1) st1 = Inr (m3, st')" "v' = JObject m3"
      by (auto simp: process_value.simps [of C] bind_result_Inr_iff split: if_splits)
    have m2: "map fst m2 = map fst m1 \<and> list_all (json_clean \<circ> snd) m2"
      by (rule "1.IH"(2) [OF *(1) JObject *(2) refl *(3)])
    then have "fst ` set m2 = fst ` set m1" by (metis list.set_map)
    then have "fst e \<notin> reserved_names" if "e \<in> set m2" for e
      using open_object_names [OF *(2)] that by blast
    with m2 have "json_clean (JObject m2)" by (simp add: list_all_iff split_beta)
    then show ?thesis unfolding *(5) by (rule "1.IH"(3) [OF *(1) JObject *(2) refl *(3) refl *(4)])
  next
    case (JArray xs)
    with "1.prems" obtain acc where *: "\<not> MAX_NESTING_DEPTH < depth"
        "process_elements C xs [] path parent (depth + 1) st = Inr (acc, st')" "v' = JArray acc"
      by (auto simp: process_value.simps [of C] bind_result_Inr_iff split: if_splits)
    show ?thesis using "1.IH"(1) [OF *(1) JArray *(2)] by (simp add: *(3))
  qed (use "1.prems" in \<open>auto simp: process_value.simps [of C] split: if_splits\<close>)
next
  case (5 C dv ds obj path parent cd st)
  from "5.prems" obtain d st1 where d: "ok_or (json_as_str dv) SJ_InvalidJson = Inr d" "encounter_digest C d st = Inr st1"
    by (auto simp: process_digests.simps bind_result_Inr_iff)
  show ?case
  proof (cases "map_of (disclosure_by_digest st1) d")
    case None
    with "5.prems"(1) d have "process_digests C ds obj path parent cd st1 = Inr (obj', st')"
      by (auto simp: process_digests.simps)
    then show ?thesis using "5.IH"(1) [OF d None] "5.prems"(2) by blast
  next
    case (Some dsc)
    with "5.prems"(1) d obtain n st2 st3 v st4 where *: "member_name dsc obj = Inr n" "consume_budget C (d_value dsc) st1 = Inr st2"
        "record_disclosure d dsc (path @ [PName n]) parent st2 = Inr st3"
        "process_value C (d_value dsc) (path @ [PName n]) (Some d) cd False st3 = Inr (v, st4)"
        "process_digests C ds (btree_insert n v obj) path parent cd st4 = Inr (obj', st')"
      by (auto simp: process_digests.simps bind_result_Inr_iff)
    have "json_clean v" by (rule "5.IH"(2) [OF d Some *(1-4)])
    moreover have "n \<notin> reserved_names" using *(1) by (auto simp: member_name_def bind_result_Inr_iff split: if_splits)
    ultimately have "json_clean (JObject (btree_insert n v obj))"
      using "5.prems"(2) by (simp add: list_all_btree_insert)
    then show ?thesis by (rule "5.IH"(3) [OF d Some *(1-4) refl *(5)])
  qed
next
  case (7 C e es acc path parent cd st)
  from "7.prems"(1) obtain ph where ph: "array_placeholder e = Inr ph"
    by (auto simp: process_elements.simps bind_result_Inr_iff)
  show ?case
  proof (cases ph)
    case None
    with "7.prems"(1) ph obtain v st1 where *: "process_value C e (path @ [PIndex (length acc)]) parent cd False st = Inr (v, st1)"
        "process_elements C es (acc @ [v]) path parent cd st1 = Inr (acc', st')"
      by (auto simp: process_elements.simps bind_result_Inr_iff)
    show ?thesis using "7.IH"(1) [OF ph None *(1)] "7.IH"(2) [OF ph None *(1) refl *(2)] "7.prems"(2) by simp
  next
    case (Some d)
    from "7.prems"(1) ph Some obtain st1 where d: "encounter_digest C d st = Inr st1"
      by (auto simp: process_elements.simps bind_result_Inr_iff)
    show ?thesis
    proof (cases "map_of (disclosure_by_digest st1) d")
      case None
      with "7.prems"(1) ph Some d have "process_elements C es acc path parent cd st1 = Inr (acc', st')"
        by (auto simp: process_elements.simps)
      then show ?thesis using "7.IH"(3) [OF ph Some d None] "7.prems"(2) by blast
    next
      case dsc: (Some dsc)
      with "7.prems"(1) ph Some d obtain st2 st3 v st4 where *: "ensure (d_name dsc = None) SJ_InvalidJson = Inr ()"
          "consume_budget C (d_value dsc) st1 = Inr st2"
          "record_disclosure d dsc (path @ [PIndex (length acc)]) parent st2 = Inr st3"
          "process_value C (d_value dsc) (path @ [PIndex (length acc)]) (Some d) cd False st3 = Inr (v, st4)"
          "process_elements C es (acc @ [v]) path parent cd st4 = Inr (acc', st')"
        by (auto simp: process_elements.simps bind_result_Inr_iff)
      show ?thesis
        using "7.IH"(4) [OF ph Some d dsc *(1-4)] "7.IH"(5) [OF ph Some d dsc *(1-4) refl *(5)] "7.prems"(2) by simp
    qed
  qed
next
  case (3 C name child ms path parent cd st)
  from "3.prems" obtain c1 st1 ms1 where *: "process_value C child (path @ [PName name]) parent cd False st = Inr (c1, st1)"
      "process_members C ms path parent cd st1 = Inr (ms1, st')" "ms' = (name, c1) # ms1"
    by (auto simp: process_members.simps bind_result_Inr_iff)
  show ?case using "3.IH"(1) [OF *(1)] "3.IH"(2) [OF *(1) refl *(2)] by (simp add: *(3))
qed (simp_all add: process_members.simps process_digests.simps process_elements.simps)

section \<open>The index of the presented disclosures\<close>

lemma disclosure_parse_raw:
  assumes "disclosure_parse C raw = Inr d"
  shows "d_raw d = raw"
proof -
  from assms obtain arr where "(case arr of
      [a, b, c] \<Rightarrow> bind_result (ok_or (json_as_str a) SJ_InvalidJson) (\<lambda>salt.
        bind_result (ok_or (json_as_str b) SJ_InvalidJson) (\<lambda>name.
          Inr \<lparr>d_raw = raw, d_salt = salt, d_name = Some name, d_value = c\<rparr>))
    | [a, b] \<Rightarrow> bind_result (ok_or (json_as_str a) SJ_InvalidJson) (\<lambda>salt.
        Inr \<lparr>d_raw = raw, d_salt = salt, d_name = None, d_value = b\<rparr>)
    | _ \<Rightarrow> Inl SJ_InvalidJson) = Inr d"
    unfolding disclosure_parse_def bind_result_Inr_iff by (auto simp: bind_result_Inr_iff split: if_split_asm)
  then show ?thesis
    by (cases arr; cases "tl arr"; cases "tl (tl arr)"; cases "tl (tl (tl arr))") (auto simp: bind_result_Inr_iff)
qed

lemma set_btree_insert_new: "\<not> has_key k m \<Longrightarrow> set (btree_insert k v m) = insert (k, v) (set m)"
  by (induction k v m rule: btree_insert.induct) (auto simp: has_key_def)

definition index_ok :: "text_codec \<Rightarrow> digest \<Rightarrow> (string \<times> disclosure) list \<Rightarrow> bool" where
  "index_ok C digest m \<longleftrightarrow> btree_ok m
     \<and> (\<forall>(k, d) \<in> set m. k = digest_b64 C digest d \<and> disclosure_parse C (d_raw d) = Inr d)"

lemma index_disclosures_Inr:
  assumes "index_disclosures C digest raws m = Inr m'" "index_ok C digest m"
  shows "index_ok C digest m' \<and> (d_raw \<circ> snd) ` set m' = set raws \<union> (d_raw \<circ> snd) ` set m"
  using assms
proof (induction raws arbitrary: m)
  case (Cons raw raws)
  then obtain d where d: "disclosure_parse C raw = Inr d" "\<not> has_key (digest_b64 C digest d) m"
      "index_disclosures C digest raws (btree_insert (digest_b64 C digest d) d m) = Inr m'"
    by (auto simp: bind_result_Inr_iff Let_def split: if_splits)
  note new = set_btree_insert_new [OF d(2)] and raw = disclosure_parse_raw [OF d(1)]
  have "index_ok C digest (btree_insert (digest_b64 C digest d) d m)"
    using Cons.prems(2) d(1) raw by (auto simp: index_ok_def new btree_insert_ok)
  from Cons.IH [OF d(3) this] show ?case by (auto simp: new raw)
qed simp

section \<open>Properties\<close>

lemma verify_and_process_Inr:
  assumes "verify_and_process C vc verifier digest pk alg = Inr p"
  obtains header pb input sig payload obj m n st where
    "split_jws C (issuer_jwt vc) = Inr (header, pb, input, sig)" "verifier alg pk (as_bytes input) sig = Inr ()"
    "json_from_slice C pb = Some (JObject obj)" "index_disclosures C digest (vc_disclosures vc) [] = Inr m"
    "process_value C (JObject obj) [] None 0 True
      \<lparr>disclosure_by_digest = m, used_disclosures = [], encountered_digests = [], dp_verified = [],
        embedded_digest_count = 0, output_budget = n\<rparr> = Inr (JObject (ps_claims p), st)"
    "length (used_disclosures st) = length (disclosure_by_digest st)" "ps_disclosures p = dp_verified st"
  using assms
  by (auto simp: verify_and_process_def bind_result_Inr_iff split: if_split_asm)

text \<open>
  C20. What an accepted SD-JWT discloses is authentic: the issuer's signature verifies over the payload;
  the recorded disclosures are exactly the presented ones; each one is hashed and decoded from its own
  text, and its digest stands in the signed payload or in the value of the recorded disclosure it names
  as its parent.
\<close>

theorem sdjwt_disclosures_authentic:
  assumes "verify_and_process C vc verifier digest pk alg = Inr p"
  shows "\<exists>header pb input sig payload.
    split_jws C (issuer_jwt vc) = Inr (header, pb, input, sig) \<and> verifier alg pk (as_bytes input) sig = Inr ()
    \<and> json_from_slice C pb = Some payload \<and> vd_raw ` set (ps_disclosures p) = set (vc_disclosures vc)
    \<and> (\<forall>v \<in> set (ps_disclosures p). vd_digest v = b64_encode C (digest (as_bytes (vd_raw v)))
        \<and> (\<exists>d. disclosure_parse C (vd_raw v) = Inr d \<and> d_value d = vd_value v)
        \<and> (case vd_parent_digest v of
             None \<Rightarrow> mentions payload (vd_digest v)
           | Some q \<Rightarrow> \<exists>u \<in> set (ps_disclosures p). vd_digest u = q \<and> mentions (vd_value u) (vd_digest v)))"
proof -
  from assms obtain header pb input sig obj m n st where *:
    "split_jws C (issuer_jwt vc) = Inr (header, pb, input, sig)" "verifier alg pk (as_bytes input) sig = Inr ()"
    "json_from_slice C pb = Some (JObject obj)" "index_disclosures C digest (vc_disclosures vc) [] = Inr m"
    "process_value C (JObject obj) [] None 0 True
      \<lparr>disclosure_by_digest = m, used_disclosures = [], encountered_digests = [], dp_verified = [],
        embedded_digest_count = 0, output_budget = n\<rparr> = Inr (JObject (ps_claims p), st)"
    "length (used_disclosures st) = length (disclosure_by_digest st)" "ps_disclosures p = dp_verified st"
    by (rule verify_and_process_Inr)
  have m: "index_ok C digest m" "(d_raw \<circ> snd) ` set m = set (vc_disclosures vc)"
    using index_disclosures_Inr [OF *(4)] by (auto simp: index_ok_def)
  have keys: "distinct (map fst m)" using m(1) by (simp add: index_ok_def btree_ok_distinct)
  let ?vs = "dp_verified st"
  have vs: "disclosure_by_digest st = m" "used_disclosures st = map vd_digest ?vs" "distinct (map vd_digest ?vs)"
      "\<forall>v \<in> set ?vs. \<exists>dsc. map_of m (vd_digest v) = Some dsc \<and> vd_raw v = d_raw dsc \<and> vd_value v = d_value dsc"
      "sourced (mentions (JObject obj)) None ?vs"
    using process_traces(1) [OF *(5)] by (auto simp: traces_def grows_def)
  have "vd_digest ` set ?vs \<subseteq> fst ` set m" using vs(4) by (force dest: map_of_SomeD)
  moreover have "card (vd_digest ` set ?vs) = card (fst ` set m)"
    using *(6) vs(1-3) keys by (metis distinct_card length_map list.set_map)
  ultimately have all: "vd_digest ` set ?vs = fst ` set m" by (simp add: card_subset_eq)
  have entry: "(vd_digest v, d) \<in> set m \<Longrightarrow> vd_digest v = b64_encode C (digest (as_bytes (d_raw d)))
      \<and> disclosure_parse C (d_raw d) = Inr d" for v d
    using m(1) by (auto simp: index_ok_def digest_b64_def)
  have own: "vd_digest v = b64_encode C (digest (as_bytes (vd_raw v)))
      \<and> (\<exists>d. disclosure_parse C (vd_raw v) = Inr d \<and> d_value d = vd_value v)" if "v \<in> set ?vs" for v
    using vs(4) that entry by (fastforce dest: map_of_SomeD)
  have "vd_raw ` set ?vs = (d_raw \<circ> snd) ` set m"
  proof
    show "vd_raw ` set ?vs \<subseteq> (d_raw \<circ> snd) ` set m" using vs(4) by (force dest: map_of_SomeD)
    show "(d_raw \<circ> snd) ` set m \<subseteq> vd_raw ` set ?vs"
    proof
      fix raw assume "raw \<in> (d_raw \<circ> snd) ` set m"
      then obtain k d where kd: "(k, d) \<in> set m" "raw = d_raw d" by auto
      then obtain v where v: "v \<in> set ?vs" "vd_digest v = k" using all by (metis fst_conv imageE image_eqI)
      have "map_of m k = Some d" using kd(1) keys by simp
      with vs(4) v kd(2) show "raw \<in> vd_raw ` set ?vs" by force
    qed
  qed
  moreover have "case vd_parent_digest v of None \<Rightarrow> mentions (JObject obj) (vd_digest v)
      | Some q \<Rightarrow> \<exists>u \<in> set ?vs. vd_digest u = q \<and> mentions (vd_value u) (vd_digest v)" if "v \<in> set ?vs" for v
    using bspec [OF vs(5) [unfolded sourced_def] that]
    by (cases "vd_parent_digest v") (auto simp del: mentions.simps)
  ultimately show ?thesis
    unfolding *(7) using *(1-3) m(2) own
    by (rule_tac x = header in exI, rule_tac x = pb in exI, rule_tac x = input in exI, rule_tac x = sig in exI,
        rule_tac x = "JObject obj" in exI) (simp del: mentions.simps)
qed

text \<open>
  C38. The claims handed to the caller have no selective-disclosure machinery left: at every depth,
  no member is named \<open>_sd\<close>, \<open>_sd_alg\<close> or \<open>...\<close>.
\<close>

theorem sdjwt_claims_clean:
  assumes "verify_and_process C vc verifier digest pk alg = Inr p"
  shows "json_clean (JObject (ps_claims p))"
  by (rule verify_and_process_Inr [OF assms]) (rule process_clean(1))

lemma verify_presentation_Inr:
  assumes "verify_presentation C vc verifier digest pk alg kb = Inr claims"
  obtains kbj header pb input sig obj where
    "key_binding_jwt vc = Some kbj" "split_jws C kbj = Inr (header, pb, input, sig)"
    "verifier (kb_device_alg kb) (kb_device_public_key kb) (as_bytes input) sig = Inr ()"
    "json_from_slice C pb = Some (JObject obj)"
    "Option.bind (map_of obj ''aud'') json_as_str = Some (kb_expected_aud kb)"
    "Option.bind (map_of obj ''nonce'') json_as_str = Some (kb_expected_nonce kb)"
    "Option.bind (map_of obj ''sd_hash'') json_as_str = Some (b64_encode C (digest (as_bytes (presentation_text vc))))"
  using assms by (auto simp: verify_presentation_def bind_result_Inr_iff split: if_split_asm)

text \<open>
  C21. A key-binding JWT is good for one presentation only: when two parsed presentations are accepted
  with the same key-binding JWT, and the encoded digest does not collide on the two texts, then they
  are the same presentation, for the same audience and the same nonce.
\<close>

theorem sdjwt_key_binding_unique:
  assumes parsed: "sdjwt_parse c = Inr vc" "sdjwt_parse c' = Inr vc'"
    and accepted: "verify_presentation C vc verifier digest pk alg kb = Inr claims"
      "verify_presentation C vc' verifier' digest pk' alg' kb' = Inr claims'"
    and same: "key_binding_jwt vc = key_binding_jwt vc'"
    and no_collision: "b64_encode C (digest (as_bytes (presentation_text vc)))
        = b64_encode C (digest (as_bytes (presentation_text vc'))) \<Longrightarrow> presentation_text vc = presentation_text vc'"
  shows "c = c' \<and> kb_expected_aud kb = kb_expected_aud kb' \<and> kb_expected_nonce kb = kb_expected_nonce kb'"
proof -
  obtain kbj header pb input sig obj where a: "key_binding_jwt vc = Some kbj" "split_jws C kbj = Inr (header, pb, input, sig)"
    "json_from_slice C pb = Some (JObject obj)"
    "Option.bind (map_of obj ''aud'') json_as_str = Some (kb_expected_aud kb)"
    "Option.bind (map_of obj ''nonce'') json_as_str = Some (kb_expected_nonce kb)"
    "Option.bind (map_of obj ''sd_hash'') json_as_str = Some (b64_encode C (digest (as_bytes (presentation_text vc))))"
    by (rule verify_presentation_Inr [OF accepted(1)])
  obtain kbj' header' pb' input' sig' obj' where b: "key_binding_jwt vc' = Some kbj'"
    "split_jws C kbj' = Inr (header', pb', input', sig')" "json_from_slice C pb' = Some (JObject obj')"
    "Option.bind (map_of obj' ''aud'') json_as_str = Some (kb_expected_aud kb')"
    "Option.bind (map_of obj' ''nonce'') json_as_str = Some (kb_expected_nonce kb')"
    "Option.bind (map_of obj' ''sd_hash'') json_as_str = Some (b64_encode C (digest (as_bytes (presentation_text vc'))))"
    by (rule verify_presentation_Inr [OF accepted(2)])
  have "obj = obj'" using a(1-3) b(1-3) same by simp
  with a(4-6) b(4-6) have "kb_expected_aud kb = kb_expected_aud kb'" "kb_expected_nonce kb = kb_expected_nonce kb'"
    "presentation_text vc = presentation_text vc'" using no_collision by simp_all
  moreover have "c = c'"
    using sdjwt_parse_Inr [OF parsed(1)] sdjwt_parse_Inr [OF parsed(2)] same \<open>presentation_text vc = presentation_text vc'\<close>
    by (auto simp: serialise_def)
  ultimately show ?thesis by simp
qed

section \<open>A concrete presentation\<close>

text \<open>
  Toy codecs under which base64url is the identity on bytes, and a credential whose one claim is an
  object with a nested disclosure.
\<close>

definition sd_hash_of :: "string \<Rightarrow> string" where
  "sd_hash_of s = replicate 31 (CHR ''h'') @ [last s]"

definition sd_json :: "bytes \<Rightarrow> json option" where
  "sd_json b = map_of
     [(as_bytes ''H'', JObject [(''alg'', JString ''ES256''), (''typ'', JString ''dc+sd-jwt'')]),
      (as_bytes ''P'', JObject [(''_sd'', JArray [JString (sd_hash_of ''x''), JString (sd_hash_of ''z'')]), (''vct'', JString ''t'')]),
      (as_bytes ''x'', JArray [JString ''s'', JString ''address'', JObject [(''_sd'', JArray [JString (sd_hash_of ''y'')])]]),
      (as_bytes ''y'', JArray [JString ''s'', JString ''city'', JString ''Oslo'']),
      (as_bytes ''K'', JObject [(''alg'', JString ''ES256''), (''typ'', JString ''kb+jwt'')]),
      (as_bytes ''Q'', JObject [(''aud'', JString ''rp''), (''iat'', JNumber (PosInt 7)), (''nonce'', JString ''n''),
        (''sd_hash'', JString (sd_hash_of ''~''))])] b"

definition sd_codec :: text_codec where
  "sd_codec = \<lparr>b64_decode = (\<lambda>s. Some (as_bytes s)), b64_encode = map char_of_byte, json_from_slice = sd_json,
     json_to_vec = (\<lambda>_. Some [0])\<rparr>"

definition sd_digest :: digest where
  "sd_digest b = as_bytes (replicate 31 (CHR ''h'')) @ [last b]"

abbreviation sd_verifier :: verifier where
  "sd_verifier \<equiv> \<lambda>_ _ _ _. Inr ()"

abbreviation sd_vc :: sdjwt_vc where
  "sd_vc \<equiv> \<lparr>issuer_jwt = ''H.P.S'', vc_disclosures = [''y'', ''x''], key_binding_jwt = Some ''K.Q.S''\<rparr>"

definition sd_processed :: processed_sdjwt where
  "sd_processed = \<lparr>ps_claims = [(''address'', JObject [(''city'', JString ''Oslo'')]), (''vct'', JString ''t'')],
     ps_disclosures =
      [\<lparr>vd_raw = ''x'', vd_digest = sd_hash_of ''x'', vd_path = [PName ''address''], vd_parent_digest = None,
         vd_value = JObject [(''_sd'', JArray [JString (sd_hash_of ''y'')])]\<rparr>,
       \<lparr>vd_raw = ''y'', vd_digest = sd_hash_of ''y'', vd_path = [PName ''address'', PName ''city''],
         vd_parent_digest = Some (sd_hash_of ''x''), vd_value = JString ''Oslo''\<rparr>]\<rparr>"

lemma sd_codec_simps [simp]: "b64_decode sd_codec s = Some (as_bytes s)" "b64_encode sd_codec b = map char_of_byte b"
  "json_from_slice sd_codec = sd_json" "json_to_vec sd_codec v = Some [0]"
  by (simp_all add: sd_codec_def)

lemma sd_json_simps [simp]:
  "sd_json (as_bytes ''H'') = Some (JObject [(''alg'', JString ''ES256''), (''typ'', JString ''dc+sd-jwt'')])"
  "sd_json (as_bytes ''P'') = Some (JObject [(''_sd'', JArray [JString (sd_hash_of ''x''), JString (sd_hash_of ''z'')]), (''vct'', JString ''t'')])"
  "sd_json (as_bytes ''x'') = Some (JArray [JString ''s'', JString ''address'', JObject [(''_sd'', JArray [JString (sd_hash_of ''y'')])]])"
  "sd_json (as_bytes ''y'') = Some (JArray [JString ''s'', JString ''city'', JString ''Oslo''])"
  "sd_json (as_bytes ''K'') = Some (JObject [(''alg'', JString ''ES256''), (''typ'', JString ''kb+jwt'')])"
  "sd_json (as_bytes ''Q'') = Some (JObject [(''aud'', JString ''rp''), (''iat'', JNumber (PosInt 7)), (''nonce'', JString ''n''),
     (''sd_hash'', JString (sd_hash_of ''~''))])"
  by (simp_all add: sd_json_def)

lemma sd_hash_simps [simp]: "length (sd_hash_of s) = 32"
  "sd_hash_of s = sd_hash_of t \<longleftrightarrow> last s = last t"
  by (simp_all add: sd_hash_of_def)

lemma sd_hash_digest [simp]: "s \<noteq> [] \<Longrightarrow> map char_of_byte (sd_digest (as_bytes s)) = sd_hash_of s"
  by (simp add: sd_digest_def sd_hash_of_def) (simp add: as_bytes_def last_map)

lemma sd_split: "split_jws sd_codec ''H.P.S''
   = Inr (JObject [(''alg'', JString ''ES256''), (''typ'', JString ''dc+sd-jwt'')], as_bytes ''P'', ''H.P'', as_bytes ''S'')"
  "split_jws sd_codec ''K.Q.S''
   = Inr (JObject [(''alg'', JString ''ES256''), (''typ'', JString ''kb+jwt'')], as_bytes ''Q'', ''K.Q'', as_bytes ''S'')"
  by (simp_all add: split_jws_def MAX_JWS_BYTES_def)

definition sd_index :: "(string \<times> disclosure) list" where
  "sd_index = [(sd_hash_of ''x'', \<lparr>d_raw = ''x'', d_salt = ''s'', d_name = Some ''address'',
       d_value = JObject [(''_sd'', JArray [JString (sd_hash_of ''y'')])]\<rparr>),
     (sd_hash_of ''y'', \<lparr>d_raw = ''y'', d_salt = ''s'', d_name = Some ''city'', d_value = JString ''Oslo''\<rparr>)]"

lemma sd_hash_less [simp]: "sd_hash_of ''x'' < sd_hash_of ''y''"
  by (simp add: sd_hash_of_def numeral_eq_Suc)

lemma sd_indexed: "index_disclosures sd_codec sd_digest [''y'', ''x''] [] = Inr sd_index"
  by (simp add: disclosure_parse_def MAX_DISCLOSURE_BYTES_def digest_b64_def has_key_def sd_index_def json_defs Let_def)

lemma sd_process: "\<exists>st. process_value sd_codec
    (JObject [(''_sd'', JArray [JString (sd_hash_of ''x''), JString (sd_hash_of ''z'')]), (''vct'', JString ''t'')]) [] None 0 True
    \<lparr>disclosure_by_digest = sd_index, used_disclosures = [], encountered_digests = [], dp_verified = [],
      embedded_digest_count = 0, output_budget = 1\<rparr> = Inr (JObject (ps_claims sd_processed), st)
    \<and> used_disclosures st = [sd_hash_of ''x'', sd_hash_of ''y''] \<and> disclosure_by_digest st = sd_index
    \<and> dp_verified st = ps_disclosures sd_processed"
  by (simp add: process_value.simps process_members.simps process_digests.simps open_object_def SD_ALG_CLAIM_def SD_CLAIM_def
      map_remove_def has_key_def MAX_NESTING_DEPTH_def json_defs encounter_digest_def checked_add_usize_def
      MAX_EMBEDDED_DIGESTS_def sd_index_def member_name_def consume_budget_def MAX_PROCESSED_JSON_BYTES_def
      record_disclosure_def sd_processed_def)

lemma sd_accepts: "verify_and_process sd_codec sd_vc sd_verifier sd_digest [] Es256 = Inr sd_processed"
proof -
  have len: "length sd_index = 2" by (simp add: sd_index_def)
  obtain st where "process_value sd_codec
      (JObject [(''_sd'', JArray [JString (sd_hash_of ''x''), JString (sd_hash_of ''z'')]), (''vct'', JString ''t'')]) [] None 0 True
      \<lparr>disclosure_by_digest = sd_index, used_disclosures = [], encountered_digests = [], dp_verified = [],
        embedded_digest_count = 0, output_budget = 1\<rparr> = Inr (JObject (ps_claims sd_processed), st)"
      "used_disclosures st = [sd_hash_of ''x'', sd_hash_of ''y'']" "disclosure_by_digest st = sd_index"
      "dp_verified st = ps_disclosures sd_processed"
    using sd_process by blast
  then show ?thesis
    by (simp add: verify_and_process_def sd_split parse_jose_alg_def json_defs json_as_object_def check_hash_alg_def
        SD_ALG_CLAIM_def sd_indexed len MAX_PROCESSED_JSON_BYTES_def del: index_disclosures.simps)
qed

theorem sdjwt_disclosures_authentic_witness:
  "vd_raw ` set (ps_disclosures sd_processed) = {''x'', ''y''}"
  using sdjwt_disclosures_authentic [OF sd_accepts] by auto

theorem sdjwt_claims_clean_witness: "json_clean (JObject (ps_claims sd_processed))"
  by (rule sdjwt_claims_clean [OF sd_accepts])

lemma sd_parsed: "sdjwt_parse ''H.P.S~y~x~K.Q.S'' = Inr sd_vc"
  by (simp add: sdjwt_parse_def MAX_COMPACT_BYTES_def MAX_JWS_BYTES_def MAX_DISCLOSURES_def MAX_DISCLOSURE_BYTES_def
      count_char_def)

theorem sdjwt_key_binding_unique_witness:
  "kb_expected_nonce \<lparr>kb_device_public_key = [], kb_expected_aud = ''rp'', kb_expected_nonce = ''n'', kb_device_alg = Es256\<rparr> = ''n''
   \<and> verify_presentation sd_codec sd_vc sd_verifier sd_digest [] Es256
     \<lparr>kb_device_public_key = [], kb_expected_aud = ''rp'', kb_expected_nonce = ''n'', kb_device_alg = Es256\<rparr>
     = Inr (ps_claims sd_processed)"
proof -
  let ?kb = "\<lparr>kb_device_public_key = [], kb_expected_aud = ''rp'', kb_expected_nonce = ''n'', kb_device_alg = Es256\<rparr>"
  have acc: "verify_presentation sd_codec sd_vc sd_verifier sd_digest [] Es256 ?kb = Inr (ps_claims sd_processed)"
    by (simp add: verify_presentation_def verify_and_disclose_def sd_accepts sd_split parse_jose_alg_def json_defs
        json_as_object_def presentation_text_def i64_defs)
  from sdjwt_key_binding_unique [OF sd_parsed sd_parsed acc acc] acc show ?thesis by simp
qed

end
