(* ===== verification/Wallet_Interfaces.thy ===== *)
theory Wallet_Interfaces
  imports Wallet_Prelude
begin

text \<open>
  The contracts the components share, as locales, with the client lemmas proved once.

  \<^item> \<open>canonical_codec\<close>: an encoder and a strict decoder that are inverse on the accepted values.
    \<open>Cbor\<close> provides it; the payment, QES, wallet-to-wallet, proximity and COSE theories use its
    injectivity for the byte strings the device key signs.
  \<^item> \<open>hash_chain\<close>: records that carry their predecessor's hash; two chains with one head agree
    on everything after the last blanked record. \<open>Txnlog\<close> provides it.
  \<^item> \<open>consent_gate\<close>: a sans-IO flow in which something is rendered, approved and only then
    released. Every protocol machine with a user decision provides it.
  \<^item> \<open>single_release\<close>: a flow that releases at most once.
  \<^item> \<open>flow_simulation\<close>: a production \<open>step\<close> refines the reference model of its crate.

  A flow is a function \<open>step env state input = (next state, outputs)\<close>; a run is a list of
  environment and input pairs, because the shell assembles a fresh environment for every step.
\<close>

section \<open>Runs of a sans-IO flow\<close>

type_synonym ('e, 's, 'i, 'o) flow = "'e \<Rightarrow> 's \<Rightarrow> 'i \<Rightarrow> 's \<times> 'o list"

fun flow_state :: "('e, 's, 'i, 'o) flow \<Rightarrow> 's \<Rightarrow> ('e \<times> 'i) list \<Rightarrow> 's" where
  "flow_state step s [] = s"
| "flow_state step s ((e, i) # xs) = flow_state step (fst (step e s i)) xs"

fun flow_outputs :: "('e, 's, 'i, 'o) flow \<Rightarrow> 's \<Rightarrow> ('e \<times> 'i) list \<Rightarrow> 'o list list" where
  "flow_outputs step s [] = []"
| "flow_outputs step s ((e, i) # xs) =
     snd (step e s i) # flow_outputs step (fst (step e s i)) xs"

lemma length_flow_outputs [simp]: "length (flow_outputs step s xs) = length xs"
  by (induction step s xs rule: flow_outputs.induct) auto

lemma flow_state_append: "flow_state step s (xs @ ys) = flow_state step (flow_state step s xs) ys"
  by (induction step s xs rule: flow_state.induct) auto

lemma flow_outputs_append:
  "flow_outputs step s (xs @ ys) = flow_outputs step s xs @ flow_outputs step (flow_state step s xs) ys"
  by (induction step s xs rule: flow_outputs.induct) auto

lemma flow_state_invariant:
  assumes "P s" and "\<And>e s i. P s \<Longrightarrow> P (fst (step e s i))"
  shows "P (flow_state step s xs)"
  using assms(1)
proof (induction xs arbitrary: s)
  case Nil
  then show ?case by simp
next
  case (Cons x xs)
  then show ?case by (cases x) (simp add: assms(2))
qed

lemma flow_state_take_Suc:
  assumes "k < length xs"
  shows "flow_state step s (take (Suc k) xs)
    = fst (step (fst (xs ! k)) (flow_state step s (take k xs)) (snd (xs ! k)))"
  using assms by (cases "xs ! k") (simp add: take_Suc_conv_app_nth flow_state_append)

lemma flow_outputs_nth:
  assumes "k < length xs"
  shows "flow_outputs step s xs ! k
    = snd (step (fst (xs ! k)) (flow_state step s (take k xs)) (snd (xs ! k)))"
  using assms
proof (induction step s xs arbitrary: k rule: flow_outputs.induct)
  case (1 step s)
  then show ?case by simp
next
  case (2 step s e i xs)
  then show ?case by (cases k) auto
qed

text \<open>
  A state property that did not hold at the start and holds after \<open>k\<close> steps was entered at some
  last step \<open>j\<close> and has held since.
\<close>

lemma flow_entered:
  assumes "P (flow_state step s (take k xs))" "\<not> P s" "k \<le> length xs"
  shows "\<exists>j < k. \<not> P (flow_state step s (take j xs)) \<and> P (flow_state step s (take (Suc j) xs))
    \<and> (\<forall>i. j < i \<and> i \<le> k \<longrightarrow> P (flow_state step s (take i xs)))"
  using assms
proof (induction k)
  case 0
  then show ?case by simp
next
  case (Suc k)
  show ?case
  proof (cases "P (flow_state step s (take k xs))")
    case True
    with Suc obtain j where "j < k" "\<not> P (flow_state step s (take j xs))"
      "P (flow_state step s (take (Suc j) xs))"
      "\<forall>i. j < i \<and> i \<le> k \<longrightarrow> P (flow_state step s (take i xs))" by auto
    with Suc.prems(1) show ?thesis by (intro exI [of _ j]) (auto simp: le_Suc_eq)
  next
    case False
    with Suc.prems(1) show ?thesis by (intro exI [of _ k]) (auto simp: less_Suc_eq_le dest: le_antisym)
  qed
qed

section \<open>Canonical codecs\<close>

locale canonical_codec =
  fixes enc :: "'v \<Rightarrow> bytes"
    and dec :: "bytes \<Rightarrow> 'e + 'v"
    and accepted :: "'v \<Rightarrow> bool"
  assumes dec_enc: "accepted v \<Longrightarrow> dec (enc v) = Inr v"
    and dec_sound: "dec b = Inr v \<Longrightarrow> accepted v \<and> b = enc v"
begin

lemma enc_inject: "accepted v \<Longrightarrow> accepted w \<Longrightarrow> enc v = enc w \<longleftrightarrow> v = w"
  using dec_enc by (metis Inr_inject)

lemma one_encoding: "dec a = Inr v \<Longrightarrow> dec b = Inr v \<Longrightarrow> a = b"
  using dec_sound by blast

lemma enc_binds:
  assumes "accepted (f x)" "accepted (f y)" "enc (f x) = enc (f y)" "f x = f y \<Longrightarrow> g x = g y"
  shows "g x = g y"
  using assms enc_inject by blast

end

section \<open>Hash chains\<close>

text \<open>
  Records that carry the hash of their predecessor. A record is sealed when its hash is the digest
  of its own pre-image; a record that was blanked keeps its hash and is not sealed. The law is that
  the pre-image of a sealed record determines it.
\<close>

fun linked :: "('r \<Rightarrow> 'h) \<Rightarrow> ('r \<Rightarrow> 'h) \<Rightarrow> 'h \<Rightarrow> 'r list \<Rightarrow> bool" where
  "linked prev hash h [] \<longleftrightarrow> True"
| "linked prev hash h (r # rs) \<longleftrightarrow> prev r = h \<and> linked prev hash (hash r) rs"

definition chain_head :: "('r \<Rightarrow> 'h) \<Rightarrow> 'h \<Rightarrow> 'r list \<Rightarrow> 'h" where
  "chain_head hash h rs = (if rs = [] then h else hash (last rs))"

definition sealed_tail :: "('r \<Rightarrow> bool) \<Rightarrow> 'r list \<Rightarrow> 'r list" where
  "sealed_tail live rs = rev (takeWhile live (rev rs))"

lemma linked_append:
  "linked prev hash h (rs @ qs) \<longleftrightarrow> linked prev hash h rs \<and> linked prev hash (chain_head hash h rs) qs"
  by (induction rs arbitrary: h) (auto simp: chain_head_def)

lemma chain_head_simps [simp]: "chain_head hash h [] = h" "chain_head hash h (rs @ [r]) = hash r"
  by (simp_all add: chain_head_def)

lemma chain_head_Cons [simp]: "chain_head hash h (r # rs) = chain_head hash (hash r) rs"
  by (simp add: chain_head_def)

lemma sealed_tail_simps [simp]:
  "sealed_tail live [] = []"
  "sealed_tail live (rs @ [r]) = (if live r then sealed_tail live rs @ [r] else [])"
  by (simp_all add: sealed_tail_def)

lemma sealed_tail_all: "list_all live rs \<Longrightarrow> sealed_tail live rs = rs"
  by (induction rs rule: rev_induct) simp_all

locale hash_chain =
  fixes prev :: "'r \<Rightarrow> 'h"
    and hash :: "'r \<Rightarrow> 'h"
    and live :: "'r \<Rightarrow> bool"
    and pre :: "'r \<Rightarrow> bytes"
    and wf :: "'r \<Rightarrow> bool"
  assumes pre_binds: "wf r \<Longrightarrow> wf q \<Longrightarrow> live r \<Longrightarrow> live q \<Longrightarrow> hash r = hash q \<Longrightarrow> pre r = pre q \<Longrightarrow> r = q"
begin

lemma sealed_tails_agree:
  assumes "linked prev hash g rs" "linked prev hash g qs" "chain_head hash g rs = chain_head hash g qs"
    and "\<forall>r \<in> set rs \<union> set qs. wf r \<and> hash r \<noteq> g \<and> (live r \<longrightarrow> hash r = d (pre r))"
    and "inj_on d (pre ` {r \<in> set rs \<union> set qs. live r})"
  shows "suffix (sealed_tail live rs) qs \<or> suffix (sealed_tail live qs) rs"
  using assms
proof (induction rs arbitrary: qs rule: rev_induct)
  case Nil
  then show ?case by simp
next
  case (snoc r rs)
  show ?case
  proof (cases qs rule: rev_cases)
    case Nil
    then show ?thesis by simp
  next
    case (snoc qs' q)
    show ?thesis
    proof (cases "live r \<and> live q")
      case False
      then show ?thesis using snoc by auto
    next
      case live: True
      have "hash r = hash q" using snoc.prems(3) snoc by simp
      moreover from this have "d (pre r) = d (pre q)" using snoc.prems(4) snoc live by simp
      then have "pre r = pre q"
        by (rule inj_onD [OF snoc.prems(5)]) (use snoc live in auto)
      ultimately have eq: "r = q" using snoc.prems(4) snoc live by (intro pre_binds) auto
      have "suffix (sealed_tail live rs) qs' \<or> suffix (sealed_tail live qs') rs"
        using snoc.prems snoc eq
        by (intro snoc.IH) (auto simp: linked_append intro: inj_on_subset)
      then show ?thesis using snoc live eq by auto
    qed
  qed
qed

lemma linked_suffix_all:
  assumes "suffix rs qs" "linked prev hash g rs" "linked prev hash g qs"
    "chain_head hash g rs = chain_head hash g qs" "\<forall>r \<in> set qs. hash r \<noteq> g"
  shows "rs = qs"
proof -
  obtain ps where ps: "qs = ps @ rs" using assms(1) by (auto simp: suffix_def)
  have "chain_head hash g ps = g"
  proof (cases rs)
    case Nil
    with assms(4) ps show ?thesis by simp
  next
    case (Cons r rs')
    with assms(2,3) ps show ?thesis by (simp add: linked_append)
  qed
  with assms(5) ps have "ps = []" by (cases ps rule: rev_cases) auto
  with ps show ?thesis by simp
qed

lemma sealed_chains_equal:
  assumes "linked prev hash g rs" "linked prev hash g qs" "chain_head hash g rs = chain_head hash g qs"
    and "\<forall>r \<in> set rs \<union> set qs. wf r \<and> hash r \<noteq> g \<and> live r \<and> hash r = d (pre r)"
    and "inj_on d (pre ` (set rs \<union> set qs))"
  shows "rs = qs"
proof -
  have "list_all live rs" "list_all live qs" using assms(4) by (auto simp: list_all_iff)
  then have "suffix rs qs \<or> suffix qs rs"
    using sealed_tails_agree [OF assms(1-3), of d] assms(4,5)
    by (auto simp: sealed_tail_all intro: inj_on_subset)
  then show ?thesis using linked_suffix_all assms by (metis UnI1 UnI2)
qed

end

section \<open>Render, approve, release\<close>

locale consent_gate =
  fixes step :: "('e, 's, 'i, 'o) flow"
    and shown :: "'s \<Rightarrow> 'p option"
    and pending :: "'s \<Rightarrow> 'p option"
    and renders :: "'p \<Rightarrow> 'o \<Rightarrow> bool"
    and approve :: "'i \<Rightarrow> bool"
    and release :: "'o \<Rightarrow> bool"
  assumes release_needs_pending:
      "out \<in> set (snd (step e s i)) \<Longrightarrow> release out \<Longrightarrow> pending s \<noteq> None"
    and pending_needs_approval:
      "pending (fst (step e s i)) = Some p \<Longrightarrow>
         pending s = Some p \<or> (approve i \<and> shown s = Some p)"
    and shown_was_rendered:
      "shown (fst (step e s i)) = Some p \<Longrightarrow>
         shown s = Some p \<or> (\<exists>out \<in> set (snd (step e s i)). renders p out)"
begin

lemma shown_trace:
  assumes "shown (flow_state step s (take k xs)) = Some p" "shown s = None" "k \<le> length xs"
  shows "\<exists>m < k. \<exists>out \<in> set (flow_outputs step s xs ! m). renders p out"
  using assms
proof (induction k)
  case 0
  then show ?case by simp
next
  case (Suc k)
  from Suc.prems(3) have k: "k < length xs" by simp
  let ?s = "flow_state step s (take k xs)"
  from Suc.prems(1) have
    "shown ?s = Some p \<or> (\<exists>out \<in> set (flow_outputs step s xs ! k). renders p out)"
    using shown_was_rendered by (simp only: flow_state_take_Suc [OF k] flow_outputs_nth [OF k])
  then show ?case using Suc by (auto intro: less_SucI)
qed

lemma pending_trace:
  assumes "pending (flow_state step s (take k xs)) = Some p" "pending s = None" "k \<le> length xs"
  shows "\<exists>j < k. approve (snd (xs ! j)) \<and> shown (flow_state step s (take j xs)) = Some p"
  using assms
proof (induction k)
  case 0
  then show ?case by simp
next
  case (Suc k)
  from Suc.prems(3) have k: "k < length xs" by simp
  let ?s = "flow_state step s (take k xs)"
  from Suc.prems(1) have
    "pending ?s = Some p \<or> (approve (snd (xs ! k)) \<and> shown ?s = Some p)"
    using pending_needs_approval by (simp only: flow_state_take_Suc [OF k])
  then show ?case using Suc by (auto intro: less_SucI)
qed

text \<open>
  A release at step \<open>k\<close> is preceded by an approval at some step \<open>j\<close> of exactly what a still
  earlier step \<open>m\<close> rendered.
\<close>

lemma release_after_approval:
  assumes "shown s = None" "pending s = None"
    and "k < length xs" "out \<in> set (flow_outputs step s xs ! k)" "release out"
  shows "\<exists>p j m. m < j \<and> j < k \<and> pending (flow_state step s (take k xs)) = Some p
    \<and> approve (snd (xs ! j)) \<and> shown (flow_state step s (take j xs)) = Some p
    \<and> (\<exists>out' \<in> set (flow_outputs step s xs ! m). renders p out')"
proof -
  let ?s = "flow_state step s (take k xs)"
  from assms(4) have "out \<in> set (snd (step (fst (xs ! k)) ?s (snd (xs ! k))))"
    by (simp add: flow_outputs_nth [OF assms(3)])
  from release_needs_pending [OF this assms(5)] obtain p where p: "pending ?s = Some p"
    by blast
  from pending_trace [OF p assms(2)] assms(3) obtain j where j: "j < k"
    "approve (snd (xs ! j))" "shown (flow_state step s (take j xs)) = Some p"
    by auto
  from shown_trace [OF j(3) assms(1)] assms(3) j(1) obtain m where "m < j"
    "\<exists>out' \<in> set (flow_outputs step s xs ! m). renders p out'"
    by auto
  with p j show ?thesis by blast
qed

lemma no_release_without_approval:
  assumes "shown s = None" "pending s = None" "\<forall>x \<in> set xs. \<not> approve (snd x)"
  shows "\<forall>outs \<in> set (flow_outputs step s xs). \<forall>out \<in> set outs. \<not> release out"
proof (intro ballI notI)
  fix outs out assume "outs \<in> set (flow_outputs step s xs)" and out: "out \<in> set outs" "release out"
  then obtain k where k: "k < length xs" "out \<in> set (flow_outputs step s xs ! k)"
    by (auto simp: in_set_conv_nth)
  from release_after_approval [OF assms(1,2) k out(2)] obtain j
    where j: "j < k" "approve (snd (xs ! j))" by blast
  with k(1) have "xs ! j \<in> set xs" by simp
  with assms(3) j(2) show False by blast
qed

end

section \<open>At most one release\<close>

locale single_release =
  fixes step :: "('e, 's, 'i, 'o) flow"
    and release :: "'o \<Rightarrow> bool"
    and spent :: "'s \<Rightarrow> bool"
  assumes release_spends:
      "filter release (snd (step e s i)) \<noteq> [] \<Longrightarrow>
         spent (fst (step e s i)) \<and> length (filter release (snd (step e s i))) = 1"
    and spent_is_silent:
      "spent s \<Longrightarrow> spent (fst (step e s i)) \<and> filter release (snd (step e s i)) = []"
begin

lemma spent_run_silent: "spent s \<Longrightarrow> filter release (concat (flow_outputs step s xs)) = []"
proof (induction xs arbitrary: s)
  case Nil
  then show ?case by simp
next
  case (Cons x xs)
  then show ?case using spent_is_silent [OF Cons.prems] by (cases x) simp
qed

lemma at_most_one_release: "length (filter release (concat (flow_outputs step s xs))) \<le> 1"
proof (induction xs arbitrary: s)
  case Nil
  then show ?case by simp
next
  case (Cons x xs)
  obtain e i where x: "x = (e, i)" by (cases x)
  show ?case
  proof (cases "filter release (snd (step e s i)) = []")
    case True
    with Cons.IH show ?thesis by (simp add: x)
  next
    case False
    with release_spends [OF False] spent_run_silent show ?thesis by (simp add: x)
  qed
qed

end

section \<open>Refinement of a reference model\<close>

text \<open>
  \<open>events e s i\<close> are the model events one production step stands for; \<open>admissible s a e\<close> says the
  shell assembled the environment from the model's state (for example, that the replay set it
  passes is the one the model keeps).
\<close>

fun model_run :: "('e, 's, 'i, 'o) flow \<Rightarrow> ('a \<Rightarrow> 'v \<Rightarrow> 'a) \<Rightarrow> ('e \<Rightarrow> 's \<Rightarrow> 'i \<Rightarrow> 'v list)
    \<Rightarrow> 's \<Rightarrow> 'a \<Rightarrow> ('e \<times> 'i) list \<Rightarrow> 'a" where
  "model_run cstep astep events s a [] = a"
| "model_run cstep astep events s a ((e, i) # xs) =
     model_run cstep astep events (fst (cstep e s i)) (foldl astep a (events e s i)) xs"

fun admissible_run :: "('e, 's, 'i, 'o) flow \<Rightarrow> ('a \<Rightarrow> 'v \<Rightarrow> 'a) \<Rightarrow> ('e \<Rightarrow> 's \<Rightarrow> 'i \<Rightarrow> 'v list)
    \<Rightarrow> ('s \<Rightarrow> 'a \<Rightarrow> 'e \<Rightarrow> bool) \<Rightarrow> 's \<Rightarrow> 'a \<Rightarrow> ('e \<times> 'i) list \<Rightarrow> bool" where
  "admissible_run cstep astep events admissible s a [] \<longleftrightarrow> True"
| "admissible_run cstep astep events admissible s a ((e, i) # xs) \<longleftrightarrow>
     admissible s a e \<and>
     admissible_run cstep astep events admissible (fst (cstep e s i)) (foldl astep a (events e s i)) xs"

locale flow_simulation =
  fixes cstep :: "('e, 's, 'i, 'o) flow"
    and astep :: "'a \<Rightarrow> 'v \<Rightarrow> 'a"
    and related :: "'s \<Rightarrow> 'a \<Rightarrow> bool"
    and events :: "'e \<Rightarrow> 's \<Rightarrow> 'i \<Rightarrow> 'v list"
    and admissible :: "'s \<Rightarrow> 'a \<Rightarrow> 'e \<Rightarrow> bool"
  assumes step_simulates:
    "related s a \<Longrightarrow> admissible s a e \<Longrightarrow>
       related (fst (cstep e s i)) (foldl astep a (events e s i))"
begin

lemma run_simulates:
  "related s a \<Longrightarrow> admissible_run cstep astep events admissible s a xs \<Longrightarrow>
     related (flow_state cstep s xs) (model_run cstep astep events s a xs)"
proof (induction xs arbitrary: s a)
  case Nil
  then show ?case by simp
next
  case (Cons x xs)
  then show ?case by (cases x) (simp add: step_simulates)
qed

end

end
