(* ===== verification/Cbor.thy ===== *)
theory Cbor
  imports Wallet_Interfaces
begin

text \<open>
  Canonical CBOR, \<open>crates/cose/src/cbor.rs\<close>: the value type, the head writer and reader, the
  deterministic encoder and the strict decoder. Every signature and digest of the wallet is
  computed over bytes this encoder produces, so the properties here are the ones the rest rests
  on: the decoder accepts exactly the canonical encodings, and encoding is injective.
\<close>

section \<open>Values and errors\<close>

datatype cbor_value =
    Uint u64
  | Nint u64
  | Bytes bytes
  | Text string
  | Array "cbor_value list"
  | Map "(cbor_value \<times> cbor_value) list"
  | Tag u64 cbor_value
  | Bool bool
  | Null

datatype cbor_error =
    Truncated
  | NotShortestForm
  | IndefiniteLength
  | Reserved
  | InvalidUtf8
  | MapKeysNotSorted
  | DuplicateMapKey
  | TrailingBytes
  | UnsupportedSimple
  | TooDeep

definition MAX_DEPTH :: nat where
  "MAX_DEPTH = 64"

section \<open>Heads\<close>

definition write_head :: "u8 \<Rightarrow> u64 \<Rightarrow> bytes" where
  "write_head major arg =
     (let mt = push_bit 5 major in
      if arg \<le> 23 then [mt OR ucast arg]
      else if arg \<le> 0xFF then [mt OR 24, ucast arg]
      else if arg \<le> 0xFFFF then (mt OR 25) # be_bytes 2 (unat arg)
      else if arg \<le> 0xFFFFFFFF then (mt OR 26) # be_bytes 4 (unat arg)
      else (mt OR 27) # be_bytes 8 (unat arg))"

text \<open>
  One multi-byte argument form: \<open>n\<close> big-endian bytes that must exceed the largest value the next
  shorter form can carry.
\<close>

definition read_arg :: "nat \<Rightarrow> u64 \<Rightarrow> bytes \<Rightarrow> cbor_error + (u64 \<times> bytes)" where
  "read_arg n shorter_max rest =
     (if length rest < n then Inl Truncated
      else
        let v = of_nat (be_value (take n rest)) :: u64 in
        if v \<le> shorter_max then Inl NotShortestForm else Inr (v, drop n rest))"

definition read_info :: "u8 \<Rightarrow> bytes \<Rightarrow> cbor_error + (u64 \<times> bytes)" where
  "read_info info rest =
     (if info \<le> 23 then Inr (ucast info, rest)
      else if info = 24 then read_arg 1 23 rest
      else if info = 25 then read_arg 2 0xFF rest
      else if info = 26 then read_arg 4 0xFFFF rest
      else if info = 27 then read_arg 8 0xFFFFFFFF rest
      else if info = 31 then Inl IndefiniteLength
      else Inl Reserved)"

definition read_head :: "bytes \<Rightarrow> cbor_error + (u8 \<times> u64 \<times> bytes)" where
  "read_head bytes =
     (case bytes of
        [] \<Rightarrow> Inl Truncated
      | first # rest \<Rightarrow>
          bind_result (read_info (first AND 0x1F) rest) (\<lambda>(arg, rest).
            Inr (drop_bit 5 first, arg, rest)))"

definition encode_uint :: "u64 \<Rightarrow> bytes" where
  "encode_uint n = write_head 0 n"

definition decode_uint :: "bytes \<Rightarrow> (u64 \<times> bytes) option" where
  "decode_uint bytes =
     (case read_head bytes of
        Inr (major, arg, rest) \<Rightarrow> if major = 0 then Some (arg, rest) else None
      | Inl _ \<Rightarrow> None)"

section \<open>Encoder\<close>

text \<open>\<open>Vec::dedup_by\<close> on the encoded key: of a run of equal keys the first entry stays.\<close>

fun dedup_by_key :: "('k \<times> 'v) list \<Rightarrow> ('k \<times> 'v) list" where
  "dedup_by_key (x # y # ys) =
     (if fst x = fst y then dedup_by_key (x # ys) else x # dedup_by_key (y # ys))"
| "dedup_by_key xs = xs"

definition canonical_pairs :: "(bytes \<times> bytes) list \<Rightarrow> (bytes \<times> bytes) list" where
  "canonical_pairs encoded = dedup_by_key (sort_key fst encoded)"

definition flatten_pairs :: "(bytes \<times> bytes) list \<Rightarrow> bytes" where
  "flatten_pairs encoded = concat (map (\<lambda>(k, v). k @ v) encoded)"

fun to_canonical :: "cbor_value \<Rightarrow> bytes" where
  "to_canonical (Uint n) = write_head 0 n"
| "to_canonical (Nint n) = write_head 1 n"
| "to_canonical (Bytes b) = write_head 2 (of_nat (length b)) @ b"
| "to_canonical (Text s) = write_head 3 (of_nat (length s)) @ as_bytes s"
| "to_canonical (Array items) =
     write_head 4 (of_nat (length items)) @ concat (map to_canonical items)"
| "to_canonical (Map pairs) =
     (let encoded = canonical_pairs (map (\<lambda>p. (to_canonical (fst p), to_canonical (snd p))) pairs)
      in write_head 5 (of_nat (length encoded)) @ flatten_pairs encoded)"
| "to_canonical (Tag t inner) = write_head 6 t @ to_canonical inner"
| "to_canonical (Bool b) = (if b then [0xF5] else [0xF4])"
| "to_canonical Null = [0xF6]"

section \<open>Decoder\<close>

text \<open>
  \<open>decode_value\<close> with its two loops. The array and map loops run \<open>len\<close> times; each iteration
  decodes at depth \<open>depth + 1\<close>, so the recursion is bounded by \<open>MAX_DEPTH\<close> and by the count.
\<close>

function (sequential) decode_value :: "bytes \<Rightarrow> nat \<Rightarrow> cbor_error + (cbor_value \<times> bytes)"
  and decode_items :: "nat \<Rightarrow> bytes \<Rightarrow> nat \<Rightarrow> cbor_error + (cbor_value list \<times> bytes)"
  and decode_pairs :: "nat \<Rightarrow> bytes option \<Rightarrow> bytes \<Rightarrow> nat
        \<Rightarrow> cbor_error + ((cbor_value \<times> cbor_value) list \<times> bytes)" where
  "decode_value bytes depth =
     (if depth > MAX_DEPTH then Inl TooDeep
      else if bytes = [] then Inl Truncated
      else
        let first = hd bytes; major = drop_bit 5 first in
        if major = 0 then
          bind_result (read_head bytes) (\<lambda>(_, arg, rest). Inr (Uint arg, rest))
        else if major = 1 then
          bind_result (read_head bytes) (\<lambda>(_, arg, rest). Inr (Nint arg, rest))
        else if major = 2 then
          bind_result (read_head bytes) (\<lambda>(_, len, rest).
            if length rest < unat len then Inl Truncated
            else Inr (Bytes (take (unat len) rest), drop (unat len) rest))
        else if major = 3 then
          bind_result (read_head bytes) (\<lambda>(_, len, rest).
            if length rest < unat len then Inl Truncated
            else bind_result (ok_or (from_utf8 (take (unat len) rest)) InvalidUtf8) (\<lambda>s.
              Inr (Text s, drop (unat len) rest)))
        else if major = 4 then
          bind_result (read_head bytes) (\<lambda>(_, len, rest).
            bind_result (decode_items (unat len) rest (depth + 1)) (\<lambda>(items, rest).
              Inr (Array items, rest)))
        else if major = 5 then
          bind_result (read_head bytes) (\<lambda>(_, len, rest).
            bind_result (decode_pairs (unat len) None rest (depth + 1)) (\<lambda>(pairs, rest).
              Inr (Map pairs, rest)))
        else if major = 6 then
          bind_result (read_head bytes) (\<lambda>(_, tag, rest).
            bind_result (decode_value rest (depth + 1)) (\<lambda>(inner, rest).
              Inr (Tag tag inner, rest)))
        else
          if first = 0xF4 then Inr (Bool False, tl bytes)
          else if first = 0xF5 then Inr (Bool True, tl bytes)
          else if first = 0xF6 then Inr (Null, tl bytes)
          else Inl UnsupportedSimple)"
| "decode_items n rest depth =
     (if n = 0 then Inr ([], rest)
      else bind_result (decode_value rest depth) (\<lambda>(item, rest).
        bind_result (decode_items (n - 1) rest depth) (\<lambda>(items, rest).
          Inr (item # items, rest))))"
| "decode_pairs n prev_key rest depth =
     (if n = 0 then Inr ([], rest)
      else bind_result (decode_value rest depth) (\<lambda>(key, rest).
        let key_bytes = to_canonical key in
        bind_result
          (case prev_key of
             None \<Rightarrow> Inr ()
           | Some prev \<Rightarrow>
               if key_bytes < prev then Inl MapKeysNotSorted
               else if key_bytes = prev then Inl DuplicateMapKey
               else Inr ())
          (\<lambda>_. bind_result (decode_value rest depth) (\<lambda>(val, rest).
            bind_result (decode_pairs (n - 1) (Some key_bytes) rest depth) (\<lambda>(pairs, rest).
              Inr ((key, val) # pairs, rest))))))"
  by pat_completeness auto
termination
  by (relation "measures
       [case_sum (\<lambda>(_, d). 65 - d) (case_sum (\<lambda>(_, _, d). 65 - d) (\<lambda>(_, _, _, d). 65 - d)),
        case_sum (\<lambda>_. 0) (case_sum (\<lambda>(n, _). n) (\<lambda>(n, _). n))]")
    (auto simp: MAX_DEPTH_def)

declare decode_value.simps [simp del] decode_items.simps [simp del] decode_pairs.simps [simp del]

definition from_canonical_slice :: "bytes \<Rightarrow> cbor_error + cbor_value" where
  "from_canonical_slice bytes =
     bind_result (decode_value bytes 0) (\<lambda>(value, rest).
       if rest = [] then Inr value else Inl TrailingBytes)"


section \<open>Heads round-trip\<close>

lemma bit_below:
  fixes w :: u8
  assumes "unat w < 2 ^ k" and "bit w n"
  shows "n < k"
proof -
  have "unat (take_bit k w) = unat w"
    using assms(1) by (simp add: unsigned_take_bit_eq take_bit_nat_eq_self)
  then have "take_bit k w = w" by (rule word_eqI_unat)
  with assms(2) show ?thesis by (metis bit_take_bit_iff)
qed

lemma and_low5: "b AND 0x1F = take_bit 5 (b :: u8)"
  by (simp add: take_bit_eq_mask mask_eq_exp_minus_1)

lemma head_byte:
  fixes m i :: u8
  assumes "m < 8" "i < 32"
  shows "drop_bit 5 (push_bit 5 m OR i) = m" "(push_bit 5 m OR i) AND 0x1F = i"
proof -
  have m: "bit m n \<Longrightarrow> n < 3" and i: "bit i n \<Longrightarrow> n < 5" for n
    using assms bit_below [of m 3 n] bit_below [of i 5 n] by (simp_all add: word_less_nat_alt)
  show "drop_bit 5 (push_bit 5 m OR i) = m"
    by (rule bit_word_eqI) (use m i in \<open>force simp: bit_simps\<close>)
  show "(push_bit 5 m OR i) AND 0x1F = i"
    unfolding and_low5 by (rule bit_word_eqI) (use i in \<open>auto simp: bit_simps\<close>)
qed

lemma byte_head:
  fixes b :: u8
  shows "push_bit 5 (drop_bit 5 b) OR (b AND 0x1F) = b" "drop_bit 5 b < 8" "b AND 0x1F < 32"
proof -
  show "push_bit 5 (drop_bit 5 b) OR (b AND 0x1F) = b"
    unfolding and_low5 by (rule bit_word_eqI) (auto simp: bit_simps)
  have "unat b < 256" by (rule unat_byte_lt)
  then have "unat (drop_bit 5 b) < 8"
    by (simp add: drop_bit_eq_div unat_div less_mult_imp_div_less)
  then show "drop_bit 5 b < 8" by (simp add: word_less_nat_alt)
  have "b AND 0x1F \<le> 0x1F" by (rule word_and_le1)
  then show "b AND 0x1F < 32" by (simp add: word_le_nat_alt word_less_nat_alt)
qed


lemma read_arg_be_bytes:
  assumes "a > m" "unat a < 256 ^ n"
  shows "read_arg n m (be_bytes n (unat a) @ rest) = Inr (a, rest)"
  using assms by (simp add: read_arg_def be_value_be_bytes)

lemma read_arg_Inr:
  assumes "read_arg n m bs = Inr (a, rest)" "n \<le> 8"
  shows "bs = be_bytes n (unat a) @ rest" "a > m" "unat a < 256 ^ n"
proof -
  from assms(1) have len: "n \<le> length bs" and a: "a = of_nat (be_value (take n bs))"
    and gt: "a > m" and rest: "rest = drop n bs"
    by (auto simp: read_arg_def Let_def split: if_splits)
  have bound: "be_value (take n bs) < 256 ^ n"
    using be_value_bound [of "take n bs"] len by (simp add: min_absorb2)
  also have "(256 :: nat) ^ n \<le> 256 ^ 8"
    using assms(2) by (intro power_increasing) auto
  finally have "unat a = be_value (take n bs)"
    by (simp add: a unat_of_nat)
  then show "bs = be_bytes n (unat a) @ rest" "a > m" "unat a < 256 ^ n"
    using be_bytes_be_value [of "take n bs" n] len gt bound
    by (simp_all add: rest min_absorb2)
qed

lemma unat_low_byte: "unat (ucast (a :: u64) :: u8) = unat a mod 256"
  by (simp add: unsigned_ucast_eq take_bit_eq_mod)

lemma unat_byte_u64: "unat (ucast (b :: u8) :: u64) = unat b"
  by (simp add: unsigned_ucast_eq take_bit_eq_mod order.strict_trans [OF unat_byte_lt])

lemma be_bytes_one: "be_bytes 1 (unat (a :: u64)) = [ucast a]"
proof -
  have "(of_nat (unat a mod 256) :: u8) = ucast a"
    by (rule word_eqI_unat) (simp add: unat_low_byte unat_of_nat)
  then show ?thesis by (simp only: One_nat_def be_bytes.simps append_Nil)
qed

text \<open>The additional-information field and the argument bytes \<open>write_head\<close> chooses.\<close>

definition head_info :: "u64 \<Rightarrow> u8" where
  "head_info a =
     (if a \<le> 23 then ucast a else if a \<le> 0xFF then 24 else if a \<le> 0xFFFF then 25
      else if a \<le> 0xFFFFFFFF then 26 else 27)"

definition head_arg :: "u64 \<Rightarrow> bytes" where
  "head_arg a =
     be_bytes (if a \<le> 23 then 0 else if a \<le> 0xFF then 1 else if a \<le> 0xFFFF then 2
               else if a \<le> 0xFFFFFFFF then 4 else 8) (unat a)"

lemma write_head_split: "write_head m a = (push_bit 5 m OR head_info a) # head_arg a"
  using be_bytes_one [of a] by (simp add: write_head_def head_info_def head_arg_def Let_def)

lemma small_arg_byte:
  assumes "a \<le> (23 :: u64)"
  shows "(ucast a :: u8) \<le> 23" "(ucast (ucast a :: u8) :: u64) = a"
proof -
  have u: "unat (ucast a :: u8) = unat a"
    using assms by (simp add: unat_low_byte word_le_nat_alt)
  then show "(ucast a :: u8) \<le> 23" using assms by (simp add: word_le_nat_alt)
  show "(ucast (ucast a :: u8) :: u64) = a"
    by (rule word_eqI_unat) (simp add: unat_byte_u64 u)
qed

lemma head_info_lt: "head_info a < 32"
proof -
  have "(ucast a :: u8) < 32" if "a \<le> 23"
    using small_arg_byte(1) [OF that] by (simp add: word_le_nat_alt word_less_nat_alt)
  then show ?thesis by (simp add: head_info_def)
qed

lemma u64_lt_256_8: "unat (a :: u64) < 256 ^ 8"
  using unsigned_less [of a] by simp

lemma head_forms:
  "a \<le> 23 \<Longrightarrow> head_info a = ucast a \<and> head_arg a = []"
  "23 < a \<Longrightarrow> a \<le> 0xFF \<Longrightarrow> head_info a = 24 \<and> head_arg a = be_bytes 1 (unat a)"
  "0xFF < a \<Longrightarrow> a \<le> 0xFFFF \<Longrightarrow> head_info a = 25 \<and> head_arg a = be_bytes 2 (unat a)"
  "0xFFFF < a \<Longrightarrow> a \<le> 0xFFFFFFFF \<Longrightarrow> head_info a = 26 \<and> head_arg a = be_bytes 4 (unat a)"
  "0xFFFFFFFF < a \<Longrightarrow> head_info a = 27 \<and> head_arg a = be_bytes 8 (unat a)"
  by (auto simp: head_info_def head_arg_def word_le_nat_alt word_less_nat_alt)

lemma head_ranges:
  fixes a :: u64
  obtains "a \<le> 23" | "23 < a" "a \<le> 0xFF" | "0xFF < a" "a \<le> 0xFFFF"
    | "0xFFFF < a" "a \<le> 0xFFFFFFFF" | "0xFFFFFFFF < a"
  by (meson not_less)

lemma read_info_head: "read_info (head_info a) (head_arg a @ rest) = Inr (a, rest)"
proof (cases a rule: head_ranges)
  case 1
  then show ?thesis using head_forms(1) [of a] small_arg_byte [of a] by (simp add: read_info_def)
next
  case 2
  then have "unat a < 256 ^ 1" by (simp add: word_le_nat_alt)
  with 2 show ?thesis
    using head_forms(2) [of a] read_arg_be_bytes [where m = 23 and a = a and n = 1] by (simp add: read_info_def)
next
  case 3
  then have "unat a < 256 ^ 2" by (simp add: word_le_nat_alt)
  with 3 show ?thesis
    using head_forms(3) [of a] read_arg_be_bytes [where m = "0xFF" and a = a and n = 2] by (simp add: read_info_def)
next
  case 4
  then have "unat a < 256 ^ 4" by (simp add: word_le_nat_alt)
  with 4 show ?thesis
    using head_forms(4) [of a] read_arg_be_bytes [where m = "0xFFFF" and a = a and n = 4] by (simp add: read_info_def)
next
  case 5
  then show ?thesis
    using head_forms(5) [of a] read_arg_be_bytes [where m = "0xFFFFFFFF" and a = a and n = 8] u64_lt_256_8 [of a]
    by (simp add: read_info_def)
qed

lemma read_info_Inr:
  assumes "read_info i cs = Inr (a, rest)"
  shows "i = head_info a \<and> cs = head_arg a @ rest"
proof -
  have args: "(i \<le> 23 \<and> a = ucast i \<and> rest = cs)
      \<or> (i = 24 \<and> read_arg 1 23 cs = Inr (a, rest))
      \<or> (i = 25 \<and> read_arg 2 0xFF cs = Inr (a, rest))
      \<or> (i = 26 \<and> read_arg 4 0xFFFF cs = Inr (a, rest))
      \<or> (i = 27 \<and> read_arg 8 0xFFFFFFFF cs = Inr (a, rest))"
    using assms by (auto simp: read_info_def split: if_splits)
  then show ?thesis
  proof (elim disjE conjE)
    assume i: "i \<le> 23" and a: "a = ucast i" and "rest = cs"
    have "a \<le> 23" using i by (simp add: a word_le_nat_alt unat_byte_u64)
    moreover have "(ucast a :: u8) = i"
      by (rule word_eqI_unat) (simp add: a unat_low_byte unat_byte_u64)
    ultimately show ?thesis using \<open>rest = cs\<close> head_forms(1) [of a] by simp
  next
    assume i: "i = 24" and r: "read_arg 1 23 cs = Inr (a, rest)"
    note r' = read_arg_Inr [OF r]
    have "a \<le> 0xFF" using r'(3) by (simp add: word_le_nat_alt)
    then show ?thesis using r' i head_forms(2) [of a] by simp
  next
    assume i: "i = 25" and r: "read_arg 2 0xFF cs = Inr (a, rest)"
    note r' = read_arg_Inr [OF r]
    have "a \<le> 0xFFFF" using r'(3) by (simp add: word_le_nat_alt)
    then show ?thesis using r' i head_forms(3) [of a] by simp
  next
    assume i: "i = 26" and r: "read_arg 4 0xFFFF cs = Inr (a, rest)"
    note r' = read_arg_Inr [OF r]
    have "a \<le> 0xFFFFFFFF" using r'(3) by (simp add: word_le_nat_alt)
    then show ?thesis using r' i head_forms(4) [of a] by simp
  next
    assume i: "i = 27" and r: "read_arg 8 0xFFFFFFFF cs = Inr (a, rest)"
    then show ?thesis using read_arg_Inr [OF r] head_forms(5) [of a] by simp
  qed
qed

lemma read_write_head [simp]:
  assumes "m < 8"
  shows "read_head (write_head m a @ rest) = Inr (m, a, rest)"
  using head_byte [OF assms head_info_lt [of a]] read_info_head [of a rest]
  by (simp add: read_head_def write_head_split)

lemma read_head_Inr:
  assumes "read_head bs = Inr (m, a, rest)"
  shows "bs = write_head m a @ rest"
proof -
  from assms obtain b cs where bs: "bs = b # cs" and m: "m = drop_bit 5 b"
    and i: "read_info (b AND 0x1F) cs = Inr (a, rest)"
    by (auto simp: read_head_def bind_result_Inr_iff split: list.splits)
  from read_info_Inr [OF i] byte_head(1) [of b] m show ?thesis
    by (simp add: bs write_head_split)
qed

lemma hd_write_head:
  assumes "m < 8"
  shows "write_head m a \<noteq> []" "drop_bit 5 (hd (write_head m a @ rest)) = m"
  using head_byte(1) [OF assms head_info_lt [of a]] by (simp_all add: write_head_split)


section \<open>Canonical values\<close>

text \<open>
  \<open>well_formed\<close> is what the Rust types guarantee: text is UTF-8 and lengths fit in 64 bits.
  \<open>canonical\<close> adds that every map is in strictly ascending order of encoded keys.
  \<open>within_depth d\<close> says a value met at nesting depth \<open>d\<close> stays within \<open>MAX_DEPTH\<close>.
\<close>

fun well_formed :: "cbor_value \<Rightarrow> bool" where
  "well_formed (Bytes b) \<longleftrightarrow> length b < 2 ^ 64"
| "well_formed (Text s) \<longleftrightarrow> valid_str s \<and> length s < 2 ^ 64"
| "well_formed (Array xs) \<longleftrightarrow> length xs < 2 ^ 64 \<and> list_all well_formed xs"
| "well_formed (Map ps) \<longleftrightarrow>
     length ps < 2 ^ 64 \<and> list_all (\<lambda>p. well_formed (fst p) \<and> well_formed (snd p)) ps"
| "well_formed (Tag t v) \<longleftrightarrow> well_formed v"
| "well_formed (Uint n) \<longleftrightarrow> True"
| "well_formed (Nint n) \<longleftrightarrow> True"
| "well_formed (Bool b) \<longleftrightarrow> True"
| "well_formed Null \<longleftrightarrow> True"

abbreviation key_bytes :: "cbor_value \<times> cbor_value \<Rightarrow> bytes" where
  "key_bytes p \<equiv> to_canonical (fst p)"

fun canonical :: "cbor_value \<Rightarrow> bool" where
  "canonical (Bytes b) \<longleftrightarrow> length b < 2 ^ 64"
| "canonical (Text s) \<longleftrightarrow> valid_str s \<and> length s < 2 ^ 64"
| "canonical (Array xs) \<longleftrightarrow> length xs < 2 ^ 64 \<and> list_all canonical xs"
| "canonical (Map ps) \<longleftrightarrow>
     length ps < 2 ^ 64 \<and> list_all (\<lambda>p. canonical (fst p) \<and> canonical (snd p)) ps
     \<and> sorted_wrt (<) (map key_bytes ps)"
| "canonical (Tag t v) \<longleftrightarrow> canonical v"
| "canonical (Uint n) \<longleftrightarrow> True"
| "canonical (Nint n) \<longleftrightarrow> True"
| "canonical (Bool b) \<longleftrightarrow> True"
| "canonical Null \<longleftrightarrow> True"

fun within_depth :: "nat \<Rightarrow> cbor_value \<Rightarrow> bool" where
  "within_depth d (Array xs) \<longleftrightarrow> d \<le> MAX_DEPTH \<and> list_all (within_depth (Suc d)) xs"
| "within_depth d (Map ps) \<longleftrightarrow>
     d \<le> MAX_DEPTH \<and> list_all (\<lambda>p. within_depth (Suc d) (fst p) \<and> within_depth (Suc d) (snd p)) ps"
| "within_depth d (Tag t v) \<longleftrightarrow> d \<le> MAX_DEPTH \<and> within_depth (Suc d) v"
| "within_depth d (Uint n) \<longleftrightarrow> d \<le> MAX_DEPTH"
| "within_depth d (Nint n) \<longleftrightarrow> d \<le> MAX_DEPTH"
| "within_depth d (Bytes b) \<longleftrightarrow> d \<le> MAX_DEPTH"
| "within_depth d (Text s) \<longleftrightarrow> d \<le> MAX_DEPTH"
| "within_depth d (Bool b) \<longleftrightarrow> d \<le> MAX_DEPTH"
| "within_depth d Null \<longleftrightarrow> d \<le> MAX_DEPTH"

lemma canonical_well_formed: "canonical v \<Longrightarrow> well_formed v"
proof (induction v)
  case (Array xs)
  then show ?case by (simp add: list_all_iff)
next
  case (Map ps)
  then show ?case by (auto simp: list_all_iff fsts.simps snds.simps)
qed simp_all

lemma dedup_by_key_sorted: "sorted_wrt (<) (map fst (xs :: ('k :: order \<times> 'v) list)) \<Longrightarrow> dedup_by_key xs = xs"
  by (induction xs rule: dedup_by_key.induct) auto

lemma canonical_pairs_sorted: "sorted_wrt (<) (map fst xs) \<Longrightarrow> canonical_pairs xs = xs"
  by (simp add: canonical_pairs_def dedup_by_key_sorted sort_key_id_if_sorted strict_sorted_imp_sorted)

lemma to_canonical_sorted_map:
  assumes "sorted_wrt (<) (map key_bytes ps)"
  shows "to_canonical (Map ps) =
    write_head 5 (of_nat (length ps)) @ concat (map (\<lambda>p. to_canonical (fst p) @ to_canonical (snd p)) ps)"
proof -
  have "canonical_pairs (map (\<lambda>p. (to_canonical (fst p), to_canonical (snd p))) ps)
      = map (\<lambda>p. (to_canonical (fst p), to_canonical (snd p))) ps"
    using assms by (intro canonical_pairs_sorted) (simp add: comp_def)
  then show ?thesis by (simp add: flatten_pairs_def comp_def)
qed

section \<open>Decoding inverts encoding\<close>

lemma decode_value_write_head:
  assumes "m < 7" "d \<le> MAX_DEPTH"
  shows "decode_value (write_head m a @ rest) d =
    (if m = 0 then Inr (Uint a, rest)
     else if m = 1 then Inr (Nint a, rest)
     else if m = 2 then
       (if length rest < unat a then Inl Truncated
        else Inr (Bytes (take (unat a) rest), drop (unat a) rest))
     else if m = 3 then
       (if length rest < unat a then Inl Truncated
        else bind_result (ok_or (from_utf8 (take (unat a) rest)) InvalidUtf8) (\<lambda>s.
          Inr (Text s, drop (unat a) rest)))
     else if m = 4 then
       bind_result (decode_items (unat a) rest (Suc d)) (\<lambda>(items, rest). Inr (Array items, rest))
     else if m = 5 then
       bind_result (decode_pairs (unat a) None rest (Suc d)) (\<lambda>(pairs, rest). Inr (Map pairs, rest))
     else
       bind_result (decode_value rest (Suc d)) (\<lambda>(inner, rest). Inr (Tag a inner, rest)))"
proof -
  have m8: "m < 8" using assms(1) by (simp add: word_less_nat_alt)
  have "m = 6" if "m \<noteq> 0" "m \<noteq> 1" "m \<noteq> 2" "m \<noteq> 3" "m \<noteq> 4" "m \<noteq> 5"
    using assms(1) that by (auto simp: word_less_nat_alt word_unat_eq_iff)
  then show ?thesis
    using assms(2) hd_write_head(1) [OF m8, of a] hd_write_head(2) [OF m8, of a rest]
    by (subst decode_value.simps) (simp add: read_write_head [OF m8] Let_def)
qed

lemma unat_of_nat_len: "n < 2 ^ 64 \<Longrightarrow> unat (of_nat n :: u64) = n"
  by (simp add: unat_of_nat)

lemma decode_items_encoded:
  assumes "\<And>x r. x \<in> set xs \<Longrightarrow> decode_value (to_canonical x @ r) d = Inr (x, r)"
  shows "decode_items (length xs) (concat (map to_canonical xs) @ rest) d = Inr (xs, rest)"
  using assms
proof (induction xs)
  case Nil
  then show ?case by (simp add: decode_items.simps)
next
  case (Cons x xs)
  then show ?case by (subst decode_items.simps) simp
qed

lemma decode_pairs_encoded:
  assumes "\<And>p r. p \<in> set ps \<Longrightarrow> decode_value (to_canonical (fst p) @ r) d = Inr (fst p, r)"
    and "\<And>p r. p \<in> set ps \<Longrightarrow> decode_value (to_canonical (snd p) @ r) d = Inr (snd p, r)"
    and "sorted_wrt (<) (map key_bytes ps)"
    and "\<And>k p. prev = Some k \<Longrightarrow> p \<in> set ps \<Longrightarrow> k < key_bytes p"
  shows "decode_pairs (length ps) prev
      (concat (map (\<lambda>p. to_canonical (fst p) @ to_canonical (snd p)) ps) @ rest) d = Inr (ps, rest)"
  using assms
proof (induction ps arbitrary: prev)
  case Nil
  then show ?case by (simp add: decode_pairs.simps)
next
  case (Cons p ps)
  have "decode_pairs (length ps) (Some (key_bytes p))
      (concat (map (\<lambda>p. to_canonical (fst p) @ to_canonical (snd p)) ps) @ rest) d = Inr (ps, rest)"
    using Cons.prems by (intro Cons.IH) auto
  moreover have "k < key_bytes p" if "prev = Some k" for k
    using Cons.prems(4) that by simp
  ultimately show ?case
    using Cons.prems(1,2) [of p]
    by (subst decode_pairs.simps) (cases prev; force simp: Let_def)
qed

lemma decode_encoded:
  assumes "canonical v" "within_depth d v"
  shows "decode_value (to_canonical v @ rest) d = Inr (v, rest)"
  using assms
proof (induction v arbitrary: d rest)
  case (Array xs)
  have "decode_items (length xs) (concat (map to_canonical xs) @ rest) (Suc d) = Inr (xs, rest)"
    using Array by (intro decode_items_encoded) (auto simp: list_all_iff)
  then show ?case
    using Array.prems by (simp add: decode_value_write_head unat_of_nat_len)
next
  case (Map ps)
  have "decode_pairs (length ps) None
      (concat (map (\<lambda>p. to_canonical (fst p) @ to_canonical (snd p)) ps) @ rest) (Suc d) = Inr (ps, rest)"
  proof (rule decode_pairs_encoded)
    show "decode_value (to_canonical (fst p) @ r) (Suc d) = Inr (fst p, r)" if "p \<in> set ps" for p r
      using Map.prems that
      by (intro Map.IH(1) [OF that fsts.intros]) (auto simp: list_all_iff)
    show "decode_value (to_canonical (snd p) @ r) (Suc d) = Inr (snd p, r)" if "p \<in> set ps" for p r
      using Map.prems that
      by (intro Map.IH(2) [OF that snds.intros]) (auto simp: list_all_iff)
  qed (use Map.prems in auto)
  then show ?case
    using Map.prems
    by (simp only: to_canonical_sorted_map canonical.simps within_depth.simps append.assoc)
      (simp add: decode_value_write_head unat_of_nat_len)
next
  case (Bool b)
  then show ?case by (subst decode_value.simps) (auto simp: Let_def)
next
  case Null
  then show ?case by (subst decode_value.simps) (auto simp: Let_def)
qed (simp_all add: decode_value_write_head unat_of_nat_len)


section \<open>The decoder accepts canonical encodings only\<close>

definition decodes_to :: "bytes \<Rightarrow> nat \<Rightarrow> cbor_value \<Rightarrow> bytes \<Rightarrow> bool" where
  "decodes_to bs d v rest \<longleftrightarrow> bs = to_canonical v @ rest \<and> canonical v \<and> within_depth d v"

lemma decode_items_sound:
  assumes sound: "\<And>bs v r. decode_value bs d = Inr (v, r) \<Longrightarrow> decodes_to bs d v r"
    and "decode_items n bs d = Inr (xs, rest)"
  shows "bs = concat (map to_canonical xs) @ rest" "length xs = n"
    "list_all canonical xs" "list_all (within_depth d) xs"
proof -
  have "bs = concat (map to_canonical xs) @ rest \<and> length xs = n
    \<and> list_all canonical xs \<and> list_all (within_depth d) xs"
    using assms(2)
  proof (induction n arbitrary: bs xs)
    case 0
    then show ?case by (simp add: decode_items.simps)
  next
    case (Suc n)
    from Suc.prems obtain x ys r where x: "decode_value bs d = Inr (x, r)"
      and ys: "decode_items n r d = Inr (ys, rest)" and xs: "xs = x # ys"
      by (subst (asm) decode_items.simps) (auto simp: bind_result_Inr_iff)
    from sound [OF x] Suc.IH [OF ys] show ?case by (simp add: xs decodes_to_def)
  qed
  then show "bs = concat (map to_canonical xs) @ rest" "length xs = n"
    "list_all canonical xs" "list_all (within_depth d) xs" by auto
qed

lemma key_order_check:
  "(case prev of
      None \<Rightarrow> Inr ()
    | Some q \<Rightarrow> if k < q then Inl MapKeysNotSorted else if k = q then Inl DuplicateMapKey else Inr ())
    = Inr u \<longleftrightarrow> (\<forall>q. prev = Some q \<longrightarrow> q < (k :: bytes))"
  by (cases prev) auto

lemma decode_pairs_sound:
  assumes sound: "\<And>bs v r. decode_value bs d = Inr (v, r) \<Longrightarrow> decodes_to bs d v r"
    and "decode_pairs n prev bs d = Inr (ps, rest)"
  shows "bs = concat (map (\<lambda>p. to_canonical (fst p) @ to_canonical (snd p)) ps) @ rest
    \<and> length ps = n \<and> list_all (\<lambda>p. canonical (fst p) \<and> canonical (snd p)) ps
    \<and> list_all (\<lambda>p. within_depth d (fst p) \<and> within_depth d (snd p)) ps
    \<and> sorted_wrt (<) (map key_bytes ps)
    \<and> (\<forall>q. prev = Some q \<longrightarrow> (\<forall>p \<in> set ps. q < key_bytes p))"
  using assms(2)
proof (induction n arbitrary: prev bs ps)
  case 0
  then show ?case by (simp add: decode_pairs.simps)
next
  case (Suc n)
  from Suc.prems obtain k v qs r1 r2 where k: "decode_value bs d = Inr (k, r1)"
    and prev: "\<forall>q. prev = Some q \<longrightarrow> q < to_canonical k"
    and v: "decode_value r1 d = Inr (v, r2)"
    and qs: "decode_pairs n (Some (to_canonical k)) r2 d = Inr (qs, rest)"
    and ps: "ps = (k, v) # qs"
    by (subst (asm) decode_pairs.simps) (auto simp: bind_result_Inr_iff Let_def key_order_check)
  note IH = Suc.IH [OF qs]
  have "\<forall>p \<in> set qs. q < key_bytes p" if "prev = Some q" for q
    using IH prev that by (auto intro: order.strict_trans)
  with sound [OF k] sound [OF v] IH prev show ?case
    by (auto simp: ps decodes_to_def)
qed

lemma word_unat_len: "xs = [] \<or> length xs = unat (a :: u64) \<Longrightarrow> length xs < 2 ^ 64"
  using unsigned_less [of a] by auto

lemma major_cases: "m < 7 \<Longrightarrow> m = 0 \<or> m = 1 \<or> m = 2 \<or> m = 3 \<or> m = 4 \<or> m = 5 \<or> m = (6 :: u8)"
  by (simp add: word_less_nat_alt word_unat_eq_iff) arith

lemma decode_value_head:
  assumes "decode_value bs d = Inr (v, rest)"
  obtains (head) m a r where "m < 7" "bs = write_head m a @ r" "d \<le> MAX_DEPTH"
  | (simple) "bs = to_canonical v @ rest" "v \<in> {Bool False, Bool True, Null}" "d \<le> MAX_DEPTH"
proof -
  have d: "d \<le> MAX_DEPTH" and ne: "bs \<noteq> []"
    using assms by (subst (asm) decode_value.simps, simp split: if_splits)+
  define m where "m = drop_bit 5 (hd bs)"
  have m8: "m < 8" using byte_head(2) [of "hd bs"] by (simp add: m_def)
  show thesis
  proof (cases "m < 7")
    case True
    have "\<exists>x. read_head bs = Inr x"
      using assms ne d True
      by (subst (asm) decode_value.simps)
        (auto simp: Let_def m_def bind_result_Inr_iff split: if_splits)
    then obtain m' a r where r: "read_head bs = Inr (m', a, r)" by auto
    then have "m' = m"
      using ne by (auto simp: read_head_def m_def bind_result_Inr_iff split: list.splits)
    with r True d head [of m a r] show thesis by (auto dest: read_head_Inr)
  next
    case False
    then have "m = 7" using m8 by (auto simp: word_less_nat_alt word_unat_eq_iff)
    then have "drop_bit 5 (hd bs) = 7" by (simp add: m_def)
    with assms ne d simple show thesis
      by (subst (asm) decode_value.simps) (cases bs; auto simp: Let_def split: if_splits)
  qed
qed


lemma decode_value_sound: "decode_value bs d = Inr (v, rest) \<Longrightarrow> decodes_to bs d v rest"
proof (induction "Suc MAX_DEPTH - d" arbitrary: bs d v rest rule: less_induct)
  case less
  have IH: "decode_value bs (Suc d) = Inr (v, r) \<Longrightarrow> decodes_to bs (Suc d) v r"
    if "d \<le> MAX_DEPTH" for bs v r
    using less.hyps [of "Suc d"] that by simp
  from less.prems show ?case
  proof (cases rule: decode_value_head)
    case (head m a r)
    note unfolded = less.prems [unfolded head(2) decode_value_write_head [OF head(1,3)]]
    consider "m = 0" | "m = 1" | "m = 2" | "m = 3" | "m = 4" | "m = 5" | "m = 6"
      using major_cases [OF head(1)] by blast
    then show ?thesis
    proof cases
      case 4
      with unfolded obtain s where len: "unat a \<le> length r" and s: "valid_str s"
        and t: "take (unat a) r = as_bytes s" and v: "v = Text s" and rest: "rest = drop (unat a) r"
        by (auto simp: bind_result_Inr_iff from_utf8_Some_iff split: if_splits)
      have "length s = unat a" using arg_cong [OF t, of length] len by simp
      moreover have "r = as_bytes s @ rest" using t rest by (metis append_take_drop_id)
      ultimately show ?thesis
        using head 4 s unsigned_less [of a] by (simp add: v decodes_to_def)
    next
      case 5
      with unfolded obtain xs where xs: "decode_items (unat a) r (Suc d) = Inr (xs, rest)"
        and v: "v = Array xs" by (auto simp: bind_result_Inr_iff)
      from decode_items_sound [OF IH [OF head(3)] xs] show ?thesis
        using head 5 unsigned_less [of a] by (simp add: v decodes_to_def)
    next
      case 6
      with unfolded obtain ps where ps: "decode_pairs (unat a) None r (Suc d) = Inr (ps, rest)"
        and v: "v = Map ps" by (auto simp: bind_result_Inr_iff)
      from decode_pairs_sound [OF IH [OF head(3)] ps] show ?thesis
        using head 6 unsigned_less [of a]
        by (simp add: v decodes_to_def to_canonical_sorted_map del: to_canonical.simps)
    next
      case 7
      with unfolded obtain w where w: "decode_value r (Suc d) = Inr (w, rest)" and v: "v = Tag a w"
        by (auto simp: bind_result_Inr_iff)
      from IH [OF head(3) w] show ?thesis using head 7 by (simp add: v decodes_to_def)
    qed (use unfolded head unsigned_less [of a] in
          \<open>auto simp: decodes_to_def split: if_splits\<close>)
  next
    case simple
    then show ?thesis by (auto simp: decodes_to_def)
  qed
qed


section \<open>Round trips\<close>

lemma decode_value_iff:
  "decode_value bs d = Inr (v, rest) \<longleftrightarrow> decodes_to bs d v rest"
  using decode_value_sound decode_encoded by (auto simp: decodes_to_def)

lemma from_canonical_slice_Inr_iff:
  "from_canonical_slice bs = Inr v \<longleftrightarrow> bs = to_canonical v \<and> canonical v \<and> within_depth 0 v"
proof -
  have "from_canonical_slice bs = Inr v \<longleftrightarrow> decode_value bs 0 = Inr (v, [])"
    by (auto simp: from_canonical_slice_def bind_result_Inr_iff split: if_splits)
  then show ?thesis by (simp add: decode_value_iff decodes_to_def)
qed

text \<open>The value the decoder returns for an encoding: maps sorted by encoded key, first duplicate kept.\<close>

fun dedup_on :: "('a \<Rightarrow> 'k) \<Rightarrow> 'a list \<Rightarrow> 'a list" where
  "dedup_on f (x # y # ys) = (if f x = f y then dedup_on f (x # ys) else x # dedup_on f (y # ys))"
| "dedup_on f xs = xs"

fun normalise :: "cbor_value \<Rightarrow> cbor_value" where
  "normalise (Array xs) = Array (map normalise xs)"
| "normalise (Map ps) =
     Map (dedup_on key_bytes (sort_key key_bytes (map (\<lambda>p. (normalise (fst p), normalise (snd p))) ps)))"
| "normalise (Tag t v) = Tag t (normalise v)"
| "normalise (Uint n) = Uint n"
| "normalise (Nint n) = Nint n"
| "normalise (Bytes b) = Bytes b"
| "normalise (Text s) = Text s"
| "normalise (Bool b) = Bool b"
| "normalise Null = Null"

lemma insort_key_map: "insort_key f (g x) (map g xs) = map g (insort_key (\<lambda>x. f (g x)) x xs)"
  by (induction xs) auto

lemma sort_key_map: "sort_key f (map g xs) = map g (sort_key (\<lambda>x. f (g x)) xs)"
  by (induction xs) (auto simp: insort_key_map)

lemma dedup_on_map: "dedup_by_key (map g xs) = map g (dedup_on (fst \<circ> g) xs)"
  by (induction "fst \<circ> g" xs rule: dedup_on.induct) auto

lemma set_dedup_on: "set (dedup_on f xs) \<subseteq> set xs"
  by (induction f xs rule: dedup_on.induct) auto

lemma length_dedup_on: "length (dedup_on f xs) \<le> length xs"
  by (induction f xs rule: dedup_on.induct) auto

lemma dedup_on_hd: "dedup_on f (x # xs) \<noteq> [] \<and> hd (dedup_on f (x # xs)) = x"
  by (induction f "x # xs" arbitrary: x xs rule: dedup_on.induct) auto

lemma dedup_on_strict:
  fixes f :: "'a \<Rightarrow> 'k :: linorder"
  shows "sorted (map f xs) \<Longrightarrow> sorted_wrt (<) (map f (dedup_on f xs))"
proof (induction f xs rule: dedup_on.induct)
  case (1 f x y ys)
  show ?case
  proof (cases "f x = f y")
    case True
    with 1 show ?thesis by simp
  next
    case False
    with 1 have "f x < f z" if "z \<in> set (y # ys)" for z
      using that by (auto simp: order.strict_iff_order)
    with False 1 set_dedup_on [of f "y # ys"] show ?thesis by auto
  qed
qed auto

lemma to_canonical_normalise: "to_canonical (normalise v) = to_canonical v"
proof (induction v)
  case (Array xs)
  then have "map (to_canonical \<circ> normalise) xs = map to_canonical xs" by simp
  then show ?case by (simp del: map_eq_conv)
next
  case (Map ps)
  let ?g = "\<lambda>p. (to_canonical (fst p), to_canonical (snd p))"
  let ?n = "\<lambda>p. (normalise (fst p), normalise (snd p))"
  have enc: "map ?g (map ?n ps) = map ?g ps"
    using Map.IH by (auto simp: fsts.simps snds.simps)
  define qs where "qs = dedup_on key_bytes (sort_key key_bytes (map ?n ps))"
  have "canonical_pairs (map ?g (map ?n ps)) = map ?g qs"
    by (simp only: canonical_pairs_def sort_key_map dedup_on_map comp_def qs_def fst_conv)
  then have "canonical_pairs (map ?g ps) = map ?g qs"
    by (simp only: enc)
  moreover have "canonical_pairs (map ?g qs) = map ?g qs"
    using dedup_on_strict [of key_bytes "sort_key key_bytes (map ?n ps)"]
    by (intro canonical_pairs_sorted) (simp add: qs_def comp_def)
  ultimately show ?case by (simp add: qs_def)
qed auto

lemma dedup_on_id: "sorted_wrt (<) (map f xs) \<Longrightarrow> dedup_on (f :: 'a \<Rightarrow> 'k :: order) xs = xs"
  by (induction f xs rule: dedup_on.induct) auto

text \<open>The entries of a normalised map are normalised entries of the map.\<close>

lemma normalised_entries:
  assumes "\<And>p. p \<in> set ps \<Longrightarrow> P (normalise (fst p)) \<and> P (normalise (snd p))"
  shows "list_all (\<lambda>p. P (fst p) \<and> P (snd p))
    (dedup_on key_bytes (sort_key key_bytes (map (\<lambda>p. (normalise (fst p), normalise (snd p))) ps)))"
proof -
  let ?ps = "map (\<lambda>p. (normalise (fst p), normalise (snd p))) ps"
  have "set (dedup_on key_bytes (sort_key key_bytes ?ps)) \<subseteq> set ?ps"
    using set_dedup_on [of key_bytes "sort_key key_bytes ?ps"] by simp
  moreover have "\<forall>p \<in> set ?ps. P (fst p) \<and> P (snd p)"
    using assms by auto
  ultimately show ?thesis unfolding list_all_iff by blast
qed

lemma normalise_canonical: "well_formed v \<Longrightarrow> canonical (normalise v)"
proof (induction v)
  case (Array xs)
  then show ?case by (simp add: list_all_iff)
next
  case (Map ps)
  let ?qs = "dedup_on key_bytes (sort_key key_bytes
    (map (\<lambda>p. (normalise (fst p), normalise (snd p))) ps))"
  have "list_all (\<lambda>p. canonical (fst p) \<and> canonical (snd p)) ?qs"
    using Map by (intro normalised_entries) (auto simp: list_all_iff fsts.simps snds.simps)
  moreover have "length ?qs \<le> length ps"
    using length_dedup_on [of key_bytes "sort_key key_bytes
      (map (\<lambda>p. (normalise (fst p), normalise (snd p))) ps)"] by simp
  moreover have "sorted_wrt (<) (map key_bytes ?qs)"
    by (rule dedup_on_strict) simp
  ultimately show ?case using Map.prems by simp
qed auto

lemma normalise_within_depth: "within_depth d v \<Longrightarrow> within_depth d (normalise v)"
proof (induction v arbitrary: d)
  case (Array xs)
  then show ?case by (simp add: list_all_iff)
next
  case (Map ps)
  have "list_all (\<lambda>p. within_depth (Suc d) (fst p) \<and> within_depth (Suc d) (snd p))
    (dedup_on key_bytes (sort_key key_bytes (map (\<lambda>p. (normalise (fst p), normalise (snd p))) ps)))"
    using Map by (intro normalised_entries) (auto simp: list_all_iff fsts.simps snds.simps)
  then show ?case using Map.prems by simp
qed auto

lemma normalise_id: "canonical v \<Longrightarrow> normalise v = v"
proof (induction v)
  case (Array xs)
  then show ?case by (simp add: list_all_iff map_idI)
next
  case (Map ps)
  have "map (\<lambda>p. (normalise (fst p), normalise (snd p))) ps = ps"
    using Map by (intro map_idI) (auto simp: list_all_iff fsts.simps snds.simps)
  moreover have "sort_key key_bytes ps = ps"
    using Map.prems by (intro sort_key_id_if_sorted strict_sorted_imp_sorted) simp
  moreover have "dedup_on key_bytes ps = ps"
    using Map.prems by (intro dedup_on_id) simp
  ultimately show ?case by simp
qed auto

text \<open>Normalising a map whose encoded keys are distinct only reorders its entries.\<close>

abbreviation norm_entry :: "cbor_value \<times> cbor_value \<Rightarrow> cbor_value \<times> cbor_value" where
  "norm_entry p \<equiv> (normalise (fst p), normalise (snd p))"

lemma distinct_map_sort_key: "distinct (map f xs) \<Longrightarrow> distinct (map f (sort_key g xs))"
  by (simp add: distinct_map)

lemma normalise_Map_distinct:
  assumes "distinct (map key_bytes ps)"
  shows "normalise (Map ps) = Map (sort_key key_bytes (map norm_entry ps))"
proof -
  have "distinct (map key_bytes (map norm_entry ps))"
    using assms by (simp add: comp_def to_canonical_normalise)
  then have "distinct (map key_bytes (sort_key key_bytes (map norm_entry ps)))"
    by (rule distinct_map_sort_key)
  then have "sorted_wrt (<) (map key_bytes (sort_key key_bytes (map norm_entry ps)))"
    by (simp add: strict_sorted_iff)
  then show ?thesis by (simp add: dedup_on_id)
qed

lemma map_of_sort_key:
  assumes "distinct (map fst ps)"
  shows "map_of (sort_key f ps) = map_of ps"
proof (rule map_of_eqI)
  show "set (map fst (sort_key f ps)) = set (map fst ps)" by simp
  have d: "distinct (map fst (sort_key f ps))"
    using assms by (rule distinct_map_sort_key)
  show "\<forall>k \<in> set (map fst (sort_key f ps)). map_of (sort_key f ps) k = map_of ps k"
  proof
    fix k assume "k \<in> set (map fst (sort_key f ps))"
    then obtain v where "(k, v) \<in> set ps" by auto
    then show "map_of (sort_key f ps) k = map_of ps k"
      using assms d by (metis map_of_is_SomeI set_sort)
  qed
qed

lemma map_of_norm_entries:
  "\<forall>p \<in> set ps. normalise (fst p) = fst p \<Longrightarrow>
     map_of (map norm_entry ps) k = map_option normalise (map_of ps k)"
  by (induction ps) auto

lemma normalise_Map_lookup:
  assumes "distinct (map key_bytes ps)" "\<forall>p \<in> set ps. normalise (fst p) = fst p"
  obtains qs where "normalise (Map ps) = Map qs"
    "\<And>k. map_of qs k = map_option normalise (map_of ps k)" "set qs = norm_entry ` set ps"
    "distinct (map fst qs)"
proof
  let ?qs = "sort_key key_bytes (map norm_entry ps)"
  show "normalise (Map ps) = Map ?qs" by (rule normalise_Map_distinct [OF assms(1)])
  have "map fst (map norm_entry ps) = map fst ps" using assms(2) by simp
  moreover have "distinct (map fst ps)" using assms(1) by (auto simp: distinct_map inj_on_def)
  ultimately have d: "distinct (map fst (map norm_entry ps))" by (simp only:)
  show "map_of ?qs k = map_option normalise (map_of ps k)" for k
    unfolding map_of_sort_key [OF d] by (rule map_of_norm_entries [OF assms(2)])
  show "set ?qs = norm_entry ` set ps" by simp
  show "distinct (map fst ?qs)" using d by (rule distinct_map_sort_key)
qed

text \<open>
  C10. Canonical decoding is exact: the top-level decoder accepts a byte string if and only if it
  is the encoding of the value it returns, that value is canonical (maps strictly sorted by
  encoded key, UTF-8 text) and it is nested at most \<open>MAX_DEPTH\<close> deep. In particular no value has
  two accepted encodings.
\<close>

theorem cbor_decoder_exact:
  "from_canonical_slice bs = Inr v \<longleftrightarrow> bs = to_canonical v \<and> canonical v \<and> within_depth 0 v"
  by (rule from_canonical_slice_Inr_iff)

text \<open>
  C11. Encoding any well-formed value and decoding the bytes gives the value with every map sorted
  and deduplicated; the encoder never produces bytes the decoder rejects, and re-encoding the
  result reproduces the bytes.
\<close>

theorem cbor_roundtrip:
  assumes "well_formed v" "within_depth 0 v"
  shows "from_canonical_slice (to_canonical v) = Inr (normalise v)
    \<and> to_canonical (normalise v) = to_canonical v \<and> (canonical v \<longrightarrow> normalise v = v)"
  using assms normalise_canonical normalise_within_depth
  by (simp add: from_canonical_slice_Inr_iff to_canonical_normalise normalise_id)


theorem cbor_roundtrip_witness:
  "from_canonical_slice (to_canonical (Map [(Uint 2, Null), (Uint 1, Bool True)])) =
     Inr (Map [(Uint 1, Bool True), (Uint 2, Null)])"
proof -
  have "normalise (Map [(Uint 2, Null), (Uint 1, Bool True)]) = Map [(Uint 1, Bool True), (Uint 2, Null)]"
    by (simp add: write_head_def)
  with cbor_roundtrip [of "Map [(Uint 2, Null), (Uint 1, Bool True)]"] show ?thesis
    by (simp add: MAX_DEPTH_def)
qed

text \<open>The uint primitives, the subject of the bounded model-checking harness of the crate.\<close>

lemma decode_encode_uint: "decode_uint (encode_uint n @ rest) = Some (n, rest)"
  by (simp add: decode_uint_def encode_uint_def)

section \<open>The codec as an interface\<close>

abbreviation cbor_accepted :: "cbor_value \<Rightarrow> bool" where
  "cbor_accepted v \<equiv> canonical v \<and> within_depth 0 v"

interpretation cbor: canonical_codec to_canonical from_canonical_slice cbor_accepted
  by unfold_locales (auto simp: from_canonical_slice_Inr_iff)

text \<open>Bounds on the encoding, for values that carry another encoding as a byte string.\<close>

lemma length_write_head: "length (write_head m a) \<le> 9"
  by (simp add: write_head_def Let_def)

lemma length_to_canonical_Bytes: "length (to_canonical (Bytes b)) \<le> length b + 9"
  using length_write_head [of 2 "of_nat (length b)"] by simp

lemma length_to_canonical_Text: "length (to_canonical (Text s)) \<le> length s + 9"
  using length_write_head [of 3 "of_nat (length s)"] by (simp add: as_bytes_def)

lemma length_to_canonical_Tag: "length (to_canonical (Tag t v)) \<le> length (to_canonical v) + 9"
  using length_write_head [of 6 t] by simp

lemma length_to_canonical_Array:
  "length (to_canonical (Array vs)) \<le> sum_list (map (length \<circ> to_canonical) vs) + 9"
  using length_write_head [of 4 "of_nat (length vs)"] by (simp add: length_concat)

lemmas length_to_canonical_bounds = length_to_canonical_Bytes length_to_canonical_Text
  length_to_canonical_Tag length_to_canonical_Array

lemma array_accepted:
  "cbor_accepted (Array xs) \<longleftrightarrow> length xs < 2 ^ 64 \<and> list_all canonical xs \<and> list_all (within_depth 1) xs"
  by (simp add: MAX_DEPTH_def)

end
