(* ===== verification/Cose.thy ===== *)
theory Cose
  imports Cbor Crypto_Traits
begin

text \<open>
  COSE_Sign1, \<open>crates/cose/src/lib.rs\<close>: headers with their resource limits, the \<open>Sig_structure\<close>,
  signing and verification over the crypto boundary, and the wire structure. The signer and the
  verifier are arguments.
\<close>

section \<open>Labels and limits\<close>

definition ALG :: u64 where "ALG = 1"

definition CRIT :: u64 where "CRIT = 2"

definition KID :: u64 where "KID = 4"

definition X5CHAIN :: u64 where "X5CHAIN = 33"

lemmas cose_labels = ALG_def CRIT_def KID_def X5CHAIN_def

definition MAX_X5CHAIN_CERTIFICATES :: nat where "MAX_X5CHAIN_CERTIFICATES = 8"

definition MAX_X5CHAIN_CERTIFICATE_BYTES :: nat where "MAX_X5CHAIN_CERTIFICATE_BYTES = 64 * 1024"

definition MAX_X5CHAIN_TOTAL_BYTES :: nat where "MAX_X5CHAIN_TOTAL_BYTES = 256 * 1024"

definition MAX_PRIVATE_LABELS :: nat where "MAX_PRIVATE_LABELS = 8"

definition MAX_PRIVATE_LABEL_BYTES :: nat where "MAX_PRIVATE_LABEL_BYTES = 64 * 1024"

lemmas cose_limits = MAX_X5CHAIN_CERTIFICATES_def MAX_X5CHAIN_CERTIFICATE_BYTES_def
  MAX_X5CHAIN_TOTAL_BYTES_def MAX_PRIVATE_LABELS_def MAX_PRIVATE_LABEL_BYTES_def

section \<open>Algorithm identifiers\<close>

definition cose_alg_id :: "alg \<Rightarrow> int" where
  "cose_alg_id alg = (case alg of Es256 \<Rightarrow> -7 | Es384 \<Rightarrow> -35 | EdDsa \<Rightarrow> -8)"

definition alg_from_id :: "int \<Rightarrow> alg option" where
  "alg_from_id i =
     (if i = -7 then Some Es256 else if i = -35 then Some Es384 else if i = -8 then Some EdDsa else None)"

datatype cose_error =
    Cose_Crypto crypto_error
  | UnknownCriticalParam int
  | MalformedHeader
  | MalformedStructure
  | AlgMismatch

section \<open>Certificate chains\<close>

datatype x5chain = Single bytes | Chain "bytes list"

definition certificates :: "x5chain \<Rightarrow> bytes list" where
  "certificates x = (case x of Single certificate \<Rightarrow> [certificate] | Chain certificates \<Rightarrow> certificates)"

text \<open>The running total is threaded through; a result is the new total.\<close>

definition check_certificate_size :: "bytes \<Rightarrow> nat \<Rightarrow> cose_error + nat" where
  "check_certificate_size certificate total_bytes =
     (if certificate = [] \<or> length certificate > MAX_X5CHAIN_CERTIFICATE_BYTES then Inl MalformedHeader
      else if total_bytes + length certificate \<le> MAX_X5CHAIN_TOTAL_BYTES then Inr (total_bytes + length certificate)
      else Inl MalformedHeader)"

fun check_certificate_sizes :: "bytes list \<Rightarrow> nat \<Rightarrow> cose_error + nat" where
  "check_certificate_sizes [] total_bytes = Inr total_bytes"
| "check_certificate_sizes (c # cs) total_bytes =
     bind_result (check_certificate_size c total_bytes) (check_certificate_sizes cs)"

definition x5chain_validate :: "x5chain \<Rightarrow> cose_error + unit" where
  "x5chain_validate x =
     (case x of
        Single certificate \<Rightarrow> bind_result (check_certificate_size certificate 0) (\<lambda>_. Inr ())
      | Chain certs \<Rightarrow>
          if \<not> (2 \<le> length certs \<and> length certs \<le> MAX_X5CHAIN_CERTIFICATES)
          then Inl MalformedHeader
          else bind_result (check_certificate_sizes certs 0) (\<lambda>_. Inr ()))"

fun check_certificate_values :: "cbor_value list \<Rightarrow> nat \<Rightarrow> cose_error + nat" where
  "check_certificate_values [] total_bytes = Inr total_bytes"
| "check_certificate_values (v # vs) total_bytes =
     (case v of
        Bytes certificate \<Rightarrow>
          bind_result (check_certificate_size certificate total_bytes) (check_certificate_values vs)
      | _ \<Rightarrow> Inl MalformedHeader)"

fun collect_certificates :: "cbor_value list \<Rightarrow> cose_error + bytes list" where
  "collect_certificates [] = Inr []"
| "collect_certificates (v # vs) =
     (case v of
        Bytes bytes \<Rightarrow> bind_result (collect_certificates vs) (\<lambda>cs. Inr (bytes # cs))
      | _ \<Rightarrow> Inl MalformedHeader)"

definition x5chain_from_value :: "cbor_value \<Rightarrow> cose_error + x5chain" where
  "x5chain_from_value v =
     (case v of
        Bytes certificate \<Rightarrow> bind_result (check_certificate_size certificate 0) (\<lambda>_. Inr (Single certificate))
      | Array certs \<Rightarrow>
          if \<not> (2 \<le> length certs \<and> length certs \<le> MAX_X5CHAIN_CERTIFICATES)
          then Inl MalformedHeader
          else
            bind_result (check_certificate_values certs 0) (\<lambda>_.
              bind_result (collect_certificates certs) (\<lambda>cs. Inr (Chain cs)))
      | _ \<Rightarrow> Inl MalformedHeader)"

definition x5chain_to_value :: "x5chain \<Rightarrow> cbor_value" where
  "x5chain_to_value x =
     (case x of Single certificate \<Rightarrow> Bytes certificate | Chain certs \<Rightarrow> Array (map Bytes certs))"

section \<open>Messages\<close>

record unprotected_header =
  up_kid :: "bytes option"
  up_x5chain :: "x5chain option"
  private_labels :: "(int \<times> bytes) list"

definition private_label :: "unprotected_header \<Rightarrow> int \<Rightarrow> bytes option" where
  "private_label h label = map_of (private_labels h) label"

record cose_sign1 =
  cs_protected :: bytes
  cs_unprotected :: unprotected_header
  cs_payload :: "bytes option"
  cs_signature :: bytes

definition sig_structure_value :: "bytes \<Rightarrow> bytes \<Rightarrow> bytes \<Rightarrow> cbor_value" where
  "sig_structure_value protected external_aad payload =
     Array [Text ''Signature1'', Bytes protected, Bytes external_aad, Bytes payload]"

definition sig_structure :: "bytes \<Rightarrow> bytes \<Rightarrow> bytes \<Rightarrow> bytes" where
  "sig_structure protected external_aad payload =
     to_canonical (sig_structure_value protected external_aad payload)"

text \<open>The CBOR integer for a label or algorithm identifier, \<open>as u64\<close> casts included.\<close>

definition cbor_int :: "int \<Rightarrow> cbor_value" where
  "cbor_int i = (if i < 0 then Nint (word_of_int (-1 - i)) else Uint (word_of_int i))"

definition encode_protected_header :: "alg \<Rightarrow> bytes" where
  "encode_protected_header alg = to_canonical (Map [(Uint ALG, cbor_int (cose_alg_id alg))])"

definition encode_protected_header_with_crit :: "alg \<Rightarrow> int list \<Rightarrow> bytes" where
  "encode_protected_header_with_crit alg crit_labels =
     to_canonical (Map
       [(Uint ALG, cbor_int (cose_alg_id alg)),
        (Uint CRIT, Array (map cbor_int crit_labels))])"

record protected_header =
  ph_alg :: alg
  ph_kid :: "bytes option"
  ph_x5chain :: "x5chain option"

section \<open>Header parsing\<close>

definition integer_label :: "cbor_value \<Rightarrow> cose_error + int" where
  "integer_label v =
     (case v of
        Uint n \<Rightarrow> if int (unat n) \<le> i64_max then Inr (int (unat n)) else Inl MalformedHeader
      | Nint n \<Rightarrow> if int (unat n) \<le> i64_max then Inr (-1 - int (unat n)) else Inl MalformedHeader
      | _ \<Rightarrow> Inl MalformedHeader)"

definition header_value :: "(cbor_value \<times> cbor_value) list \<Rightarrow> u64 \<Rightarrow> cbor_value option" where
  "header_value pairs label = map_of pairs (Uint label)"

definition check_unique_header_labels :: "(cbor_value \<times> cbor_value) list \<Rightarrow> cose_error + unit" where
  "check_unique_header_labels pairs = ensure (distinct (map fst pairs)) MalformedHeader"

text \<open>The loop over \<open>crit\<close>, with the items already seen.\<close>

fun check_crit_items ::
    "(cbor_value \<times> cbor_value) list \<Rightarrow> cbor_value list \<Rightarrow> cbor_value list \<Rightarrow> cose_error + unit" where
  "check_crit_items pairs seen [] = Inr ()"
| "check_crit_items pairs seen (item # items) =
     bind_result (integer_label item) (\<lambda>lbl.
       if lbl = int (unat CRIT) then Inl MalformedHeader
       else if lbl \<noteq> int (unat ALG) \<and> lbl \<noteq> int (unat KID) \<and> lbl \<noteq> int (unat X5CHAIN)
       then Inl (UnknownCriticalParam lbl)
       else if item \<in> set seen \<or> item \<notin> set (map fst pairs) then Inl MalformedHeader
       else check_crit_items pairs (seen @ [item]) items)"

definition check_crit :: "(cbor_value \<times> cbor_value) list \<Rightarrow> cose_error + unit" where
  "check_crit pairs =
     (case header_value pairs CRIT of
        None \<Rightarrow> Inr ()
      | Some (Array items) \<Rightarrow>
          if items = [] then Inl MalformedHeader else check_crit_items pairs [] items
      | Some _ \<Rightarrow> Inl MalformedHeader)"

definition header_kid :: "(cbor_value \<times> cbor_value) list \<Rightarrow> cose_error + bytes option" where
  "header_kid pairs =
     (case header_value pairs KID of
        Some (Bytes kid) \<Rightarrow> Inr (Some kid)
      | Some _ \<Rightarrow> Inl MalformedHeader
      | None \<Rightarrow> Inr None)"

definition header_x5chain :: "(cbor_value \<times> cbor_value) list \<Rightarrow> cose_error + x5chain option" where
  "header_x5chain pairs =
     (case header_value pairs X5CHAIN of
        None \<Rightarrow> Inr None
      | Some v \<Rightarrow> bind_result (x5chain_from_value v) (\<lambda>x. Inr (Some x)))"

definition parse_and_check_protected_header :: "bytes \<Rightarrow> cose_error + protected_header" where
  "parse_and_check_protected_header protected =
     bind_result (map_err (\<lambda>_. MalformedHeader) (from_canonical_slice protected)) (\<lambda>v.
       case v of
         Map pairs \<Rightarrow>
           bind_result (check_unique_header_labels pairs) (\<lambda>_.
           bind_result (check_crit pairs) (\<lambda>_.
           bind_result (ok_or (header_value pairs ALG) MalformedHeader) (\<lambda>alg_value.
           bind_result (integer_label alg_value) (\<lambda>i.
           bind_result (ok_or (alg_from_id i) MalformedHeader) (\<lambda>alg.
           bind_result (header_kid pairs) (\<lambda>kid.
           bind_result (header_x5chain pairs) (\<lambda>x5.
             Inr \<lparr>ph_alg = alg, ph_kid = kid, ph_x5chain = x5\<rparr>)))))))
       | _ \<Rightarrow> Inl MalformedHeader)"

text \<open>The loop that retains private-use labels, with the entries retained so far.\<close>

fun collect_private_labels :: "(cbor_value \<times> cbor_value) list \<Rightarrow> (int \<times> bytes) list \<Rightarrow> (int \<times> bytes) list" where
  "collect_private_labels [] acc = acc"
| "collect_private_labels ((key, v) # pairs) acc =
     (case (integer_label key, v) of
        (Inr label, Bytes bytes) \<Rightarrow>
          if label \<ge> 0 \<or> length bytes > MAX_PRIVATE_LABEL_BYTES then collect_private_labels pairs acc
          else if length acc \<ge> MAX_PRIVATE_LABELS then acc
          else collect_private_labels pairs (acc @ [(label, bytes)])
      | _ \<Rightarrow> collect_private_labels pairs acc)"

definition parse_unprotected_header :: "cbor_value \<Rightarrow> cose_error + unprotected_header" where
  "parse_unprotected_header v =
     (case v of
        Map pairs \<Rightarrow>
          bind_result (check_unique_header_labels pairs) (\<lambda>_.
          bind_result (ensure (\<not> (header_value pairs ALG \<noteq> None \<or> header_value pairs CRIT \<noteq> None)) MalformedHeader) (\<lambda>_.
          bind_result (header_kid pairs) (\<lambda>kid.
          bind_result (header_x5chain pairs) (\<lambda>x5.
            Inr \<lparr>up_kid = kid, up_x5chain = x5, private_labels = collect_private_labels pairs []\<rparr>))))
      | _ \<Rightarrow> Inl MalformedStructure)"

definition check_header_collisions :: "protected_header \<Rightarrow> unprotected_header \<Rightarrow> cose_error + unit" where
  "check_header_collisions protected unprotected =
     (if ph_kid protected \<noteq> None \<and> up_kid unprotected \<noteq> None
         \<or> ph_x5chain protected \<noteq> None \<and> up_x5chain unprotected \<noteq> None
      then Inl MalformedHeader
      else (case up_x5chain unprotected of Some x \<Rightarrow> x5chain_validate x | None \<Rightarrow> Inr ()))"

section \<open>Sign, verify, wire structure\<close>

definition cose_sign ::
    "signer \<Rightarrow> key_ref \<Rightarrow> alg \<Rightarrow> bytes \<Rightarrow> bytes \<Rightarrow> unprotected_header \<Rightarrow> cose_error + cose_sign1" where
  "cose_sign signer key alg payload external_aad unprotected =
     (let protected = encode_protected_header alg in
      bind_result (parse_and_check_protected_header protected) (\<lambda>protected_header.
      bind_result (check_header_collisions protected_header unprotected) (\<lambda>_.
      let tbs = sig_structure protected external_aad payload in
      bind_result (map_err Cose_Crypto (signer key alg tbs)) (\<lambda>signature.
        Inr \<lparr>cs_protected = protected, cs_unprotected = unprotected, cs_payload = Some payload,
          cs_signature = signature\<rparr>))))"

definition cose_verify ::
    "cose_sign1 \<Rightarrow> verifier \<Rightarrow> alg \<Rightarrow> bytes \<Rightarrow> bytes \<Rightarrow> bytes option \<Rightarrow> cose_error + unit" where
  "cose_verify c verifier expected_alg public_key external_aad detached_payload =
     bind_result (parse_and_check_protected_header (cs_protected c)) (\<lambda>protected_header.
     bind_result (check_header_collisions protected_header (cs_unprotected c)) (\<lambda>_.
     if ph_alg protected_header \<noteq> expected_alg then Inl AlgMismatch
     else
       bind_result
         (case (cs_payload c, detached_payload) of
            (Some p, None) \<Rightarrow> Inr p
          | (None, Some p) \<Rightarrow> Inr p
          | _ \<Rightarrow> Inl MalformedStructure)
         (\<lambda>payload.
           let tbs = sig_structure (cs_protected c) external_aad payload in
           map_err Cose_Crypto (verifier expected_alg public_key tbs (cs_signature c)))))"

definition cose_x5chain :: "cose_sign1 \<Rightarrow> cose_error + x5chain option" where
  "cose_x5chain c =
     bind_result (parse_and_check_protected_header (cs_protected c)) (\<lambda>protected.
     bind_result (check_header_collisions protected (cs_unprotected c)) (\<lambda>_.
       Inr (case ph_x5chain protected of Some x \<Rightarrow> Some x | None \<Rightarrow> up_x5chain (cs_unprotected c))))"

definition cose_from_value :: "cbor_value \<Rightarrow> cose_error + cose_sign1" where
  "cose_from_value v =
     (case v of
        Array items \<Rightarrow>
          if length items \<noteq> 4 then Inl MalformedStructure
          else
            bind_result (case items ! 0 of Bytes b \<Rightarrow> Inr b | _ \<Rightarrow> Inl MalformedStructure) (\<lambda>protected.
            bind_result (parse_and_check_protected_header protected) (\<lambda>protected_header.
            bind_result (parse_unprotected_header (items ! 1)) (\<lambda>unprotected.
            bind_result (check_header_collisions protected_header unprotected) (\<lambda>_.
            bind_result
              (case items ! 2 of Bytes b \<Rightarrow> Inr (Some b) | Null \<Rightarrow> Inr None | _ \<Rightarrow> Inl MalformedStructure)
              (\<lambda>payload.
            bind_result (case items ! 3 of Bytes b \<Rightarrow> Inr b | _ \<Rightarrow> Inl MalformedStructure) (\<lambda>signature.
              Inr \<lparr>cs_protected = protected, cs_unprotected = unprotected, cs_payload = payload,
                cs_signature = signature\<rparr>))))))
      | _ \<Rightarrow> Inl MalformedStructure)"

definition unprotected_pairs :: "unprotected_header \<Rightarrow> (cbor_value \<times> cbor_value) list" where
  "unprotected_pairs h =
     (case up_kid h of Some kid \<Rightarrow> [(Uint KID, Bytes kid)] | None \<Rightarrow> [])
     @ (case up_x5chain h of Some x \<Rightarrow> [(Uint X5CHAIN, x5chain_to_value x)] | None \<Rightarrow> [])
     @ map (\<lambda>(label, bytes). (cbor_int label, Bytes bytes)) (private_labels h)"

definition cose_to_value :: "cose_sign1 \<Rightarrow> cbor_value" where
  "cose_to_value c =
     Array
       [Bytes (cs_protected c),
        Map (unprotected_pairs (cs_unprotected c)),
        (case cs_payload c of Some p \<Rightarrow> Bytes p | None \<Rightarrow> Null),
        Bytes (cs_signature c)]"

section \<open>The signature structure\<close>

lemma sig_structure_accepted:
  "length p < 2 ^ 64 \<Longrightarrow> length a < 2 ^ 64 \<Longrightarrow> length m < 2 ^ 64 \<Longrightarrow> cbor_accepted (sig_structure_value p a m)"
  by (simp add: sig_structure_value_def MAX_DEPTH_def valid_str_def valid_utf8_def as_bytes_def)

lemma sig_structure_inject:
  assumes "length p < 2 ^ 64" "length a < 2 ^ 64" "length m < 2 ^ 64"
    "length p' < 2 ^ 64" "length a' < 2 ^ 64" "length m' < 2 ^ 64"
  shows "sig_structure p a m = sig_structure p' a' m' \<longleftrightarrow> p = p' \<and> a = a' \<and> m = m'"
  unfolding sig_structure_def
  using cbor.enc_inject [OF sig_structure_accepted [OF assms(1-3)] sig_structure_accepted [OF assms(4-6)]]
  by (simp add: sig_structure_value_def)

section \<open>Labels\<close>

lemma int_unat_word_of_int: "0 \<le> i \<Longrightarrow> i < 2 ^ 64 \<Longrightarrow> int (unat (word_of_int i :: u64)) = i"
  by (simp add: uint_word_of_int)

lemma integer_label_cbor_int [simp]: "in_i64 i \<Longrightarrow> integer_label (cbor_int i) = Inr i"
  using int_unat_word_of_int [of "-1 - i"] int_unat_word_of_int [of i]
  by (auto simp: integer_label_def cbor_int_def in_i64_def i64_min_def i64_max_def)

lemma integer_label_Inr: "integer_label v = Inr i \<longleftrightarrow> in_i64 i \<and> v = cbor_int i"
proof
  assume v: "integer_label v = Inr i"
  have pos: "- 1 < uint n" for n :: u64 using uint_ge_0 [of n] by linarith
  from v show "in_i64 i \<and> v = cbor_int i"
    by (cases v) (auto simp: integer_label_def cbor_int_def in_i64_def i64_min_def i64_max_def pos
        intro: order_trans [OF _ uint_ge_0] split: if_splits)
qed simp

lemma alg_from_cose_alg_id [simp]: "alg_from_id (cose_alg_id alg) = Some alg"
  by (cases alg) (simp_all add: alg_from_id_def cose_alg_id_def)

lemma alg_from_id_Some: "alg_from_id i = Some alg \<longleftrightarrow> i = cose_alg_id alg"
  by (cases alg) (auto simp: alg_from_id_def cose_alg_id_def)

lemma in_i64_cose_alg_id [simp]: "in_i64 (cose_alg_id alg)"
  by (cases alg) (simp_all add: cose_alg_id_def i64_defs)

lemma canonical_cbor_int [simp]: "canonical (cbor_int i)" "within_depth d (cbor_int i) \<longleftrightarrow> d \<le> MAX_DEPTH"
  by (simp_all add: cbor_int_def)

lemma encoded_header_parses:
  "parse_and_check_protected_header (encode_protected_header alg)
    = Inr \<lparr>ph_alg = alg, ph_kid = None, ph_x5chain = None\<rparr>"
proof -
  have "from_canonical_slice (encode_protected_header alg) = Inr (Map [(Uint ALG, cbor_int (cose_alg_id alg))])"
    unfolding encode_protected_header_def by (intro cbor.dec_enc) (simp add: MAX_DEPTH_def)
  then show ?thesis
    by (simp add: parse_and_check_protected_header_def check_unique_header_labels_def check_crit_def
        header_value_def header_kid_def header_x5chain_def cose_labels)
qed

section \<open>Protected headers fail closed\<close>

lemma check_crit_items_ok:
  assumes "check_crit_items pairs seen items = Inr ()"
  shows "distinct items" "set items \<inter> set seen = {}" "set items \<subseteq> fst ` set pairs"
    "set items \<subseteq> {Uint ALG, Uint KID, Uint X5CHAIN}"
proof -
  have "distinct items \<and> set items \<inter> set seen = {} \<and> set items \<subseteq> fst ` set pairs
      \<and> set items \<subseteq> {Uint ALG, Uint KID, Uint X5CHAIN}"
    using assms
  proof (induction pairs seen items rule: check_crit_items.induct)
    case (2 pairs seen item items)
    then obtain lbl where "integer_label item = Inr lbl" "lbl \<in> {1, 4, 33}"
      by (auto simp: bind_result_Inr_iff cose_labels split: if_splits)
    then have "item \<in> {Uint ALG, Uint KID, Uint X5CHAIN}"
      by (auto simp: integer_label_Inr cbor_int_def cose_labels)
    with 2 show ?case by (auto simp: bind_result_Inr_iff split: if_splits)
  qed simp
  then show "distinct items" "set items \<inter> set seen = {}" "set items \<subseteq> fst ` set pairs"
    "set items \<subseteq> {Uint ALG, Uint KID, Uint X5CHAIN}" by auto
qed

lemma protected_header_Inr:
  assumes "parse_and_check_protected_header b = Inr ph"
  obtains pairs where "b = to_canonical (Map pairs)" "cbor_accepted (Map pairs)" "distinct (map fst pairs)"
    "check_crit pairs = Inr ()" "header_value pairs ALG = Some (cbor_int (cose_alg_id (ph_alg ph)))"
    "header_kid pairs = Inr (ph_kid ph)" "header_x5chain pairs = Inr (ph_x5chain ph)"
proof -
  from assms obtain v where v: "from_canonical_slice b = Inr v"
    by (auto simp: parse_and_check_protected_header_def bind_result_Inr_iff)
  with assms obtain pairs where pairs: "v = Map pairs"
    by (cases v) (auto simp: parse_and_check_protected_header_def)
  show thesis
  proof
    show "b = to_canonical (Map pairs)" "cbor_accepted (Map pairs)"
      using v unfolding pairs from_canonical_slice_Inr_iff by blast+
    show "distinct (map fst pairs)" "check_crit pairs = Inr ()"
      "header_value pairs ALG = Some (cbor_int (cose_alg_id (ph_alg ph)))"
      "header_kid pairs = Inr (ph_kid ph)" "header_x5chain pairs = Inr (ph_x5chain ph)"
      using assms
      by (auto simp: parse_and_check_protected_header_def v pairs bind_result_Inr_iff
          check_unique_header_labels_def integer_label_Inr alg_from_id_Some)
  qed
qed

text \<open>
  C13. Protected headers fail closed. An accepted protected header is the one canonical encoding of
  a map without repeated labels; it names exactly the algorithm reported; and if it lists critical
  labels, the list is non-empty and free of repetitions, and every entry is a label this profile
  implements (\<open>alg\<close>, \<open>kid\<close>, \<open>x5chain\<close>) that is present in the header.
\<close>

theorem protected_header_fail_closed:
  assumes "parse_and_check_protected_header b = Inr ph"
  shows "\<exists>pairs. b = to_canonical (Map pairs) \<and> from_canonical_slice b = Inr (Map pairs)
    \<and> distinct (map fst pairs)
    \<and> (Uint ALG, cbor_int (cose_alg_id (ph_alg ph))) \<in> set pairs
    \<and> (\<forall>crit. (Uint CRIT, crit) \<in> set pairs \<longrightarrow>
         (\<exists>items. crit = Array items \<and> items \<noteq> [] \<and> distinct items \<and> set items \<subseteq> fst ` set pairs
            \<and> set items \<subseteq> {Uint ALG, Uint KID, Uint X5CHAIN}))"
proof -
  obtain pairs where p: "b = to_canonical (Map pairs)" "cbor_accepted (Map pairs)" "distinct (map fst pairs)"
    "check_crit pairs = Inr ()" "header_value pairs ALG = Some (cbor_int (cose_alg_id (ph_alg ph)))"
    using protected_header_Inr [OF assms] by metis
  have crit: "\<exists>items. crit = Array items \<and> items \<noteq> [] \<and> distinct items \<and> set items \<subseteq> fst ` set pairs
      \<and> set items \<subseteq> {Uint ALG, Uint KID, Uint X5CHAIN}" if "(Uint CRIT, crit) \<in> set pairs" for crit
  proof -
    from that p(3) have "header_value pairs CRIT = Some crit" by (simp add: header_value_def)
    with p(4) obtain items where "crit = Array items" "items \<noteq> []" "check_crit_items pairs [] items = Inr ()"
      by (auto simp: check_crit_def split: cbor_value.splits if_splits)
    with check_crit_items_ok show ?thesis by metis
  qed
  have "(Uint ALG, cbor_int (cose_alg_id (ph_alg ph))) \<in> set pairs"
    using p(5) by (simp add: header_value_def map_of_SomeD)
  with p crit show ?thesis
    by (intro exI [of _ pairs]) (simp add: from_canonical_slice_Inr_iff)
qed

theorem protected_header_fail_closed_witness:
  "\<exists>pairs. from_canonical_slice (encode_protected_header Es384) = Inr (Map pairs)
    \<and> (Uint ALG, cbor_int (-35)) \<in> set pairs"
  using protected_header_fail_closed [OF encoded_header_parses [of Es384]]
  by (auto simp: cose_alg_id_def)

section \<open>Integrity\<close>

lemma protected_header_length: "length (encode_protected_header alg) < 2 ^ 64"
  by (cases alg) (simp_all add: encode_protected_header_def cose_alg_id_def cbor_int_def cose_labels
      canonical_pairs_def flatten_pairs_def write_head_def)

lemma cose_sign_Inr:
  assumes "cose_sign signer key alg payload aad up = Inr c"
  obtains s where
    "check_header_collisions \<lparr>ph_alg = alg, ph_kid = None, ph_x5chain = None\<rparr> up = Inr ()"
    "signer key alg (sig_structure (encode_protected_header alg) aad payload) = Inr s"
    "c = \<lparr>cs_protected = encode_protected_header alg, cs_unprotected = up, cs_payload = Some payload,
        cs_signature = s\<rparr>"
  using assms by (auto simp: cose_sign_def bind_result_Inr_iff encoded_header_parses Let_def)

lemma signed_message_verifies:
  assumes "cose_sign signer key alg payload aad up = Inr c"
    "\<And>m s. signer key alg m = Inr s \<Longrightarrow> verifier alg pk m s = Inr ()"
  shows "cose_verify c verifier alg pk aad None = Inr ()" "cs_payload c = Some payload"
  by (rule cose_sign_Inr [OF assms(1)], simp add: cose_verify_def encoded_header_parses Let_def assms(2))+

text \<open>
  Signing and verifying agree: for a correct signature scheme, a message made by \<open>sign\<close>
  verifies under the same algorithm and associated data, with the payload attached or detached; it
  is refused for any other algorithm and when a payload is supplied twice or not at all.
\<close>

theorem cose_sign_verifies:
  assumes "cose_sign signer key alg payload aad up = Inr c"
    and correct: "\<And>m s. signer key alg m = Inr s \<Longrightarrow> verifier alg pk m s = Inr ()"
  shows "cose_verify c verifier alg pk aad None = Inr ()
    \<and> cose_verify (c\<lparr>cs_payload := None\<rparr>) verifier alg pk aad (Some payload) = Inr ()
    \<and> cose_verify c verifier alg pk aad (Some payload') = Inl MalformedStructure
    \<and> cose_verify (c\<lparr>cs_payload := None\<rparr>) verifier alg pk aad None = Inl MalformedStructure
    \<and> (alg' \<noteq> alg \<longrightarrow> cose_verify c verifier alg' pk aad det = Inl AlgMismatch)"
proof -
  from cose_sign_Inr [OF assms(1)] obtain s where
    "check_header_collisions \<lparr>ph_alg = alg, ph_kid = None, ph_x5chain = None\<rparr> up = Inr ()"
    "signer key alg (sig_structure (encode_protected_header alg) aad payload) = Inr s"
    "c = \<lparr>cs_protected = encode_protected_header alg, cs_unprotected = up, cs_payload = Some payload,
        cs_signature = s\<rparr>" .
  with correct show ?thesis by (simp add: cose_verify_def encoded_header_parses Let_def)
qed

definition toy_signer :: signer where
  "toy_signer = (\<lambda>_ _ m. Inr (m @ [1]))"

definition toy_verifier :: verifier where
  "toy_verifier = (\<lambda>_ _ m s. if s = m @ [1] then Inr () else Inl NotFound)"

abbreviation empty_unprotected :: unprotected_header where
  "empty_unprotected \<equiv> \<lparr>up_kid = None, up_x5chain = None, private_labels = []\<rparr>"

abbreviation toy_message :: cose_sign1 where
  "toy_message \<equiv> \<lparr>cs_protected = encode_protected_header Es256, cs_unprotected = empty_unprotected,
     cs_payload = Some [7], cs_signature = sig_structure (encode_protected_header Es256) [] [7] @ [1]\<rparr>"

lemma toy_signs: "cose_sign toy_signer (KeyRef ''k'') Es256 [7] [] empty_unprotected = Inr toy_message"
  by (simp add: cose_sign_def encoded_header_parses check_header_collisions_def toy_signer_def Let_def)

theorem cose_sign_verifies_witness:
  "cose_verify toy_message toy_verifier Es256 [] [] None = Inr ()
    \<and> cose_verify toy_message toy_verifier EdDsa [] [] None = Inl AlgMismatch"
  using cose_sign_verifies [OF toy_signs, where verifier = toy_verifier and pk = "[]" and alg' = EdDsa and det = None]
  by (auto simp: toy_signer_def toy_verifier_def)

lemma verified_payload_signed:
  assumes ok: "cose_verify c verifier alg pk aad det = Inr ()"
    and unforgeable: "\<And>m s. verifier alg pk m s = Inr () \<Longrightarrow>
      \<exists>(a, p) \<in> H. m = sig_structure (encode_protected_header alg) a p"
    and sizes: "\<forall>(a, p) \<in> H. length a < 2 ^ 64 \<and> length p < 2 ^ 64"
      "length (cs_protected c) < 2 ^ 64" "length aad < 2 ^ 64"
      "\<And>p. cs_payload c = Some p \<or> det = Some p \<Longrightarrow> length p < 2 ^ 64"
  shows "cs_protected c = encode_protected_header alg
    \<and> (\<exists>p. (aad, p) \<in> H \<and> (cs_payload c, det) \<in> {(Some p, None), (None, Some p)})"
proof -
  from ok obtain p where p: "(cs_payload c, det) \<in> {(Some p, None), (None, Some p)}"
    and "verifier alg pk (sig_structure (cs_protected c) aad p) (cs_signature c) = Inr ()"
    by (auto simp: cose_verify_def bind_result_Inr_iff Let_def split: if_splits option.splits)
  from unforgeable [OF this(2)] obtain a q where H: "(a, q) \<in> H"
    "sig_structure (cs_protected c) aad p = sig_structure (encode_protected_header alg) a q"
    by auto
  moreover from H(1) sizes(1) have "length a < 2 ^ 64" "length q < 2 ^ 64" by auto
  moreover from p sizes(4) have "length p < 2 ^ 64" by auto
  ultimately have eq: "cs_protected c = encode_protected_header alg" "aad = a" "p = q"
    using sig_structure_inject [of "cs_protected c" aad p "encode_protected_header alg" a q] sizes(2,3)
      protected_header_length [of alg] by simp_all
  with H(1) p show ?thesis by blast
qed

text \<open>
  C12. Integrity: let the verifier accept, for this key, only messages its holder signed, and let
  everything the holder signed be the signature structure of some associated data and payload in
  \<open>H\<close> under this algorithm's header. Then a verified message carries that header byte for byte,
  exactly one of the attached and the detached payload is given, and it forms with the caller's
  associated data a pair of \<open>H\<close>: neither header, payload nor associated data can be changed.
\<close>

theorem cose_integrity:
  assumes ok: "cose_verify c verifier alg pk aad det = Inr ()"
    and unforgeable: "\<And>m s. verifier alg pk m s = Inr () \<Longrightarrow>
      \<exists>(a, p) \<in> H. m = sig_structure (encode_protected_header alg) a p"
    and sizes: "\<forall>(a, p) \<in> H. length a < 2 ^ 64 \<and> length p < 2 ^ 64"
      "length (cs_protected c) < 2 ^ 64" "length aad < 2 ^ 64"
      "\<And>p. cs_payload c = Some p \<or> det = Some p \<Longrightarrow> length p < 2 ^ 64"
  shows "cs_protected c = encode_protected_header alg
    \<and> (\<exists>p. (aad, p) \<in> H \<and> (cs_payload c, det) \<in> {(Some p, None), (None, Some p)})"
  using assms by (rule verified_payload_signed)

definition strict_verifier :: verifier where
  "strict_verifier = (\<lambda>_ _ m s.
     if m = sig_structure (encode_protected_header Es256) [] [7] \<and> s = m @ [1] then Inr () else Inl NotFound)"

theorem cose_integrity_witness:
  "\<exists>p. ([], p) \<in> {([], [7])} \<and> (cs_payload toy_message, None) \<in> {(Some p, None), (None, Some p)}"
proof -
  have "cose_verify toy_message strict_verifier Es256 [] [] None = Inr ()"
    by (simp add: cose_verify_def encoded_header_parses check_header_collisions_def strict_verifier_def Let_def)
  from cose_integrity [OF this, where H = "{([], [7])}", THEN conjunct2] show ?thesis
    using protected_header_length [of Es256] by (simp add: strict_verifier_def split: if_splits)
qed

section \<open>The wire structure\<close>

lemma check_certificate_values_Bytes: "check_certificate_values (map Bytes cs) n = check_certificate_sizes cs n"
  by (induction cs arbitrary: n) (auto simp: bind_result_def split: sum.splits)

lemma collect_certificates_Inr: "collect_certificates vs = Inr cs \<longleftrightarrow> vs = map Bytes cs"
  by (induction vs arbitrary: cs) (auto simp: bind_result_Inr_iff split: cbor_value.splits)

lemma x5chain_from_value_Inr:
  "x5chain_from_value v = Inr x \<longleftrightarrow> v = x5chain_to_value x \<and> x5chain_validate x = Inr ()"
proof (cases v)
  case (Array vs)
  then show ?thesis
    by (cases x) (auto simp: x5chain_from_value_def x5chain_to_value_def x5chain_validate_def
        bind_result_Inr_iff collect_certificates_Inr check_certificate_values_Bytes)
qed (cases x; auto simp: x5chain_from_value_def x5chain_to_value_def x5chain_validate_def bind_result_Inr_iff)+

lemma cbor_int_inject: "in_i64 i \<Longrightarrow> in_i64 j \<Longrightarrow> cbor_int i = cbor_int j \<longleftrightarrow> i = j"
  by (metis Inr_inject integer_label_cbor_int)

text \<open>The entries the retention loop keeps: the first eight private-use byte strings, in order.\<close>

definition private_entry :: "cbor_value \<times> cbor_value \<Rightarrow> (int \<times> bytes) option" where
  "private_entry kv =
     (case (integer_label (fst kv), snd kv) of
        (Inr label, Bytes b) \<Rightarrow> if label \<ge> 0 \<or> length b > MAX_PRIVATE_LABEL_BYTES then None else Some (label, b)
      | _ \<Rightarrow> None)"

definition label_pair :: "int \<times> bytes \<Rightarrow> cbor_value \<times> cbor_value" where
  "label_pair lb = (cbor_int (fst lb), Bytes (snd lb))"

lemma private_entry_Some:
  "private_entry kv = Some (l, b) \<longleftrightarrow>
     kv = label_pair (l, b) \<and> in_i64 l \<and> l < 0 \<and> length b \<le> MAX_PRIVATE_LABEL_BYTES"
  by (cases kv)
    (auto simp: private_entry_def label_pair_def integer_label_Inr cbor_int_inject not_le split: sum.splits cbor_value.splits if_splits)

lemma collect_private_labels_take:
  "length acc \<le> MAX_PRIVATE_LABELS \<Longrightarrow> collect_private_labels pairs acc
    = acc @ take (MAX_PRIVATE_LABELS - length acc) (List.map_filter private_entry pairs)"
proof (induction pairs acc rule: collect_private_labels.induct)
  case (2 key v pairs acc)
  show ?case
  proof (cases "private_entry (key, v)")
    case None
    with 2 show ?thesis
      by (auto simp: private_entry_def map_filter_simps split: sum.splits cbor_value.splits if_splits)
  next
    case (Some e)
    then obtain l b where e: "integer_label key = Inr l" "v = Bytes b" "e = (l, b)"
      "\<not> (l \<ge> 0 \<or> length b > MAX_PRIVATE_LABEL_BYTES)"
      by (auto simp: private_entry_def split: sum.splits cbor_value.splits if_splits)
    show ?thesis
    proof (cases "length acc = MAX_PRIVATE_LABELS")
      case True
      with e show ?thesis by simp
    next
      case False
      with 2 have "length acc < MAX_PRIVATE_LABELS" by simp
      moreover from this have "MAX_PRIVATE_LABELS - length acc = Suc (MAX_PRIVATE_LABELS - Suc (length acc))" by simp
      ultimately show ?thesis using 2 e Some by (simp add: map_filter_simps)
    qed
  qed
qed (simp add: map_filter_simps)

lemma subseq_private_entries: "subseq (map label_pair (List.map_filter private_entry pairs)) pairs"
proof (induction pairs)
  case (Cons kv pairs)
  then show ?case
    by (cases "private_entry kv") (auto simp: map_filter_simps private_entry_Some)
qed (simp add: map_filter_simps)

lemma private_entries_set:
  "lb \<in> set (List.map_filter private_entry pairs) \<Longrightarrow> \<exists>kv \<in> set pairs. private_entry kv = Some lb"
  by (induction pairs) (auto simp: map_filter_simps split: option.splits)

definition private_ok :: "(int \<times> bytes) list \<Rightarrow> bool" where
  "private_ok ls \<longleftrightarrow> length ls \<le> MAX_PRIVATE_LABELS \<and> distinct (map fst ls)
     \<and> (\<forall>(l, b) \<in> set ls. in_i64 l \<and> l < 0 \<and> length b \<le> MAX_PRIVATE_LABEL_BYTES)"

lemma subseq_label_pairs: "subseq (map label_pair (collect_private_labels pairs [])) pairs"
proof -
  have "subseq (take MAX_PRIVATE_LABELS (map label_pair (List.map_filter private_entry pairs)))
      (map label_pair (List.map_filter private_entry pairs))"
    by (intro prefix_imp_subseq take_is_prefix)
  from subseq_order.trans [OF this subseq_private_entries]
  show ?thesis by (simp add: collect_private_labels_take take_map [symmetric])
qed

lemma collect_private_ok:
  assumes "distinct (map fst pairs)"
  shows "private_ok (collect_private_labels pairs [])"
proof -
  have "distinct (map fst (map label_pair (collect_private_labels pairs [])))"
    using subseq_map [OF subseq_label_pairs, of fst pairs] assms by (rule subseq_distinct_list)
  then have "distinct (map fst (collect_private_labels pairs []))"
    by (auto simp: distinct_map inj_on_def label_pair_def)
  moreover have "\<forall>(l, b) \<in> set (collect_private_labels pairs []).
      in_i64 l \<and> l < 0 \<and> length b \<le> MAX_PRIVATE_LABEL_BYTES"
    by (auto simp: collect_private_labels_take private_entry_Some dest!: in_set_takeD private_entries_set)
  ultimately show ?thesis by (simp add: private_ok_def collect_private_labels_take)
qed



definition unprotected_ok :: "unprotected_header \<Rightarrow> bool" where
  "unprotected_ok h \<longleftrightarrow> private_ok (private_labels h)
     \<and> (\<forall>x. up_x5chain h = Some x \<longrightarrow> x5chain_validate x = Inr ())"

lemma unprotected_pairs_eq:
  "unprotected_pairs h =
     (case up_kid h of Some kid \<Rightarrow> [(Uint KID, Bytes kid)] | None \<Rightarrow> [])
     @ (case up_x5chain h of Some x \<Rightarrow> [(Uint X5CHAIN, x5chain_to_value x)] | None \<Rightarrow> [])
     @ map label_pair (private_labels h)"
  by (simp add: unprotected_pairs_def label_pair_def case_prod_beta)

lemma label_keys_negative:
  "\<forall>(l, b) \<in> set ls. l < 0 \<Longrightarrow> map_of (map label_pair ls) (Uint n) = None"
  by (induction ls) (auto simp: label_pair_def cbor_int_def)

lemma private_entries_label_pairs:
  "private_ok ls \<Longrightarrow> List.map_filter private_entry (map label_pair ls) = ls"
proof -
  have "\<forall>(l, b) \<in> set ls. in_i64 l \<and> l < 0 \<and> length b \<le> MAX_PRIVATE_LABEL_BYTES \<Longrightarrow>
      List.map_filter private_entry (map label_pair ls) = ls"
  proof (induction ls)
    case (Cons lb ls)
    then have "private_entry (label_pair lb) = Some lb"
      by (cases lb) (auto simp: private_entry_Some)
    with Cons show ?case by (simp add: map_filter_simps)
  qed (simp add: map_filter_simps)
  then show "private_ok ls \<Longrightarrow> ?thesis" by (simp add: private_ok_def)
qed

lemma private_entry_Uint: "private_entry (Uint n, v) = None"
  by (simp add: private_entry_def integer_label_def split: cbor_value.split)

lemma unprotected_distinct:
  assumes "private_ok (private_labels h)"
  shows "distinct (map fst (unprotected_pairs h))"
proof -
  let ?ls = "private_labels h"
  have "\<forall>l \<in> fst ` set ?ls. in_i64 l" using assms by (auto simp: private_ok_def)
  then have "inj_on cbor_int (fst ` set ?ls)" by (intro inj_onI) (metis cbor_int_inject)
  then have "distinct (map cbor_int (map fst ?ls))"
    using assms by (subst distinct_map) (simp add: private_ok_def)
  moreover have "Uint n \<notin> cbor_int ` fst ` set ?ls" for n
    using assms by (auto simp: private_ok_def cbor_int_def)
  moreover have "fst \<circ> label_pair = cbor_int \<circ> fst" by (auto simp: label_pair_def)
  ultimately show ?thesis
    by (auto simp: unprotected_pairs_eq cose_labels label_pair_def image_image split: option.split)
qed

lemma parse_unprotected_pairs:
  assumes "unprotected_ok h"
  shows "parse_unprotected_header (Map (unprotected_pairs h)) = Inr h"
proof -
  have pr: "private_ok (private_labels h)" using assms by (simp add: unprotected_ok_def)
  then have neg: "\<forall>(l, b) \<in> set (private_labels h). l < 0" by (auto simp: private_ok_def)
  have len: "length (private_labels h) \<le> MAX_PRIVATE_LABELS" using pr by (simp add: private_ok_def)
  have "collect_private_labels (unprotected_pairs h) [] = private_labels h"
    using private_entries_label_pairs [OF pr] len
    by (simp add: collect_private_labels_take unprotected_pairs_eq map_filter_simps
        private_entry_Uint split: option.split)
  moreover have "check_unique_header_labels (unprotected_pairs h) = Inr ()"
    using unprotected_distinct [OF pr] by (simp add: check_unique_header_labels_def)
  moreover have "header_value (unprotected_pairs h) ALG = None" "header_value (unprotected_pairs h) CRIT = None"
    by (simp_all add: header_value_def unprotected_pairs_eq label_keys_negative [OF neg] map_add_def cose_labels
        split: option.split)
  moreover have "header_kid (unprotected_pairs h) = Inr (up_kid h)"
    by (simp add: header_kid_def header_value_def unprotected_pairs_eq label_keys_negative [OF neg] map_add_def
        cose_labels split: option.split)
  moreover have "header_x5chain (unprotected_pairs h) = Inr (up_x5chain h)"
    using assms
    by (simp add: header_x5chain_def header_value_def unprotected_pairs_eq label_keys_negative [OF neg]
        map_add_def cose_labels x5chain_from_value_Inr bind_result_Inr_iff unprotected_ok_def split: option.split)
  ultimately show ?thesis by (simp add: parse_unprotected_header_def)
qed

lemma cose_reparses:
  assumes "parse_and_check_protected_header (cs_protected c) = Inr ph"
    "check_header_collisions ph (cs_unprotected c) = Inr ()" "unprotected_ok (cs_unprotected c)"
  shows "cose_from_value (cose_to_value c) = Inr c"
  using assms
  by (simp add: cose_from_value_def cose_to_value_def parse_unprotected_pairs split: option.split)


lemma parse_unprotected_ok:
  assumes "parse_unprotected_header (Map pairs) = Inr h"
  shows "unprotected_ok h" "subseq (map label_pair (private_labels h)) pairs"
    "header_kid pairs = Inr (up_kid h)" "header_x5chain pairs = Inr (up_x5chain h)"
proof -
  from assms have d: "distinct (map fst pairs)" and kid: "header_kid pairs = Inr (up_kid h)"
    and x5: "header_x5chain pairs = Inr (up_x5chain h)"
    and pl: "private_labels h = collect_private_labels pairs []"
    by (auto simp: parse_unprotected_header_def bind_result_Inr_iff check_unique_header_labels_def)
  from kid x5 show "header_kid pairs = Inr (up_kid h)" "header_x5chain pairs = Inr (up_x5chain h)" .
  show "subseq (map label_pair (private_labels h)) pairs"
    unfolding pl by (rule subseq_label_pairs)
  show "unprotected_ok h"
    using collect_private_ok [OF d] x5
    by (auto simp: unprotected_ok_def pl header_x5chain_def bind_result_Inr_iff x5chain_from_value_Inr
        split: option.splits)
qed

lemma less_by_major: "drop_bit 5 x < drop_bit 5 y \<Longrightarrow> x < (y :: u8)"
  using div_le_mono [of "unat y" "unat x" 32]
  by (force simp: word_less_nat_alt drop_bit_eq_div unat_div)

lemma Uint_before_Nint: "to_canonical (Uint m) < to_canonical (Nint n)"
proof -
  have "drop_bit 5 (push_bit 5 0 OR head_info m) = 0" "drop_bit 5 (push_bit 5 1 OR head_info n) = 1"
    by (rule head_byte; simp add: head_info_lt)+
  moreover have zero: "(0 :: u8) < 1" by simp
  ultimately have "push_bit 5 0 OR head_info m < push_bit 5 1 OR head_info n"
    using less_by_major [of "push_bit 5 0 OR head_info m" "push_bit 5 1 OR head_info n"] zero
    by (simp only:)
  then show ?thesis
    unfolding to_canonical.simps write_head_split Cons_less_Cons by (rule disjI1)
qed

lemma unprotected_pairs_subset:
  assumes "parse_unprotected_header (Map pairs) = Inr h"
  shows "set (unprotected_pairs h) \<subseteq> set pairs"
proof -
  note p = parse_unprotected_ok [OF assms]
  have "(Uint KID, Bytes kid) \<in> set pairs" if "up_kid h = Some kid" for kid
    using p(3) that
    by (auto simp: header_kid_def header_value_def dest: map_of_SomeD split: option.splits cbor_value.splits)
  moreover have "(Uint X5CHAIN, x5chain_to_value x) \<in> set pairs" if "up_x5chain h = Some x" for x
    using p(4) that
    by (auto simp: header_x5chain_def header_value_def bind_result_Inr_iff x5chain_from_value_Inr
        dest: map_of_SomeD split: option.splits)
  moreover have "label_pair ` set (private_labels h) \<subseteq> set pairs"
    using subseq_set [OF p(2)] by (simp only: set_map subset_iff) blast
  ultimately show ?thesis
    unfolding unprotected_pairs_eq set_append set_map by (intro Un_least) (auto split: option.split)
qed

lemma unprotected_sorted:
  assumes "parse_unprotected_header (Map pairs) = Inr h" "sorted_wrt (<) (map key_bytes pairs)"
  shows "sorted_wrt (<) (map key_bytes (unprotected_pairs h))"
proof -
  note p = parse_unprotected_ok [OF assms(1)]
  have "sorted_wrt (<) (map key_bytes (map label_pair (private_labels h)))"
    using subseq_sorted_wrt [OF subseq_map [OF p(2), of key_bytes] assms(2)] .
  moreover have "to_canonical (Uint n) < key_bytes kv" if "kv \<in> set (map label_pair (private_labels h))" for n kv
  proof -
    from that p(1) obtain l b where "kv = label_pair (l, b)" "l < 0"
      by (auto simp: unprotected_ok_def private_ok_def)
    then show ?thesis using Uint_before_Nint [of n] by (simp add: label_pair_def cbor_int_def)
  qed
  moreover have "to_canonical (Uint KID) < to_canonical (Uint X5CHAIN)"
    by (simp add: cose_labels write_head_def)
  ultimately show ?thesis
    by (auto simp: unprotected_pairs_eq simp del: to_canonical.simps split: option.split)
qed

lemma unprotected_canonical:
  assumes "parse_unprotected_header (Map pairs) = Inr h" "canonical (Map pairs)" "within_depth d (Map pairs)"
  shows "canonical (Map (unprotected_pairs h))" "within_depth d (Map (unprotected_pairs h))"
proof -
  have "length (unprotected_pairs h) \<le> 2 + MAX_PRIVATE_LABELS"
    using parse_unprotected_ok(1) [OF assms(1)]
    by (auto simp: unprotected_pairs_eq unprotected_ok_def private_ok_def split: option.split)
  then have "length (unprotected_pairs h) < 2 ^ 64" by (simp add: cose_limits)
  then show "canonical (Map (unprotected_pairs h))" "within_depth d (Map (unprotected_pairs h))"
    using assms unprotected_pairs_subset [OF assms(1)] unprotected_sorted [OF assms(1)]
    by (auto simp: list_all_iff simp del: to_canonical.simps)
qed

lemma cose_from_value_Inr:
  assumes "cose_from_value v = Inr c"
  obtains ph pairs where "parse_and_check_protected_header (cs_protected c) = Inr ph"
    "parse_unprotected_header (Map pairs) = Inr (cs_unprotected c)"
    "check_header_collisions ph (cs_unprotected c) = Inr ()"
    "v = Array [Bytes (cs_protected c), Map pairs,
       (case cs_payload c of Some p \<Rightarrow> Bytes p | None \<Rightarrow> Null), Bytes (cs_signature c)]"
proof -
  from assms obtain a b m s where v: "v = Array [a, b, m, s]"
    by (cases v) (auto simp: cose_from_value_def length_Suc_conv eval_nat_numeral split: if_splits)
  with assms obtain pairs where "b = Map pairs"
    by (cases b) (auto simp: cose_from_value_def parse_unprotected_header_def bind_result_Inr_iff)
  with v assms that show thesis
    by (auto simp: cose_from_value_def bind_result_Inr_iff split: cbor_value.splits)
qed

text \<open>
  Re-encoding is stable. A COSE_Sign1 parsed from canonical bytes can be encoded again: the
  bytes are canonical, parse to the same message (protected bytes, payload, signature, key id,
  certificate chain and the retained private-use labels in order), and so verify as before.
\<close>

theorem cose_wire_stable:
  assumes "from_canonical_slice b = Inr v" "cose_from_value v = Inr c"
  shows "from_canonical_slice (to_canonical (cose_to_value c)) = Inr (cose_to_value c)
    \<and> cose_from_value (cose_to_value c) = Inr c"
proof -
  obtain ph pairs where p: "parse_and_check_protected_header (cs_protected c) = Inr ph"
    "parse_unprotected_header (Map pairs) = Inr (cs_unprotected c)"
    "check_header_collisions ph (cs_unprotected c) = Inr ()"
    "v = Array [Bytes (cs_protected c), Map pairs,
       (case cs_payload c of Some p \<Rightarrow> Bytes p | None \<Rightarrow> Null), Bytes (cs_signature c)]"
    using cose_from_value_Inr [OF assms(2)] by metis
  from assms(1) have acc: "cbor_accepted v" by (simp add: from_canonical_slice_Inr_iff)
  have "canonical (Map pairs)" "within_depth 1 (Map pairs)"
    using acc by (simp_all add: p(4))
  from unprotected_canonical [OF p(2) this] have "cbor_accepted (cose_to_value c)"
    using acc unfolding p(4) cose_to_value_def by (simp add: array_accepted del: to_canonical.simps)
  from cbor.dec_enc [OF this] cose_reparses [OF p(1,3) parse_unprotected_ok(1) [OF p(2)]]
  show ?thesis by blast
qed

definition hybrid_message :: cose_sign1 where
  "hybrid_message = \<lparr>cs_protected = encode_protected_header Es256,
     cs_unprotected = \<lparr>up_kid = Some [5], up_x5chain = Some (Single [0x30]), private_labels = [(-70000, [9])]\<rparr>,
     cs_payload = None, cs_signature = [1]\<rparr>"

theorem cose_wire_stable_witness:
  "from_canonical_slice (to_canonical (cose_to_value hybrid_message)) = Inr (cose_to_value hybrid_message)
    \<and> cose_from_value (cose_to_value hybrid_message) = Inr hybrid_message"
proof -
  have ok: "unprotected_ok (cs_unprotected hybrid_message)"
    by (simp add: hybrid_message_def unprotected_ok_def private_ok_def x5chain_validate_def
        check_certificate_size_def cose_limits i64_defs)
  have "check_header_collisions \<lparr>ph_alg = Es256, ph_kid = None, ph_x5chain = None\<rparr>
      (cs_unprotected hybrid_message) = Inr ()"
    by (simp add: check_header_collisions_def hybrid_message_def x5chain_validate_def
        check_certificate_size_def cose_limits)
  then have v: "cose_from_value (cose_to_value hybrid_message) = Inr hybrid_message"
    using encoded_header_parses [of Es256] ok by (intro cose_reparses) (simp_all add: hybrid_message_def)
  have "cbor_accepted (cose_to_value hybrid_message)"
    using protected_header_length [of Es256]
    by (simp add: cose_to_value_def hybrid_message_def unprotected_pairs_def x5chain_to_value_def cbor_int_def
        cose_labels MAX_DEPTH_def write_head_def)
  then have "from_canonical_slice (to_canonical (cose_to_value hybrid_message)) = Inr (cose_to_value hybrid_message)"
    by (rule cbor.dec_enc)
  from cose_wire_stable [OF this v] show ?thesis .
qed

end
