(* ===== verification/Tdate.thy ===== *)
theory Tdate
  imports Complex_Main Wallet_Std "HOL-Library.Monad_Syntax"
begin

text \<open>
  CBOR tag-0 date-times of \<open>crates/mdoc/src/lib.rs\<close> (\<open>TDate\<close>): the RFC 3339 parser with its
  civil-date conversion and the ordering by instant. Intermediate \<open>i64\<close> values stay far inside
  their range (years 1 to 9999), so they are plain integers; Rust's truncating division is
  \<open>div\<close> because every dividend is non-negative.
\<close>

section \<open>Data\<close>

record tdate =
  unix_seconds :: int
  fraction :: bytes

section \<open>Parsing\<close>

fun digits_fold :: "int \<Rightarrow> bytes \<Rightarrow> int option" where
  "digits_fold n [] = Some n"
| "digits_fold n (b # bs) =
     (if is_ascii_digit b then digits_fold (n * 10 + int (unat (b - 0x30))) bs else None)"

definition digits :: "bytes \<Rightarrow> nat \<Rightarrow> nat \<Rightarrow> int option" where
  "digits bytes start fin =
     (if start \<le> fin \<and> fin \<le> length bytes then digits_fold 0 (take (fin - start) (drop start bytes))
      else None)"

definition byte_at :: "bytes \<Rightarrow> nat \<Rightarrow> u8 option" where
  "byte_at bytes i = (if i < length bytes then Some (bytes ! i) else None)"

definition leap_year :: "int \<Rightarrow> bool" where
  "leap_year year \<longleftrightarrow> year mod 4 = 0 \<and> (year mod 100 \<noteq> 0 \<or> year mod 400 = 0)"

definition month_days :: "bool \<Rightarrow> int list" where
  "month_days leap = [31, if leap then 29 else 28, 31, 30, 31, 30, 31, 31, 30, 31, 30, 31]"

definition days_from_civil :: "int \<Rightarrow> int \<Rightarrow> int \<Rightarrow> int" where
  "days_from_civil year month day =
     (let adjusted_year = year - (if month \<le> 2 then 1 else 0);
          era = adjusted_year div 400;
          year_of_era = adjusted_year - era * 400;
          shifted_month = month + (if month > 2 then -3 else 9);
          day_of_year = (153 * shifted_month + 2) div 5 + day - 1;
          day_of_era = year_of_era * 365 + year_of_era div 4 - year_of_era div 100 + day_of_year
      in era * 146097 + day_of_era - 719468)"

text \<open>The optional fraction: its digits without trailing zeroes and the index after it.\<close>

definition parse_fraction :: "bytes \<Rightarrow> (bytes \<times> nat) option" where
  "parse_fraction bytes =
     (if byte_at bytes 19 = Some 0x2E then
        let ds = takeWhile is_ascii_digit (drop 20 bytes) in
        if ds = [] then None
        else Some (rev (dropWhile (\<lambda>d. d = 0) (rev (map (\<lambda>b. b - 0x30) ds))), 20 + length ds)
      else Some ([], 19))"

definition parse_offset :: "bytes \<Rightarrow> nat \<Rightarrow> int option" where
  "parse_offset bytes sfx =
     (case byte_at bytes sfx of
        None \<Rightarrow> None
      | Some b \<Rightarrow>
          if b = 0x5A \<and> sfx + 1 = length bytes then Some 0
          else if (b = 0x2B \<or> b = 0x2D) \<and> sfx + 6 = length bytes then
            if bytes ! (sfx + 3) \<noteq> 0x3A then None
            else do {
              offset_hour \<leftarrow> digits bytes (sfx + 1) (sfx + 3);
              offset_minute \<leftarrow> digits bytes (sfx + 4) (sfx + 6);
              if offset_hour > 23 \<or> offset_minute > 59 then None
              else if b = 0x2D \<and> offset_hour = 0 \<and> offset_minute = 0 then None
              else
                let magnitude = offset_hour * 3600 + offset_minute * 60 in
                Some (if b = 0x2B then magnitude else - magnitude)
            }
          else None)"

definition tdate_parse :: "string \<Rightarrow> tdate option" where
  "tdate_parse s =
     (let bytes = as_bytes s in
      if length bytes < 20 \<or> bytes ! 4 \<noteq> 0x2D \<or> bytes ! 7 \<noteq> 0x2D \<or> bytes ! 10 \<noteq> 0x54
         \<or> bytes ! 13 \<noteq> 0x3A \<or> bytes ! 16 \<noteq> 0x3A then None
      else do {
        year \<leftarrow> digits bytes 0 4;
        month \<leftarrow> digits bytes 5 7;
        day \<leftarrow> digits bytes 8 10;
        hour \<leftarrow> digits bytes 11 13;
        minute \<leftarrow> digits bytes 14 16;
        second \<leftarrow> digits bytes 17 19;
        if \<not> (1 \<le> year \<and> year \<le> 9999) \<or> \<not> (1 \<le> month \<and> month \<le> 12) \<or> day < 1
           \<or> day > month_days (leap_year year) ! nat (month - 1) \<or> hour > 23 \<or> minute > 59 \<or> second > 59
        then None
        else do {
          (fraction, sfx) \<leftarrow> parse_fraction bytes;
          offset_seconds \<leftarrow> parse_offset bytes sfx;
          let local_seconds = days_from_civil year month day * 86400 + hour * 3600 + minute * 60 + second;
          Some \<lparr>unix_seconds = local_seconds - offset_seconds, fraction = fraction\<rparr>
        }
      })"

definition from_unix_seconds :: "int \<Rightarrow> tdate" where
  "from_unix_seconds s = \<lparr>unix_seconds = s, fraction = []\<rparr>"

definition unix_seconds_ceil :: "tdate \<Rightarrow> int" where
  "unix_seconds_ceil t = saturating_add_i64 (unix_seconds t) (if fraction t \<noteq> [] then 1 else 0)"

section \<open>Ordering\<close>

definition fraction_digit :: "bytes \<Rightarrow> nat \<Rightarrow> u8" where
  "fraction_digit fr i = (if i < length fr then fr ! i else 0)"

definition tdate_cmp :: "tdate \<Rightarrow> tdate \<Rightarrow> ordering" where
  "tdate_cmp a b =
     (case cmp (unix_seconds a) (unix_seconds b) of
        Equal \<Rightarrow>
          let len = max (length (fraction a)) (length (fraction b));
              orderings = map (\<lambda>i. cmp (fraction_digit (fraction a) i) (fraction_digit (fraction b) i)) [0..<len]
          in (case find (\<lambda>ord. ord \<noteq> Equal) orderings of Some ord \<Rightarrow> ord | None \<Rightarrow> Equal)
      | ord \<Rightarrow> ord)"

section \<open>Civil dates\<close>

definition civil_date :: "int \<Rightarrow> int \<Rightarrow> int \<Rightarrow> bool" where
  "civil_date y m d \<longleftrightarrow> 1 \<le> y \<and> 1 \<le> m \<and> m \<le> 12 \<and> 1 \<le> d \<and> d \<le> month_days (leap_year y) ! nat (m - 1)"

text \<open>The calendar: the day after a date.\<close>

definition next_day :: "int \<times> int \<times> int \<Rightarrow> int \<times> int \<times> int" where
  "next_day = (\<lambda>(y, m, d).
     if d < month_days (leap_year y) ! nat (m - 1) then (y, m, d + 1)
     else if m < 12 then (y, m + 1, 1)
     else (y + 1, 1, 1))"

text \<open>Leap days up to a year, and the day offset of a month in a year that starts in March.\<close>

definition leap_days :: "int \<Rightarrow> int" where
  "leap_days y = y div 4 - y div 100 + y div 400"

definition month_offset :: "int \<Rightarrow> int" where
  "month_offset m = (153 * (m + (if m > 2 then -3 else 9)) + 2) div 5"

lemma days_from_civil_flat:
  "days_from_civil y m d =
     (let a = y - (if m \<le> 2 then 1 else 0) in 365 * a + leap_days a + month_offset m + d - 719469)"
proof -
  define a where "a = y - (if m \<le> 2 then 1 else 0)"
  have era: "(x - k * 400) div 4 = x div 4 - 100 * k" "(x - k * 400) div 100 = x div 100 - 4 * k" for x k :: int
    by linarith+
  show ?thesis
    unfolding days_from_civil_def Let_def a_def [symmetric] era leap_days_def month_offset_def
    by (simp add: algebra_simps)
qed

lemma div_pred:
  fixes y k :: int
  assumes "1 < k"
  shows "y div k = (y - 1) div k + (if y mod k = 0 then 1 else 0)"
proof (cases "y mod k = 0")
  case True
  then obtain q where "y = k * q" by (auto simp: mod_eq_0_iff_dvd elim: dvdE)
  moreover have "(k * q - 1) div k = q - 1"
    using assms by (intro int_div_pos_eq [of _ _ _ "k - 1"]) (auto simp: algebra_simps)
  ultimately show ?thesis using assms by simp
next
  case False
  have "0 \<le> y mod k" "y mod k < k" "y = k * (y div k) + y mod k" using assms by simp_all
  with False have "(y - 1) div k = y div k"
    by (intro int_div_pos_eq [of _ _ _ "y mod k - 1"]) auto
  with False show ?thesis by simp
qed

lemma leap_arith:
  fixes q4 q100 q400 p4 p100 p400 :: int
  assumes "q4 = p4 + (if A then 1 else 0)" "q100 = p100 + (if B then 1 else 0)"
    "q400 = p400 + (if C then 1 else 0)" "C \<Longrightarrow> B" "B \<Longrightarrow> A"
  shows "q4 - q100 + q400 = p4 - p100 + p400 + (if A \<and> (\<not> B \<or> C) then 1 else 0)"
  unfolding assms(1-3) using assms(4,5) by (cases A; cases B; cases C) simp_all

lemma leap_count:
  fixes y :: int
  shows "leap_days y = leap_days (y - 1) + (if leap_year y then 1 else 0)"
  unfolding leap_year_def leap_days_def
proof (rule leap_arith)
  have "y mod 400 mod 100 = y mod 100" "y mod 100 mod 4 = y mod 4"
    by (rule mod_mod_cancel; simp)+
  then show "y mod 400 = 0 \<Longrightarrow> y mod 100 = 0" "y mod 100 = 0 \<Longrightarrow> y mod 4 = 0"
    by (metis mod_0)+
  show "y div 4 = (y - 1) div 4 + (if y mod 4 = 0 then 1 else 0)" by (rule div_pred) simp
  show "y div 100 = (y - 1) div 100 + (if y mod 100 = 0 then 1 else 0)" by (rule div_pred) simp
  show "y div 400 = (y - 1) div 400 + (if y mod 400 = 0 then 1 else 0)" by (rule div_pred) simp
qed

lemma month_cases:
  fixes m :: int
  assumes "1 \<le> m" "m \<le> 12"
  shows "m = 1 \<or> m = 2 \<or> m = 3 \<or> m = 4 \<or> m = 5 \<or> m = 6 \<or> m = 7 \<or> m = 8 \<or> m = 9 \<or> m = 10 \<or> m = 11 \<or> m = 12"
  using assms by presburger

lemma month_offsets:
  "month_offset 1 = 306" "month_offset 2 = 337" "month_offset 3 = 0" "month_offset 4 = 31"
  "month_offset 5 = 61" "month_offset 6 = 92" "month_offset 7 = 122" "month_offset 8 = 153"
  "month_offset 9 = 184" "month_offset 10 = 214" "month_offset 11 = 245" "month_offset 12 = 275"
  by (simp_all add: month_offset_def)

lemma days_from_civil_next:
  assumes "civil_date y m d" "next_day (y, m, d) = (y', m', d')"
  shows "days_from_civil y' m' d' = days_from_civil y m d + 1"
proof (cases "d < month_days (leap_year y) ! nat (m - 1)")
  case True
  with assms(2) show ?thesis by (auto simp: next_day_def days_from_civil_flat Let_def)
next
  case False
  with assms(1) have d: "d = month_days (leap_year y) ! nat (m - 1)" and m: "1 \<le> m" "m \<le> 12"
    by (auto simp: civil_date_def)
  from assms(2) False have succ: "(y', m', d') = (if m < 12 then (y, m + 1, 1) else (y + 1, 1, 1))"
    by (simp add: next_day_def)
  from month_cases [OF m] d succ show ?thesis
    by (elim disjE) (simp_all add: month_days_def days_from_civil_flat Let_def month_offsets
        leap_count [of y] split: if_splits)
qed

lemma next_day_valid:
  assumes "civil_date y m d" "next_day (y, m, d) = (y', m', d')"
  shows "civil_date y' m' d'"
proof -
  from assms(1) have m: "1 \<le> m" "m \<le> 12" by (simp_all add: civil_date_def)
  from month_cases [OF m] assms show ?thesis
    by (elim disjE) (auto simp: next_day_def civil_date_def month_days_def split: if_splits)
qed

text \<open>
  The civil-date conversion counts days: 1 January 1970 is day zero, and for every calendar
  date from year one on, the following calendar day is a calendar date with the next number.
\<close>

theorem civil_days_count:
  "days_from_civil 1970 1 1 = 0
    \<and> (civil_date y m d \<longrightarrow>
        (case next_day (y, m, d) of (y', m', d') \<Rightarrow>
           civil_date y' m' d' \<and> days_from_civil y' m' d' = days_from_civil y m d + 1))"
  using days_from_civil_next [of y m d] next_day_valid [of y m d]
  by (auto simp: days_from_civil_def split: prod.split)

theorem civil_days_count_witness:
  "days_from_civil 2024 2 29 = days_from_civil 2024 2 28 + 1
    \<and> days_from_civil 2024 3 1 = days_from_civil 2024 2 29 + 1"
  using civil_days_count [of 2024 2 28] civil_days_count [of 2024 2 29]
  by (simp add: next_day_def civil_date_def month_days_def leap_year_def)

section \<open>Instants\<close>

declare of_nat_unat [simp del]

text \<open>The instant a date denotes: its seconds plus the decimal fraction its digits spell.\<close>

fun fraction_value :: "bytes \<Rightarrow> real" where
  "fraction_value [] = 0"
| "fraction_value (d # ds) = (real (unat d) + fraction_value ds) / 10"

definition instant :: "tdate \<Rightarrow> real" where
  "instant t = real_of_int (unix_seconds t) + fraction_value (fraction t)"

definition decimal :: "bytes \<Rightarrow> bool" where
  "decimal ds \<longleftrightarrow> (\<forall>d \<in> set ds. d \<le> 9)"

definition tdate_ok :: "tdate \<Rightarrow> bool" where
  "tdate_ok t \<longleftrightarrow> decimal (fraction t) \<and> (fraction t \<noteq> [] \<longrightarrow> last (fraction t) \<noteq> 0)"

lemma fraction_value_range: "decimal ds \<Longrightarrow> 0 \<le> fraction_value ds \<and> fraction_value ds < 1"
proof (induction ds)
  case (Cons d ds)
  then have "real (unat d) \<le> 9" by (simp add: decimal_def word_le_nat_alt)
  with Cons show ?case by (simp add: decimal_def)
qed simp

lemma fraction_value_zeros: "fraction_value (ds @ replicate k 0) = fraction_value ds"
proof -
  have "fraction_value (replicate k 0) = 0" by (induction k) simp_all
  then show ?thesis by (induction ds) simp_all
qed

lemma pad_fraction:
  "length fr \<le> n \<Longrightarrow> map (fraction_digit fr) [0..<n] = fr @ replicate (n - length fr) 0"
  by (rule nth_equalityI) (auto simp: fraction_digit_def nth_append)

lemma digit_step:
  fixes x y f g :: real
  assumes "x + 1 \<le> y" "f < 1" "0 \<le> g"
  shows "(x + f) / 10 < (y + g) / 10"
  using assms by simp

lemma first_difference:
  assumes "length xs = length ys" "decimal xs" "decimal ys"
  shows "(case find (\<lambda>ord. ord \<noteq> Equal) (map2 cmp xs ys) of Some ord \<Rightarrow> ord | None \<Rightarrow> Equal)
    = cmp (fraction_value xs) (fraction_value ys)"
  using assms
proof (induction xs ys rule: list_induct2)
  case (Cons x xs y ys)
  have r: "0 \<le> fraction_value xs" "fraction_value xs < 1" "0 \<le> fraction_value ys" "fraction_value ys < 1"
    using Cons.prems fraction_value_range [of xs] fraction_value_range [of ys] by (auto simp: decimal_def)
  consider "x = y" | "unat x < unat y" | "unat y < unat x"
    by (metis linorder_neqE_nat word_unat_eq_iff)
  then show ?case
  proof cases
    case 1
    with Cons show ?thesis by (simp add: decimal_def cmp_def)
  next
    case 2
    then have "fraction_value (x # xs) < fraction_value (y # ys)"
      using r digit_step [of "real (unat x)" "real (unat y)"] by simp
    with 2 show ?thesis by (simp add: cmp_def word_less_nat_alt)
  next
    case 3
    then have "fraction_value (y # ys) < fraction_value (x # xs)"
      using r digit_step [of "real (unat y)" "real (unat x)"] by simp
    with 3 show ?thesis by (simp add: cmp_def word_less_nat_alt word_unat_eq_iff)
  qed
qed (simp add: cmp_def)

lemma tdate_cmp_instant:
  assumes "decimal (fraction a)" "decimal (fraction b)"
  shows "tdate_cmp a b = cmp (instant a) (instant b)"
proof -
  let ?n = "max (length (fraction a)) (length (fraction b))"
  let ?pad = "\<lambda>fr. fr @ replicate (?n - length fr) 0"
  have "map (\<lambda>i. cmp (fraction_digit (fraction a) i) (fraction_digit (fraction b) i)) [0..<?n]
      = map2 cmp (map (fraction_digit (fraction a)) [0..<?n]) (map (fraction_digit (fraction b)) [0..<?n])"
    by (simp add: zip_map_map zip_same_conv_map)
  also have "\<dots> = map2 cmp (?pad (fraction a)) (?pad (fraction b))"
    by (simp add: pad_fraction)
  finally have eq: "map (\<lambda>i. cmp (fraction_digit (fraction a) i) (fraction_digit (fraction b) i)) [0..<?n]
      = map2 cmp (?pad (fraction a)) (?pad (fraction b))" .
  have "(case find (\<lambda>ord. ord \<noteq> Equal) (map2 cmp (?pad (fraction a)) (?pad (fraction b))) of
      Some ord \<Rightarrow> ord | None \<Rightarrow> Equal) = cmp (fraction_value (fraction a)) (fraction_value (fraction b))"
    using assms by (subst first_difference) (auto simp: decimal_def fraction_value_zeros)
  then have fr: "tdate_cmp a b =
      (case cmp (unix_seconds a) (unix_seconds b) of
         Equal \<Rightarrow> cmp (fraction_value (fraction a)) (fraction_value (fraction b)) | ord \<Rightarrow> ord)"
    unfolding tdate_cmp_def Let_def eq by (simp only:)
  note r = fraction_value_range [OF assms(1)] fraction_value_range [OF assms(2)]
  have "unix_seconds a < unix_seconds b \<Longrightarrow> instant a < instant b"
    "unix_seconds b < unix_seconds a \<Longrightarrow> instant b < instant a"
    using r unfolding instant_def by linarith+
  then show ?thesis
    unfolding fr by (auto simp: cmp_def instant_def split: ordering.split)
qed

lemma stripped_digits:
  assumes "\<forall>b \<in> set ds. is_ascii_digit b"
  defines "fr \<equiv> rev (dropWhile (\<lambda>d. d = 0) (rev (map (\<lambda>b. b - 0x30) ds)))"
  shows "decimal fr" "fr \<noteq> [] \<Longrightarrow> last fr \<noteq> 0"
proof -
  have le: "b - 0x30 \<le> 9" if "is_ascii_digit b" for b
  proof -
    from that have b: "48 \<le> unat b" "unat b \<le> 57" by (simp_all add: is_ascii_digit_def word_le_nat_alt)
    then have "unat (b - 0x30) = unat b - 48" by (simp add: unat_sub word_le_nat_alt)
    with b show ?thesis by (simp add: word_le_nat_alt)
  qed
  have "set fr \<subseteq> (\<lambda>b. b - 0x30) ` set ds"
    unfolding fr_def set_rev using set_dropWhileD by fastforce
  with assms(1) show "decimal fr" by (auto simp: decimal_def intro!: le)
  show "last fr \<noteq> 0" if "fr \<noteq> []"
    using that unfolding fr_def by (metis (mono_tags, lifting) hd_dropWhile last_rev rev_is_Nil_conv)
qed

lemma parse_fraction_ok:
  assumes "parse_fraction bytes = Some (fr, sfx)"
  shows "decimal fr" "fr \<noteq> [] \<Longrightarrow> last fr \<noteq> 0"
proof -
  have "\<forall>b \<in> set (takeWhile is_ascii_digit (drop 20 bytes)). is_ascii_digit b"
    by (auto dest: set_takeWhileD)
  from stripped_digits [OF this] assms show "decimal fr" "fr \<noteq> [] \<Longrightarrow> last fr \<noteq> 0"
    unfolding parse_fraction_def Let_def by (force simp: decimal_def split: if_splits)+
qed

lemma tdate_parse_ok: "tdate_parse s = Some t \<Longrightarrow> tdate_ok t"
  by (auto simp: tdate_parse_def tdate_ok_def Let_def parse_fraction_ok split: bind_splits if_splits)

lemma digits_nonneg: "digits bytes i j = Some n \<Longrightarrow> 0 \<le> n"
proof -
  have "0 \<le> m \<Longrightarrow> digits_fold m bs = Some n \<Longrightarrow> 0 \<le> n" for m bs
    by (induction m bs rule: digits_fold.induct) (auto split: if_splits)
  then show "digits bytes i j = Some n \<Longrightarrow> 0 \<le> n" by (auto simp: digits_def split: if_splits)
qed

lemma days_from_civil_bound:
  assumes "1 \<le> y" "y \<le> 9999" "1 \<le> m" "m \<le> 12" "1 \<le> d" "d \<le> 31"
  shows "\<bar>days_from_civil y m d\<bar> < 10000000"
proof -
  define a where "a = y - (if m \<le> 2 then 1 else 0)"
  have a: "0 \<le> a" "a \<le> 9999" using assms by (auto simp: a_def)
  have "0 \<le> a div 4" "a div 4 \<le> 9999" "0 \<le> a div 100" "a div 100 \<le> 9999" "0 \<le> a div 400" "a div 400 \<le> 9999"
    using a by linarith+
  then have "\<bar>leap_days a\<bar> \<le> 19998" by (simp add: leap_days_def)
  moreover have "0 \<le> month_offset m" "month_offset m \<le> 337"
    using month_cases [OF assms(3,4)] by (auto simp: month_offsets)
  ultimately show ?thesis
    using a assms(5,6) unfolding days_from_civil_flat Let_def a_def [symmetric] by linarith
qed

lemma month_days_le: "month_days leap ! nat (m - 1) \<le> 31" if "1 \<le> m" "m \<le> 12"
  using month_cases [OF that] by (auto simp: month_days_def)

lemma parse_offset_bound:
  assumes "parse_offset bytes n = Some off"
  shows "\<bar>off\<bar> \<le> 86400"
proof -
  from assms consider "off = 0"
    | h mi where "digits bytes (n + 1) (n + 3) = Some h" "digits bytes (n + 4) (n + 6) = Some mi"
      "h \<le> 23" "mi \<le> 59" "off = h * 3600 + mi * 60 \<or> off = - (h * 3600 + mi * 60)"
    by (auto simp: parse_offset_def Let_def not_less split: option.splits if_splits bind_splits)
  then show ?thesis
  proof cases
    case (2 h mi)
    note nn = digits_nonneg [OF 2(1)] digits_nonneg [OF 2(2)]
    with 2 show ?thesis by linarith
  qed simp
qed

lemma tdate_parse_Some:
  assumes "tdate_parse s = Some t"
  obtains y m d h mi se off sfx where "digits (as_bytes s) 11 13 = Some h" "digits (as_bytes s) 14 16 = Some mi"
    "digits (as_bytes s) 17 19 = Some se" "1 \<le> y" "y \<le> 9999" "1 \<le> m" "m \<le> 12" "1 \<le> d"
    "d \<le> month_days (leap_year y) ! nat (m - 1)" "h \<le> 23" "mi \<le> 59" "se \<le> 59"
    "parse_offset (as_bytes s) sfx = Some off"
    "unix_seconds t = days_from_civil y m d * 86400 + h * 3600 + mi * 60 + se - off"
  using assms by (auto simp: tdate_parse_def Let_def not_less split: if_splits bind_splits)

lemma tdate_parse_range:
  assumes "tdate_parse s = Some t"
  shows "\<bar>unix_seconds t\<bar> < 1000000000000"
proof -
  from tdate_parse_Some [OF assms] obtain y m d h mi se off where c: "1 \<le> y" "y \<le> 9999" "1 \<le> m" "m \<le> 12" "1 \<le> d"
    "d \<le> month_days (leap_year y) ! nat (m - 1)" "0 \<le> h" "h \<le> 23" "0 \<le> mi" "mi \<le> 59" "0 \<le> se" "se \<le> 59"
    "\<bar>off\<bar> \<le> 86400" "unix_seconds t = days_from_civil y m d * 86400 + h * 3600 + mi * 60 + se - off"
    by (metis digits_nonneg parse_offset_bound)
  have "\<bar>days_from_civil y m d\<bar> < 10000000"
    using c month_days_le [of m "leap_year y"] by (intro days_from_civil_bound) auto
  with c show ?thesis by linarith
qed

lemma strip_padded:
  assumes "fr \<noteq> [] \<longrightarrow> last fr \<noteq> (0 :: u8)"
  shows "rev (dropWhile (\<lambda>d. d = 0) (rev (fr @ replicate k 0))) = fr"
proof -
  have "dropWhile (\<lambda>d. d = 0) (replicate k (0 :: u8) @ xs) = dropWhile (\<lambda>d. d = 0) xs" for xs
    by (induction k) simp_all
  then show ?thesis using assms by (cases fr rule: rev_cases) simp_all
qed

lemma fraction_value_inject:
  assumes "decimal xs" "decimal ys" "length xs = length ys" "fraction_value xs = fraction_value ys"
  shows "xs = ys"
  using assms(3,1,2,4)
proof (induction xs ys rule: list_induct2)
  case (Cons x xs y ys)
  have r: "0 \<le> fraction_value xs" "fraction_value xs < 1" "0 \<le> fraction_value ys" "fraction_value ys < 1"
    using Cons.prems fraction_value_range [of xs] fraction_value_range [of ys] by (auto simp: decimal_def)
  from Cons.prems have eq: "real (unat x) + fraction_value xs = real (unat y) + fraction_value ys" by simp
  have "unat x = unat y"
  proof (rule ccontr)
    assume "unat x \<noteq> unat y"
    then have "real (unat x) + 1 \<le> real (unat y) \<or> real (unat y) + 1 \<le> real (unat x)" by linarith
    with eq r show False by linarith
  qed
  with Cons eq show ?case by (simp add: decimal_def word_unat_eq_iff)
qed simp

lemma instant_inject:
  assumes "tdate_ok a" "tdate_ok b" "instant a = instant b"
  shows "a = b"
proof -
  let ?n = "max (length (fraction a)) (length (fraction b))"
  let ?pad = "\<lambda>fr. fr @ replicate (?n - length fr) 0"
  have r: "0 \<le> fraction_value (fraction a) \<and> fraction_value (fraction a) < 1"
    "0 \<le> fraction_value (fraction b) \<and> fraction_value (fraction b) < 1"
    using assms(1,2) fraction_value_range by (auto simp: tdate_ok_def)
  then have u: "unix_seconds a = unix_seconds b" using assms(3) unfolding instant_def by linarith
  with assms(3) have "fraction_value (?pad (fraction a)) = fraction_value (?pad (fraction b))"
    by (simp add: instant_def fraction_value_zeros)
  then have "?pad (fraction a) = ?pad (fraction b)"
    using assms(1,2) by (intro fraction_value_inject) (auto simp: tdate_ok_def decimal_def)
  then have "fraction a = fraction b"
    using strip_padded [of "fraction a"] strip_padded [of "fraction b"] assms(1,2)
    unfolding tdate_ok_def by metis
  with u show ?thesis by simp
qed

text \<open>
  Parsed dates are ordered by the instants they denote, whatever offset or number of fraction
  digits they were written with: comparison gives the order of the instants, two dates denote the
  same instant exactly when they are equal, and comparing with a whole-second clock is exact. The
  ceiling used for retention is the least whole second not before the instant.
\<close>

theorem tdate_order_is_instant_order:
  assumes "tdate_parse s = Some a" "tdate_parse t = Some b"
  shows "tdate_cmp a b = cmp (instant a) (instant b)
    \<and> (instant a = instant b \<longleftrightarrow> a = b)
    \<and> tdate_cmp a (from_unix_seconds now) = cmp (instant a) (real_of_int now)
    \<and> unix_seconds_ceil a = \<lceil>instant a\<rceil>"
proof (intro conjI)
  note ok = tdate_parse_ok [OF assms(1)] tdate_parse_ok [OF assms(2)]
  show "tdate_cmp a b = cmp (instant a) (instant b)"
    using ok by (intro tdate_cmp_instant) (auto simp: tdate_ok_def)
  show "instant a = instant b \<longleftrightarrow> a = b" using instant_inject [OF ok] by auto
  show "tdate_cmp a (from_unix_seconds now) = cmp (instant a) (real_of_int now)"
    using ok by (subst tdate_cmp_instant) (auto simp: tdate_ok_def decimal_def from_unix_seconds_def instant_def)
  have small: "in_i64 (unix_seconds a)" "in_i64 (unix_seconds a + 1)"
    using tdate_parse_range [OF assms(1)] by (auto simp: i64_defs)
  have r: "0 \<le> fraction_value (fraction a)" "fraction_value (fraction a) < 1"
    using ok(1) fraction_value_range by (auto simp: tdate_ok_def)
  show "unix_seconds_ceil a = \<lceil>instant a\<rceil>"
  proof (cases "fraction a = []")
    case True
    with small show ?thesis
      by (simp add: unix_seconds_ceil_def instant_def saturating_add_i64_def saturating_i64_id)
  next
    case False
    have "fraction_value (fraction a) \<noteq> 0"
    proof
      assume "fraction_value (fraction a) = 0"
      then have "fraction a = replicate (length (fraction a)) 0"
        using ok(1) fraction_value_zeros [of "[]"]
        by (intro fraction_value_inject) (auto simp: tdate_ok_def decimal_def)
      with False ok(1) show False unfolding tdate_ok_def by (metis last_replicate length_0_conv)
    qed
    with r have "\<lceil>instant a\<rceil> = unix_seconds a + 1"
      unfolding instant_def by linarith
    with False small show ?thesis
      by (simp add: unix_seconds_ceil_def saturating_add_i64_def saturating_i64_id)
  qed
qed

lemma sample_tdates:
  "tdate_parse ''2026-01-01T01:00:00.50+01:00'' = Some \<lparr>unix_seconds = 1767225600, fraction = [5]\<rparr>"
  "tdate_parse ''2026-01-01T00:00:00.5Z'' = Some \<lparr>unix_seconds = 1767225600, fraction = [5]\<rparr>"
  by code_simp+

theorem tdate_order_is_instant_order_witness:
  "tdate_cmp \<lparr>unix_seconds = 1767225600, fraction = [5]\<rparr> (from_unix_seconds 1767225600)
    = cmp (instant \<lparr>unix_seconds = 1767225600, fraction = [5]\<rparr>) (real_of_int 1767225600)"
  using tdate_order_is_instant_order [OF sample_tdates] by blast

end
