(* ===== verification/Mdoc.thy ===== *)
theory Mdoc
  imports Cose Tdate
begin

text \<open>
  The ISO mdoc credential format, \<open>crates/mdoc/src/lib.rs\<close>: issuer-signed items, the mobile
  security object (MSO), issuing and verifying, the \<open>IssuerSigned\<close> wire structure, device
  authentication, the OpenID4VP session transcripts and the device response. \<open>BTreeMap\<close>s are
  ordered association lists. The digest, the signer and the verifier are arguments.
\<close>

section \<open>Errors and typed access\<close>

datatype mdoc_error =
    Mdoc_Cose cose_error
  | Mdoc_Cbor cbor_error
  | Mdoc_Malformed string
  | DigestMismatch

definition map_get :: "(cbor_value \<times> cbor_value) list \<Rightarrow> string \<Rightarrow> cbor_value option" where
  "map_get pairs key = map_of pairs (Text key)"

definition value_text :: "cbor_value \<Rightarrow> string \<Rightarrow> mdoc_error + string" where
  "value_text v ctx = (case v of Text s \<Rightarrow> Inr s | _ \<Rightarrow> Inl (Mdoc_Malformed ctx))"

definition value_bytes :: "cbor_value \<Rightarrow> string \<Rightarrow> mdoc_error + bytes" where
  "value_bytes v ctx = (case v of Bytes b \<Rightarrow> Inr b | _ \<Rightarrow> Inl (Mdoc_Malformed ctx))"

definition value_uint :: "cbor_value \<Rightarrow> string \<Rightarrow> mdoc_error + u64" where
  "value_uint v ctx = (case v of Uint n \<Rightarrow> Inr n | _ \<Rightarrow> Inl (Mdoc_Malformed ctx))"

definition tdate_value :: "string \<Rightarrow> string \<Rightarrow> mdoc_error + cbor_value" where
  "tdate_value s ctx =
     bind_result (ok_or (tdate_parse s) (Mdoc_Malformed ctx)) (\<lambda>_. Inr (Tag 0 (Text s)))"

definition value_tdate :: "cbor_value \<Rightarrow> string \<Rightarrow> mdoc_error + string" where
  "value_tdate v ctx =
     (case v of
        Tag t inner \<Rightarrow>
          if t \<noteq> 0 then Inl (Mdoc_Malformed ctx)
          else
            (case inner of
               Text s \<Rightarrow> bind_result (ok_or (tdate_parse s) (Mdoc_Malformed ctx)) (\<lambda>_. Inr s)
             | _ \<Rightarrow> Inl (Mdoc_Malformed ctx))
      | _ \<Rightarrow> Inl (Mdoc_Malformed ctx))"

definition tag24 :: "bytes \<Rightarrow> bytes" where
  "tag24 inner_canonical = to_canonical (Tag 24 (Bytes inner_canonical))"

definition untag24 :: "bytes \<Rightarrow> mdoc_error + bytes" where
  "untag24 bytes =
     bind_result (map_err Mdoc_Cbor (from_canonical_slice bytes)) (\<lambda>v.
       case v of
         Tag t inner \<Rightarrow>
           if t = 24 then
             (case inner of
                Bytes b \<Rightarrow> Inr b
              | _ \<Rightarrow> Inl (Mdoc_Malformed ''tag24 content not a byte string''))
           else Inl (Mdoc_Malformed ''expected tag 24'')
       | _ \<Rightarrow> Inl (Mdoc_Malformed ''expected tag 24''))"

section \<open>Issuer-signed items\<close>

record issuer_signed_item =
  digest_id :: u64
  item_random :: bytes
  element_id :: string
  element_value :: cbor_value

definition item_to_value :: "issuer_signed_item \<Rightarrow> cbor_value" where
  "item_to_value it =
     Map
       [(Text ''digestID'', Uint (digest_id it)),
        (Text ''random'', Bytes (item_random it)),
        (Text ''elementIdentifier'', Text (element_id it)),
        (Text ''elementValue'', element_value it)]"

definition item_from_value :: "cbor_value \<Rightarrow> mdoc_error + issuer_signed_item" where
  "item_from_value v =
     (case v of
        Map pairs \<Rightarrow>
          bind_result (ok_or (map_get pairs ''digestID'') (Mdoc_Malformed ''digestID'')) (\<lambda>d.
          bind_result (value_uint d ''digestID'') (\<lambda>did.
          bind_result (ok_or (map_get pairs ''random'') (Mdoc_Malformed ''random'')) (\<lambda>r.
          bind_result (value_bytes r ''random'') (\<lambda>rnd.
          bind_result (ok_or (map_get pairs ''elementIdentifier'') (Mdoc_Malformed ''elementId'')) (\<lambda>e.
          bind_result (value_text e ''elementIdentifier'') (\<lambda>eid.
          bind_result (ok_or (map_get pairs ''elementValue'') (Mdoc_Malformed ''elementValue'')) (\<lambda>ev.
            Inr \<lparr>digest_id = did, item_random = rnd, element_id = eid, element_value = ev\<rparr>)))))))
      | _ \<Rightarrow> Inl (Mdoc_Malformed ''IssuerSignedItem not a map''))"

definition to_item_bytes :: "issuer_signed_item \<Rightarrow> bytes" where
  "to_item_bytes it = tag24 (to_canonical (item_to_value it))"

definition from_item_bytes :: "bytes \<Rightarrow> mdoc_error + issuer_signed_item" where
  "from_item_bytes bytes =
     bind_result (untag24 bytes) (\<lambda>inner.
     bind_result (map_err Mdoc_Cbor (from_canonical_slice inner)) item_from_value)"

definition item_digest :: "digest \<Rightarrow> issuer_signed_item \<Rightarrow> bytes" where
  "item_digest sha256 it = sha256 (to_item_bytes it)"

section \<open>The mobile security object\<close>

record validity_info =
  vi_signed :: string
  valid_from :: string
  valid_until :: string

record mso_status =
  status_uri :: string
  status_index :: u64

record mobile_security_object =
  mso_version :: string
  digest_algorithm :: string
  doc_type :: string
  value_digests :: "(string \<times> (u64 \<times> bytes) list) list"
  device_key :: cbor_value
  mso_validity_info :: validity_info
  mso_status_ref :: "mso_status option"

definition value_digests_value :: "(string \<times> (u64 \<times> bytes) list) list \<Rightarrow> cbor_value" where
  "value_digests_value vd =
     Map (map (\<lambda>(ns, digests). (Text ns, Map (map (\<lambda>(i, d). (Uint i, Bytes d)) digests))) vd)"

definition mso_status_entry :: "mso_status option \<Rightarrow> (cbor_value \<times> cbor_value) list" where
  "mso_status_entry st =
     (case st of
        None \<Rightarrow> []
      | Some status \<Rightarrow>
          [(Text ''status'',
            Map [(Text ''status_list'',
                  Map [(Text ''idx'', Uint (status_index status)), (Text ''uri'', Text (status_uri status))])])])"

definition mso_to_value :: "mobile_security_object \<Rightarrow> mdoc_error + cbor_value" where
  "mso_to_value mso =
     bind_result (tdate_value (vi_signed (mso_validity_info mso)) ''signed tdate'') (\<lambda>sgn.
     bind_result (tdate_value (valid_from (mso_validity_info mso)) ''validFrom tdate'') (\<lambda>from.
     bind_result (tdate_value (valid_until (mso_validity_info mso)) ''validUntil tdate'') (\<lambda>until.
       Inr (Map
         ([(Text ''version'', Text (mso_version mso)),
           (Text ''digestAlgorithm'', Text (digest_algorithm mso)),
           (Text ''valueDigests'', value_digests_value (value_digests mso)),
           (Text ''deviceKeyInfo'', Map [(Text ''deviceKey'', device_key mso)]),
           (Text ''docType'', Text (doc_type mso)),
           (Text ''validityInfo'',
            Map [(Text ''signed'', sgn), (Text ''validFrom'', from), (Text ''validUntil'', until)])]
          @ mso_status_entry (mso_status_ref mso))))))"

text \<open>The two nested loops over \<open>valueDigests\<close>, inserting into ordered maps.\<close>

fun parse_digests :: "(cbor_value \<times> cbor_value) list \<Rightarrow> (u64 \<times> bytes) list \<Rightarrow> mdoc_error + (u64 \<times> bytes) list" where
  "parse_digests [] m = Inr m"
| "parse_digests ((id_k, d_v) # pairs) m =
     bind_result (value_uint id_k ''digestID'') (\<lambda>i.
     bind_result (value_bytes d_v ''digest'') (\<lambda>d.
     if length d \<noteq> 32 then Inl (Mdoc_Malformed ''digest length'')
     else parse_digests pairs (btree_insert i d m)))"

fun parse_value_digests ::
    "(cbor_value \<times> cbor_value) list \<Rightarrow> (string \<times> (u64 \<times> bytes) list) list
      \<Rightarrow> mdoc_error + (string \<times> (u64 \<times> bytes) list) list" where
  "parse_value_digests [] vd = Inr vd"
| "parse_value_digests ((ns_k, ns_v) # pairs) vd =
     bind_result (value_text ns_k ''namespace'') (\<lambda>ns.
     case ns_v of
       Map digest_pairs \<Rightarrow>
         bind_result (parse_digests digest_pairs []) (\<lambda>m. parse_value_digests pairs (btree_insert ns m vd))
     | _ \<Rightarrow> Inl (Mdoc_Malformed ''namespace not a map''))"

definition parse_device_key :: "(cbor_value \<times> cbor_value) list \<Rightarrow> cbor_value" where
  "parse_device_key pairs =
     (case map_get pairs ''deviceKeyInfo'' of
        Some (Map dki) \<Rightarrow> unwrap_or Null (map_get dki ''deviceKey'')
      | _ \<Rightarrow> Null)"

definition parse_validity_info :: "(cbor_value \<times> cbor_value) list \<Rightarrow> mdoc_error + validity_info" where
  "parse_validity_info pairs =
     (case map_get pairs ''validityInfo'' of
        Some (Map vi) \<Rightarrow>
          bind_result (ok_or (map_get vi ''signed'') (Mdoc_Malformed ''signed tdate'')) (\<lambda>a.
          bind_result (value_tdate a ''signed tdate'') (\<lambda>sgn.
          bind_result (ok_or (map_get vi ''validFrom'') (Mdoc_Malformed ''validFrom tdate'')) (\<lambda>b.
          bind_result (value_tdate b ''validFrom tdate'') (\<lambda>from.
          bind_result (ok_or (map_get vi ''validUntil'') (Mdoc_Malformed ''validUntil tdate'')) (\<lambda>c.
          bind_result (value_tdate c ''validUntil tdate'') (\<lambda>until.
            Inr \<lparr>vi_signed = sgn, valid_from = from, valid_until = until\<rparr>))))))
      | _ \<Rightarrow> Inl (Mdoc_Malformed ''validityInfo''))"

definition parse_mso_status :: "(cbor_value \<times> cbor_value) list \<Rightarrow> mdoc_error + mso_status option" where
  "parse_mso_status pairs =
     (case map_get pairs ''status'' of
        None \<Rightarrow> Inr None
      | Some (Map status_pairs) \<Rightarrow>
          (case map_get status_pairs ''status_list'' of
             Some (Map list_pairs) \<Rightarrow>
               bind_result (ok_or (map_get list_pairs ''uri'') (Mdoc_Malformed ''status_list.uri'')) (\<lambda>u.
               bind_result (value_text u ''status_list.uri'') (\<lambda>uri.
               bind_result (ok_or (map_get list_pairs ''idx'') (Mdoc_Malformed ''status_list.idx'')) (\<lambda>i.
               bind_result (value_uint i ''status_list.idx'') (\<lambda>index.
                 Inr (Some \<lparr>status_uri = uri, status_index = index\<rparr>)))))
           | _ \<Rightarrow> Inl (Mdoc_Malformed ''status.status_list''))
      | Some _ \<Rightarrow> Inl (Mdoc_Malformed ''status not a map''))"

definition mso_from_value :: "cbor_value \<Rightarrow> mdoc_error + mobile_security_object" where
  "mso_from_value v =
     (case v of
        Map pairs \<Rightarrow>
          bind_result (ok_or (map_get pairs ''valueDigests'') (Mdoc_Malformed ''valueDigests'')) (\<lambda>vd_val.
          bind_result (case vd_val of Map ns_pairs \<Rightarrow> Inr ns_pairs | _ \<Rightarrow> Inl (Mdoc_Malformed ''valueDigests not a map'')) (\<lambda>ns_pairs.
          bind_result (parse_value_digests ns_pairs []) (\<lambda>vd.
          bind_result (parse_validity_info pairs) (\<lambda>vi.
          bind_result (parse_mso_status pairs) (\<lambda>status.
          bind_result (ok_or (map_get pairs ''version'') (Mdoc_Malformed ''version'')) (\<lambda>ver_v.
          bind_result (value_text ver_v ''version'') (\<lambda>ver.
          bind_result (ok_or (map_get pairs ''digestAlgorithm'') (Mdoc_Malformed ''digestAlgorithm'')) (\<lambda>da_v.
          bind_result (value_text da_v ''digestAlgorithm'') (\<lambda>da.
          bind_result (ok_or (map_get pairs ''docType'') (Mdoc_Malformed ''docType'')) (\<lambda>dt_v.
          bind_result (value_text dt_v ''docType'') (\<lambda>dt.
            Inr \<lparr>mso_version = ver, digest_algorithm = da, doc_type = dt, value_digests = vd,
              device_key = parse_device_key pairs, mso_validity_info = vi, mso_status_ref = status\<rparr>)))))))))))
      | _ \<Rightarrow> Inl (Mdoc_Malformed ''MSO not a map''))"

definition to_mso_bytes :: "mobile_security_object \<Rightarrow> mdoc_error + bytes" where
  "to_mso_bytes mso = bind_result (mso_to_value mso) (\<lambda>v. Inr (tag24 (to_canonical v)))"

section \<open>Issuing and verifying\<close>

type_synonym name_spaces = "(string \<times> issuer_signed_item list) list"

record issuer_signed =
  is_name_spaces :: name_spaces
  issuer_auth :: cose_sign1

definition digest_items :: "digest \<Rightarrow> issuer_signed_item list \<Rightarrow> (u64 \<times> bytes) list" where
  "digest_items sha256 items = foldl (\<lambda>m it. btree_insert (digest_id it) (item_digest sha256 it) m) [] items"

definition digest_name_spaces :: "digest \<Rightarrow> name_spaces \<Rightarrow> (string \<times> (u64 \<times> bytes) list) list" where
  "digest_name_spaces sha256 nss =
     foldl (\<lambda>vd (ns, items). btree_insert ns (digest_items sha256 items) vd) [] nss"

definition build_and_sign_with_status ::
    "name_spaces \<Rightarrow> string \<Rightarrow> cbor_value \<Rightarrow> validity_info \<Rightarrow> mso_status option \<Rightarrow> digest \<Rightarrow> signer
      \<Rightarrow> key_ref \<Rightarrow> alg \<Rightarrow> mdoc_error + issuer_signed" where
  "build_and_sign_with_status nss dt dk vi status sha256 signer key alg =
     (let mso = \<lparr>mso_version = ''1.0'', digest_algorithm = ''SHA-256'', doc_type = dt,
            value_digests = digest_name_spaces sha256 nss, device_key = dk, mso_validity_info = vi,
            mso_status_ref = status\<rparr>
      in bind_result (to_mso_bytes mso) (\<lambda>mso_bytes.
         bind_result (map_err Mdoc_Cose (cose_sign signer key alg mso_bytes [] empty_unprotected)) (\<lambda>auth.
           Inr \<lparr>is_name_spaces = nss, issuer_auth = auth\<rparr>)))"

definition build_and_sign ::
    "name_spaces \<Rightarrow> string \<Rightarrow> cbor_value \<Rightarrow> validity_info \<Rightarrow> digest \<Rightarrow> signer \<Rightarrow> key_ref \<Rightarrow> alg
      \<Rightarrow> mdoc_error + issuer_signed" where
  "build_and_sign nss dt dk vi sha256 signer key alg =
     build_and_sign_with_status nss dt dk vi None sha256 signer key alg"

definition decode_mso :: "issuer_signed \<Rightarrow> mdoc_error + mobile_security_object" where
  "decode_mso is =
     bind_result (ok_or (cs_payload (issuer_auth is)) (Mdoc_Malformed ''issuerAuth has no payload'')) (\<lambda>payload.
     bind_result (untag24 payload) (\<lambda>mso_canonical.
     bind_result (map_err Mdoc_Cbor (from_canonical_slice mso_canonical)) mso_from_value))"

definition check_items :: "digest \<Rightarrow> (string \<times> (u64 \<times> bytes) list) list \<Rightarrow> name_spaces \<Rightarrow> bool" where
  "check_items sha256 vd nss =
     list_all (\<lambda>(ns, items).
       case map_of vd ns of
         None \<Rightarrow> False
       | Some digests \<Rightarrow>
           list_all (\<lambda>it. map_of digests (digest_id it) = Some (item_digest sha256 it)) items) nss"

definition verify_issuer_signed ::
    "issuer_signed \<Rightarrow> verifier \<Rightarrow> digest \<Rightarrow> bytes \<Rightarrow> alg \<Rightarrow> mdoc_error + mobile_security_object" where
  "verify_issuer_signed issued verifier sha256 issuer_public_key alg =
     bind_result (ok_or (cs_payload (issuer_auth issued)) (Mdoc_Malformed ''issuerAuth has no payload'')) (\<lambda>payload.
     bind_result (map_err Mdoc_Cose (cose_verify (issuer_auth issued) verifier alg issuer_public_key [] None)) (\<lambda>_.
     bind_result (untag24 payload) (\<lambda>mso_canonical.
     bind_result (map_err Mdoc_Cbor (from_canonical_slice mso_canonical)) (\<lambda>v.
     bind_result (mso_from_value v) (\<lambda>mso.
     bind_result (ensure (check_items sha256 (value_digests mso) (is_name_spaces issued)) DigestMismatch) (\<lambda>_.
       Inr mso))))))"

section \<open>The wire structure\<close>

definition issuer_signed_to_value :: "issuer_signed \<Rightarrow> cbor_value" where
  "issuer_signed_to_value is =
     Map
       [(Text ''nameSpaces'',
         Map (map (\<lambda>(ns, items).
           (Text ns, Array (map (\<lambda>it. Tag 24 (Bytes (to_canonical (item_to_value it)))) items)))
           (is_name_spaces is))),
        (Text ''issuerAuth'', cose_to_value (issuer_auth is))]"

fun parse_items :: "cbor_value list \<Rightarrow> mdoc_error + issuer_signed_item list" where
  "parse_items [] = Inr []"
| "parse_items (it # items) =
     bind_result (from_item_bytes (to_canonical it)) (\<lambda>p.
     bind_result (parse_items items) (\<lambda>ps. Inr (p # ps)))"

fun parse_name_spaces :: "(cbor_value \<times> cbor_value) list \<Rightarrow> name_spaces \<Rightarrow> mdoc_error + name_spaces" where
  "parse_name_spaces [] nss = Inr nss"
| "parse_name_spaces ((k, arr) # pairs) nss =
     bind_result (value_text k ''namespace'') (\<lambda>ns.
     case arr of
       Array items \<Rightarrow> bind_result (parse_items items) (\<lambda>parsed. parse_name_spaces pairs (btree_insert ns parsed nss))
     | _ \<Rightarrow> Inl (Mdoc_Malformed ''namespace items not an array''))"

definition issuer_signed_from_value :: "cbor_value \<Rightarrow> mdoc_error + issuer_signed" where
  "issuer_signed_from_value v =
     (case v of
        Map pairs \<Rightarrow>
          bind_result (ok_or (map_get pairs ''nameSpaces'') (Mdoc_Malformed ''nameSpaces'')) (\<lambda>ns_val.
          bind_result (case ns_val of Map ns_pairs \<Rightarrow> Inr ns_pairs | _ \<Rightarrow> Inl (Mdoc_Malformed ''nameSpaces not a map'')) (\<lambda>ns_pairs.
          bind_result (parse_name_spaces ns_pairs []) (\<lambda>nss.
          bind_result (ok_or (map_get pairs ''issuerAuth'') (Mdoc_Malformed ''issuerAuth'')) (\<lambda>auth_val.
          bind_result (map_err (\<lambda>_. Mdoc_Malformed ''issuerAuth'') (cose_from_value auth_val)) (\<lambda>auth.
            Inr \<lparr>is_name_spaces = nss, issuer_auth = auth\<rparr>)))))
      | _ \<Rightarrow> Inl (Mdoc_Malformed ''IssuerSigned not a map''))"

definition issuer_signed_parse :: "bytes \<Rightarrow> mdoc_error + issuer_signed" where
  "issuer_signed_parse bytes =
     bind_result (map_err Mdoc_Cbor (from_canonical_slice bytes)) issuer_signed_from_value"

definition issuer_signed_doc_type :: "issuer_signed \<Rightarrow> mdoc_error + string" where
  "issuer_signed_doc_type is =
     bind_result (ok_or (cs_payload (issuer_auth is)) (Mdoc_Malformed ''issuerAuth payload'')) (\<lambda>payload.
     bind_result (untag24 payload) (\<lambda>mso_canonical.
     bind_result (map_err Mdoc_Cbor (from_canonical_slice mso_canonical)) (\<lambda>v.
     bind_result (mso_from_value v) (\<lambda>mso. Inr (doc_type mso)))))"

section \<open>Device authentication and response\<close>

definition device_auth_value :: "cbor_value \<Rightarrow> string \<Rightarrow> bytes \<Rightarrow> cbor_value" where
  "device_auth_value transcript dt device_namespaces_bytes =
     Array
       [Text ''DeviceAuthentication'',
        transcript,
        Text dt,
        Tag 24 (Bytes device_namespaces_bytes)]"

definition device_authentication_bytes :: "bytes \<Rightarrow> string \<Rightarrow> bytes \<Rightarrow> mdoc_error + bytes" where
  "device_authentication_bytes session_transcript dt device_namespaces_bytes =
     bind_result (map_err Mdoc_Cbor (from_canonical_slice session_transcript)) (\<lambda>transcript.
       Inr (tag24 (to_canonical (device_auth_value transcript dt device_namespaces_bytes))))"

definition oid4vp_hash_input :: "string \<Rightarrow> string \<Rightarrow> bytes" where
  "oid4vp_hash_input s mdoc_generated_nonce = to_canonical (Array [Text s, Text mdoc_generated_nonce])"

definition oid4vp_session_transcript ::
    "digest \<Rightarrow> string \<Rightarrow> string \<Rightarrow> string \<Rightarrow> string \<Rightarrow> bytes" where
  "oid4vp_session_transcript sha256 client_id response_uri nonce mdoc_generated_nonce =
     (let handover = Array
            [Bytes (sha256 (oid4vp_hash_input client_id mdoc_generated_nonce)),
             Bytes (sha256 (oid4vp_hash_input response_uri mdoc_generated_nonce)),
             Text nonce]
      in to_canonical (Array [Null, Null, handover]))"

definition dcapi_handover_info :: "string \<Rightarrow> string \<Rightarrow> bytes option \<Rightarrow> bytes" where
  "dcapi_handover_info origin nonce jwk_thumbprint =
     (let thumbprint = (case jwk_thumbprint of Some bytes \<Rightarrow> Bytes bytes | None \<Rightarrow> Null)
      in to_canonical (Array [Text origin, Text nonce, thumbprint]))"

definition oid4vp_dcapi_session_transcript :: "digest \<Rightarrow> string \<Rightarrow> string \<Rightarrow> bytes option \<Rightarrow> bytes" where
  "oid4vp_dcapi_session_transcript sha256 origin nonce jwk_thumbprint =
     (let info = dcapi_handover_info origin nonce jwk_thumbprint;
          handover = Array [Text ''OpenID4VPDCAPIHandover'', Bytes (sha256 info)]
      in to_canonical (Array [Null, Null, handover]))"

definition empty_device_namespaces_bytes :: bytes where
  "empty_device_namespaces_bytes = to_canonical (Map [])"

definition device_response :: "string \<Rightarrow> issuer_signed \<Rightarrow> bytes \<Rightarrow> cose_sign1 \<Rightarrow> bytes" where
  "device_response dt issuer_signed device_namespaces_bytes device_signature =
     (let device_signed = Map
            [(Text ''nameSpaces'', Tag 24 (Bytes device_namespaces_bytes)),
             (Text ''deviceAuth'', Map [(Text ''deviceSignature'', cose_to_value device_signature)])];
          document = Map
            [(Text ''docType'', Text dt),
             (Text ''issuerSigned'', issuer_signed_to_value issuer_signed),
             (Text ''deviceSigned'', device_signed)]
      in to_canonical (Map
           [(Text ''version'', Text ''1.0''),
            (Text ''documents'', Array [document]),
            (Text ''status'', Uint 0)]))"

section \<open>Embedded CBOR\<close>

lemma untag24_tag24: "length b < 2 ^ 64 \<Longrightarrow> untag24 (tag24 b) = Inr b"
proof -
  assume "length b < 2 ^ 64"
  then have "from_canonical_slice (tag24 b) = Inr (Tag 24 (Bytes b))"
    unfolding tag24_def by (intro cbor.dec_enc) (simp add: MAX_DEPTH_def)
  then show ?thesis by (simp add: untag24_def)
qed

lemma untag24_Inr: "untag24 bs = Inr b \<longleftrightarrow> bs = tag24 b \<and> length b < 2 ^ 64"
proof
  assume u: "untag24 bs = Inr b"
  then obtain v where v: "from_canonical_slice bs = Inr v"
    by (auto simp: untag24_def bind_result_Inr_iff)
  with u obtain inner where "v = Tag 24 inner"
    by (cases v) (auto simp: untag24_def split: if_splits)
  with u v have "from_canonical_slice bs = Inr (Tag 24 (Bytes b))"
    by (cases inner) (auto simp: untag24_def)
  then show "bs = tag24 b \<and> length b < 2 ^ 64"
    unfolding from_canonical_slice_Inr_iff tag24_def by (simp del: to_canonical.simps)
qed (simp add: untag24_tag24)

lemma tag24_inject: "length a < 2 ^ 64 \<Longrightarrow> length b < 2 ^ 64 \<Longrightarrow> tag24 a = tag24 b \<longleftrightarrow> a = b"
  by (metis Inr_inject untag24_tag24)

section \<open>Items\<close>

definition item_ok :: "issuer_signed_item \<Rightarrow> bool" where
  "item_ok it \<longleftrightarrow> length (item_random it) < 2 ^ 64 \<and> valid_str (element_id it) \<and> length (element_id it) < 2 ^ 64
     \<and> canonical (element_value it) \<and> within_depth 1 (element_value it)
     \<and> length (to_canonical (item_to_value it)) < 2 ^ 64"

lemma text_key_bytes:
  "length s < 2 ^ 64 \<Longrightarrow> length t < 2 ^ 64 \<Longrightarrow> valid_str s \<Longrightarrow> valid_str t \<Longrightarrow>
     to_canonical (Text s) = to_canonical (Text t) \<longleftrightarrow> s = t"
  using cbor.enc_inject [of "Text s" "Text t"] by (simp add: MAX_DEPTH_def del: to_canonical.simps)

lemma item_keys_distinct:
  "distinct (map key_bytes [(Text ''digestID'', a), (Text ''random'', b), (Text ''elementIdentifier'', c),
     (Text ''elementValue'', d)])"
  by (simp add: write_head_def as_bytes_def)

lemma item_value_ok: "item_ok it \<Longrightarrow> well_formed (item_to_value it) \<and> within_depth 0 (item_to_value it)"
  by (simp add: item_ok_def item_to_value_def canonical_well_formed MAX_DEPTH_def valid_str_def valid_utf8_def
      as_bytes_def)

lemma map_get_simps [simp]:
  "map_get [] k = None"
  "map_get ((Text t, v) # ps) k = (if t = k then Some v else map_get ps k)"
  by (simp_all add: map_get_def)

lemma map_get_normalised:
  assumes "distinct (map key_bytes ps)" "\<forall>p \<in> set ps. normalise (fst p) = fst p"
  obtains qs where "normalise (Map ps) = Map qs"
    "\<And>k. map_get qs k = map_option normalise (map_get ps k)"
  using normalise_Map_lookup [OF assms] unfolding map_get_def by metis

lemma item_from_normalised:
  assumes "item_ok it"
  shows "item_from_value (normalise (item_to_value it)) = Inr it"
proof -
  let ?ps = "[(Text ''digestID'', Uint (digest_id it)), (Text ''random'', Bytes (item_random it)),
    (Text ''elementIdentifier'', Text (element_id it)), (Text ''elementValue'', element_value it)]"
  have "\<forall>p \<in> set ?ps. normalise (fst p) = fst p" by simp
  from map_get_normalised [OF item_keys_distinct this] obtain qs where
    qs: "normalise (Map ?ps) = Map qs" and get: "\<And>k. map_get qs k = map_option normalise (map_get ?ps k)"
    by blast
  have "normalise (element_value it) = element_value it"
    using assms by (simp add: item_ok_def normalise_id)
  then have "map_get qs ''digestID'' = Some (Uint (digest_id it))"
    "map_get qs ''random'' = Some (Bytes (item_random it))"
    "map_get qs ''elementIdentifier'' = Some (Text (element_id it))"
    "map_get qs ''elementValue'' = Some (element_value it)"
    by (simp_all add: get)
  then show ?thesis
    unfolding item_to_value_def qs item_from_value_def value_uint_def value_bytes_def value_text_def by simp
qed

lemma item_roundtrip:
  assumes "item_ok it"
  shows "from_item_bytes (to_item_bytes it) = Inr it"
proof -
  have "from_canonical_slice (to_canonical (item_to_value it)) = Inr (normalise (item_to_value it))"
    using item_value_ok [OF assms] normalise_canonical normalise_within_depth
    by (simp add: from_canonical_slice_Inr_iff to_canonical_normalise)
  moreover have "length (to_canonical (item_to_value it)) < 2 ^ 64" using assms by (simp add: item_ok_def)
  ultimately show ?thesis
    using item_from_normalised [OF assms]
    by (simp add: from_item_bytes_def to_item_bytes_def untag24_tag24 del: to_canonical.simps)
qed

lemma item_bytes_inject: "item_ok a \<Longrightarrow> item_ok b \<Longrightarrow> to_item_bytes a = to_item_bytes b \<longleftrightarrow> a = b"
  by (metis Inr_inject item_roundtrip)

section \<open>The MSO round trip\<close>

lemma normalise_Map_of:
  assumes "\<And>x. x \<in> set xs \<Longrightarrow> norm_entry (f x) = f x" "distinct (map (\<lambda>x. key_bytes (f x)) xs)"
  shows "normalise (Map (map f xs)) = Map (map f (sort_key (\<lambda>x. key_bytes (f x)) xs))"
proof -
  have "map norm_entry (map f xs) = map f xs" using assms(1) by simp
  then show ?thesis
    using normalise_Map_distinct [of "map f xs"] assms(2) by (simp only: map_map comp_def sort_key_map)
qed

lemma Uint_key_inject: "to_canonical (Uint m) = to_canonical (Uint n) \<longleftrightarrow> m = n"
  using cbor.enc_inject [of "Uint m" "Uint n"] by (simp add: MAX_DEPTH_def del: to_canonical.simps)

definition digests_ok :: "(u64 \<times> bytes) list \<Rightarrow> bool" where
  "digests_ok ds \<longleftrightarrow> btree_ok ds \<and> length ds < 2 ^ 64 \<and> (\<forall>d \<in> set ds. length (snd d) = 32)"

definition text_ok :: "string \<Rightarrow> bool" where
  "text_ok s \<longleftrightarrow> valid_str s \<and> length s < 2 ^ 64"

definition value_digests_ok :: "(string \<times> (u64 \<times> bytes) list) list \<Rightarrow> bool" where
  "value_digests_ok vd \<longleftrightarrow> btree_ok vd \<and> length vd < 2 ^ 64
     \<and> (\<forall>(ns, ds) \<in> set vd. text_ok ns \<and> digests_ok ds)"

lemma parse_digests_pairs:
  assumes "\<forall>d \<in> set ds. length (snd d) = 32"
  shows "parse_digests (map (\<lambda>(i, d). (Uint i, Bytes d)) ds) m = Inr (btree_collect m ds)"
  using assms by (induction ds arbitrary: m) (auto simp: value_uint_def value_bytes_def)

lemma normalise_digests:
  assumes "digests_ok ds"
  obtains ds' where "normalise (Map (map (\<lambda>(i, d). (Uint i, Bytes d)) ds)) = Map (map (\<lambda>(i, d). (Uint i, Bytes d)) ds')"
    "set ds' = set ds" "distinct (map fst ds')"
proof
  let ?f = "\<lambda>(i, d). (Uint i, Bytes d)"
  let ?ds = "sort_key (\<lambda>x. key_bytes (?f x)) ds"
  have d: "distinct (map fst ds)" using assms by (simp add: digests_ok_def btree_ok_distinct)
  then have "distinct (map (\<lambda>x. to_canonical (Uint (fst x))) ds)"
    unfolding distinct_map inj_on_def Uint_key_inject .
  then have "distinct (map (\<lambda>x. key_bytes (?f x)) ds)" by (simp add: case_prod_beta del: to_canonical.simps)
  then show "normalise (Map (map ?f ds)) = Map (map ?f ?ds)"
    by (intro normalise_Map_of) auto
  show "set ?ds = set ds" by simp
  show "distinct (map fst ?ds)" using d by (rule distinct_map_sort_key)
qed

lemma parse_normalised_digests:
  assumes "digests_ok ds" "normalise (Map (map (\<lambda>(i, d). (Uint i, Bytes d)) ds)) = Map pairs"
  shows "parse_digests pairs [] = Inr ds"
proof -
  obtain ds' where "Map pairs = Map (map (\<lambda>(i, d). (Uint i, Bytes d)) ds')" "set ds' = set ds" "distinct (map fst ds')"
    using normalise_digests [OF assms(1)] assms(2) by metis
  with assms(1) show ?thesis
    by (simp add: parse_digests_pairs btree_rebuild digests_ok_def)
qed

abbreviation ns_entry :: "string \<times> (u64 \<times> bytes) list \<Rightarrow> cbor_value \<times> cbor_value" where
  "ns_entry e \<equiv> (Text (fst e), normalise (Map (map (\<lambda>(i, d). (Uint i, Bytes d)) (snd e))))"

lemma parse_ns_entries:
  assumes "\<forall>e \<in> set vd. digests_ok (snd e)"
  shows "parse_value_digests (map ns_entry vd) m = Inr (btree_collect m vd)"
  using assms
proof (induction vd arbitrary: m)
  case (Cons e vd)
  obtain ns ds where e: "e = (ns, ds)" by (cases e)
  obtain pairs where "normalise (Map (map (\<lambda>(i, d). (Uint i, Bytes d)) ds)) = Map pairs" by simp
  with parse_normalised_digests [of ds pairs] Cons show ?case by (simp add: e value_text_def del: normalise.simps)
qed simp

lemma text_ok_key_inject: "text_ok s \<Longrightarrow> text_ok t \<Longrightarrow> to_canonical (Text s) = to_canonical (Text t) \<longleftrightarrow> s = t"
  by (intro text_key_bytes) (auto simp: text_ok_def)

lemma parse_normalised_value_digests:
  assumes "value_digests_ok vd"
  obtains ns_pairs where "normalise (value_digests_value vd) = Map ns_pairs"
    "parse_value_digests ns_pairs [] = Inr vd"
proof
  let ?f = "\<lambda>(ns, digests). (Text ns, Map (map (\<lambda>(i, d). (Uint i, Bytes d)) digests))"
  let ?vd = "sort_key (\<lambda>e. to_canonical (Text (fst e))) vd"
  have d: "distinct (map fst vd)" using assms by (simp add: value_digests_ok_def btree_ok_distinct)
  have ok: "\<forall>e \<in> set vd. text_ok (fst e) \<and> digests_ok (snd e)" using assms by (auto simp: value_digests_ok_def)
  have "distinct (map (\<lambda>e. to_canonical (Text (fst e))) vd)"
    using d ok unfolding distinct_map inj_on_def by (metis text_ok_key_inject)
  then have "distinct (map key_bytes (map ?f vd))" by (simp add: comp_def case_prod_beta)
  from normalise_Map_distinct [OF this]
  show "normalise (value_digests_value vd) = Map (map ns_entry ?vd)"
    by (simp add: value_digests_value_def sort_key_map comp_def case_prod_beta del: to_canonical.simps)
  have "btree_collect [] ?vd = vd"
    using assms d by (intro btree_rebuild distinct_map_sort_key) (auto simp: value_digests_ok_def)
  then show "parse_value_digests (map ns_entry ?vd) [] = Inr vd"
    using ok by (subst parse_ns_entries) auto
qed

definition dates_ok :: "validity_info \<Rightarrow> bool" where
  "dates_ok vi \<longleftrightarrow> text_ok (vi_signed vi) \<and> text_ok (valid_from vi) \<and> text_ok (valid_until vi)
     \<and> tdate_parse (vi_signed vi) \<noteq> None \<and> tdate_parse (valid_from vi) \<noteq> None \<and> tdate_parse (valid_until vi) \<noteq> None"

definition validity_value :: "validity_info \<Rightarrow> cbor_value" where
  "validity_value vi = Map [(Text ''signed'', Tag 0 (Text (vi_signed vi))),
     (Text ''validFrom'', Tag 0 (Text (valid_from vi))), (Text ''validUntil'', Tag 0 (Text (valid_until vi)))]"

definition mso_entries :: "mobile_security_object \<Rightarrow> (cbor_value \<times> cbor_value) list" where
  "mso_entries mso =
     [(Text ''version'', Text (mso_version mso)),
      (Text ''digestAlgorithm'', Text (digest_algorithm mso)),
      (Text ''valueDigests'', value_digests_value (value_digests mso)),
      (Text ''deviceKeyInfo'', Map [(Text ''deviceKey'', device_key mso)]),
      (Text ''docType'', Text (doc_type mso)),
      (Text ''validityInfo'', validity_value (mso_validity_info mso))]
     @ mso_status_entry (mso_status_ref mso)"

lemma mso_to_value_ok: "dates_ok (mso_validity_info mso) \<Longrightarrow> mso_to_value mso = Inr (Map (mso_entries mso))"
  by (auto simp: mso_to_value_def tdate_value_def dates_ok_def mso_entries_def validity_value_def)

definition mso_ok :: "mobile_security_object \<Rightarrow> bool" where
  "mso_ok mso \<longleftrightarrow> text_ok (mso_version mso) \<and> text_ok (digest_algorithm mso) \<and> text_ok (doc_type mso)
     \<and> value_digests_ok (value_digests mso) \<and> dates_ok (mso_validity_info mso)
     \<and> canonical (device_key mso) \<and> within_depth 2 (device_key mso)
     \<and> (\<forall>st. mso_status_ref mso = Some st \<longrightarrow> text_ok (status_uri st))
     \<and> length (to_canonical (Map (mso_entries mso))) < 2 ^ 64"

lemma literal_text_ok:
  "valid_str ''signed'' " "valid_str ''validFrom''" "valid_str ''validUntil''" "valid_str ''version''"
  "valid_str ''digestAlgorithm''" "valid_str ''valueDigests''" "valid_str ''deviceKeyInfo''"
  "valid_str ''deviceKey''" "valid_str ''docType''" "valid_str ''validityInfo''" "valid_str ''status''"
  "valid_str ''status_list''" "valid_str ''idx''" "valid_str ''uri''"
  by (simp_all add: valid_str_def valid_utf8_def as_bytes_def)

lemma value_digests_wf:
  assumes "value_digests_ok vd"
  shows "well_formed (value_digests_value vd)" "d + 2 \<le> MAX_DEPTH \<Longrightarrow> within_depth d (value_digests_value vd)"
proof -
  have ok: "\<forall>e \<in> set vd. text_ok (fst e) \<and> digests_ok (snd e)" using assms by (auto simp: value_digests_ok_def)
  then show "well_formed (value_digests_value vd)"
    using assms by (auto simp: value_digests_value_def value_digests_ok_def list_all_iff text_ok_def digests_ok_def
        case_prod_beta)
  show "within_depth d (value_digests_value vd)" if "d + 2 \<le> MAX_DEPTH"
    using that by (auto simp: value_digests_value_def list_all_iff)
qed

lemma validity_wf:
  "dates_ok vi \<Longrightarrow> well_formed (validity_value vi)" "d + 2 \<le> MAX_DEPTH \<Longrightarrow> within_depth d (validity_value vi)"
  by (simp_all add: validity_value_def dates_ok_def text_ok_def literal_text_ok)

lemma mso_status_wf:
  assumes "\<forall>s. st = Some s \<longrightarrow> text_ok (status_uri s)"
  shows "list_all (\<lambda>p. well_formed (fst p) \<and> well_formed (snd p)) (mso_status_entry st)"
    "list_all (\<lambda>p. within_depth 1 (fst p) \<and> within_depth 1 (snd p)) (mso_status_entry st)"
    "length (mso_status_entry st) \<le> 1"
  using assms
  by (cases st; simp add: mso_status_entry_def text_ok_def literal_text_ok MAX_DEPTH_def)+

lemma mso_value_wf:
  assumes "mso_ok mso"
  shows "well_formed (Map (mso_entries mso))" "within_depth 0 (Map (mso_entries mso))"
proof -
  note ok = assms [unfolded mso_ok_def]
  have st: "\<forall>s. mso_status_ref mso = Some s \<longrightarrow> text_ok (status_uri s)" using ok by blast
  have vd: "value_digests_ok (value_digests mso)" and vi: "dates_ok (mso_validity_info mso)" using ok by blast+
  have dk: "well_formed (device_key mso)" "within_depth 2 (device_key mso)"
    using ok canonical_well_formed by blast+
  have texts: "valid_str (mso_version mso)" "length (mso_version mso) < 2 ^ 64" "valid_str (digest_algorithm mso)"
    "length (digest_algorithm mso) < 2 ^ 64" "valid_str (doc_type mso)" "length (doc_type mso) < 2 ^ 64"
    using ok by (simp_all add: text_ok_def)
  show "well_formed (Map (mso_entries mso))"
    using mso_status_wf(1,3) [OF st] texts
    by (simp add: mso_entries_def value_digests_wf(1) [OF vd] validity_wf(1) [OF vi] dk(1) literal_text_ok)
  show "within_depth 0 (Map (mso_entries mso))"
    using mso_status_wf(2) [OF st] dk(2)
    by (simp add: mso_entries_def value_digests_wf(2) [OF vd] validity_wf(2) MAX_DEPTH_def numeral_2_eq_2)
qed

lemma mso_keys_distinct: "distinct (map key_bytes (mso_entries mso))"
  by (auto simp: mso_entries_def mso_status_entry_def write_head_def as_bytes_def split: option.split)

lemma mso_keys_normal: "\<forall>p \<in> set (mso_entries mso). normalise (fst p) = fst p"
  by (auto simp: mso_entries_def mso_status_entry_def split: option.split)

lemma map_get_mso_entries:
  "map_get (mso_entries mso) ''version'' = Some (Text (mso_version mso))"
  "map_get (mso_entries mso) ''digestAlgorithm'' = Some (Text (digest_algorithm mso))"
  "map_get (mso_entries mso) ''valueDigests'' = Some (value_digests_value (value_digests mso))"
  "map_get (mso_entries mso) ''deviceKeyInfo'' = Some (Map [(Text ''deviceKey'', device_key mso)])"
  "map_get (mso_entries mso) ''docType'' = Some (Text (doc_type mso))"
  "map_get (mso_entries mso) ''validityInfo'' = Some (validity_value (mso_validity_info mso))"
  "map_get (mso_entries mso) ''status'' = map_get (mso_status_entry (mso_status_ref mso)) ''status''"
  by (simp_all add: mso_entries_def)

lemma parse_normalised_validity:
  assumes "dates_ok vi" "map_get pairs ''validityInfo'' = Some (normalise (validity_value vi))"
  shows "parse_validity_info pairs = Inr vi"
proof -
  let ?ps = "[(Text ''signed'', Tag 0 (Text (vi_signed vi))), (Text ''validFrom'', Tag 0 (Text (valid_from vi))),
    (Text ''validUntil'', Tag 0 (Text (valid_until vi)))]"
  have d: "distinct (map key_bytes ?ps)" by (simp add: write_head_def as_bytes_def)
  have "\<forall>p \<in> set ?ps. normalise (fst p) = fst p" by simp
  from map_get_normalised [OF d this] obtain qs where
    qs: "normalise (Map ?ps) = Map qs" and get: "\<And>k. map_get qs k = map_option normalise (map_get ?ps k)" by blast
  from qs have v: "normalise (validity_value vi) = Map qs" by (simp only: validity_value_def)
  from assms(1) obtain a b c where "tdate_parse (vi_signed vi) = Some a" "tdate_parse (valid_from vi) = Some b"
    "tdate_parse (valid_until vi) = Some c" by (auto simp: dates_ok_def)
  then show ?thesis
    by (simp add: parse_validity_info_def assms(2) v get value_tdate_def)
qed

lemma parse_normalised_status:
  assumes "map_get pairs ''status'' = map_option normalise (map_get (mso_status_entry st) ''status'')"
  shows "parse_mso_status pairs = Inr st"
proof (cases st)
  case None
  with assms show ?thesis by (simp add: parse_mso_status_def mso_status_entry_def)
next
  case (Some s)
  let ?ps = "[(Text ''idx'', Uint (status_index s)), (Text ''uri'', Text (status_uri s))]"
  have d: "distinct (map key_bytes ?ps)" by (simp add: write_head_def as_bytes_def)
  have "\<forall>p \<in> set ?ps. normalise (fst p) = fst p" by simp
  from map_get_normalised [OF d this] obtain qs where
    qs: "normalise (Map ?ps) = Map qs" and get: "\<And>k. map_get qs k = map_option normalise (map_get ?ps k)" by blast
  have outer: "normalise (Map [(Text ''status_list'', v)]) = Map [(Text ''status_list'', normalise v)]" for v
    by simp
  show ?thesis
    using assms by (simp add: Some parse_mso_status_def mso_status_entry_def outer qs get value_uint_def value_text_def
        del: normalise.simps(2))
qed

lemma mso_from_normalised:
  assumes "mso_ok mso"
  shows "mso_from_value (normalise (Map (mso_entries mso))) = Inr mso"
proof -
  note ok = assms [unfolded mso_ok_def]
  from map_get_normalised [OF mso_keys_distinct mso_keys_normal] obtain qs where
    qs: "normalise (Map (mso_entries mso)) = Map qs"
    and get: "\<And>k. map_get qs k = map_option normalise (map_get (mso_entries mso) k)" by blast
  note g = get [of "''version''"] get [of "''digestAlgorithm''"] get [of "''valueDigests''"]
    get [of "''deviceKeyInfo''"] get [of "''docType''"] get [of "''validityInfo''"] get [of "''status''"]
  note g' = g [unfolded map_get_mso_entries option.map]
  from ok obtain ns_pairs where vd: "normalise (value_digests_value (value_digests mso)) = Map ns_pairs"
    "parse_value_digests ns_pairs [] = Inr (value_digests mso)"
    using parse_normalised_value_digests by metis
  have dk: "parse_device_key qs = device_key mso"
    using ok by (simp add: parse_device_key_def g' normalise_id)
  have vi: "parse_validity_info qs = Inr (mso_validity_info mso)"
    using ok g'(6) by (intro parse_normalised_validity) auto
  have st: "parse_mso_status qs = Inr (mso_status_ref mso)" by (rule parse_normalised_status [OF g'(7)])
  show ?thesis
    unfolding qs mso_from_value_def using vd dk vi st g'(1-3,5) by (simp add: value_text_def)
qed

lemma mso_bytes_decode:
  assumes "mso_ok mso"
  shows "to_mso_bytes mso = Inr (tag24 (to_canonical (Map (mso_entries mso))))"
    "untag24 (tag24 (to_canonical (Map (mso_entries mso)))) = Inr (to_canonical (Map (mso_entries mso)))"
    "bind_result (map_err Mdoc_Cbor (from_canonical_slice (to_canonical (Map (mso_entries mso))))) mso_from_value = Inr mso"
proof -
  note ok = assms [unfolded mso_ok_def]
  show "to_mso_bytes mso = Inr (tag24 (to_canonical (Map (mso_entries mso))))"
    using ok mso_to_value_ok by (simp add: to_mso_bytes_def del: to_canonical.simps)
  show "untag24 (tag24 (to_canonical (Map (mso_entries mso)))) = Inr (to_canonical (Map (mso_entries mso)))"
    using ok by (intro untag24_tag24) blast
  have "from_canonical_slice (to_canonical (Map (mso_entries mso))) = Inr (normalise (Map (mso_entries mso)))"
    using mso_value_wf [OF assms] normalise_canonical normalise_within_depth
    unfolding from_canonical_slice_Inr_iff by (metis to_canonical_normalise)
  then show "bind_result (map_err Mdoc_Cbor (from_canonical_slice (to_canonical (Map (mso_entries mso))))) mso_from_value = Inr mso"
    using mso_from_normalised [OF assms] by (simp only: map_err_simps bind_result_simps)
qed

section \<open>Selective disclosure\<close>

definition mso_of ::
    "name_spaces \<Rightarrow> string \<Rightarrow> cbor_value \<Rightarrow> validity_info \<Rightarrow> mso_status option \<Rightarrow> digest \<Rightarrow> mobile_security_object" where
  "mso_of nss dt dk vi status sha256 =
     \<lparr>mso_version = ''1.0'', digest_algorithm = ''SHA-256'', doc_type = dt,
       value_digests = digest_name_spaces sha256 nss, device_key = dk, mso_validity_info = vi,
       mso_status_ref = status\<rparr>"

lemma digest_items_collect:
  "digest_items sha items = btree_collect [] (map (\<lambda>it. (digest_id it, item_digest sha it)) items)"
proof -
  have "foldl (\<lambda>m it. btree_insert (digest_id it) (item_digest sha it) m) m items
      = btree_collect m (map (\<lambda>it. (digest_id it, item_digest sha it)) items)" for m
    by (induction items arbitrary: m) simp_all
  then show ?thesis by (simp add: digest_items_def)
qed

lemma digest_name_spaces_collect:
  "digest_name_spaces sha nss = btree_collect [] (map (\<lambda>(ns, items). (ns, digest_items sha items)) nss)"
proof -
  have "foldl (\<lambda>vd (ns, items). btree_insert ns (digest_items sha items) vd) m nss
      = btree_collect m (map (\<lambda>(ns, items). (ns, digest_items sha items)) nss)" for m
    by (induction nss arbitrary: m) auto
  then show ?thesis by (simp add: digest_name_spaces_def)
qed

lemma map_of_digest_name_spaces:
  assumes "btree_ok nss"
  shows "map_of (digest_name_spaces sha nss) ns = map_option (digest_items sha) (map_of nss ns)"
proof -
  have "map fst (map (\<lambda>(ns, items). (ns, digest_items sha items)) nss) = map fst nss"
    by (simp add: comp_def case_prod_beta)
  with assms have d: "distinct (map fst (map (\<lambda>(ns, items). (ns, digest_items sha items)) nss))"
    by (simp only: btree_ok_distinct)
  show ?thesis
    unfolding digest_name_spaces_collect map_of_btree_collect [OF d] by (simp add: map_of_map)
qed

lemma map_of_btree_collect_Some:
  "map_of (btree_collect m kvs) k = Some v \<Longrightarrow> (k, v) \<in> set kvs \<or> map_of m k = Some v"
  by (induction kvs arbitrary: m) (fastforce split: if_splits)+

lemma digest_items_Some:
  "map_of (digest_items sha items) i = Some d \<Longrightarrow> \<exists>it \<in> set items. digest_id it = i \<and> item_digest sha it = d"
  unfolding digest_items_collect using map_of_btree_collect_Some by fastforce

lemma digest_items_lookup:
  assumes "distinct (map digest_id items)" "it \<in> set items"
  shows "map_of (digest_items sha items) (digest_id it) = Some (item_digest sha it)"
proof -
  have d: "distinct (map fst (map (\<lambda>it. (digest_id it, item_digest sha it)) items))"
    using assms(1) by (simp add: comp_def)
  show ?thesis
    unfolding digest_items_collect map_of_btree_collect [OF d]
    using d assms(2) by (simp add: map_of_is_SomeI)
qed

lemma build_Inr:
  assumes "build_and_sign_with_status nss dt dk vi status sha signer key alg = Inr issued"
    "mso_ok (mso_of nss dt dk vi status sha)"
  obtains auth where "issued = \<lparr>is_name_spaces = nss, issuer_auth = auth\<rparr>"
    "cose_sign signer key alg (tag24 (to_canonical (Map (mso_entries (mso_of nss dt dk vi status sha))))) []
       empty_unprotected = Inr auth"
  using assms(1) mso_bytes_decode(1) [OF assms(2)]
  by (auto simp: build_and_sign_with_status_def mso_of_def [symmetric] Let_def bind_result_Inr_iff)

lemma verify_by_payload:
  assumes "cs_payload (issuer_auth is) = Some (tag24 (to_canonical (Map (mso_entries mso))))" "mso_ok mso"
  shows "verify_issuer_signed is verifier sha pk alg =
    bind_result (map_err Mdoc_Cose (cose_verify (issuer_auth is) verifier alg pk [] None)) (\<lambda>_.
      bind_result (ensure (check_items sha (value_digests mso) (is_name_spaces is)) DigestMismatch) (\<lambda>_. Inr mso))"
  using mso_bytes_decode(2,3) [OF assms(2)]
  by (auto simp: verify_issuer_signed_def assms(1) bind_result_def split: sum.splits simp del: to_canonical.simps)

text \<open>
  Issuing and verifying agree under selective disclosure: if issuing succeeds, the signature
  scheme is correct and digest identifiers are distinct within each name space, then every
  presentation of some of the issued items verifies, and verification returns exactly the MSO that
  was issued (document type, device key, validity, status reference).
\<close>

theorem mdoc_issue_then_disclose:
  assumes built: "build_and_sign_with_status nss dt dk vi status sha signer key alg = Inr issued"
    and mso: "mso_ok (mso_of nss dt dk vi status sha)"
    and correct: "\<And>m s. signer key alg m = Inr s \<Longrightarrow> verifier alg pk m s = Inr ()"
    and order: "btree_ok nss"
    and ids: "\<forall>(ns, items) \<in> set nss. distinct (map digest_id items)"
    and shown: "\<forall>(ns, items) \<in> set sel. \<exists>all. (ns, all) \<in> set nss \<and> set items \<subseteq> set all"
  shows "verify_issuer_signed (issued\<lparr>is_name_spaces := sel\<rparr>) verifier sha pk alg
    = Inr (mso_of nss dt dk vi status sha)"
proof -
  let ?mso = "mso_of nss dt dk vi status sha"
  obtain auth where auth: "issued = \<lparr>is_name_spaces = nss, issuer_auth = auth\<rparr>"
    "cose_sign signer key alg (tag24 (to_canonical (Map (mso_entries ?mso)))) [] empty_unprotected = Inr auth"
    by (rule build_Inr [OF built mso])
  have "cose_verify auth verifier alg pk [] None = Inr ()"
    using auth(2) correct by (rule signed_message_verifies)
  moreover have "cs_payload auth = Some (tag24 (to_canonical (Map (mso_entries ?mso))))"
    by (rule cose_sign_Inr [OF auth(2)]) simp
  moreover
  have "check_items sha (value_digests ?mso) sel"
    unfolding check_items_def list_all_iff
  proof
    fix e assume e: "e \<in> set sel"
    obtain ns items where e': "e = (ns, items)" by (cases e)
    with e shown obtain all where all: "(ns, all) \<in> set nss" "set items \<subseteq> set all" by auto
    then have "map_of nss ns = Some all" using btree_ok_distinct [OF order] by simp
    moreover have "distinct (map digest_id all)" using ids all(1) by auto
    ultimately show "case e of (ns, items) \<Rightarrow> (case map_of (value_digests ?mso) ns of None \<Rightarrow> False
        | Some digests \<Rightarrow> \<forall>it \<in> set items. map_of digests (digest_id it) = Some (item_digest sha it))"
      using all(2) digest_items_lookup [of all _ sha]
      by (auto simp: e' mso_of_def map_of_digest_name_spaces [OF order])
  qed
  ultimately show ?thesis
    using auth(1) by (subst verify_by_payload [OF _ mso]) (simp_all del: to_canonical.simps)
qed


subsection \<open>A concrete issuance\<close>

text \<open>
  One name space with two items, signed by the toy signer of \<^verbatim>\<open>Cose\<close>; only the second item is shown.
\<close>

definition sample_item :: issuer_signed_item where
  "sample_item = \<lparr>digest_id = 0, item_random = [1], element_id = ''a'', element_value = Bool True\<rparr>"

definition other_item :: issuer_signed_item where
  "other_item = \<lparr>digest_id = 1, item_random = [1], element_id = ''b'', element_value = Uint 7\<rparr>"

definition sample_sha :: digest where
  "sample_sha = (\<lambda>b. replicate 32 (last b))"

abbreviation sample_validity :: validity_info where
  "sample_validity \<equiv> \<lparr>vi_signed = ''2026-01-01T00:00:00Z'', valid_from = ''2026-01-01T00:00:00Z'',
     valid_until = ''2027-01-01T00:00:00Z''\<rparr>"

abbreviation sample_nss :: name_spaces where
  "sample_nss \<equiv> [(''n'', [sample_item, other_item])]"

lemmas encode_sample = tag24_def item_to_value_def canonical_pairs_def flatten_pairs_def write_head_def as_bytes_def

lemma last_item_bytes: "last (to_item_bytes sample_item) = 0x61" "last (to_item_bytes other_item) = 0x62"
  by (simp_all add: to_item_bytes_def sample_item_def other_item_def encode_sample)

lemma sample_dates: "dates_ok sample_validity"
proof -
  have "tdate_parse ''2026-01-01T00:00:00Z'' \<noteq> None" "tdate_parse ''2027-01-01T00:00:00Z'' \<noteq> None" by code_simp+
  then show ?thesis by (simp add: dates_ok_def text_ok_def valid_str_def valid_utf8_def as_bytes_def)
qed

abbreviation sample_mso :: mobile_security_object where
  "sample_mso \<equiv> mso_of sample_nss ''d'' Null sample_validity None sample_sha"

lemma sample_digests: "digest_name_spaces sample_sha sample_nss = [(''n'', [(0, replicate 32 0x61), (1, replicate 32 0x62)])]"
  by (simp add: digest_name_spaces_def digest_items_def item_digest_def sample_sha_def last_item_bytes)
     (simp add: sample_item_def other_item_def)

lemma sample_mso_ok: "mso_ok sample_mso"
proof -
  have "length (to_canonical (Map (mso_entries sample_mso))) < 2 ^ 64"
    by (simp add: mso_entries_def mso_of_def sample_digests value_digests_value_def validity_value_def
        mso_status_entry_def encode_sample)
  then show ?thesis
    using sample_dates
    by (simp add: mso_ok_def mso_of_def sample_digests value_digests_ok_def digests_ok_def text_ok_def btree_ok_def
        valid_str_def valid_utf8_def as_bytes_def MAX_DEPTH_def del: to_canonical.simps)
qed

abbreviation sample_payload :: bytes where
  "sample_payload \<equiv> tag24 (to_canonical (Map (mso_entries sample_mso)))"

definition sample_auth :: cose_sign1 where
  "sample_auth = \<lparr>cs_protected = encode_protected_header Es256, cs_unprotected = empty_unprotected,
     cs_payload = Some sample_payload,
     cs_signature = sig_structure (encode_protected_header Es256) [] sample_payload @ [1]\<rparr>"

lemma sample_built:
  "build_and_sign_with_status sample_nss ''d'' Null sample_validity None sample_sha toy_signer (KeyRef ''k'') Es256
    = Inr \<lparr>is_name_spaces = sample_nss, issuer_auth = sample_auth\<rparr>"
  using mso_bytes_decode(1) [OF sample_mso_ok]
  by (simp add: build_and_sign_with_status_def mso_of_def [symmetric] cose_sign_def encoded_header_parses
      check_header_collisions_def toy_signer_def sample_auth_def Let_def del: to_canonical.simps)

lemma sample_btree: "btree_ok sample_nss" "\<forall>(ns, items) \<in> set sample_nss. distinct (map digest_id items)"
  by (simp_all add: btree_ok_def sample_item_def other_item_def)

theorem mdoc_issue_then_disclose_witness:
  "verify_issuer_signed \<lparr>is_name_spaces = [(''n'', [other_item])], issuer_auth = sample_auth\<rparr> toy_verifier
     sample_sha [] Es256 = Inr sample_mso"
  using mdoc_issue_then_disclose [OF sample_built sample_mso_ok _ sample_btree, of toy_verifier "[]" "[(''n'', [other_item])]"]
  by (simp add: toy_signer_def toy_verifier_def)

definition sample_verifier :: verifier where
  "sample_verifier = (\<lambda>_ _ t s.
     if t = sig_structure (encode_protected_header Es256) [] sample_payload \<and> s = t @ [1] then Inr () else Inl NotFound)"

lemma sample_shown_verifies:
  "verify_issuer_signed \<lparr>is_name_spaces = [(''n'', [other_item])], issuer_auth = sample_auth\<rparr> sample_verifier
     sample_sha [] Es256 = Inr sample_mso"
proof -
  have "cose_verify sample_auth sample_verifier Es256 [] [] None = Inr ()"
    by (simp add: cose_verify_def sample_auth_def encoded_header_parses check_header_collisions_def
        sample_verifier_def Let_def del: to_canonical.simps)
  moreover have "check_items sample_sha (value_digests sample_mso) [(''n'', [other_item])]"
    using last_item_bytes(2)
    by (simp add: check_items_def mso_of_def sample_digests)
      (simp add: item_digest_def sample_sha_def other_item_def)
  ultimately show ?thesis
    by (subst verify_by_payload [OF _ sample_mso_ok]) (simp_all add: sample_auth_def del: to_canonical.simps)
qed

lemma sample_items_ok: "item_ok sample_item" "item_ok other_item"
  by (simp_all add: item_ok_def sample_item_def other_item_def valid_str_def valid_utf8_def as_bytes_def MAX_DEPTH_def
      encode_sample)

lemma sample_payload_length: "length sample_payload < 2 ^ 64"
  by (simp add: mso_entries_def mso_of_def sample_digests value_digests_value_def validity_value_def
      mso_status_entry_def encode_sample)


end
