(* ===== verification/Catalogue.thy ===== *)
theory Catalogue
  imports Wallet_Prelude
begin

text \<open>
  The attestation catalogue, \<open>crates/catalogue/src/lib.rs\<close>: claim paths, credential types, the registry
  with its queries, and the catalogue the wallet ships with.
\<close>

section \<open>Types and claims\<close>

datatype claim_path = ClaimJson string | ClaimMdoc string string

definition request_path :: "claim_path \<Rightarrow> string" where
  "request_path p = (case p of ClaimJson path \<Rightarrow> path | ClaimMdoc namespace element \<Rightarrow> namespace @ ''.'' @ element)"

definition strip_prefix_str :: "string \<Rightarrow> string \<Rightarrow> string option" where
  "strip_prefix_str pre s = (if take (length pre) s = pre then Some (drop (length pre) s) else None)"

definition matches_request :: "claim_path \<Rightarrow> string \<Rightarrow> bool" where
  "matches_request p requested =
     (case p of
        ClaimJson path \<Rightarrow> path = requested
      | ClaimMdoc namespace element \<Rightarrow>
          (case Option.bind (strip_prefix_str namespace requested) (strip_prefix_str ''.'') of
             None \<Rightarrow> False | Some rest \<Rightarrow> rest = element))"

record claim_spec =
  csp_path :: claim_path
  csp_display_name :: string
  csp_mandatory :: bool

datatype issuer_trust_domain = Dom_Pid | Dom_Attestation

record attestation_type =
  at_id :: string
  at_display_name :: string
  at_format :: string
  at_issuer_trust_domain :: issuer_trust_domain
  at_claims :: "claim_spec list"
  at_trusted_issuers :: "string list"

definition mandatory_claims :: "attestation_type \<Rightarrow> claim_path list" where
  "mandatory_claims t = map csp_path (filter csp_mandatory (at_claims t))"

definition offers :: "attestation_type \<Rightarrow> string \<Rightarrow> bool" where
  "offers t path \<longleftrightarrow> list_ex (\<lambda>c. matches_request (csp_path c) path) (at_claims t)"

section \<open>The registry\<close>

record catalogue =
  cat_types :: "attestation_type list"

definition catalogue_new :: catalogue where
  "catalogue_new = \<lparr>cat_types = []\<rparr>"

text \<open>Assignment through \<open>iter_mut().find(..)\<close> replaces the first match.\<close>

fun replace_first :: "('a \<Rightarrow> bool) \<Rightarrow> 'a \<Rightarrow> 'a list \<Rightarrow> 'a list" where
  "replace_first P v [] = []"
| "replace_first P v (x # xs) = (if P x then v # xs else x # replace_first P v xs)"

definition register :: "attestation_type \<Rightarrow> catalogue \<Rightarrow> bool \<times> catalogue" where
  "register t c =
     (if list_ex (\<lambda>e. at_id e = at_id t) (cat_types c)
      then (True, \<lparr>cat_types = replace_first (\<lambda>e. at_id e = at_id t) t (cat_types c)\<rparr>)
      else (False, \<lparr>cat_types = cat_types c @ [t]\<rparr>))"

definition cat_get :: "catalogue \<Rightarrow> string \<Rightarrow> attestation_type option" where
  "cat_get c i = find (\<lambda>t. at_id t = i) (cat_types c)"

definition types_offering :: "catalogue \<Rightarrow> string \<Rightarrow> string list" where
  "types_offering c path = map at_id (filter (\<lambda>t. offers t path) (cat_types c))"

definition types_satisfying :: "catalogue \<Rightarrow> string list \<Rightarrow> string list" where
  "types_satisfying c requested = map at_id (filter (\<lambda>t. list_all (offers t) requested) (cat_types c))"

definition issuer_allowed :: "catalogue \<Rightarrow> string \<Rightarrow> string \<Rightarrow> bool" where
  "issuer_allowed c i issuer = (case cat_get c i of None \<Rightarrow> False | Some t \<Rightarrow> issuer \<in> set (at_trusted_issuers t))"

definition catalogue_trust_domain :: "catalogue \<Rightarrow> string \<Rightarrow> issuer_trust_domain option" where
  "catalogue_trust_domain c i = map_option at_issuer_trust_domain (cat_get c i)"

definition satisfies_mandatory :: "catalogue \<Rightarrow> string \<Rightarrow> string list \<Rightarrow> bool" where
  "satisfies_mandatory c i held =
     (case cat_get c i of
        None \<Rightarrow> False
      | Some t \<Rightarrow> list_all (\<lambda>m. case m of ClaimJson path \<Rightarrow> path \<in> set held | ClaimMdoc _ _ \<Rightarrow> False) (mandatory_claims t))"

definition satisfies_mandatory_mdoc :: "catalogue \<Rightarrow> string \<Rightarrow> (string \<times> string) list \<Rightarrow> bool" where
  "satisfies_mandatory_mdoc c doc_type held =
     (case cat_get c doc_type of
        None \<Rightarrow> False
      | Some t \<Rightarrow>
          at_format t = ''mso_mdoc''
          \<and> list_all (\<lambda>m. case m of ClaimMdoc namespace element \<Rightarrow> (namespace, element) \<in> set held | ClaimJson _ \<Rightarrow> False)
              (mandatory_claims t))"

section \<open>The default catalogue\<close>

definition json_claim :: "string \<Rightarrow> string \<Rightarrow> bool \<Rightarrow> claim_spec" where
  "json_claim path name mandatory = \<lparr>csp_path = ClaimJson path, csp_display_name = name, csp_mandatory = mandatory\<rparr>"

definition mdoc_claim :: "string \<Rightarrow> string \<Rightarrow> string \<Rightarrow> bool \<Rightarrow> claim_spec" where
  "mdoc_claim ns element name mandatory =
     \<lparr>csp_path = ClaimMdoc ns element, csp_display_name = name, csp_mandatory = mandatory\<rparr>"

definition tlsn_type :: attestation_type where
  "tlsn_type = \<lparr>at_id = ''dev.advatar.tlsn.evidence.1'', at_display_name = ''TLSNotary web evidence (development)'',
     at_format = ''dc+sd-jwt'', at_issuer_trust_domain = Dom_Attestation,
     at_claims = [json_claim ''tlsn_evidence'' ''Versioned TLSNotary evidence provenance'' True],
     at_trusted_issuers = [''https://issuer.advatar.systems'', ''https://issuer.example'']\<rparr>"

definition pid_type :: attestation_type where
  "pid_type = \<lparr>at_id = ''urn:eudi:pid:1'', at_display_name = ''Person Identification Data'',
     at_format = ''dc+sd-jwt'', at_issuer_trust_domain = Dom_Pid,
     at_claims = [json_claim ''family_name'' ''Family name'' True, json_claim ''given_name'' ''Given name'' True,
       json_claim ''birthdate'' ''Date of birth'' True, json_claim ''picture'' ''Portrait'' True,
       json_claim ''age_over_18'' ''Over 18'' False],
     at_trusted_issuers = [''https://issuer.example'']\<rparr>"

definition pid_mdoc_type :: attestation_type where
  "pid_mdoc_type = \<lparr>at_id = ''eu.europa.ec.eudi.pid.1'', at_display_name = ''Person Identification Data (mdoc)'',
     at_format = ''mso_mdoc'', at_issuer_trust_domain = Dom_Pid,
     at_claims = [mdoc_claim ''eu.europa.ec.eudi.pid.1'' ''family_name'' ''Family name'' True,
       mdoc_claim ''eu.europa.ec.eudi.pid.1'' ''given_name'' ''Given name'' True,
       mdoc_claim ''eu.europa.ec.eudi.pid.1'' ''birth_date'' ''Date of birth'' True,
       mdoc_claim ''eu.europa.ec.eudi.pid.1'' ''portrait'' ''Portrait'' True],
     at_trusted_issuers = [''https://issuer.example'']\<rparr>"

definition mdl_type :: attestation_type where
  "mdl_type = \<lparr>at_id = ''urn:eudi:mdl:1'', at_display_name = ''Mobile Driving Licence'',
     at_format = ''dc+sd-jwt'', at_issuer_trust_domain = Dom_Attestation,
     at_claims = [json_claim ''family_name'' ''Family name'' True, json_claim ''given_name'' ''Given name'' True,
       json_claim ''driving_privileges'' ''Driving categories'' True, json_claim ''issuing_country'' ''Issuing country'' True,
       json_claim ''age_over_18'' ''Over 18'' False],
     at_trusted_issuers = [''https://issuer.example'']\<rparr>"

definition mdl_mdoc_type :: attestation_type where
  "mdl_mdoc_type = \<lparr>at_id = ''org.iso.18013.5.1.mDL'', at_display_name = ''Mobile Driving Licence (mdoc)'',
     at_format = ''mso_mdoc'', at_issuer_trust_domain = Dom_Attestation,
     at_claims = [mdoc_claim ''org.iso.18013.5.1'' ''family_name'' ''Family name'' True,
       mdoc_claim ''org.iso.18013.5.1'' ''given_name'' ''Given name'' True,
       mdoc_claim ''org.iso.18013.5.1'' ''age_over_18'' ''Over 18'' False],
     at_trusted_issuers = [''https://issuer.example'']\<rparr>"

definition passport_type :: attestation_type where
  "passport_type = \<lparr>at_id = ''urn:eudi:passport:1'', at_display_name = ''Passport'',
     at_format = ''dc+sd-jwt'', at_issuer_trust_domain = Dom_Attestation,
     at_claims = [json_claim ''family_name'' ''Family name'' True, json_claim ''given_name'' ''Given name'' True,
       json_claim ''document_number'' ''Passport number'' True, json_claim ''nationality'' ''Nationality'' True,
       json_claim ''expiry_date'' ''Expiry date'' True, json_claim ''age_over_18'' ''Over 18'' False],
     at_trusted_issuers = [''https://issuer.example'']\<rparr>"

definition nid_type :: attestation_type where
  "nid_type = \<lparr>at_id = ''urn:eudi:nid:1'', at_display_name = ''National ID Card'',
     at_format = ''dc+sd-jwt'', at_issuer_trust_domain = Dom_Attestation,
     at_claims = [json_claim ''family_name'' ''Family name'' True, json_claim ''given_name'' ''Given name'' True,
       json_claim ''document_number'' ''Document number'' True, json_claim ''issuing_country'' ''Issuing country'' True,
       json_claim ''expiry_date'' ''Expiry date'' True, json_claim ''age_over_18'' ''Over 18'' False],
     at_trusted_issuers = [''https://issuer.example'']\<rparr>"

definition german_pid_type :: attestation_type where
  "german_pid_type = \<lparr>at_id = ''urn:eudi:pid:de:1'', at_display_name = ''German ID Card'',
     at_format = ''dc+sd-jwt'', at_issuer_trust_domain = Dom_Pid,
     at_claims = [json_claim ''family_name'' ''Family name'' True, json_claim ''given_name'' ''Given name'' True,
       json_claim ''birthdate'' ''Date of birth'' True, json_claim ''place_of_birth'' ''Place of birth'' True,
       json_claim ''resident_address'' ''Resident address'' True, json_claim ''issuing_country'' ''Issuing country'' True,
       json_claim ''age_over_18'' ''Over 18'' False],
     at_trusted_issuers = [''https://issuer.example'']\<rparr>"

definition register_all :: "attestation_type list \<Rightarrow> catalogue" where
  "register_all ts = foldl (\<lambda>c t. snd (register t c)) catalogue_new ts"

definition default_catalogue :: catalogue where
  "default_catalogue = register_all
     [tlsn_type, pid_type, pid_mdoc_type, mdl_type, mdl_mdoc_type, passport_type, nid_type, german_pid_type]"

section \<open>Queries are exact\<close>

lemma matches_request_iff: "matches_request p requested \<longleftrightarrow> requested = request_path p"
proof (cases p)
  case (ClaimMdoc ns el)
  have "strip_prefix_str pre s = Some rest \<longleftrightarrow> s = pre @ rest" for pre s rest
    by (auto simp: strip_prefix_str_def) (metis append_take_drop_id)
  then have "Option.bind (strip_prefix_str ns requested) (strip_prefix_str ''.'') = Some el \<longleftrightarrow> requested = ns @ ''.'' @ el"
    by (auto simp: bind_eq_Some_conv)
  moreover have "matches_request p requested \<longleftrightarrow> Option.bind (strip_prefix_str ns requested) (strip_prefix_str ''.'') = Some el"
    by (auto simp: ClaimMdoc matches_request_def split: option.splits)
  ultimately show ?thesis by (simp add: ClaimMdoc request_path_def)
qed (auto simp: matches_request_def request_path_def)

definition ids :: "catalogue \<Rightarrow> string list" where
  "ids c = map at_id (cat_types c)"

lemma replace_first_ids:
  "map at_id (replace_first (\<lambda>e. at_id e = at_id t) t ts) = map at_id ts"
  by (induction ts) auto

lemma find_replace_first:
  "list_ex (\<lambda>e. at_id e = at_id t) ts \<Longrightarrow> find (\<lambda>e. at_id e = i) (replace_first (\<lambda>e. at_id e = at_id t) t ts)
    = (if at_id t = i then Some t else find (\<lambda>e. at_id e = i) ts)"
  by (induction ts) auto

lemma find_append: "find P (xs @ ys) = (case find P xs of None \<Rightarrow> find P ys | Some x \<Rightarrow> Some x)"
  by (induction xs) auto

lemma register_get: "cat_get (snd (register t c)) i = (if at_id t = i then Some t else cat_get c i)"
proof (cases "list_ex (\<lambda>e. at_id e = at_id t) (cat_types c)")
  case True
  then show ?thesis by (simp add: register_def cat_get_def find_replace_first)
next
  case False
  then have "find (\<lambda>e. at_id e = at_id t) (cat_types c) = None"
    by (auto simp: find_None_iff list_ex_iff)
  then show ?thesis using False by (auto simp: register_def cat_get_def find_append split: option.splits)
qed

lemma register_distinct: "distinct (ids c) \<Longrightarrow> distinct (ids (snd (register t c)))"
  by (auto simp: ids_def register_def replace_first_ids list_ex_iff)

text \<open>After any registrations the catalogue has one entry per identifier, and looking an identifier up gives the
  type registered last under it. A type is offered for a requested attribute exactly when it lists a claim
  spelled that way.\<close>

theorem catalogue_last_registration:
  "distinct (ids (register_all ts))
   \<and> cat_get (register_all ts) i = find (\<lambda>t. at_id t = i) (rev ts)
   \<and> set (types_offering (register_all ts) path)
     = {at_id t | t. t \<in> set (cat_types (register_all ts)) \<and> path \<in> request_path ` csp_path ` set (at_claims t)}"
proof -
  have "distinct (ids (register_all ts)) \<and> cat_get (register_all ts) i = find (\<lambda>t. at_id t = i) (rev ts)"
    by (induction ts rule: rev_induct)
      (auto simp: register_all_def register_get register_distinct, simp_all add: catalogue_new_def ids_def cat_get_def)
  then show ?thesis by (auto simp: types_offering_def offers_def list_ex_iff matches_request_iff)
qed

text \<open>In the default catalogue every type has a mandatory claim, is trusted from the example issuer, and is found
  under its own identifier.\<close>

lemma default_catalogue_ids:
  "ids default_catalogue = [''dev.advatar.tlsn.evidence.1'', ''urn:eudi:pid:1'', ''eu.europa.ec.eudi.pid.1'', ''urn:eudi:mdl:1'',
     ''org.iso.18013.5.1.mDL'', ''urn:eudi:passport:1'', ''urn:eudi:nid:1'', ''urn:eudi:pid:de:1'']"
  by (simp add: default_catalogue_def register_all_def register_def catalogue_new_def ids_def tlsn_type_def pid_type_def
      pid_mdoc_type_def mdl_type_def mdl_mdoc_type_def passport_type_def nid_type_def german_pid_type_def)

end
