(* ===== verification/Uri.thy ===== *)
theory Uri
  imports Wallet_Std
begin

text \<open>
  Text searching of the standard library (\<open>split_once\<close>, \<open>rsplit_once\<close>, \<open>find\<close>), the grammar of
  \<open>core::net::Ipv6Addr::from_str\<close>, and the HTTPS endpoint check of
  \<open>crates/oid4vp/src/lib.rs\<close> (module \<open>guards\<close>).
\<close>

section \<open>Searching\<close>

fun split_once_sub :: "string \<Rightarrow> string \<Rightarrow> (string \<times> string) option" where
  "split_once_sub sep [] = (if sep = [] then Some ([], []) else None)"
| "split_once_sub sep (x # xs) =
     (if prefix sep (x # xs) then Some ([], drop (length sep) (x # xs))
      else map_option (\<lambda>(a, b). (x # a, b)) (split_once_sub sep xs))"

definition rsplit_once_str :: "char \<Rightarrow> string \<Rightarrow> (string \<times> string) option" where
  "rsplit_once_str c s = map_option (\<lambda>(a, b). (rev b, rev a)) (split_once_str c (rev s))"

definition find_char :: "char \<Rightarrow> string \<Rightarrow> nat option" where
  "find_char c s = position (\<lambda>x. x = c) s"

definition is_ascii_control :: "u8 \<Rightarrow> bool" where
  "is_ascii_control b \<longleftrightarrow> b \<le> 0x1F \<or> b = 0x7F"

definition is_ascii_whitespace :: "u8 \<Rightarrow> bool" where
  "is_ascii_whitespace b \<longleftrightarrow> b = 0x20 \<or> b = 0x09 \<or> b = 0x0A \<or> b = 0x0C \<or> b = 0x0D"

lemma split_once_sub_Some: "split_once_sub sep s = Some (a, b) \<Longrightarrow> s = a @ sep @ b"
  by (induction sep s arbitrary: a rule: split_once_sub.induct)
    (auto simp: prefix_def split: if_splits)

section \<open>IPv6 literals\<close>

text \<open>
  The recursive-descent parser of \<open>core::net\<close>: a reader takes the remaining text and returns the
  rest on success. A hexadecimal group has one to four digits; a decimal group of an embedded IPv4
  address has one to three, no leading zero and a value below 256.
\<close>

definition hex_digit :: "char \<Rightarrow> nat option" where
  "hex_digit c =
     (let n = (of_char c :: nat) in
      if 48 \<le> n \<and> n \<le> 57 then Some (n - 48)
      else if 97 \<le> n \<and> n \<le> 102 then Some (n - 87)
      else if 65 \<le> n \<and> n \<le> 70 then Some (n - 55)
      else None)"

definition dec_digit :: "char \<Rightarrow> nat option" where
  "dec_digit c = (let n = (of_char c :: nat) in if 48 \<le> n \<and> n \<le> 57 then Some (n - 48) else None)"

definition read_hex_group :: "string \<Rightarrow> string option" where
  "read_hex_group s =
     (let ds = takeWhile (\<lambda>c. hex_digit c \<noteq> None) s in
      if ds = [] \<or> length ds > 4 then None else Some (drop (length ds) s))"

definition read_dec_group :: "string \<Rightarrow> string option" where
  "read_dec_group s =
     (let ds = takeWhile (\<lambda>c. dec_digit c \<noteq> None) s in
      if ds = [] \<or> length ds > 3 \<or> (length ds > 1 \<and> hd ds = CHR ''0'') then None
      else if foldl (\<lambda>n c. n * 10 + the (dec_digit c)) 0 ds > 255 then None
      else Some (drop (length ds) s))"

definition read_given_char :: "char \<Rightarrow> string \<Rightarrow> string option" where
  "read_given_char c s = (case s of [] \<Rightarrow> None | x # xs \<Rightarrow> if x = c then Some xs else None)"

definition read_separator :: "char \<Rightarrow> nat \<Rightarrow> (string \<Rightarrow> string option) \<Rightarrow> string \<Rightarrow> string option" where
  "read_separator sep index reader s =
     (if index > 0 then Option.bind (read_given_char sep s) reader else reader s)"

definition read_ipv4 :: "string \<Rightarrow> string option" where
  "read_ipv4 s =
     foldl (\<lambda>rest i. Option.bind rest (read_separator (CHR ''.'') i read_dec_group)) (Some s) [0, 1, 2, 3]"

text \<open>\<open>read_groups\<close> with \<open>limit\<close> slots, from slot \<open>i\<close>: the number of groups, whether IPv4 ended it, the rest.\<close>

function read_groups :: "nat \<Rightarrow> nat \<Rightarrow> string \<Rightarrow> nat \<times> bool \<times> string" where
  "read_groups limit i s =
     (if i \<ge> limit then (limit, False, s)
      else
        case (if i < limit - 1 then read_separator (CHR '':'') i read_ipv4 s else None) of
          Some rest \<Rightarrow> (i + 2, True, rest)
        | None \<Rightarrow>
            (case read_separator (CHR '':'') i read_hex_group s of
               None \<Rightarrow> (i, False, s)
             | Some rest \<Rightarrow> read_groups limit (i + 1) rest))"
  by pat_completeness auto
termination by (relation "measure (\<lambda>(limit, i, _). limit - i)") auto

declare read_groups.simps [simp del]

definition is_ipv6_addr :: "string \<Rightarrow> bool" where
  "is_ipv6_addr s =
     (case read_groups 8 0 s of
        (head_size, head_ipv4, rest) \<Rightarrow>
          if head_size = 8 then rest = []
          else if head_ipv4 then False
          else
            (case Option.bind (read_given_char (CHR '':'') rest) (read_given_char (CHR '':'')) of
               None \<Rightarrow> False
             | Some rest \<Rightarrow> (case read_groups (8 - (head_size + 1)) 0 rest of (_, _, rest) \<Rightarrow> rest = [])))"

section \<open>HTTPS endpoints\<close>

definition valid_port :: "string \<Rightarrow> bool" where
  "valid_port port \<longleftrightarrow>
     port \<noteq> [] \<and> list_all is_ascii_digit (as_bytes port)
     \<and> (let p = foldl (\<lambda>n c. n * 10 + the (dec_digit c)) 0 port in p < 2 ^ 16 \<and> p \<noteq> 0)"

definition valid_optional_port :: "string \<Rightarrow> bool" where
  "valid_optional_port rest \<longleftrightarrow>
     rest = [] \<or> (case read_given_char (CHR '':'') rest of None \<Rightarrow> False | Some port \<Rightarrow> valid_port port)"

definition valid_label :: "string \<Rightarrow> bool" where
  "valid_label label \<longleftrightarrow>
     label \<noteq> [] \<and> length label \<le> 63 \<and> hd label \<noteq> CHR ''-'' \<and> last label \<noteq> CHR ''-''
     \<and> list_all (\<lambda>b. is_ascii_alphanumeric b \<or> b = 0x2D) (as_bytes label)"

definition valid_host :: "string \<Rightarrow> bool" where
  "valid_host host \<longleftrightarrow>
     host \<noteq> [] \<and> length host \<le> 253 \<and> list_all valid_label (split_str (CHR ''.'') host)"

definition authority_ok :: "string \<Rightarrow> bool" where
  "authority_ok authority =
     (if authority = [] \<or> CHR ''@'' \<in> set authority then False
      else
        case read_given_char (CHR ''['') authority of
          Some ipv6 \<Rightarrow>
            (case find_char (CHR '']'') ipv6 of
               None \<Rightarrow> False
             | Some close \<Rightarrow>
                 if close = 0 \<or> \<not> is_ipv6_addr (take close ipv6) then False
                 else valid_optional_port (drop (close + 1) ipv6))
        | None \<Rightarrow>
            if length (filter (\<lambda>c. c = CHR '':'') authority) > 1 then False
            else
              case rsplit_once_str (CHR '':'') authority of
                Some (host, port) \<Rightarrow> valid_host host \<and> valid_port port
              | None \<Rightarrow> valid_host authority)"

definition authority_end :: "string \<Rightarrow> nat" where
  "authority_end remainder =
     (case (find_char (CHR ''/'') remainder, find_char (CHR ''?'') remainder) of
        (None, None) \<Rightarrow> length remainder
      | (Some i, None) \<Rightarrow> i
      | (None, Some j) \<Rightarrow> j
      | (Some i, Some j) \<Rightarrow> min i j)"

definition is_valid_https_uri :: "string \<Rightarrow> bool" where
  "is_valid_https_uri uri =
     (if uri = [] \<or> list_ex (\<lambda>b. is_ascii_control b \<or> is_ascii_whitespace b) (as_bytes uri)
         \<or> char_of (92 :: nat) \<in> set uri \<or> CHR ''#'' \<in> set uri then False
      else
        case split_once_sub ''://'' uri of
          None \<Rightarrow> False
        | Some (scheme, remainder) \<Rightarrow>
            if \<not> eq_ignore_ascii_case scheme ''https'' \<or> remainder = [] then False
            else authority_ok (take (authority_end remainder) remainder))"

end
