(* ===== verification/X509.thy ===== *)
theory X509
  imports Uri Crypto_Traits "HOL-Library.Char_ord" "HOL-Library.List_Lexorder" "HOL-Library.Product_Lexorder"
begin

unbundle bit_operations_syntax

text \<open>
  The certificate profile, \<open>crates/x509/src/lib.rs\<close>: what the crate reads of a decoded certificate,
  canonical names, name constraints, certificate policies, the bounded search for a path from a
  leaf to a trust anchor, its validation, and the issuer and relying-party profiles.

  DER decoding is done by the RustCrypto crates. It enters as the record \<open>der_codec\<close>: each decoder
  is a function from bytes to the fields the crate reads. The certificate verifier and the Unicode
  lower-case table are arguments too.
\<close>

section \<open>Decoded certificates\<close>

datatype asn1_tag = Utf8String | PrintableString | Ia5String | TeletexString | BmpString | NullTag | OtherTag nat

record asn1_any =
  any_tag :: asn1_tag
  any_value :: bytes

record algorithm_identifier =
  ai_oid :: string
  ai_parameters :: "asn1_any option"

type_synonym dist_name = "(string \<times> asn1_any) list list"

datatype general_name =
    DnsName string
  | UniformResourceIdentifier string
  | Rfc822Name string
  | DirectoryName dist_name
  | IpAddress bytes
  | OtherGeneralName

record general_subtree =
  gs_base :: general_name
  gs_minimum :: u32
  gs_maximum :: "u32 option"

record extension =
  extn_id :: string
  extn_critical :: bool
  extn_value :: bytes

record certificate =
  ct_tbs_der :: "bytes option"
  ct_signature :: "bytes option"
  ct_signature_algorithm :: algorithm_identifier
  ct_tbs_signature :: algorithm_identifier
  ct_spki_der :: "bytes option"
  ct_spki_algorithm :: algorithm_identifier
  ct_public_key :: "bytes option"
  ct_not_before :: u64
  ct_not_after :: u64
  ct_subject :: dist_name
  ct_issuer :: dist_name
  ct_subject_der :: "bytes option"
  ct_issuer_der :: "bytes option"
  ct_subject_text :: string
  ct_issuer_text :: string
  ct_extensions :: "extension list option"

record der_codec =
  certificate_from_der :: "bytes \<Rightarrow> certificate option"
  oid_from_any :: "asn1_any \<Rightarrow> string option"
  rsa_public_key_from_der :: "bytes \<Rightarrow> (bytes \<times> bytes) option"
  basic_constraints_from_der :: "bytes \<Rightarrow> (bool \<times> u8 option) option"
  key_usage_from_der :: "bytes \<Rightarrow> (bool \<times> bool) option"
  eku_from_der :: "bytes \<Rightarrow> string list option"
  policies_from_der :: "bytes \<Rightarrow> (string \<times> bool) list option"
  policy_mappings_from_der :: "bytes \<Rightarrow> (string \<times> string) list option"
  policy_constraints_from_der :: "bytes \<Rightarrow> (u32 option \<times> u32 option) option"
  inhibit_any_from_der :: "bytes \<Rightarrow> u32 option"
  san_from_der :: "bytes \<Rightarrow> general_name list option"
  name_constraints_from_der :: "bytes \<Rightarrow> (general_subtree list option \<times> general_subtree list option) option"
  ski_from_der :: "bytes \<Rightarrow> bytes option"
  aki_from_der :: "bytes \<Rightarrow> bytes option option"
  to_lowercase :: "nat list \<Rightarrow> nat list"

record cert_verifier =
  verify_certificate :: certificate_verifier
  validate_certificate_public_key :: "certificate_public_key_alg \<Rightarrow> bytes \<Rightarrow> crypto_error + unit"

section \<open>Constants\<close>

definition EKU_MDOC_READER_AUTH :: string where "EKU_MDOC_READER_AUTH = ''1.0.18013.5.1.6''"
definition OID_EKU :: string where "OID_EKU = ''2.5.29.37''"
definition OID_POLICIES :: string where "OID_POLICIES = ''2.5.29.32''"
definition OID_BASIC_CONSTRAINTS :: string where "OID_BASIC_CONSTRAINTS = ''2.5.29.19''"
definition OID_SUBJECT_ALT_NAME :: string where "OID_SUBJECT_ALT_NAME = ''2.5.29.17''"
definition OID_KEY_USAGE :: string where "OID_KEY_USAGE = ''2.5.29.15''"
definition OID_SUBJECT_KEY_IDENTIFIER :: string where "OID_SUBJECT_KEY_IDENTIFIER = ''2.5.29.14''"
definition OID_AUTHORITY_KEY_IDENTIFIER :: string where "OID_AUTHORITY_KEY_IDENTIFIER = ''2.5.29.35''"
definition OID_NAME_CONSTRAINTS :: string where "OID_NAME_CONSTRAINTS = ''2.5.29.30''"
definition OID_POLICY_MAPPINGS :: string where "OID_POLICY_MAPPINGS = ''2.5.29.33''"
definition OID_POLICY_CONSTRAINTS :: string where "OID_POLICY_CONSTRAINTS = ''2.5.29.36''"
definition OID_INHIBIT_ANY_POLICY :: string where "OID_INHIBIT_ANY_POLICY = ''2.5.29.54''"
definition OID_ANY_POLICY :: string where "OID_ANY_POLICY = ''2.5.29.32.0''"
definition OID_ECDSA_SHA256 :: string where "OID_ECDSA_SHA256 = ''1.2.840.10045.4.3.2''"
definition OID_ECDSA_SHA384 :: string where "OID_ECDSA_SHA384 = ''1.2.840.10045.4.3.3''"
definition OID_ED25519 :: string where "OID_ED25519 = ''1.3.101.112''"
definition OID_RSA_ENCRYPTION :: string where "OID_RSA_ENCRYPTION = ''1.2.840.113549.1.1.1''"
definition OID_RSA_SHA256 :: string where "OID_RSA_SHA256 = ''1.2.840.113549.1.1.11''"
definition OID_RSA_SHA384 :: string where "OID_RSA_SHA384 = ''1.2.840.113549.1.1.12''"
definition OID_RSA_SHA512 :: string where "OID_RSA_SHA512 = ''1.2.840.113549.1.1.13''"
definition OID_EC_PUBLIC_KEY :: string where "OID_EC_PUBLIC_KEY = ''1.2.840.10045.2.1''"
definition OID_P256 :: string where "OID_P256 = ''1.2.840.10045.3.1.7''"
definition OID_P384 :: string where "OID_P384 = ''1.3.132.0.34''"
definition MAX_SUPPLIED_CERTIFICATES :: nat where "MAX_SUPPLIED_CERTIFICATES = 8"
definition MAX_TRUST_ANCHORS :: nat where "MAX_TRUST_ANCHORS = 64"
definition MAX_CERTIFICATE_DER_BYTES :: nat where "MAX_CERTIFICATE_DER_BYTES = 64 * 1024"
definition MAX_EXTENSIONS_PER_CERTIFICATE :: nat where "MAX_EXTENSIONS_PER_CERTIFICATE = 32"
definition MAX_GENERAL_NAMES_PER_CERTIFICATE :: nat where "MAX_GENERAL_NAMES_PER_CERTIFICATE = 64"
definition MAX_NAME_CONSTRAINTS_PER_CERTIFICATE :: nat where "MAX_NAME_CONSTRAINTS_PER_CERTIFICATE = 64"
definition MAX_POLICIES_PER_CERTIFICATE :: nat where "MAX_POLICIES_PER_CERTIFICATE = 32"
definition MAX_POLICY_MAPPINGS_PER_CERTIFICATE :: nat where "MAX_POLICY_MAPPINGS_PER_CERTIFICATE = 32"
definition MAX_ISSUER_CANDIDATES :: nat where "MAX_ISSUER_CANDIDATES = 16"
definition MAX_PATH_BUILD_STEPS :: nat where "MAX_PATH_BUILD_STEPS = 256"
definition MAX_COMPLETE_PATHS :: nat where "MAX_COMPLETE_PATHS = MAX_PATH_BUILD_STEPS"

section \<open>Parsed certificates\<close>

datatype x509_error =
    Der
  | PathInvalid string
  | ProfileViolation string
  | UnsupportedSignatureAlg
  | UnsupportedPublicKey

type_synonym canonical_name = "(string \<times> string) list list"

datatype supported_name_constraint =
    NC_Dns string
  | NC_Email string
  | NC_UriHost string
  | NC_Ip bytes bytes
  | NC_Directory canonical_name

record parsed_name_constraints =
  nc_permitted :: "supported_name_constraint list"
  nc_excluded :: "supported_name_constraint list"

record certificate_names =
  cn_dns :: "string list"
  cn_emails :: "string list"
  cn_uris :: "string list"
  cn_ips :: "bytes list"
  cn_directories :: "canonical_name list"

record certificate_policy_state =
  ps_policies :: "string list option"
  ps_mappings :: "(string \<times> string) list"
  ps_require_explicit_policy :: "u32 option"
  ps_inhibit_policy_mapping :: "u32 option"
  ps_inhibit_any_policy :: "u32 option"
  ps_error :: "string option"

record certificate_constraints =
  cc_subject_der :: bytes
  cc_issuer_der :: bytes
  cc_canonical_subject :: canonical_name
  cc_canonical_issuer :: canonical_name
  cc_basic_constraints_present :: bool
  cc_basic_constraints_critical :: bool
  cc_path_len_constraint :: "u8 option"
  cc_key_usage_present :: bool
  cc_digital_signature :: bool
  cc_key_cert_sign :: bool
  cc_subject_key_identifier :: "bytes option"
  cc_authority_key_identifier :: "bytes option"
  cc_unsupported_critical_extension :: bool
  cc_signature_algorithms_match :: bool
  cc_public_key_algorithm :: "certificate_public_key_alg option"
  cc_names :: certificate_names
  cc_name_constraints_present :: bool
  cc_name_constraints :: "parsed_name_constraints option"
  cc_name_constraints_error :: "string option"
  cc_policy :: certificate_policy_state

record parsed_cert =
  pc_tbs_der :: bytes
  pc_signature :: bytes
  pc_sig_alg :: certificate_signature_alg
  pc_spki_der :: bytes
  pc_public_key_raw :: bytes
  pc_subject :: string
  pc_issuer :: string
  pc_uri_sans :: "string list"
  pc_not_before :: int
  pc_not_after :: int
  pc_is_ca :: bool
  pc_eku :: "string list"
  pc_policies :: "string list"
  pc_constraints :: certificate_constraints

section \<open>Text helpers of the standard library\<close>

definition is_ascii :: "string \<Rightarrow> bool" where
  "is_ascii s \<longleftrightarrow> list_all (\<lambda>b. b < 0x80) (as_bytes s)"

definition to_ascii_lowercase :: "string \<Rightarrow> string" where
  "to_ascii_lowercase s = map to_lower_ascii s"

definition is_ascii_alphabetic :: "u8 \<Rightarrow> bool" where
  "is_ascii_alphabetic b \<longleftrightarrow> is_ascii_uppercase b \<or> is_ascii_lowercase b"

text \<open>\<open>u16::from_str\<close>: an optional plus sign and at least one digit, below \<open>2 ^ 16\<close>.\<close>

definition parse_u16 :: "string \<Rightarrow> nat option" where
  "parse_u16 s =
     (let ds = (case s of x # xs \<Rightarrow> if x = CHR ''+'' then xs else s | [] \<Rightarrow> []);
          n = foldl (\<lambda>n c. n * 10 + the (dec_digit c)) 0 ds
      in if ds = [] \<or> \<not> list_all (\<lambda>c. dec_digit c \<noteq> None) ds \<or> n \<ge> 2 ^ 16 then None else Some n)"

definition is_ipv4_addr :: "string \<Rightarrow> bool" where
  "is_ipv4_addr s \<longleftrightarrow> length s \<le> 15 \<and> read_ipv4 s = Some []"

definition count_chr :: "char \<Rightarrow> string \<Rightarrow> nat" where
  "count_chr c s = length (filter (\<lambda>x. x = c) s)"

text \<open>Characters as code points: UTF-8 encoding, UTF-16 decoding and \<open>split_whitespace\<close>.\<close>

definition encode_utf8 :: "nat \<Rightarrow> string" where
  "encode_utf8 c =
     (if c < 0x80 then [char_of c]
      else if c < 0x800 then [char_of (0xC0 + c div 64), char_of (0x80 + c mod 64)]
      else if c < 0x10000 then [char_of (0xE0 + c div 4096), char_of (0x80 + c div 64 mod 64), char_of (0x80 + c mod 64)]
      else [char_of (0xF0 + c div 262144), char_of (0x80 + c div 4096 mod 64), char_of (0x80 + c div 64 mod 64),
            char_of (0x80 + c mod 64)])"

fun utf16_units :: "bytes \<Rightarrow> nat list option" where
  "utf16_units [] = Some []"
| "utf16_units [_] = None"
| "utf16_units (a # b # bs) = map_option (Cons (unat a * 256 + unat b)) (utf16_units bs)"

fun decode_utf16 :: "nat list \<Rightarrow> nat list option" where
  "decode_utf16 [] = Some []"
| "decode_utf16 (u # us) =
     (if u < 0xD800 \<or> 0xDFFF < u then map_option (Cons u) (decode_utf16 us)
      else if 0xDC00 \<le> u then None
      else
        case us of
          [] \<Rightarrow> None
        | v # vs \<Rightarrow>
            if 0xDC00 \<le> v \<and> v \<le> 0xDFFF
            then map_option (Cons (0x10000 + (u - 0xD800) * 1024 + (v - 0xDC00))) (decode_utf16 vs)
            else None)"

fun words_of :: "nat list \<Rightarrow> nat list \<Rightarrow> nat list list" where
  "words_of w [] = (if w = [] then [] else [w])"
| "words_of w (c # cs) =
     (if is_whitespace c then (if w = [] then words_of [] cs else w # words_of [] cs)
      else words_of (w @ [c]) cs)"

fun join_words :: "nat list list \<Rightarrow> nat list" where
  "join_words [] = []"
| "join_words [w] = w"
| "join_words (w # v # ws) = w @ 0x20 # join_words (v # ws)"

section \<open>Algorithms and keys\<close>

definition parameters_absent :: "algorithm_identifier \<Rightarrow> bool" where
  "parameters_absent algorithm \<longleftrightarrow> ai_parameters algorithm = None"

definition parameters_absent_or_null :: "algorithm_identifier \<Rightarrow> bool" where
  "parameters_absent_or_null algorithm =
     (case ai_parameters algorithm of None \<Rightarrow> True | Some p \<Rightarrow> any_tag p = NullTag \<and> any_value p = [])"

definition parameters_are_null :: "algorithm_identifier \<Rightarrow> bool" where
  "parameters_are_null algorithm =
     (case ai_parameters algorithm of None \<Rightarrow> False | Some p \<Rightarrow> any_tag p = NullTag \<and> any_value p = [])"

definition map_sig_alg :: "algorithm_identifier \<Rightarrow> x509_error + certificate_signature_alg" where
  "map_sig_alg algorithm =
     (let oid = ai_oid algorithm in
      if oid = OID_ECDSA_SHA256 \<and> parameters_absent algorithm then Inr EcdsaSha256
      else if oid = OID_ECDSA_SHA384 \<and> parameters_absent algorithm then Inr EcdsaSha384
      else if oid = OID_ED25519 \<and> parameters_absent algorithm then Inr Ed25519
      else if oid = OID_RSA_SHA256 \<and> parameters_absent_or_null algorithm then Inr RsaPkcs1Sha256
      else if oid = OID_RSA_SHA384 \<and> parameters_absent_or_null algorithm then Inr RsaPkcs1Sha384
      else if oid = OID_RSA_SHA512 \<and> parameters_absent_or_null algorithm then Inr RsaPkcs1Sha512
      else Inl UnsupportedSignatureAlg)"

fun bit_length :: "nat \<Rightarrow> nat" where
  "bit_length n = (if n = 0 then 0 else Suc (bit_length (n div 2)))"

declare bit_length.simps [simp del]

definition modulus_bits :: "bytes \<Rightarrow> nat" where
  "modulus_bits modulus =
     (case modulus of [] \<Rightarrow> 0 | first # _ \<Rightarrow> (length modulus - 1) * 8 + bit_length (unat first))"

definition parse_public_key :: "der_codec \<Rightarrow> algorithm_identifier \<Rightarrow> bytes \<Rightarrow> x509_error + certificate_public_key_alg" where
  "parse_public_key D algorithm raw =
     (let oid = ai_oid algorithm in
      if oid = OID_EC_PUBLIC_KEY then
        bind_result (ok_or (ai_parameters algorithm) UnsupportedPublicKey) (\<lambda>p.
        bind_result (ok_or (oid_from_any D p) UnsupportedPublicKey) (\<lambda>curve.
          if curve = OID_P256 \<and> length raw = 65 \<and> hd raw = 0x04 then Inr EcP256
          else if curve = OID_P384 \<and> length raw = 97 \<and> hd raw = 0x04 then Inr EcP384
          else Inl UnsupportedPublicKey))
      else if oid = OID_ED25519 \<and> parameters_absent algorithm \<and> length raw = 32 then Inr Ed25519Key
      else if oid = OID_RSA_ENCRYPTION \<and> parameters_are_null algorithm then
        bind_result (ok_or (rsa_public_key_from_der D raw) UnsupportedPublicKey) (\<lambda>(modulus, exponent).
          if \<not> (2048 \<le> modulus_bits modulus \<and> modulus_bits modulus \<le> 8192) \<or> exponent \<noteq> [0x01, 0x00, 0x01]
          then Inl UnsupportedPublicKey
          else Inr Rsa)
      else Inl UnsupportedPublicKey)"

section \<open>Canonical names\<close>

definition directory_chars :: "asn1_any \<Rightarrow> nat list option" where
  "directory_chars v =
     (case any_tag v of
        Utf8String \<Rightarrow> utf8_chars (any_value v)
      | PrintableString \<Rightarrow> if list_all (\<lambda>b. b < 0x80) (any_value v) then Some (map unat (any_value v)) else None
      | Ia5String \<Rightarrow> if list_all (\<lambda>b. b < 0x80) (any_value v) then Some (map unat (any_value v)) else None
      | TeletexString \<Rightarrow> if list_all (\<lambda>b. b < 0x80) (any_value v) then Some (map unat (any_value v)) else None
      | BmpString \<Rightarrow> Option.bind (utf16_units (any_value v)) decode_utf16
      | _ \<Rightarrow> None)"

definition canonical_directory_value :: "der_codec \<Rightarrow> asn1_any \<Rightarrow> string option" where
  "canonical_directory_value D v =
     Option.bind (directory_chars v) (\<lambda>decoded.
       let folded = to_lowercase D (join_words (words_of [] decoded)) in
       if folded = [] then None else Some (concat (map encode_utf8 folded)))"

fun collect_option :: "('a \<Rightarrow> 'b option) \<Rightarrow> 'a list \<Rightarrow> 'b list option" where
  "collect_option f [] = Some []"
| "collect_option f (x # xs) = Option.bind (f x) (\<lambda>y. map_option (Cons y) (collect_option f xs))"

definition canonical_rdn :: "der_codec \<Rightarrow> (string \<times> asn1_any) list \<Rightarrow> (string \<times> string) list option" where
  "canonical_rdn D rdn =
     (if rdn = [] \<or> length rdn > MAX_GENERAL_NAMES_PER_CERTIFICATE then None
      else map_option sort (collect_option (\<lambda>(oid, v). map_option (Pair oid) (canonical_directory_value D v)) rdn))"

definition canonical_name_of :: "der_codec \<Rightarrow> dist_name \<Rightarrow> canonical_name option" where
  "canonical_name_of D name =
     (if name = [] \<or> length name > MAX_GENERAL_NAMES_PER_CERTIFICATE then None
      else collect_option (canonical_rdn D) name)"

definition canonical_dns_label :: "string \<Rightarrow> bool" where
  "canonical_dns_label label \<longleftrightarrow>
     label \<noteq> [] \<and> length label \<le> 63
     \<and> list_all (\<lambda>b. is_ascii_alphanumeric b \<or> b = 0x2D) (as_bytes label)
     \<and> is_ascii_alphanumeric (hd (as_bytes label)) \<and> is_ascii_alphanumeric (last (as_bytes label))"

definition canonical_dns_name :: "string \<Rightarrow> string option" where
  "canonical_dns_name s =
     (if s = [] \<or> length s > 253 \<or> hd s = CHR ''.'' \<or> last s = CHR ''.'' \<or> \<not> is_ascii s then None
      else
        let canonical = to_ascii_lowercase s in
        if list_all canonical_dns_label (split_str (CHR ''.'') canonical) then Some canonical else None)"

definition canonical_uri_constraint :: "string \<Rightarrow> string option" where
  "canonical_uri_constraint s =
     (let (subdomains_only, host) =
        (case read_given_char (CHR ''.'') s of None \<Rightarrow> (False, s) | Some host \<Rightarrow> (True, host)) in
      Option.bind (canonical_dns_name host) (\<lambda>host.
        if is_ipv4_addr host then None else Some (if subdomains_only then CHR ''.'' # host else host)))"

definition canonical_email :: "string \<Rightarrow> bool \<Rightarrow> string option" where
  "canonical_email s constraint =
     (if s = [] \<or> \<not> is_ascii s \<or> list_ex is_ascii_whitespace (as_bytes s) then None
      else
        case rsplit_once_str (CHR ''@'') s of
          Some (loc, domain) \<Rightarrow>
            if constraint \<and> hd s = CHR ''.'' \<or> loc = [] then None
            else Option.bind (canonical_dns_name domain) (\<lambda>domain. Some (loc @ ''@'' @ domain))
        | None \<Rightarrow> if constraint then canonical_uri_constraint s else None)"

section \<open>Name constraints as parsed\<close>

fun mask_bits_contiguous :: "bool \<Rightarrow> bool list \<Rightarrow> bool" where
  "mask_bits_contiguous saw_zero [] = True"
| "mask_bits_contiguous saw_zero (b # bs) =
     (if saw_zero \<and> b then False else mask_bits_contiguous (saw_zero \<or> \<not> b) bs)"

definition byte_bits :: "u8 \<Rightarrow> bool list" where
  "byte_bits b = map (bit b) (rev [0 ..< 8])"

definition valid_ip_constraint :: "bytes \<Rightarrow> bytes \<Rightarrow> bool" where
  "valid_ip_constraint address ipmask \<longleftrightarrow>
     length address = length ipmask \<and> (length address = 4 \<or> length address = 16)
     \<and> mask_bits_contiguous False (concat (map byte_bits ipmask))
     \<and> list_all (\<lambda>(a, m). a AND NOT m = 0) (zip address ipmask)"

definition parse_subtree :: "der_codec \<Rightarrow> general_subtree \<Rightarrow> string + supported_name_constraint" where
  "parse_subtree D subtree =
     (if gs_minimum subtree \<noteq> 0 \<or> gs_maximum subtree \<noteq> None then Inl ''unsupported name constraint distance''
      else
        case gs_base subtree of
          DnsName name \<Rightarrow> map_sum (\<lambda>e. e) NC_Dns (ok_or (canonical_dns_name name) ''malformed DNS name constraint'')
        | UniformResourceIdentifier host \<Rightarrow>
            map_sum (\<lambda>e. e) NC_UriHost (ok_or (canonical_uri_constraint host) ''malformed URI name constraint'')
        | Rfc822Name email \<Rightarrow>
            map_sum (\<lambda>e. e) NC_Email (ok_or (canonical_email email True) ''malformed rfc822Name constraint'')
        | DirectoryName name \<Rightarrow>
            map_sum (\<lambda>e. e) NC_Directory (ok_or (canonical_name_of D name) ''malformed directoryName constraint'')
        | IpAddress bytes \<Rightarrow>
            let half = length bytes div 2 in
            if \<not> (length bytes = 8 \<or> length bytes = 32) \<or> \<not> valid_ip_constraint (take half bytes) (drop half bytes)
            then Inl ''malformed IP name constraint''
            else Inr (NC_Ip (take half bytes) (drop half bytes))
        | OtherGeneralName \<Rightarrow> Inl ''unsupported name constraint form'')"

fun collect_result :: "('a \<Rightarrow> 'e + 'b) \<Rightarrow> 'a list \<Rightarrow> 'e + 'b list" where
  "collect_result f [] = Inr []"
| "collect_result f (x # xs) = bind_result (f x) (\<lambda>y. bind_result (collect_result f xs) (\<lambda>ys. Inr (y # ys)))"

definition parse_name_constraints ::
    "der_codec \<Rightarrow> general_subtree list option \<Rightarrow> general_subtree list option \<Rightarrow> string + parsed_name_constraints" where
  "parse_name_constraints D permitted_subtrees excluded_subtrees =
     (if permitted_subtrees = Some [] \<or> excluded_subtrees = Some []
      then Inl ''NameConstraints contains an empty GeneralSubtrees''
      else
        let permitted = unwrap_or [] permitted_subtrees; excluded = unwrap_or [] excluded_subtrees in
        bind_result (ok_or (checked_add_usize (length permitted) (length excluded))
          ''name constraints resource budget exceeded'') (\<lambda>sum.
          if sum = 0 then Inl ''NameConstraints is empty''
          else if sum > MAX_NAME_CONSTRAINTS_PER_CERTIFICATE then Inl ''name constraints resource budget exceeded''
          else
            bind_result (collect_result (parse_subtree D) permitted) (\<lambda>permitted.
            bind_result (collect_result (parse_subtree D) excluded) (\<lambda>excluded.
              Inr \<lparr>nc_permitted = permitted, nc_excluded = excluded\<rparr>))))"

section \<open>Parsing a certificate\<close>

text \<open>What the loop over the extensions updates.\<close>

record extension_state =
  es_is_ca :: bool
  es_eku :: "string list"
  es_policies :: "string list"
  es_uri_sans :: "string list"
  es_constraints :: certificate_constraints

definition no_names :: certificate_names where
  "no_names = \<lparr>cn_dns = [], cn_emails = [], cn_uris = [], cn_ips = [], cn_directories = []\<rparr>"

definition no_policy_state :: certificate_policy_state where
  "no_policy_state = \<lparr>ps_policies = None, ps_mappings = [], ps_require_explicit_policy = None,
     ps_inhibit_policy_mapping = None, ps_inhibit_any_policy = None, ps_error = None\<rparr>"

abbreviation (input) update_constraints :: "(certificate_constraints \<Rightarrow> certificate_constraints) \<Rightarrow> extension_state \<Rightarrow> extension_state" where
  "update_constraints f st \<equiv> st\<lparr>es_constraints := f (es_constraints st)\<rparr>"

abbreviation (input) update_policy :: "(certificate_policy_state \<Rightarrow> certificate_policy_state) \<Rightarrow> extension_state \<Rightarrow> extension_state" where
  "update_policy f st \<equiv> update_constraints (\<lambda>c. c\<lparr>cc_policy := f (cc_policy c)\<rparr>) st"

definition policy_error :: "string \<Rightarrow> extension_state \<Rightarrow> extension_state" where
  "policy_error e st = update_policy (\<lambda>p. p\<lparr>ps_error := Some e\<rparr>) st"

definition parse_basic_constraints :: "der_codec \<Rightarrow> extension \<Rightarrow> extension_state \<Rightarrow> x509_error + extension_state" where
  "parse_basic_constraints D ext st =
     bind_result (ok_or (basic_constraints_from_der D (extn_value ext)) Der) (\<lambda>(ca, path_len).
       if \<not> ca \<and> path_len \<noteq> None then Inl Der
       else Inr (update_constraints (\<lambda>c. c\<lparr>cc_basic_constraints_present := True,
           cc_basic_constraints_critical := extn_critical ext, cc_path_len_constraint := path_len\<rparr>) (st\<lparr>es_is_ca := ca\<rparr>)))"

definition parse_key_usage :: "der_codec \<Rightarrow> extension \<Rightarrow> extension_state \<Rightarrow> x509_error + extension_state" where
  "parse_key_usage D ext st =
     bind_result (ok_or (key_usage_from_der D (extn_value ext)) Der) (\<lambda>(digital_signature, key_cert_sign).
       Inr (update_constraints (\<lambda>c. c\<lparr>cc_key_usage_present := True, cc_digital_signature := digital_signature,
         cc_key_cert_sign := key_cert_sign\<rparr>) st))"

fun collect_policies :: "bool \<Rightarrow> (string \<times> bool) list \<Rightarrow> string list \<Rightarrow> string list \<times> string option" where
  "collect_policies critical [] acc = (acc, None)"
| "collect_policies critical ((oid, qualified) # ps) acc =
     (if critical \<and> qualified then (acc, Some ''certificate policy qualifiers are unsupported'')
      else if oid \<in> set acc then (acc, Some ''duplicate certificate policy'')
      else collect_policies critical ps (acc @ [oid]))"

definition parse_policies :: "der_codec \<Rightarrow> extension \<Rightarrow> extension_state \<Rightarrow> x509_error + extension_state" where
  "parse_policies D ext st =
     bind_result (ok_or (policies_from_der D (extn_value ext)) Der) (\<lambda>parsed.
       if parsed = [] \<or> length parsed > MAX_POLICIES_PER_CERTIFICATE
       then Inr (policy_error ''certificate policy resource budget exceeded'' st)
       else
         let (policies, err) = collect_policies (extn_critical ext) parsed [];
             st = (case err of None \<Rightarrow> st | Some e \<Rightarrow> policy_error e st)
         in Inr (update_policy (\<lambda>p. p\<lparr>ps_policies := Some policies\<rparr>) (st\<lparr>es_policies := policies\<rparr>)))"

fun collect_mappings :: "(string \<times> string) list \<Rightarrow> (string \<times> string) list \<Rightarrow> (string \<times> string) list \<times> string option" where
  "collect_mappings [] acc = (acc, None)"
| "collect_mappings ((issuer, subject) # ms) acc =
     (if issuer = OID_ANY_POLICY \<or> subject = OID_ANY_POLICY
      then (acc, Some ''anyPolicy must not appear in PolicyMappings'')
      else if (issuer, subject) \<in> set acc then (acc, Some ''duplicate certificate policy mapping'')
      else collect_mappings ms (acc @ [(issuer, subject)]))"

definition parse_policy_mappings :: "der_codec \<Rightarrow> extension \<Rightarrow> extension_state \<Rightarrow> x509_error + extension_state" where
  "parse_policy_mappings D ext st =
     bind_result (ok_or (policy_mappings_from_der D (extn_value ext)) Der) (\<lambda>parsed.
       if \<not> extn_critical ext then Inr (policy_error ''PolicyMappings must be critical'' st)
       else if parsed = [] \<or> length parsed > MAX_POLICY_MAPPINGS_PER_CERTIFICATE
       then Inr (policy_error ''certificate policy mapping resource budget exceeded'' st)
       else
         let (mappings, err) = collect_mappings parsed [];
             st = (case err of None \<Rightarrow> st | Some e \<Rightarrow> policy_error e st)
         in Inr (update_policy (\<lambda>p. p\<lparr>ps_mappings := mappings\<rparr>) st))"

definition parse_policy_constraints :: "der_codec \<Rightarrow> extension \<Rightarrow> extension_state \<Rightarrow> x509_error + extension_state" where
  "parse_policy_constraints D ext st =
     bind_result (ok_or (policy_constraints_from_der D (extn_value ext)) Der) (\<lambda>(require_explicit, inhibit_mapping).
       if \<not> extn_critical ext then Inr (policy_error ''PolicyConstraints must be critical'' st)
       else if require_explicit = None \<and> inhibit_mapping = None then Inr (policy_error ''PolicyConstraints is empty'' st)
       else Inr (update_policy (\<lambda>p. p\<lparr>ps_require_explicit_policy := require_explicit,
         ps_inhibit_policy_mapping := inhibit_mapping\<rparr>) st))"

definition parse_inhibit_any :: "der_codec \<Rightarrow> extension \<Rightarrow> extension_state \<Rightarrow> x509_error + extension_state" where
  "parse_inhibit_any D ext st =
     bind_result (ok_or (inhibit_any_from_der D (extn_value ext)) Der) (\<lambda>skip_certs.
       if \<not> extn_critical ext then Inr (policy_error ''InhibitAnyPolicy must be critical'' st)
       else Inr (update_policy (\<lambda>p. p\<lparr>ps_inhibit_any_policy := Some skip_certs\<rparr>) st))"

fun collect_names :: "der_codec \<Rightarrow> general_name list \<Rightarrow> string list \<Rightarrow> certificate_names \<Rightarrow> x509_error + string list \<times> certificate_names" where
  "collect_names D [] uris ns = Inr (uris, ns)"
| "collect_names D (n # gs) uris ns =
     (case n of
        DnsName name \<Rightarrow> collect_names D gs uris (ns\<lparr>cn_dns := cn_dns ns @ [name]\<rparr>)
      | UniformResourceIdentifier uri \<Rightarrow> collect_names D gs (uris @ [uri]) (ns\<lparr>cn_uris := cn_uris ns @ [uri]\<rparr>)
      | IpAddress address \<Rightarrow> collect_names D gs uris (ns\<lparr>cn_ips := cn_ips ns @ [address]\<rparr>)
      | Rfc822Name email \<Rightarrow> collect_names D gs uris (ns\<lparr>cn_emails := cn_emails ns @ [email]\<rparr>)
      | DirectoryName name \<Rightarrow>
          bind_result (ok_or (canonical_name_of D name) Der) (\<lambda>d.
            collect_names D gs uris (ns\<lparr>cn_directories := cn_directories ns @ [d]\<rparr>))
      | OtherGeneralName \<Rightarrow> collect_names D gs uris ns)"

definition parse_san :: "der_codec \<Rightarrow> extension \<Rightarrow> extension_state \<Rightarrow> x509_error + extension_state" where
  "parse_san D ext st =
     bind_result (ok_or (san_from_der D (extn_value ext)) Der) (\<lambda>san.
       if san = [] \<or> length san > MAX_GENERAL_NAMES_PER_CERTIFICATE then Inl Der
       else
         bind_result (collect_names D san (es_uri_sans st) (cc_names (es_constraints st))) (\<lambda>(uris, ns).
           Inr (update_constraints (\<lambda>c. c\<lparr>cc_names := ns\<rparr>) (st\<lparr>es_uri_sans := uris\<rparr>))))"

definition parse_name_constraints_ext :: "der_codec \<Rightarrow> extension \<Rightarrow> extension_state \<Rightarrow> x509_error + extension_state" where
  "parse_name_constraints_ext D ext st =
     bind_result (ok_or (name_constraints_from_der D (extn_value ext)) Der) (\<lambda>(permitted, excluded).
       let st = update_constraints (\<lambda>c. c\<lparr>cc_name_constraints_present := True\<rparr>) st in
       if \<not> extn_critical ext
       then Inr (update_constraints (\<lambda>c. c\<lparr>cc_name_constraints_error := Some ''NameConstraints must be critical''\<rparr>) st)
       else
         case parse_name_constraints D permitted excluded of
           Inr parsed \<Rightarrow> Inr (update_constraints (\<lambda>c. c\<lparr>cc_name_constraints := Some parsed\<rparr>) st)
         | Inl err \<Rightarrow> Inr (update_constraints (\<lambda>c. c\<lparr>cc_name_constraints_error := Some err\<rparr>) st))"

definition parse_key_identifier ::
    "(bytes \<Rightarrow> 'a option) \<Rightarrow> ('a \<Rightarrow> certificate_constraints \<Rightarrow> certificate_constraints) \<Rightarrow> extension \<Rightarrow> extension_state
      \<Rightarrow> x509_error + extension_state" where
  "parse_key_identifier decode store ext st =
     bind_result (ok_or (decode (extn_value ext)) Der) (\<lambda>identifier.
       let st = update_constraints (store identifier) st in
       Inr (if extn_critical ext then update_constraints (\<lambda>c. c\<lparr>cc_unsupported_critical_extension := True\<rparr>) st else st))"

definition parse_extension :: "der_codec \<Rightarrow> extension \<Rightarrow> extension_state \<Rightarrow> x509_error + extension_state" where
  "parse_extension D ext st =
     (let oid = extn_id ext in
      if oid = OID_BASIC_CONSTRAINTS then parse_basic_constraints D ext st
      else if oid = OID_KEY_USAGE then parse_key_usage D ext st
      else if oid = OID_EKU then
        bind_result (ok_or (eku_from_der D (extn_value ext)) Der) (\<lambda>eku. Inr (st\<lparr>es_eku := eku\<rparr>))
      else if oid = OID_POLICIES then parse_policies D ext st
      else if oid = OID_POLICY_MAPPINGS then parse_policy_mappings D ext st
      else if oid = OID_POLICY_CONSTRAINTS then parse_policy_constraints D ext st
      else if oid = OID_INHIBIT_ANY_POLICY then parse_inhibit_any D ext st
      else if oid = OID_SUBJECT_ALT_NAME then parse_san D ext st
      else if oid = OID_NAME_CONSTRAINTS then parse_name_constraints_ext D ext st
      else if oid = OID_SUBJECT_KEY_IDENTIFIER then
        parse_key_identifier (ski_from_der D) (\<lambda>i c. c\<lparr>cc_subject_key_identifier := Some i\<rparr>) ext st
      else if oid = OID_AUTHORITY_KEY_IDENTIFIER then
        parse_key_identifier (aki_from_der D) (\<lambda>i c. c\<lparr>cc_authority_key_identifier := i\<rparr>) ext st
      else if extn_critical ext then Inr (update_constraints (\<lambda>c. c\<lparr>cc_unsupported_critical_extension := True\<rparr>) st)
      else Inr st)"

fun parse_extensions :: "der_codec \<Rightarrow> extension list \<Rightarrow> string list \<Rightarrow> extension_state \<Rightarrow> x509_error + extension_state" where
  "parse_extensions D [] seen st = Inr st"
| "parse_extensions D (ext # exts) seen st =
     (if extn_id ext \<in> set seen then Inl Der
      else bind_result (parse_extension D ext st) (parse_extensions D exts (extn_id ext # seen)))"

text \<open>After the loop: the subject joins the directory names, and name constraints outside a CA are an error.\<close>

definition finish_constraints :: "bool \<Rightarrow> certificate_constraints \<Rightarrow> certificate_constraints" where
  "finish_constraints is_ca c =
     (let c = c\<lparr>cc_names := (cc_names c)\<lparr>cn_directories := cn_directories (cc_names c) @ [cc_canonical_subject c]\<rparr>\<rparr> in
      if cc_name_constraints_present c \<and> \<not> is_ca \<and> cc_name_constraints_error c = None
      then c\<lparr>cc_name_constraints_error := Some ''NameConstraints only permitted in CA certificates''\<rparr> else c)"

definition parse_cert :: "der_codec \<Rightarrow> bytes \<Rightarrow> x509_error + parsed_cert" where
  "parse_cert D der_bytes =
     (if der_bytes = [] \<or> length der_bytes > MAX_CERTIFICATE_DER_BYTES then Inl Der
      else
        bind_result (ok_or (certificate_from_der D der_bytes) Der) (\<lambda>cert.
        bind_result (ok_or (ct_tbs_der cert) Der) (\<lambda>tbs_der.
        bind_result (ok_or (ct_signature cert) Der) (\<lambda>signature.
        bind_result (map_sig_alg (ct_signature_algorithm cert)) (\<lambda>sig_alg.
        bind_result (ok_or (ct_spki_der cert) Der) (\<lambda>spki_der.
        bind_result (ok_or (ct_public_key cert) Der) (\<lambda>public_key_raw.
        bind_result (parse_public_key D (ct_spki_algorithm cert) public_key_raw) (\<lambda>public_key_algorithm.
        bind_result (ok_or (ct_subject_der cert) Der) (\<lambda>subject_der.
        bind_result (ok_or (ct_issuer_der cert) Der) (\<lambda>issuer_der.
        bind_result (ok_or (canonical_name_of D (ct_subject cert)) Der) (\<lambda>canonical_subject.
        bind_result (ok_or (canonical_name_of D (ct_issuer cert)) Der) (\<lambda>canonical_issuer.
        let st = \<lparr>es_is_ca = False, es_eku = [], es_policies = [], es_uri_sans = [],
              es_constraints = \<lparr>cc_subject_der = subject_der, cc_issuer_der = issuer_der,
                cc_canonical_subject = canonical_subject, cc_canonical_issuer = canonical_issuer,
                cc_basic_constraints_present = False, cc_basic_constraints_critical = False,
                cc_path_len_constraint = None, cc_key_usage_present = False, cc_digital_signature = False,
                cc_key_cert_sign = False, cc_subject_key_identifier = None, cc_authority_key_identifier = None,
                cc_unsupported_critical_extension = False,
                cc_signature_algorithms_match = (ct_tbs_signature cert = ct_signature_algorithm cert),
                cc_public_key_algorithm = Some public_key_algorithm, cc_names = no_names,
                cc_name_constraints_present = False, cc_name_constraints = None, cc_name_constraints_error = None,
                cc_policy = no_policy_state\<rparr>\<rparr> in
        bind_result
          (case ct_extensions cert of
             None \<Rightarrow> Inr st
           | Some exts \<Rightarrow>
               if length exts > MAX_EXTENSIONS_PER_CERTIFICATE then Inl Der else parse_extensions D exts [] st)
          (\<lambda>st.
            Inr \<lparr>pc_tbs_der = tbs_der, pc_signature = signature, pc_sig_alg = sig_alg, pc_spki_der = spki_der,
              pc_public_key_raw = public_key_raw, pc_subject = ct_subject_text cert, pc_issuer = ct_issuer_text cert,
              pc_uri_sans = es_uri_sans st, pc_not_before = sint (ct_not_before cert), pc_not_after = sint (ct_not_after cert),
              pc_is_ca = es_is_ca st, pc_eku = es_eku st, pc_policies = es_policies st,
              pc_constraints = finish_constraints (es_is_ca st) (es_constraints st)\<rparr>)))))))))))))"

section \<open>Name constraints on a path\<close>

definition strip_suffix_str :: "string \<Rightarrow> string \<Rightarrow> string option" where
  "strip_suffix_str sfx s = (if suffix sfx s then Some (take (length s - length sfx) s) else None)"

definition dns_constraint_matches :: "string \<Rightarrow> string \<Rightarrow> bool" where
  "dns_constraint_matches name constraint \<longleftrightarrow>
     name = constraint
     \<or> (case strip_suffix_str constraint name of None \<Rightarrow> False | Some pre \<Rightarrow> suffix ''.'' pre)"

definition uri_constraint_matches :: "string \<Rightarrow> string \<Rightarrow> bool" where
  "uri_constraint_matches host constraint =
     (case read_given_char (CHR ''.'') constraint of
        None \<Rightarrow> host = constraint
      | Some domain \<Rightarrow> host \<noteq> domain \<and> suffix constraint host)"

definition find_any :: "char list \<Rightarrow> string \<Rightarrow> nat option" where
  "find_any cs s = position (\<lambda>x. x \<in> set cs) s"

definition constrained_uri_host :: "string \<Rightarrow> string option" where
  "constrained_uri_host uri =
     (if \<not> is_ascii uri \<or> list_ex (\<lambda>b. is_ascii_control b \<or> is_whitespace (unat b)) (as_bytes uri) then None
      else
        Option.bind (find_char (CHR '':'') uri) (\<lambda>colon.
        let scheme = take colon uri in
        if scheme = [] \<or> \<not> is_ascii_alphabetic (hd (as_bytes scheme))
            \<or> \<not> list_all (\<lambda>b. is_ascii_alphanumeric b \<or> b = 0x2B \<or> b = 0x2D \<or> b = 0x2E) (as_bytes scheme) then None
        else
          Option.bind (Option.bind (read_given_char (CHR ''/'') (drop (colon + 1) uri)) (read_given_char (CHR ''/''))) (\<lambda>rest.
          let authority = take (unwrap_or (length rest) (find_any [CHR ''/'', CHR ''?'', CHR ''#''] rest)) rest in
          if authority = [] \<or> count_chr (CHR ''@'') authority > 1 then None
          else
            let host_and_port = (case rsplit_once_str (CHR ''@'') authority of None \<Rightarrow> authority | Some (_, host) \<Rightarrow> host) in
            if prefix ''['' host_and_port \<or> count_chr (CHR '':'') host_and_port > 1 then None
            else
              let (host, port) = (case rsplit_once_str (CHR '':'') host_and_port of
                    None \<Rightarrow> (host_and_port, None) | Some (host, port) \<Rightarrow> (host, Some port)) in
              if (case port of None \<Rightarrow> False | Some p \<Rightarrow> p = [] \<or> parse_u16 p = None) then None
              else
                Option.bind (canonical_dns_name host) (\<lambda>host. if is_ipv4_addr host then None else Some host))))"

definition ip_constraint_matches :: "bytes \<Rightarrow> bytes \<Rightarrow> bytes \<Rightarrow> bool" where
  "ip_constraint_matches name address ipmask \<longleftrightarrow>
     length name = length address \<and> length address = length ipmask
     \<and> list_all (\<lambda>((n, a), m). n AND m = a AND m) (zip (zip name address) ipmask)"

definition email_constraint_matches :: "string \<Rightarrow> string \<Rightarrow> bool" where
  "email_constraint_matches email constraint =
     (if CHR ''@'' \<in> set constraint then email = constraint
      else
        case rsplit_once_str (CHR ''@'') email of
          None \<Rightarrow> False
        | Some (_, domain) \<Rightarrow>
            uri_constraint_matches domain constraint
            \<or> (\<not> prefix ''.'' constraint \<and> dns_constraint_matches domain constraint))"

definition directory_constraint_matches :: "canonical_name \<Rightarrow> canonical_name \<Rightarrow> bool" where
  "directory_constraint_matches name constraint \<longleftrightarrow>
     length name \<ge> length constraint \<and> take (length constraint) name = constraint"

text \<open>One form of name: excluded subtrees refuse, then a non-empty set of permitted subtrees must have a match.\<close>

definition check_subtrees :: "('n \<Rightarrow> 'c \<Rightarrow> bool) \<Rightarrow> 'c list \<Rightarrow> 'c list \<Rightarrow> 'n \<Rightarrow> x509_error + unit" where
  "check_subtrees matches permitted excluded name =
     (if list_ex (matches name) excluded then Inl (PathInvalid ''name constraints exclude certificate name'')
      else if permitted \<noteq> [] \<and> \<not> list_ex (matches name) permitted
      then Inl (PathInvalid ''name constraints do not permit certificate name'')
      else Inr ())"

fun for_each :: "('a \<Rightarrow> 'e + unit) \<Rightarrow> 'a list \<Rightarrow> 'e + unit" where
  "for_each f [] = Inr ()"
| "for_each f (x # xs) = bind_result (f x) (\<lambda>_. for_each f xs)"

definition dns_of :: "supported_name_constraint \<Rightarrow> string option" where
  "dns_of c = (case c of NC_Dns v \<Rightarrow> Some v | _ \<Rightarrow> None)"

definition email_of :: "supported_name_constraint \<Rightarrow> string option" where
  "email_of c = (case c of NC_Email v \<Rightarrow> Some v | _ \<Rightarrow> None)"

definition uri_of :: "supported_name_constraint \<Rightarrow> string option" where
  "uri_of c = (case c of NC_UriHost v \<Rightarrow> Some v | _ \<Rightarrow> None)"

definition ip_of :: "supported_name_constraint \<Rightarrow> (bytes \<times> bytes) option" where
  "ip_of c = (case c of NC_Ip a m \<Rightarrow> Some (a, m) | _ \<Rightarrow> None)"

definition directory_of :: "supported_name_constraint \<Rightarrow> canonical_name option" where
  "directory_of c = (case c of NC_Directory v \<Rightarrow> Some v | _ \<Rightarrow> None)"

definition enforce_name_constraints :: "certificate_names \<Rightarrow> parsed_name_constraints \<Rightarrow> x509_error + unit" where
  "enforce_name_constraints names constraints =
     (let sel = (\<lambda>f. List.map_filter f (nc_permitted constraints)); exc = (\<lambda>f. List.map_filter f (nc_excluded constraints)) in
      bind_result (for_each (\<lambda>name.
          bind_result (ok_or (canonical_dns_name name) (PathInvalid ''constrained DNS name is malformed''))
            (check_subtrees dns_constraint_matches (sel dns_of) (exc dns_of))) (cn_dns names)) (\<lambda>_.
      bind_result (for_each (\<lambda>email.
          bind_result (ok_or (canonical_email email False) (PathInvalid ''constrained rfc822Name is malformed''))
            (check_subtrees email_constraint_matches (sel email_of) (exc email_of))) (cn_emails names)) (\<lambda>_.
      bind_result
        (if sel uri_of = [] \<and> exc uri_of = [] then Inr ()
         else for_each (\<lambda>uri.
          bind_result (ok_or (constrained_uri_host uri) (PathInvalid ''constrained URI has no canonical DNS host''))
            (check_subtrees uri_constraint_matches (sel uri_of) (exc uri_of))) (cn_uris names)) (\<lambda>_.
      bind_result (for_each (\<lambda>name.
          bind_result (ensure (length name = 4 \<or> length name = 16) (PathInvalid ''constrained IP address is malformed'')) (\<lambda>_.
            check_subtrees (\<lambda>n (address, ipmask). ip_constraint_matches n address ipmask)
              (List.map_filter ip_of (nc_permitted constraints)) (List.map_filter ip_of (nc_excluded constraints)) name))
          (cn_ips names)) (\<lambda>_.
      for_each (check_subtrees directory_constraint_matches
          (List.map_filter directory_of (nc_permitted constraints)) (List.map_filter directory_of (nc_excluded constraints)))
        (cn_directories names))))))"

definition self_issued :: "parsed_cert \<Rightarrow> bool" where
  "self_issued c \<longleftrightarrow> cc_canonical_subject (pc_constraints c) = cc_canonical_issuer (pc_constraints c)"

text \<open>The subjects below an issuer, without the self-issued ones other than the leaf.\<close>

definition constrained_subjects :: "parsed_cert list \<Rightarrow> parsed_cert list" where
  "constrained_subjects below = map snd (filter (\<lambda>(i, c). i = 0 \<or> \<not> self_issued c) (zip [0 ..< length below] below))"

definition validate_name_constraints :: "parsed_cert list \<Rightarrow> x509_error + unit" where
  "validate_name_constraints path =
     for_each (\<lambda>issuer_index.
       case cc_name_constraints (pc_constraints (path ! issuer_index)) of
         None \<Rightarrow> Inr ()
       | Some constraints \<Rightarrow>
           for_each (\<lambda>subject. enforce_name_constraints (cc_names (pc_constraints subject)) constraints)
             (constrained_subjects (take issuer_index path))) [1 ..< length path]"

section \<open>Certificate policies on a path\<close>

text \<open>A \<open>BTreeSet<String>\<close> is its ascending list of members.\<close>

definition set_insert :: "'a :: linorder \<Rightarrow> 'a list \<Rightarrow> 'a list" where
  "set_insert x xs = (if x \<in> set xs then xs else insort x xs)"

definition set_collect :: "'a :: linorder list \<Rightarrow> 'a list" where
  "set_collect xs = foldl (\<lambda>s x. set_insert x s) [] xs"

definition saturating_dec :: "u32 \<Rightarrow> u32" where
  "saturating_dec w = (if w = 0 then 0 else w - 1)"

record policy_tree_state =
  pt_explicit_policy :: u32
  pt_policy_mapping :: u32
  pt_inhibit_any_policy :: u32
  pt_valid :: "string list option"

definition intersect_policies :: "string list option \<Rightarrow> u32 \<Rightarrow> string list option \<Rightarrow> string list option" where
  "intersect_policies policies inhibit_any valid =
     (case policies of
        None \<Rightarrow> Some []
      | Some policies \<Rightarrow>
          (let has_any = OID_ANY_POLICY \<in> set policies;
               concrete = set_collect (filter (\<lambda>p. p \<noteq> OID_ANY_POLICY) policies)
           in case valid of
                None \<Rightarrow> if has_any \<and> inhibit_any > 0 then None else Some concrete
              | Some expected \<Rightarrow>
                  Some (if has_any \<and> inhibit_any > 0 then expected else filter (\<lambda>p. p \<in> set concrete) expected)))"

definition apply_mappings :: "(string \<times> string) list \<Rightarrow> string list \<Rightarrow> string list" where
  "apply_mappings mappings issuer_policies =
     foldl (\<lambda>expected (issuer, subject).
       if issuer \<in> set issuer_policies then set_insert subject (removeAll issuer expected) else expected)
       issuer_policies mappings"

definition min_limit :: "u32 option \<Rightarrow> u32 \<Rightarrow> u32" where
  "min_limit limit w = (case limit of None \<Rightarrow> w | Some l \<Rightarrow> min w l)"

definition policy_step :: "nat \<times> parsed_cert \<Rightarrow> policy_tree_state \<Rightarrow> x509_error + policy_tree_state" where
  "policy_step ic st =
     (let (index, certificate) = ic; p = cc_policy (pc_constraints certificate) in
      case ps_error p of
        Some err \<Rightarrow> Inl (PathInvalid err)
      | None \<Rightarrow>
          if ps_mappings p \<noteq> [] \<and> \<not> pc_is_ca certificate
          then Inl (PathInvalid ''PolicyMappings only permitted in CA certificates'')
          else
            let valid = intersect_policies (ps_policies p) (pt_inhibit_any_policy st) (pt_valid st) in
            if ps_mappings p \<noteq> [] \<and> pt_policy_mapping st = 0
            then Inl (PathInvalid ''certificate policy mapping is inhibited'')
            else
              let valid = (if ps_mappings p \<noteq> [] then map_option (apply_mappings (ps_mappings p)) valid else valid) in
              if pt_explicit_policy st = 0 \<and> valid = Some []
              then Inl (PathInvalid ''explicit certificate policy is required'')
              else
                let dec = (if \<not> self_issued certificate \<or> index = 0 then saturating_dec else (\<lambda>w. w)) in
                Inr \<lparr>pt_explicit_policy = min_limit (ps_require_explicit_policy p) (dec (pt_explicit_policy st)),
                  pt_policy_mapping = min_limit (ps_inhibit_policy_mapping p) (dec (pt_policy_mapping st)),
                  pt_inhibit_any_policy = min_limit (ps_inhibit_any_policy p) (dec (pt_inhibit_any_policy st)),
                  pt_valid = valid\<rparr>)"

fun policy_steps :: "(nat \<times> parsed_cert) list \<Rightarrow> policy_tree_state \<Rightarrow> x509_error + policy_tree_state" where
  "policy_steps [] st = Inr st"
| "policy_steps (c # cs) st = bind_result (policy_step c st) (policy_steps cs)"

definition validate_certificate_policies :: "parsed_cert list \<Rightarrow> x509_error + string list" where
  "validate_certificate_policies path =
     (let certificate_count = length path - 1;
          initial = (if certificate_count + 1 < 2 ^ 32 then of_nat (certificate_count + 1) else - 1 :: u32)
      in bind_result
           (policy_steps (rev (zip [0 ..< certificate_count] (take certificate_count path)))
              \<lparr>pt_explicit_policy = initial, pt_policy_mapping = initial, pt_inhibit_any_policy = initial, pt_valid = None\<rparr>)
           (\<lambda>st.
             let leaf_policies = set_collect (filter (\<lambda>p. p \<noteq> OID_ANY_POLICY)
                   (unwrap_or [] (ps_policies (cc_policy (pc_constraints (hd path))))))
             in Inr (unwrap_or leaf_policies (pt_valid st))))"

section \<open>Validating one path\<close>

definition certificate_eq :: "parsed_cert \<Rightarrow> parsed_cert \<Rightarrow> bool" where
  "certificate_eq a b \<longleftrightarrow> pc_tbs_der a = pc_tbs_der b \<and> pc_signature a = pc_signature b"

definition issuer_name_matches :: "parsed_cert \<Rightarrow> parsed_cert \<Rightarrow> bool" where
  "issuer_name_matches child parent \<longleftrightarrow>
     cc_canonical_issuer (pc_constraints child) = cc_canonical_subject (pc_constraints parent)"

definition authority_key_matches :: "parsed_cert \<Rightarrow> parsed_cert \<Rightarrow> bool" where
  "authority_key_matches child parent =
     (case (cc_authority_key_identifier (pc_constraints child), cc_subject_key_identifier (pc_constraints parent)) of
        (Some authority, Some subject) \<Rightarrow> authority = subject
      | _ \<Rightarrow> True)"

definition signature_compatible_with_issuer :: "certificate_signature_alg \<Rightarrow> certificate_public_key_alg \<Rightarrow> bool" where
  "signature_compatible_with_issuer signature issuer_key =
     (case signature of
        EcdsaSha256 \<Rightarrow> issuer_key = EcP256 \<or> issuer_key = EcP384
      | EcdsaSha384 \<Rightarrow> issuer_key = EcP256 \<or> issuer_key = EcP384
      | Ed25519 \<Rightarrow> issuer_key = Ed25519Key
      | RsaPkcs1Sha256 \<Rightarrow> issuer_key = Rsa
      | RsaPkcs1Sha384 \<Rightarrow> issuer_key = Rsa
      | RsaPkcs1Sha512 \<Rightarrow> issuer_key = Rsa)"

definition check_certificate :: "cert_verifier \<Rightarrow> int \<Rightarrow> parsed_cert \<Rightarrow> x509_error + unit" where
  "check_certificate verifier now certificate =
     (let c = pc_constraints certificate in
      bind_result (ensure (cc_signature_algorithms_match c)
        (PathInvalid ''TBSCertificate and outer signature algorithms differ'')) (\<lambda>_.
      bind_result (ensure (\<not> cc_unsupported_critical_extension c)
        (PathInvalid ''unsupported critical certificate extension'')) (\<lambda>_.
      bind_result (case cc_name_constraints_error c of None \<Rightarrow> Inr () | Some err \<Rightarrow> Inl (PathInvalid err)) (\<lambda>_.
      bind_result (case ps_error (cc_policy c) of None \<Rightarrow> Inr () | Some err \<Rightarrow> Inl (PathInvalid err)) (\<lambda>_.
      bind_result (ok_or (cc_public_key_algorithm c) (PathInvalid ''certificate public key is unsupported'')) (\<lambda>alg.
      bind_result (map_err (\<lambda>_. PathInvalid ''certificate subject public key validation failed'')
        (validate_certificate_public_key verifier alg (pc_public_key_raw certificate))) (\<lambda>_.
      ensure (\<not> (now < pc_not_before certificate \<or> now > pc_not_after certificate))
        (PathInvalid ''certificate expired or not yet valid''))))))))"

definition check_leaf :: "parsed_cert \<Rightarrow> x509_error + unit" where
  "check_leaf leaf =
     bind_result (ensure (\<not> pc_is_ca leaf) (PathInvalid ''leaf certificate is a CA'')) (\<lambda>_.
     bind_result (ensure (cc_key_usage_present (pc_constraints leaf)) (PathInvalid ''leaf KeyUsage is missing'')) (\<lambda>_.
     ensure (cc_digital_signature (pc_constraints leaf)) (PathInvalid ''leaf KeyUsage lacks digitalSignature'')))"

definition check_issuer :: "parsed_cert list \<Rightarrow> nat \<Rightarrow> x509_error + unit" where
  "check_issuer path index =
     (let certificate = path ! index; c = pc_constraints certificate;
          non_self_issued_ca_below = length (filter (\<lambda>s. \<not> self_issued s) (drop 1 (take index path)))
      in
      bind_result (ensure (cc_basic_constraints_present c \<and> pc_is_ca certificate)
        (PathInvalid ''issuer BasicConstraints does not authorize a CA'')) (\<lambda>_.
      bind_result (ensure (cc_basic_constraints_critical c)
        (PathInvalid ''issuer BasicConstraints is not critical'')) (\<lambda>_.
      bind_result (ensure (cc_key_usage_present c) (PathInvalid ''issuer KeyUsage is missing'')) (\<lambda>_.
      bind_result (ensure (cc_key_cert_sign c) (PathInvalid ''issuer KeyUsage lacks keyCertSign'')) (\<lambda>_.
      ensure (case cc_path_len_constraint c of None \<Rightarrow> True | Some limit \<Rightarrow> non_self_issued_ca_below \<le> unat limit)
        (PathInvalid ''BasicConstraints pathLenConstraint exceeded''))))))"

definition check_link :: "cert_verifier \<Rightarrow> parsed_cert \<times> parsed_cert \<Rightarrow> x509_error + unit" where
  "check_link verifier cp =
     (let (child, parent) = cp in
      bind_result (ensure (issuer_name_matches child parent) (PathInvalid ''issuer/subject mismatch'')) (\<lambda>_.
      bind_result (ensure (authority_key_matches child parent) (PathInvalid ''authority key identifier mismatch'')) (\<lambda>_.
      bind_result (ok_or (cc_public_key_algorithm (pc_constraints parent)) (PathInvalid ''issuer public key is unsupported'')) (\<lambda>key.
      bind_result (ensure (signature_compatible_with_issuer (pc_sig_alg child) key)
        (PathInvalid ''certificate signature algorithm is incompatible with issuer public key'')) (\<lambda>_.
      map_err (\<lambda>_. PathInvalid ''signature verification failed'')
        (verify_certificate verifier (pc_sig_alg child) (pc_public_key_raw parent) (pc_tbs_der child) (pc_signature child)))))))"

definition validate_built_path :: "cert_verifier \<Rightarrow> int \<Rightarrow> parsed_cert list \<Rightarrow> x509_error + string list" where
  "validate_built_path verifier now path =
     (if path = [] then Inl (PathInvalid ''empty constructed path'')
      else
        bind_result (for_each (check_certificate verifier now) path) (\<lambda>_.
        bind_result (check_leaf (hd path)) (\<lambda>_.
        bind_result (for_each (check_issuer path) [1 ..< length path]) (\<lambda>_.
        bind_result (validate_name_constraints path) (\<lambda>_.
        bind_result (validate_certificate_policies path) (\<lambda>effective_policies.
        bind_result (for_each (check_link verifier) (zip path (tl path))) (\<lambda>_.
          Inr effective_policies)))))))"

section \<open>Searching for paths\<close>

record built_path =
  bp_supplied_indices :: "nat list"
  bp_anchor_index :: nat

record path_search =
  sr_complete :: "built_path list"
  sr_steps :: nat
  sr_saw_loop :: bool
  sr_saw_authority_key_mismatch :: bool
  sr_budget_exceeded :: bool

definition path_search_default :: path_search where
  "path_search_default = \<lparr>sr_complete = [], sr_steps = 0, sr_saw_loop = False, sr_saw_authority_key_mismatch = False,
     sr_budget_exceeded = False\<rparr>"

definition count_step :: "path_search \<Rightarrow> bool \<times> path_search" where
  "count_step search =
     (let search = search\<lparr>sr_steps := sr_steps search + 1\<rparr> in
      if sr_steps search > MAX_PATH_BUILD_STEPS then (False, search\<lparr>sr_budget_exceeded := True\<rparr>) else (True, search))"

text \<open>The loop over the anchors from index \<open>j\<close>: whether it returned early, the candidate count, the search.\<close>

function explore_anchors ::
    "parsed_cert \<Rightarrow> parsed_cert list \<Rightarrow> nat list \<Rightarrow> nat \<Rightarrow> nat \<Rightarrow> path_search \<Rightarrow> bool \<times> nat \<times> path_search" where
  "explore_anchors child anchors path j candidates search =
     (if j \<ge> length anchors then (False, candidates, search)
      else if \<not> issuer_name_matches child (anchors ! j) then explore_anchors child anchors path (Suc j) candidates search
      else if \<not> authority_key_matches child (anchors ! j)
      then explore_anchors child anchors path (Suc j) candidates (search\<lparr>sr_saw_authority_key_mismatch := True\<rparr>)
      else if Suc candidates > MAX_ISSUER_CANDIDATES then (True, Suc candidates, search\<lparr>sr_budget_exceeded := True\<rparr>)
      else
        case count_step search of
          (False, search) \<Rightarrow> (True, Suc candidates, search\<lparr>sr_budget_exceeded := True\<rparr>)
        | (True, search) \<Rightarrow>
            if length (sr_complete search) \<ge> MAX_COMPLETE_PATHS
            then (True, Suc candidates, search\<lparr>sr_budget_exceeded := True\<rparr>)
            else
              explore_anchors child anchors path (Suc j) (Suc candidates)
                (search\<lparr>sr_complete := sr_complete search @ [\<lparr>bp_supplied_indices = path, bp_anchor_index = j\<rparr>]\<rparr>))"
  by pat_completeness auto
termination by (relation "measure (\<lambda>(_, anchors, _, j, _). length anchors - j)") auto

declare explore_anchors.simps [simp del]

function explore_paths :: "nat \<Rightarrow> parsed_cert list \<Rightarrow> parsed_cert list \<Rightarrow> nat list \<Rightarrow> path_search \<Rightarrow> path_search"
  and explore_parents ::
    "nat \<Rightarrow> parsed_cert list \<Rightarrow> parsed_cert list \<Rightarrow> nat list \<Rightarrow> nat \<Rightarrow> nat \<Rightarrow> path_search \<Rightarrow> path_search" where
  "explore_paths current supplied anchors path search =
     (if sr_budget_exceeded search then search
      else
        case count_step search of
          (False, search) \<Rightarrow> search
        | (True, search) \<Rightarrow>
            (case explore_anchors (supplied ! current) anchors path 0 0 search of
               (True, _, search) \<Rightarrow> search
             | (False, candidates, search) \<Rightarrow> explore_parents current supplied anchors path 0 candidates search))"
| "explore_parents current supplied anchors path j candidates search =
     (if j \<ge> length supplied then search
      else if j = current \<or> \<not> issuer_name_matches (supplied ! current) (supplied ! j)
      then explore_parents current supplied anchors path (Suc j) candidates search
      else if \<not> authority_key_matches (supplied ! current) (supplied ! j)
      then explore_parents current supplied anchors path (Suc j) candidates (search\<lparr>sr_saw_authority_key_mismatch := True\<rparr>)
      else if Suc candidates > MAX_ISSUER_CANDIDATES then search\<lparr>sr_budget_exceeded := True\<rparr>
      else
        case count_step search of
          (False, search) \<Rightarrow> search\<lparr>sr_budget_exceeded := True\<rparr>
        | (True, search) \<Rightarrow>
            if j \<in> set path
            then explore_parents current supplied anchors path (Suc j) (Suc candidates) (search\<lparr>sr_saw_loop := True\<rparr>)
            else
              (let search = explore_paths j supplied anchors (path @ [j]) search in
               if sr_budget_exceeded search then search
               else explore_parents current supplied anchors path (Suc j) (Suc candidates) search))"
  by pat_completeness auto
termination
proof (relation "inv_image (less_than <*lex*> less_than) (\<lambda>x. case x of
        Inl (_, supplied, _, path, _) \<Rightarrow> (card ({..< length supplied} - set path), Suc (length supplied))
      | Inr (_, supplied, _, path, j, _, _) \<Rightarrow> (card ({..< length supplied} - set path), length supplied - j))",
    goal_cases)
  case 1
  show ?case by (intro wf_inv_image wf_lex_prod wf_less_than)
next
  case 2
  show ?case by simp
next
  case 3
  from 3(1) show ?case by simp
next
  case 4
  from 4(1) show ?case by simp
next
  case 5
  from 5(1) show ?case by simp
next
  case (6 current supplied anchors path j candidates search x y)
  have "card ({..< length supplied} - set (path @ [j])) < card ({..< length supplied} - set path)"
  proof -
    have "{..< length supplied} - set (path @ [j]) = ({..< length supplied} - set path) - {j}" by auto
    moreover have "j \<in> {..< length supplied} - set path" using 6(1,7) by simp
    ultimately show ?thesis by (simp only: card_Diff1_less finite_Diff finite_lessThan)
  qed
  then show ?case by simp
next
  case 7
  from 7(1) show ?case by simp
qed

declare explore_paths.simps [simp del] explore_parents.simps [simp del]

section \<open>Path validation\<close>

definition sort_certificates :: "parsed_cert list \<Rightarrow> parsed_cert list" where
  "sort_certificates = sort_key (\<lambda>c. (pc_tbs_der c, pc_signature c))"

fun has_duplicate :: "('a \<Rightarrow> 'a \<Rightarrow> bool) \<Rightarrow> 'a list \<Rightarrow> bool" where
  "has_duplicate eq [] = False"
| "has_duplicate eq (x # xs) = (list_ex (eq x) xs \<or> has_duplicate eq xs)"

definition leaf_indices :: "parsed_cert list \<Rightarrow> nat list" where
  "leaf_indices supplied =
     filter (\<lambda>parent_index.
       \<not> list_ex (\<lambda>child_index. child_index \<noteq> parent_index
           \<and> issuer_name_matches (supplied ! child_index) (supplied ! parent_index)) [0 ..< length supplied])
       [0 ..< length supplied]"

definition candidate_path :: "parsed_cert list \<Rightarrow> parsed_cert list \<Rightarrow> built_path \<Rightarrow> parsed_cert list" where
  "candidate_path supplied anchors built =
     map (\<lambda>i. supplied ! i) (bp_supplied_indices built) @ [anchors ! bp_anchor_index built]"

fun choose_path ::
    "cert_verifier \<Rightarrow> int \<Rightarrow> parsed_cert list list \<Rightarrow> parsed_cert list option \<Rightarrow> x509_error option
      \<Rightarrow> x509_error + parsed_cert list option \<times> x509_error option" where
  "choose_path verifier now [] valid_path first_error = Inr (valid_path, first_error)"
| "choose_path verifier now (candidate # cs) valid_path first_error =
     (case validate_built_path verifier now candidate of
        Inr effective_policies \<Rightarrow>
          if valid_path = None
          then choose_path verifier now cs
                 (Some ((hd candidate)\<lparr>pc_policies := effective_policies\<rparr> # tl candidate)) first_error
          else Inl (PathInvalid ''certificate bundle has ambiguous trust paths'')
      | Inl err \<Rightarrow>
          choose_path verifier now cs valid_path (if first_error = None then Some err else first_error))"

definition validate_path ::
    "der_codec \<Rightarrow> bytes list \<Rightarrow> parsed_cert list \<Rightarrow> int \<Rightarrow> cert_verifier \<Rightarrow> x509_error + parsed_cert list" where
  "validate_path D chain_der trust_anchors now verifier =
     (if chain_der = [] then Inl (PathInvalid ''empty chain'')
      else if length chain_der > MAX_SUPPLIED_CERTIFICATES \<or> length trust_anchors > MAX_TRUST_ANCHORS
      then Inl (PathInvalid ''certificate path resource budget exceeded'')
      else if trust_anchors = [] then Inl (PathInvalid ''no trust anchor for chain'')
      else if has_duplicate (=) chain_der then Inl (PathInvalid ''duplicate certificate in supplied chain'')
      else if has_duplicate certificate_eq trust_anchors then Inl (PathInvalid ''duplicate trust anchor'')
      else
        bind_result (collect_result (parse_cert D) chain_der) (\<lambda>supplied.
        let supplied = sort_certificates supplied; anchors = sort_certificates trust_anchors in
        if list_ex (\<lambda>certificate. list_ex (certificate_eq certificate) anchors) supplied
        then Inl (PathInvalid ''trust anchor must not be supplied in the certificate chain'')
        else
          case leaf_indices supplied of
            [] \<Rightarrow> Inl (PathInvalid ''certificate path contains a loop'')
          | [leaf_index] \<Rightarrow>
              (let search = explore_paths leaf_index supplied anchors [leaf_index] path_search_default in
               if sr_budget_exceeded search then Inl (PathInvalid ''certificate path resource budget exceeded'')
               else
                 bind_result
                   (choose_path verifier now (map (candidate_path supplied anchors) (sr_complete search)) None None)
                   (\<lambda>(valid_path, first_error).
                     case valid_path of
                       Some path \<Rightarrow> Inr path
                     | None \<Rightarrow>
                         (case first_error of
                            Some err \<Rightarrow> Inl err
                          | None \<Rightarrow>
                              if sr_saw_loop search then Inl (PathInvalid ''certificate path contains a loop'')
                              else if sr_saw_authority_key_mismatch search
                              then Inl (PathInvalid ''authority key identifier mismatch'')
                              else Inl (PathInvalid ''no trust anchor for chain''))))
          | _ \<Rightarrow> Inl (PathInvalid ''certificate bundle has ambiguous leaves'')))"

section \<open>Profiles\<close>

record validated_credential_issuer =
  vi_identity :: string
  vi_public_key_raw :: bytes
  vi_not_before :: int
  vi_not_after :: int

definition canonical_issuer_label :: "string \<Rightarrow> bool" where
  "canonical_issuer_label label \<longleftrightarrow>
     label \<noteq> [] \<and> length label \<le> 63
     \<and> list_all (\<lambda>b. is_ascii_lowercase b \<or> is_ascii_digit b \<or> b = 0x2D) (as_bytes label)
     \<and> is_ascii_alphanumeric (hd (as_bytes label)) \<and> is_ascii_alphanumeric (last (as_bytes label))"

definition valid_canonical_dns_name :: "string \<Rightarrow> bool" where
  "valid_canonical_dns_name host =
     (if length host > 253 \<or> CHR ''.'' \<notin> set host \<or> is_ipv4_addr host
          \<or> list_ex is_ascii_uppercase (as_bytes host) then False
      else list_all canonical_issuer_label (split_str (CHR ''.'') host))"

definition valid_issuer_port :: "string \<Rightarrow> bool" where
  "valid_issuer_port port \<longleftrightarrow>
     \<not> (length port > 1 \<and> prefix ''0'' port)
     \<and> (case parse_u16 port of None \<Rightarrow> False | Some p \<Rightarrow> p \<noteq> 0 \<and> p \<noteq> 443)"

definition valid_https_issuer_identity :: "string \<Rightarrow> bool" where
  "valid_https_issuer_identity identity =
     (if \<not> is_ascii identity \<or> list_ex (\<lambda>b. is_ascii_control b \<or> is_whitespace (unat b)) (as_bytes identity) then False
      else if \<not> prefix ''https://'' identity then False
      else
        let authority = drop 8 identity in
        if authority = []
            \<or> find_any [CHR ''/'', CHR ''?'', CHR ''#'', CHR ''@'', CHR 0x5C, CHR ''['', CHR '']''] authority \<noteq> None
            \<or> count_chr (CHR '':'') authority > 1 then False
        else
          let (host, port) = (case rsplit_once_str (CHR '':'') authority of
                None \<Rightarrow> (authority, None) | Some (host, port) \<Rightarrow> (host, Some port)) in
          valid_canonical_dns_name host \<and> (case port of None \<Rightarrow> True | Some port \<Rightarrow> valid_issuer_port port))"

definition check_credential_issuer ::
    "der_codec \<Rightarrow> bytes list \<Rightarrow> parsed_cert list \<Rightarrow> int \<Rightarrow> cert_verifier \<Rightarrow> x509_error + validated_credential_issuer" where
  "check_credential_issuer D chain_der trust_anchors now verifier =
     bind_result (validate_path D chain_der trust_anchors now verifier) (\<lambda>path.
     let leaf = hd path in
     if pc_is_ca leaf then Inl (ProfileViolation ''credential issuer leaf must be an end-entity'')
     else
       bind_result
         (case pc_uri_sans leaf of
            [] \<Rightarrow> Inl (ProfileViolation ''credential issuer identity URI is missing'')
          | [identity] \<Rightarrow>
              if valid_https_issuer_identity identity then Inr identity
              else Inl (ProfileViolation ''credential issuer identity must be an HTTPS URI'')
          | _ \<Rightarrow> Inl (ProfileViolation ''credential issuer identity is ambiguous''))
         (\<lambda>identity.
           Inr \<lparr>vi_identity = identity, vi_public_key_raw = pc_public_key_raw leaf,
             vi_not_before = pc_not_before leaf, vi_not_after = pc_not_after leaf\<rparr>))"

record relying_party_profile =
  rp_subject :: string
  rp_registered :: bool
  rp_dns_sans :: "string list"

definition check_relying_party ::
    "der_codec \<Rightarrow> bytes list \<Rightarrow> parsed_cert list \<Rightarrow> int \<Rightarrow> cert_verifier \<Rightarrow> x509_error + relying_party_profile" where
  "check_relying_party D chain_der trust_anchors now verifier =
     bind_result (validate_path D chain_der trust_anchors now verifier) (\<lambda>path.
     let leaf = hd path in
     if pc_is_ca leaf then Inl (ProfileViolation ''leaf must be an end-entity'')
     else if EKU_MDOC_READER_AUTH \<notin> set (pc_eku leaf) then Inl (ProfileViolation ''missing mdoc reader-auth EKU'')
     else if pc_policies leaf = [] then Inl (ProfileViolation ''missing RP certificate policy'')
     else Inr \<lparr>rp_subject = pc_subject leaf, rp_registered = True, rp_dns_sans = cn_dns (cc_names (pc_constraints leaf))\<rparr>)"

end
