(* ===== verification/X509_Path.thy ===== *)
theory X509_Path
  imports X509
begin

text \<open>
  What certificate path building and validation guarantee, over the model in \<open>X509\<close>: the search
  finds each simple chain of possible issuers exactly once and does a bounded amount of work, the path
  returned is the only one that validates, and what an accepted path satisfies.
\<close>

section \<open>What the search finds\<close>

text \<open>
  An edge leads from a certificate to one that can have issued it. A simple path extends \<open>path\<close> by
  certificates not on it, each issued by the next one, up to a trust anchor that can have issued the last.
\<close>

definition can_issue :: "parsed_cert \<Rightarrow> parsed_cert \<Rightarrow> bool" where
  "can_issue child parent \<longleftrightarrow> issuer_name_matches child parent \<and> authority_key_matches child parent"

definition edge :: "parsed_cert list \<Rightarrow> nat \<Rightarrow> nat \<Rightarrow> bool" where
  "edge supplied i j \<longleftrightarrow> j < length supplied \<and> j \<noteq> i \<and> can_issue (supplied ! i) (supplied ! j)"

fun walk :: "parsed_cert list \<Rightarrow> nat \<Rightarrow> nat list \<Rightarrow> bool" where
  "walk supplied i [] \<longleftrightarrow> True"
| "walk supplied i (j # js) \<longleftrightarrow> edge supplied i j \<and> walk supplied j js"

definition anchored_paths :: "parsed_cert list \<Rightarrow> parsed_cert list \<Rightarrow> nat list \<Rightarrow> nat \<Rightarrow> built_path set" where
  "anchored_paths supplied anchors path i =
     {\<lparr>bp_supplied_indices = path @ js, bp_anchor_index = a\<rparr> | js a.
        walk supplied i js \<and> distinct js \<and> set js \<inter> set path = {}
        \<and> a < length anchors \<and> can_issue (supplied ! last (i # js)) (anchors ! a)}"

definition direct_paths :: "parsed_cert \<Rightarrow> parsed_cert list \<Rightarrow> nat list \<Rightarrow> nat \<Rightarrow> built_path list" where
  "direct_paths child anchors path j =
     map (\<lambda>a. \<lparr>bp_supplied_indices = path, bp_anchor_index = a\<rparr>)
       (filter (\<lambda>a. can_issue child (anchors ! a)) [j ..< length anchors])"

lemma direct_paths_step:
  "j < length anchors \<Longrightarrow> direct_paths child anchors path j
    = (if can_issue child (anchors ! j) then [\<lparr>bp_supplied_indices = path, bp_anchor_index = j\<rparr>] else [])
      @ direct_paths child anchors path (Suc j)"
  by (simp add: direct_paths_def upt_conv_Cons)

lemma direct_paths_end: "j \<ge> length anchors \<Longrightarrow> direct_paths child anchors path j = []"
  by (simp add: direct_paths_def)

lemma anchored_paths_unfold:
  "anchored_paths supplied anchors path i =
     set (direct_paths (supplied ! i) anchors path 0)
     \<union> (\<Union>j \<in> {j. edge supplied i j \<and> j \<notin> set path}. anchored_paths supplied anchors (path @ [j]) j)"
  (is "?L = ?D \<union> ?R")
proof
  show "?L \<subseteq> ?D \<union> ?R"
  proof
    fix b assume "b \<in> ?L"
    then obtain js a where b: "b = \<lparr>bp_supplied_indices = path @ js, bp_anchor_index = a\<rparr>" and h: "walk supplied i js"
        "distinct js" "set js \<inter> set path = {}" "a < length anchors" "can_issue (supplied ! last (i # js)) (anchors ! a)"
      by (auto simp: anchored_paths_def)
    show "b \<in> ?D \<union> ?R"
    proof (cases js)
      case Nil
      then show ?thesis using b h by (simp add: direct_paths_def)
    next
      case (Cons j ks)
      then have "b \<in> anchored_paths supplied anchors (path @ [j]) j"
        using b h by (auto simp: anchored_paths_def intro!: exI [of _ ks])
      then show ?thesis using Cons h by auto
    qed
  qed
  show "?D \<union> ?R \<subseteq> ?L"
  proof
    fix b assume "b \<in> ?D \<union> ?R"
    then consider a where "b = \<lparr>bp_supplied_indices = path, bp_anchor_index = a\<rparr>" "a < length anchors"
        "can_issue (supplied ! i) (anchors ! a)"
      | j js a where "edge supplied i j" "j \<notin> set path" "b = \<lparr>bp_supplied_indices = path @ j # js, bp_anchor_index = a\<rparr>"
        "walk supplied j js" "distinct js" "set js \<inter> set (path @ [j]) = {}" "a < length anchors"
        "can_issue (supplied ! last (j # js)) (anchors ! a)"
      by (auto simp: direct_paths_def anchored_paths_def)
    then show "b \<in> ?L"
    proof cases
      case 1
      then show ?thesis by (auto simp: anchored_paths_def intro!: exI [of _ "[]"])
    next
      case 2
      then show ?thesis unfolding anchored_paths_def by (auto intro!: exI [of _ "j # js"])
    qed
  qed
qed

lemma count_step_eq:
  "count_step s = (b, t) \<Longrightarrow> sr_complete t = sr_complete s \<and> sr_steps t = Suc (sr_steps s)
    \<and> sr_budget_exceeded t = (sr_budget_exceeded s \<or> \<not> b) \<and> b = (Suc (sr_steps s) \<le> MAX_PATH_BUILD_STEPS)"
  by (auto simp: count_step_def Let_def split: if_splits)

lemma explore_anchors_finds:
  assumes "explore_anchors child anchors path j c s = (ret, c', t)" "\<not> sr_budget_exceeded t"
  shows "\<not> ret \<and> \<not> sr_budget_exceeded s \<and> sr_complete t = sr_complete s @ direct_paths child anchors path j"
  using assms
proof (induction child anchors path j c s rule: explore_anchors.induct)
  case (1 child anchors path j c s)
  consider "j \<ge> length anchors"
    | "j < length anchors" "\<not> issuer_name_matches child (anchors ! j)"
    | "j < length anchors" "issuer_name_matches child (anchors ! j)" "\<not> authority_key_matches child (anchors ! j)"
    | "j < length anchors" "can_issue child (anchors ! j)"
    unfolding can_issue_def by (meson not_less)
  then show ?case
  proof cases
    case 1
    then show ?thesis using "1.prems" by (simp add: explore_anchors.simps direct_paths_end)
  next
    case 2
    then show ?thesis using "1.IH"(1) "1.prems" by (simp add: explore_anchors.simps [of _ _ _ j] direct_paths_step can_issue_def)
  next
    case 3
    then show ?thesis using "1.IH"(2) "1.prems" by (simp add: explore_anchors.simps [of _ _ _ j] direct_paths_step can_issue_def)
  next
    case 4
    obtain b u where cs: "count_step s = (b, u)" by fastforce
    with 4 "1.prems" have c: "Suc c \<le> MAX_ISSUER_CANDIDATES" and b: "b" and l: "length (sr_complete u) < MAX_COMPLETE_PATHS"
      by (auto simp: explore_anchors.simps [of _ _ _ j] can_issue_def split: if_splits bool.splits)
    from 4 "1.prems" cs c b l show ?thesis
      using "1.IH"(3) [of b u] count_step_eq [OF cs]
      by (simp add: explore_anchors.simps [of _ _ _ j] direct_paths_step can_issue_def)
  qed
qed


definition parent_paths :: "parsed_cert list \<Rightarrow> parsed_cert list \<Rightarrow> nat list \<Rightarrow> nat \<Rightarrow> nat \<Rightarrow> built_path set" where
  "parent_paths supplied anchors path i j =
     (\<Union>k \<in> {k. j \<le> k \<and> edge supplied i k \<and> k \<notin> set path}. anchored_paths supplied anchors (path @ [k]) k)"

lemma anchored_paths_parents:
  "anchored_paths supplied anchors path i
    = set (direct_paths (supplied ! i) anchors path 0) \<union> parent_paths supplied anchors path i 0"
  by (subst anchored_paths_unfold) (simp add: parent_paths_def)

lemma parent_paths_end: "length supplied \<le> j \<Longrightarrow> parent_paths supplied anchors path i j = {}"
  by (auto simp: parent_paths_def edge_def)

lemma parent_paths_skip:
  assumes "\<not> (edge supplied i j \<and> j \<notin> set path)"
  shows "parent_paths supplied anchors path i j = parent_paths supplied anchors path i (Suc j)"
proof -
  have "{k. j \<le> k \<and> edge supplied i k \<and> k \<notin> set path} = {k. Suc j \<le> k \<and> edge supplied i k \<and> k \<notin> set path}"
    using assms by (auto simp: Suc_le_eq order.order_iff_strict)
  then show ?thesis by (simp only: parent_paths_def)
qed

lemma parent_paths_take:
  assumes "edge supplied i j" "j \<notin> set path"
  shows "parent_paths supplied anchors path i j
    = anchored_paths supplied anchors (path @ [j]) j \<union> parent_paths supplied anchors path i (Suc j)"
proof -
  have "{k. j \<le> k \<and> edge supplied i k \<and> k \<notin> set path} = insert j {k. Suc j \<le> k \<and> edge supplied i k \<and> k \<notin> set path}"
    using assms by (auto simp: Suc_le_eq order.order_iff_strict)
  then show ?thesis by (simp add: parent_paths_def)
qed

lemma anchored_paths_prefix:
  "b \<in> anchored_paths supplied anchors path i \<Longrightarrow> \<exists>js. bp_supplied_indices b = path @ js"
  by (auto simp: anchored_paths_def)

lemma anchored_parents_disjoint:
  "anchored_paths supplied anchors (path @ [j]) j \<inter> parent_paths supplied anchors path i (Suc j) = {}"
proof -
  have False if "b \<in> anchored_paths supplied anchors (path @ [j]) j" "b \<in> anchored_paths supplied anchors (path @ [k]) k"
    "Suc j \<le> k" for b k
    using anchored_paths_prefix [OF that(1)] anchored_paths_prefix [OF that(2)] that(3) by auto
  then show ?thesis by (auto simp: parent_paths_def)
qed

lemma direct_parents_disjoint: "set (direct_paths child anchors path 0) \<inter> parent_paths supplied anchors path i j = {}"
proof -
  have False if "b \<in> set (direct_paths child anchors path 0)" "b \<in> anchored_paths supplied anchors (path @ [k]) k" for b k
    using anchored_paths_prefix [OF that(2)] that(1) by (auto simp: direct_paths_def)
  then show ?thesis by (auto simp: parent_paths_def)
qed

lemma distinct_direct_paths: "distinct (direct_paths child anchors path j)"
  by (auto simp: direct_paths_def distinct_map inj_on_def)

text \<open>The complete paths added by a search that stayed within its budget: each once, and exactly those of a set.\<close>

definition adds :: "path_search \<Rightarrow> path_search \<Rightarrow> built_path set \<Rightarrow> bool" where
  "adds s t B \<longleftrightarrow> (\<exists>new. sr_complete t = sr_complete s @ new \<and> distinct new \<and> set new = B)"

lemma adds_none: "sr_complete t = sr_complete s \<Longrightarrow> adds s t {}"
  by (simp add: adds_def)

lemma adds_trans: "adds s t A \<Longrightarrow> adds t u B \<Longrightarrow> A \<inter> B = {} \<Longrightarrow> adds s u (A \<union> B)"
  unfolding adds_def by (metis append_assoc distinct_append set_append)

lemma adds_from: "sr_complete s = sr_complete s' \<Longrightarrow> adds s t A = adds s' t A"
  by (simp add: adds_def)

lemma explore_anchors_early:
  "explore_anchors child anchors path j c s = (ret, c', t) \<Longrightarrow> sr_budget_exceeded s \<or> ret \<Longrightarrow> sr_budget_exceeded t"
proof (cases "sr_budget_exceeded t")
  case False
  assume "explore_anchors child anchors path j c s = (ret, c', t)" "sr_budget_exceeded s \<or> ret"
  then show ?thesis using explore_anchors_finds False by blast
qed

lemma explore_budget_sticks:
  "sr_budget_exceeded s \<Longrightarrow> sr_budget_exceeded (explore_paths i supplied anchors path s)"
  "sr_budget_exceeded s \<Longrightarrow> sr_budget_exceeded (explore_parents i supplied anchors path j c s)"
proof (induction i supplied anchors path s and i supplied anchors path j c s rule: explore_paths_explore_parents.induct)
  case (1 i supplied anchors path s)
  then show ?case by (simp add: explore_paths.simps)
next
  case (2 i supplied anchors path j c s)
  obtain b u where cs: "count_step s = (b, u)" by fastforce
  with "2.prems" have "sr_budget_exceeded u" using count_step_eq [OF cs] by simp
  with 2 cs show ?case
    by (cases b) (auto simp: explore_parents.simps [of i supplied anchors path j] Let_def)
qed

lemma explore_finds:
  "\<not> sr_budget_exceeded (explore_paths i supplied anchors path s)
    \<Longrightarrow> adds s (explore_paths i supplied anchors path s) (anchored_paths supplied anchors path i)"
  "\<not> sr_budget_exceeded (explore_parents i supplied anchors path j c s)
    \<Longrightarrow> adds s (explore_parents i supplied anchors path j c s) (parent_paths supplied anchors path i j)"
proof (induction i supplied anchors path s and i supplied anchors path j c s rule: explore_paths_explore_parents.induct)
  case (1 i supplied anchors path s)
  from "1.prems" have b0: "\<not> sr_budget_exceeded s" by (auto simp: explore_paths.simps)
  obtain b u where cs: "count_step s = (b, u)" by fastforce
  with "1.prems" b0 have b: "b" using count_step_eq [OF cs] by (auto simp: explore_paths.simps)
  obtain ret c t where ea: "explore_anchors (supplied ! i) anchors path 0 0 u = (ret, c, t)" by (metis prod_cases3)
  have t: "\<not> sr_budget_exceeded t \<and> \<not> ret"
  proof (rule ccontr)
    assume "\<not> (\<not> sr_budget_exceeded t \<and> \<not> ret)"
    then have "sr_budget_exceeded t" using explore_anchors_early [OF ea] by blast
    then show False using "1.prems" b0 cs b ea explore_budget_sticks(2)
      by (cases ret) (auto simp: explore_paths.simps)
  qed
  have u: "sr_complete u = sr_complete s" using count_step_eq [OF cs] by simp
  have res: "explore_paths i supplied anchors path s = explore_parents i supplied anchors path 0 c t"
    using b0 cs b ea t by (simp add: explore_paths.simps)
  have "adds s t (set (direct_paths (supplied ! i) anchors path 0))"
    using explore_anchors_finds [OF ea] t u distinct_direct_paths by (auto simp: adds_def)
  moreover have "adds t (explore_parents i supplied anchors path 0 c t) (parent_paths supplied anchors path i 0)"
    using "1.IH" [OF b0 cs [symmetric]] b ea t "1.prems" res by auto
  ultimately have "adds s (explore_parents i supplied anchors path 0 c t)
      (set (direct_paths (supplied ! i) anchors path 0) \<union> parent_paths supplied anchors path i 0)"
    by (rule adds_trans [OF _ _ direct_parents_disjoint])
  then show ?case by (simp only: res anchored_paths_parents)
next
  case (2 i supplied anchors path j c s)
  note R = explore_parents.simps [of i supplied anchors path j c s]
  consider (off) "j \<ge> length supplied"
    | (other) "j < length supplied" "j = i \<or> \<not> issuer_name_matches (supplied ! i) (supplied ! j)"
    | (key) "j < length supplied" "j \<noteq> i" "issuer_name_matches (supplied ! i) (supplied ! j)"
        "\<not> authority_key_matches (supplied ! i) (supplied ! j)"
    | (issuer) "j < length supplied" "j \<noteq> i" "issuer_name_matches (supplied ! i) (supplied ! j)"
        "authority_key_matches (supplied ! i) (supplied ! j)"
    by linarith
  then show ?case
  proof cases
    case off
    then show ?thesis by (simp add: R parent_paths_end adds_none)
  next
    case other
    then have "\<not> edge supplied i j" by (auto simp: edge_def can_issue_def)
    then show ?thesis using other 2 by (simp add: R parent_paths_skip)
  next
    case key
    then have "\<not> edge supplied i j" by (auto simp: edge_def can_issue_def)
    then show ?thesis using key "2.IH"(2) "2.prems" adds_from [of s "s\<lparr>sr_saw_authority_key_mismatch := True\<rparr>"]
      by (simp add: R parent_paths_skip)
  next
    case issuer
    then have e: "edge supplied i j" by (simp add: edge_def can_issue_def)
    obtain b u where cs: "count_step s = (b, u)" by fastforce
    from issuer "2.prems" cs have c: "\<not> Suc c > MAX_ISSUER_CANDIDATES" and b: "b"
      by (auto simp: R split: if_splits bool.splits)
    have u: "sr_complete u = sr_complete s" using count_step_eq [OF cs] by simp
    show ?thesis
    proof (cases "j \<in> set path")
      case True
      have "adds (u\<lparr>sr_saw_loop := True\<rparr>) (explore_parents i supplied anchors path (Suc j) (Suc c) (u\<lparr>sr_saw_loop := True\<rparr>))
          (parent_paths supplied anchors path i (Suc j))"
        using "2.IH"(3) [of b u] issuer c cs b True "2.prems" by (simp add: R)
      then show ?thesis using issuer c cs b True adds_from [of s "u\<lparr>sr_saw_loop := True\<rparr>"] u
        by (simp add: R parent_paths_skip)
    next
      case False
      let ?v = "explore_paths j supplied anchors (path @ [j]) u"
      have v: "\<not> sr_budget_exceeded ?v" using issuer c cs b False "2.prems" by (auto simp: R Let_def)
      have "adds s ?v (anchored_paths supplied anchors (path @ [j]) j)"
        using "2.IH"(4) [of b u] issuer c cs b False v adds_from [OF u] by simp
      moreover have "adds ?v (explore_parents i supplied anchors path (Suc j) (Suc c) ?v)
          (parent_paths supplied anchors path i (Suc j))"
        using "2.IH"(5) [of b u ?v] issuer c cs b False v "2.prems" by (simp add: R Let_def)
      ultimately have "adds s (explore_parents i supplied anchors path (Suc j) (Suc c) ?v)
          (parent_paths supplied anchors path i j)"
        unfolding parent_paths_take [OF e False] by (rule adds_trans [OF _ _ anchored_parents_disjoint])
      then show ?thesis using issuer c cs b False v by (simp add: R Let_def)
    qed
  qed
qed


text \<open>The search does a bounded amount of work, whatever the bundle holds.\<close>

definition within_budget :: "path_search \<Rightarrow> bool" where
  "within_budget s \<longleftrightarrow> length (sr_complete s) \<le> MAX_COMPLETE_PATHS
     \<and> sr_steps s \<le> MAX_PATH_BUILD_STEPS + (if sr_budget_exceeded s then 1 else 0)"

lemma within_budget_exceeded: "within_budget s \<Longrightarrow> within_budget (s\<lparr>sr_budget_exceeded := True\<rparr>)"
  by (auto simp: within_budget_def split: if_splits)

lemma within_budget_flags [simp]:
  "within_budget (s\<lparr>sr_saw_authority_key_mismatch := v\<rparr>) = within_budget s"
  "within_budget (s\<lparr>sr_saw_loop := v\<rparr>) = within_budget s"
  by (simp_all add: within_budget_def)

lemma within_budget_count:
  "count_step s = (b, t) \<Longrightarrow> within_budget s \<Longrightarrow> \<not> sr_budget_exceeded s \<Longrightarrow>
    within_budget t \<and> sr_budget_exceeded t = (\<not> b)"
  using count_step_eq [of s b t] by (auto simp: within_budget_def)

lemma explore_anchors_bounded:
  "explore_anchors child anchors path j c s = (ret, c', t) \<Longrightarrow> within_budget s \<Longrightarrow> \<not> sr_budget_exceeded s \<Longrightarrow>
    within_budget t \<and> sr_budget_exceeded t = ret"
proof (induction child anchors path j c s rule: explore_anchors.induct)
  case (1 child anchors path j c s)
  note R = explore_anchors.simps [of child anchors path j c s]
  consider (off) "length anchors \<le> j"
    | (other) "j < length anchors" "\<not> issuer_name_matches child (anchors ! j)"
    | (key) "j < length anchors" "issuer_name_matches child (anchors ! j)" "\<not> authority_key_matches child (anchors ! j)"
    | (many) "j < length anchors" "issuer_name_matches child (anchors ! j)" "authority_key_matches child (anchors ! j)"
        "Suc c > MAX_ISSUER_CANDIDATES"
    | (issuer) "j < length anchors" "issuer_name_matches child (anchors ! j)" "authority_key_matches child (anchors ! j)"
        "\<not> Suc c > MAX_ISSUER_CANDIDATES"
    by linarith
  then show ?case
  proof cases
    case off
    then show ?thesis using "1.prems" by (simp add: R)
  next
    case other
    then show ?thesis using "1.IH"(1) "1.prems" by (simp add: R)
  next
    case key
    then show ?thesis using "1.IH"(2) "1.prems" by (simp add: R)
  next
    case many
    then have "t = s\<lparr>sr_budget_exceeded := True\<rparr>" "ret" using "1.prems"(1) by (simp_all add: R)
    then show ?thesis using "1.prems"(2) within_budget_exceeded by simp
  next
    case issuer
    obtain b u where cs: "count_step s = (b, u)" by fastforce
    then have u: "within_budget u" "sr_budget_exceeded u = (\<not> b)"
      using within_budget_count [OF cs] "1.prems" by blast+
    consider "\<not> b" | "b" "length (sr_complete u) \<ge> MAX_COMPLETE_PATHS" | "b" "\<not> length (sr_complete u) \<ge> MAX_COMPLETE_PATHS"
      by linarith
    then show ?thesis
    proof cases
      case 1
      then have "t = u\<lparr>sr_budget_exceeded := True\<rparr>" "ret" using issuer "1.prems"(1) cs by (simp_all add: R)
      then show ?thesis using within_budget_exceeded [OF u(1)] by simp
    next
      case 2
      then have "t = u\<lparr>sr_budget_exceeded := True\<rparr>" "ret" using issuer "1.prems"(1) cs by (simp_all add: R)
      then show ?thesis using within_budget_exceeded [OF u(1)] by simp
    next
      case 3
      let ?u = "u\<lparr>sr_complete := sr_complete u @ [\<lparr>bp_supplied_indices = path, bp_anchor_index = j\<rparr>]\<rparr>"
      have "within_budget ?u" "\<not> sr_budget_exceeded ?u" using 3 u by (simp_all add: within_budget_def)
      then show ?thesis using issuer "1.prems" cs 3 "1.IH"(3) [of b u] by (simp add: R)
    qed
  qed
qed

lemma explore_bounded:
  "within_budget s \<Longrightarrow> within_budget (explore_paths i supplied anchors path s)"
  "within_budget s \<Longrightarrow> \<not> sr_budget_exceeded s \<Longrightarrow> within_budget (explore_parents i supplied anchors path j c s)"
proof (induction i supplied anchors path s and i supplied anchors path j c s rule: explore_paths_explore_parents.induct)
  case (1 i supplied anchors path s)
  obtain b u where cs: "count_step s = (b, u)" by fastforce
  obtain ret c t where ea: "explore_anchors (supplied ! i) anchors path 0 0 u = (ret, c, t)" by (metis prod_cases3)
  show ?case
  proof (cases "sr_budget_exceeded s")
    case False
    then have u: "within_budget u" "sr_budget_exceeded u = (\<not> b)" using within_budget_count [OF cs] "1.prems" by blast+
    show ?thesis
    proof (cases "b \<and> \<not> ret")
      case True
      then have "within_budget t" "\<not> sr_budget_exceeded t" using explore_anchors_bounded [OF ea u(1)] u by blast+
      then show ?thesis using True False cs ea "1.IH" [OF False cs [symmetric]] by (simp add: explore_paths.simps)
    next
      case F: False
      then show ?thesis using False cs ea u explore_anchors_bounded [OF ea u(1)]
        by (cases b) (simp_all add: explore_paths.simps)
    qed
  qed (use "1.prems" in \<open>simp add: explore_paths.simps\<close>)
next
  case (2 i supplied anchors path j c s)
  note R = explore_parents.simps [of i supplied anchors path j c s]
  consider (off) "j \<ge> length supplied"
    | (other) "j < length supplied" "j = i \<or> \<not> issuer_name_matches (supplied ! i) (supplied ! j)"
    | (key) "j < length supplied" "j \<noteq> i" "issuer_name_matches (supplied ! i) (supplied ! j)"
        "\<not> authority_key_matches (supplied ! i) (supplied ! j)"
    | (issuer) "j < length supplied" "j \<noteq> i" "issuer_name_matches (supplied ! i) (supplied ! j)"
        "authority_key_matches (supplied ! i) (supplied ! j)"
    by linarith
  then show ?case
  proof cases
    case off
    then show ?thesis using "2.prems" by (simp add: R)
  next
    case other
    then show ?thesis using 2 by (simp add: R)
  next
    case key
    then show ?thesis using "2.IH"(2) "2.prems" by (simp add: R)
  next
    case issuer
    obtain b u where cs: "count_step s = (b, u)" by fastforce
    then have u: "within_budget u" "sr_budget_exceeded u = (\<not> b)"
      using within_budget_count [OF cs] "2.prems" by blast+
    let ?v = "explore_paths j supplied anchors (path @ [j]) u"
    consider "Suc c > MAX_ISSUER_CANDIDATES" | "\<not> Suc c > MAX_ISSUER_CANDIDATES" "\<not> b"
      | "\<not> Suc c > MAX_ISSUER_CANDIDATES" "b" "j \<in> set path" | "\<not> Suc c > MAX_ISSUER_CANDIDATES" "b" "j \<notin> set path"
      by linarith
    then show ?thesis
    proof cases
      case 1
      then show ?thesis using issuer within_budget_exceeded [OF "2.prems"(1)] by (simp add: R)
    next
      case 2
      then show ?thesis using issuer cs within_budget_exceeded [OF u(1)] by (simp add: R)
    next
      case 3
      then show ?thesis using issuer cs u "2.IH"(3) [of b u] by (simp add: R)
    next
      case 4
      then have "within_budget ?v" using issuer cs u "2.IH"(4) [of b u] by simp
      then show ?thesis using 4 issuer cs "2.IH"(5) [of b u ?v] by (simp add: R Let_def)
    qed
  qed
qed

section \<open>What validation checks\<close>

lemma for_each_Inr: "for_each f xs = Inr () \<longleftrightarrow> (\<forall>x \<in> set xs. f x = Inr ())"
  by (induction xs) (auto simp: bind_result_Inr_iff)

text \<open>A name of one form against the subtrees of that form.\<close>

definition within_subtrees ::
    "('n \<Rightarrow> 'c \<Rightarrow> bool) \<Rightarrow> (supported_name_constraint \<Rightarrow> 'c option) \<Rightarrow> parsed_name_constraints \<Rightarrow> 'n \<Rightarrow> bool" where
  "within_subtrees m form constraints name \<longleftrightarrow>
     (\<forall>s c. s \<in> set (nc_excluded constraints) \<and> form s = Some c \<longrightarrow> \<not> m name c)
     \<and> ((\<forall>s \<in> set (nc_permitted constraints). form s = None)
        \<or> (\<exists>s c. s \<in> set (nc_permitted constraints) \<and> form s = Some c \<and> m name c))"

lemma set_map_filter: "set (List.map_filter f xs) = {y. \<exists>x \<in> set xs. f x = Some y}"
  by (force simp: List.map_filter_def)

lemma map_filter_Nil_iff: "List.map_filter f xs = [] \<longleftrightarrow> (\<forall>x \<in> set xs. f x = None)"
  by (auto simp: List.map_filter_def filter_empty_conv)

lemma check_subtrees_Inr:
  "check_subtrees m (List.map_filter form (nc_permitted nc)) (List.map_filter form (nc_excluded nc)) name = Inr ()
    \<longleftrightarrow> within_subtrees m form nc name"
proof -
  have "list_ex (m name) (List.map_filter form xs) \<longleftrightarrow> (\<exists>s c. s \<in> set xs \<and> form s = Some c \<and> m name c)" for xs
    by (auto simp: list_ex_iff set_map_filter)
  then show ?thesis
    by (simp add: check_subtrees_def within_subtrees_def map_filter_Nil_iff) blast
qed

lemma enforce_name_constraints_Inr:
  "enforce_name_constraints names nc = Inr () \<longleftrightarrow>
     (\<forall>n \<in> set (cn_dns names). \<exists>d. canonical_dns_name n = Some d \<and> within_subtrees dns_constraint_matches dns_of nc d)
   \<and> (\<forall>n \<in> set (cn_emails names). \<exists>e. canonical_email n False = Some e \<and> within_subtrees email_constraint_matches email_of nc e)
   \<and> ((\<forall>s \<in> set (nc_permitted nc @ nc_excluded nc). uri_of s = None)
      \<or> (\<forall>n \<in> set (cn_uris names). \<exists>h. constrained_uri_host n = Some h \<and> within_subtrees uri_constraint_matches uri_of nc h))
   \<and> (\<forall>n \<in> set (cn_ips names). (length n = 4 \<or> length n = 16)
        \<and> within_subtrees (\<lambda>n (address, ipmask). ip_constraint_matches n address ipmask) ip_of nc n)
   \<and> (\<forall>n \<in> set (cn_directories names). within_subtrees directory_constraint_matches directory_of nc n)"
proof -
  have u: "(List.map_filter uri_of (nc_permitted nc) = [] \<and> List.map_filter uri_of (nc_excluded nc) = [])
      \<longleftrightarrow> (\<forall>s \<in> set (nc_permitted nc @ nc_excluded nc). uri_of s = None)"
    by (auto simp: map_filter_Nil_iff)
  show ?thesis
    unfolding enforce_name_constraints_def Let_def u
    by (cases "\<forall>s \<in> set (nc_permitted nc @ nc_excluded nc). uri_of s = None")
      (simp_all only: if_True if_False, simp_all add: for_each_Inr bind_result_Inr_iff check_subtrees_Inr del: set_append)
qed

section \<open>Choosing the path\<close>

definition with_policies :: "string list \<Rightarrow> parsed_cert list \<Rightarrow> parsed_cert list" where
  "with_policies policies path = (hd path)\<lparr>pc_policies := policies\<rparr> # tl path"

lemma choose_path_keeps:
  "choose_path v now cs (Some p) e = Inr (q, e') \<Longrightarrow> q = Some p \<and> (\<forall>c \<in> set cs. isl (validate_built_path v now c))"
  by (induction cs arbitrary: e) (auto split: sum.splits)

lemma choose_path_kept:
  "(\<forall>c \<in> set cs. isl (validate_built_path v now c)) \<Longrightarrow> \<exists>e'. choose_path v now cs q e = Inr (q, e')"
  by (induction cs arbitrary: e) (auto simp: isl_def)

lemma choose_path_picks:
  assumes "choose_path v now cs None e = Inr (Some p, e')"
  shows "\<exists>pre c post policies. cs = pre @ c # post \<and> validate_built_path v now c = Inr policies
    \<and> p = with_policies policies c \<and> (\<forall>d \<in> set pre \<union> set post. isl (validate_built_path v now d))"
  using assms
proof (induction cs arbitrary: e)
  case (Cons c cs)
  show ?case
  proof (cases "validate_built_path v now c")
    case (Inl err)
    with Cons.prems obtain e'' where "choose_path v now cs None e'' = Inr (Some p, e')" by auto
    from Cons.IH [OF this] obtain pre d post policies where "cs = pre @ d # post" "validate_built_path v now d = Inr policies"
        "p = with_policies policies d" "\<forall>d \<in> set pre \<union> set post. isl (validate_built_path v now d)"
      by blast
    then show ?thesis using Inl by (intro exI [of _ "c # pre"] exI [of _ d] exI [of _ post] exI [of _ policies]) simp
  next
    case (Inr policies)
    with Cons.prems have "choose_path v now cs (Some (with_policies policies c)) e = Inr (Some p, e')"
      by (simp add: with_policies_def)
    from choose_path_keeps [OF this] show ?thesis
      using Inr by (intro exI [of _ "[]"] exI [of _ c] exI [of _ cs] exI [of _ policies]) simp
  qed
qed simp

lemma choose_path_picked:
  assumes "validate_built_path v now c = Inr policies" "\<forall>d \<in> set pre \<union> set post. isl (validate_built_path v now d)"
  shows "\<exists>e'. choose_path v now (pre @ c # post) None e = Inr (Some (with_policies policies c), e')"
  using assms
proof (induction pre arbitrary: e)
  case Nil
  then show ?case using choose_path_kept [of post v now "Some (with_policies policies c)" e] by (simp add: with_policies_def)
next
  case (Cons d pre)
  then show ?case by (auto simp: isl_def)
qed

text \<open>The only path among all those from the leaf to an anchor that validates.\<close>

definition unique_valid_path ::
    "cert_verifier \<Rightarrow> int \<Rightarrow> parsed_cert list \<Rightarrow> parsed_cert list \<Rightarrow> nat \<Rightarrow> parsed_cert list \<Rightarrow> bool" where
  "unique_valid_path v now supplied anchors leaf path \<longleftrightarrow>
     (\<exists>b \<in> anchored_paths supplied anchors [leaf] leaf. \<exists>policies.
        validate_built_path v now (candidate_path supplied anchors b) = Inr policies
        \<and> path = with_policies policies (candidate_path supplied anchors b)
        \<and> (\<forall>b' \<in> anchored_paths supplied anchors [leaf] leaf - {b}.
             isl (validate_built_path v now (candidate_path supplied anchors b'))))"

lemma choose_path_unique:
  assumes "\<not> sr_budget_exceeded s" "s = explore_paths leaf supplied anchors [leaf] path_search_default"
  shows "(\<exists>e. choose_path v now (map (candidate_path supplied anchors) (sr_complete s)) None None = Inr (Some path, e))
    \<longleftrightarrow> unique_valid_path v now supplied anchors leaf path" (is "?L \<longleftrightarrow> ?R")
proof -
  let ?c = "candidate_path supplied anchors"
  have found: "distinct (sr_complete s)" "set (sr_complete s) = anchored_paths supplied anchors [leaf] leaf"
    using explore_finds(1) [of leaf supplied anchors "[leaf]" path_search_default] assms
    by (auto simp: adds_def path_search_default_def)
  show ?thesis
  proof
    assume ?L
    then obtain e where "choose_path v now (map ?c (sr_complete s)) None None = Inr (Some path, e)" by blast
    from choose_path_picks [OF this] obtain pre c post policies where
      cs: "map ?c (sr_complete s) = pre @ c # post" "validate_built_path v now c = Inr policies"
        "path = with_policies policies c" "\<forall>d \<in> set pre \<union> set post. isl (validate_built_path v now d)"
      by blast
    then obtain bs b bs' where s: "sr_complete s = bs @ b # bs'" "pre = map ?c bs" "c = ?c b" "post = map ?c bs'"
      by (auto simp: map_eq_append_conv map_eq_Cons_conv)
    then have "anchored_paths supplied anchors [leaf] leaf - {b} = set bs \<union> set bs'" using found by auto
    then show ?R unfolding unique_valid_path_def using cs s found(2)
      by (intro bexI [of _ b] exI [of _ policies]) auto
  next
    assume ?R
    then obtain b policies where b: "b \<in> set (sr_complete s)" "validate_built_path v now (?c b) = Inr policies"
        "path = with_policies policies (?c b)" "\<forall>b' \<in> set (sr_complete s) - {b}. isl (validate_built_path v now (?c b'))"
      unfolding unique_valid_path_def found(2) by blast
    obtain bs bs' where s: "sr_complete s = bs @ b # bs'" using b(1) by (meson split_list)
    then have "\<forall>d \<in> set (map ?c bs) \<union> set (map ?c bs'). isl (validate_built_path v now d)" using b(4) found(1) by auto
    from choose_path_picked [OF b(2) this] show ?L using s b(3) by simp
  qed
qed

text \<open>The bundles the search is run on: within the limits, without duplicates, every certificate parsed,
  no anchor among them. They are searched in the order of their encodings.\<close>

definition admitted :: "der_codec \<Rightarrow> bytes list \<Rightarrow> parsed_cert list \<Rightarrow> parsed_cert list \<Rightarrow> bool" where
  "admitted D chain_der trust_anchors supplied \<longleftrightarrow>
     chain_der \<noteq> [] \<and> length chain_der \<le> MAX_SUPPLIED_CERTIFICATES \<and> distinct chain_der
     \<and> trust_anchors \<noteq> [] \<and> length trust_anchors \<le> MAX_TRUST_ANCHORS \<and> \<not> has_duplicate certificate_eq trust_anchors
     \<and> (\<exists>parsed. collect_result (parse_cert D) chain_der = Inr parsed \<and> supplied = sort_certificates parsed)
     \<and> \<not> list_ex (\<lambda>c. list_ex (certificate_eq c) (sort_certificates trust_anchors)) supplied"

lemma has_duplicate_eq: "has_duplicate (=) xs \<longleftrightarrow> \<not> distinct xs"
  by (induction xs) (auto simp: list_ex_iff)

lemma selected_path:
  assumes "\<And>e. isl (h e)"
  shows "bind_result r (\<lambda>(valid_path, first_error). case valid_path of Some path \<Rightarrow> Inr path | None \<Rightarrow> h first_error) = Inr path
    \<longleftrightarrow> (\<exists>e. r = Inr (Some path, e))"
proof -
  have "h e \<noteq> Inr path" for e using assms [of e] by (auto simp: isl_def)
  then show ?thesis by (cases r) (auto split: option.splits)
qed

lemma isl_first_error: "isl d \<Longrightarrow> isl (case e of None \<Rightarrow> d | Some err \<Rightarrow> Inl err)"
  by (simp split: option.splits)

lemma validate_path_iff:
  "validate_path D chain_der trust_anchors now v = Inr path \<longleftrightarrow>
     (\<exists>supplied leaf. admitted D chain_der trust_anchors supplied \<and> leaf_indices supplied = [leaf]
        \<and> \<not> sr_budget_exceeded (explore_paths leaf supplied (sort_certificates trust_anchors) [leaf] path_search_default)
        \<and> unique_valid_path v now supplied (sort_certificates trust_anchors) leaf path)"
proof (cases "\<exists>parsed. collect_result (parse_cert D) chain_der = Inr parsed")
  case True
  then obtain parsed where p: "collect_result (parse_cert D) chain_der = Inr parsed" by blast
  show ?thesis
    by (simp add: validate_path_def Let_def admitted_def p has_duplicate_eq selected_path isl_first_error
        choose_path_unique not_less split: list.splits)
qed (auto simp: validate_path_def admitted_def bind_result_Inr_iff)

text \<open>The conditions on every certificate, on every issuer, on every link and on every name of a path.\<close>

definition in_force :: "cert_verifier \<Rightarrow> int \<Rightarrow> parsed_cert \<Rightarrow> bool" where
  "in_force v now c \<longleftrightarrow> pc_not_before c \<le> now \<and> now \<le> pc_not_after c
     \<and> \<not> cc_unsupported_critical_extension (pc_constraints c) \<and> cc_signature_algorithms_match (pc_constraints c)
     \<and> cc_name_constraints_error (pc_constraints c) = None
     \<and> (\<exists>alg. cc_public_key_algorithm (pc_constraints c) = Some alg
          \<and> validate_certificate_public_key v alg (pc_public_key_raw c) = Inr ())"

definition may_issue :: "parsed_cert list \<Rightarrow> nat \<Rightarrow> bool" where
  "may_issue path i \<longleftrightarrow> pc_is_ca (path ! i) \<and> cc_basic_constraints_critical (pc_constraints (path ! i))
     \<and> cc_key_cert_sign (pc_constraints (path ! i))
     \<and> (case cc_path_len_constraint (pc_constraints (path ! i)) of None \<Rightarrow> True
        | Some limit \<Rightarrow> length (filter (\<lambda>s. \<not> self_issued s) (drop 1 (take i path))) \<le> unat limit)"

definition issued_by :: "cert_verifier \<Rightarrow> parsed_cert \<Rightarrow> parsed_cert \<Rightarrow> bool" where
  "issued_by v child parent \<longleftrightarrow> can_issue child parent
     \<and> verify_certificate v (pc_sig_alg child) (pc_public_key_raw parent) (pc_tbs_der child) (pc_signature child) = Inr ()"

lemma check_certificate_Inr: "check_certificate v now c = Inr () \<Longrightarrow> in_force v now c"
  by (auto simp: check_certificate_def Let_def in_force_def bind_result_Inr_iff split: option.splits)

lemma check_issuer_Inr: "check_issuer path i = Inr () \<Longrightarrow> may_issue path i"
  by (auto simp: check_issuer_def Let_def may_issue_def bind_result_Inr_iff split: option.splits)

lemma check_link_Inr: "check_link v (child, parent) = Inr () \<Longrightarrow> issued_by v child parent"
  by (auto simp: check_link_def issued_by_def can_issue_def bind_result_Inr_iff)

lemma in_constrained_subjects:
  "j < length below \<Longrightarrow> j = 0 \<or> \<not> self_issued (below ! j) \<Longrightarrow> below ! j \<in> set (constrained_subjects below)"
  by (force simp: constrained_subjects_def set_zip)

lemma validate_name_constraints_Inr:
  assumes "validate_name_constraints path = Inr ()" "i < length path" "j < i" "j = 0 \<or> \<not> self_issued (path ! j)"
    "cc_name_constraints (pc_constraints (path ! i)) = Some nc"
  shows "enforce_name_constraints (cc_names (pc_constraints (path ! j))) nc = Inr ()"
proof -
  have "for_each (\<lambda>subject. enforce_name_constraints (cc_names (pc_constraints subject)) nc)
      (constrained_subjects (take i path)) = Inr ()"
    using assms(1-3,5) by (auto simp: validate_name_constraints_def for_each_Inr dest!: bspec [of _ _ i])
  moreover have "path ! j \<in> set (constrained_subjects (take i path))"
    using in_constrained_subjects [of j "take i path"] assms(2-4) by simp
  ultimately show ?thesis by (simp add: for_each_Inr)
qed

lemma validate_built_path_Inr:
  assumes "validate_built_path v now path = Inr policies"
  shows "path \<noteq> []" "\<forall>c \<in> set path. in_force v now c" "\<not> pc_is_ca (hd path)"
    "cc_digital_signature (pc_constraints (hd path))"
    "0 < i \<Longrightarrow> i < length path \<Longrightarrow> may_issue path i"
    "validate_name_constraints path = Inr ()"
    "Suc i < length path \<Longrightarrow> issued_by v (path ! i) (path ! Suc i)"
proof -
  from assms have p: "path \<noteq> []" "for_each (check_certificate v now) path = Inr ()" "check_leaf (hd path) = Inr ()"
      "for_each (check_issuer path) [1 ..< length path] = Inr ()" "for_each (check_link v) (zip path (tl path)) = Inr ()"
    and n: "validate_name_constraints path = Inr ()"
    by (auto simp: validate_built_path_def bind_result_Inr_iff split: if_splits)
  show "path \<noteq> []" "validate_name_constraints path = Inr ()" by fact+
  show "\<forall>c \<in> set path. in_force v now c" using p(2) check_certificate_Inr by (auto simp: for_each_Inr)
  show "\<not> pc_is_ca (hd path)" "cc_digital_signature (pc_constraints (hd path))"
    using p(3) by (auto simp: check_leaf_def bind_result_Inr_iff)
  show "may_issue path i" if "0 < i" "i < length path" using that p(4) check_issuer_Inr by (simp add: for_each_Inr)
  show "issued_by v (path ! i) (path ! Suc i)" if "Suc i < length path"
  proof -
    have "(path ! i, path ! Suc i) \<in> set (zip path (tl path))" using that by (force simp: set_zip nth_tl)
    then show ?thesis using p(5) check_link_Inr by (auto simp: for_each_Inr)
  qed
qed

lemma drop1_take_Cons: "drop 1 (take i (x # xs)) = take (i - 1) xs"
  by (cases i) auto

lemma with_policies_fields:
  assumes "path \<noteq> []" "path' = with_policies policies path"
  shows "length path' = length path" "i < length path \<Longrightarrow> pc_constraints (path' ! i) = pc_constraints (path ! i)"
    "\<forall>c \<in> set path. in_force v now c \<Longrightarrow> \<forall>c \<in> set path'. in_force v now c"
    "pc_is_ca (hd path') = pc_is_ca (hd path)" "pc_constraints (hd path') = pc_constraints (hd path)"
    "i < length path \<Longrightarrow> may_issue path' i = may_issue path i"
    "Suc i < length path \<Longrightarrow> issued_by v (path' ! i) (path' ! Suc i) = issued_by v (path ! i) (path ! Suc i)"
    "i < length path \<Longrightarrow> self_issued (path' ! i) = self_issued (path ! i)"
proof -
  obtain c cs where "path = c # cs" using assms(1) by (cases path) auto
  then show "length path' = length path" "i < length path \<Longrightarrow> pc_constraints (path' ! i) = pc_constraints (path ! i)"
    "\<forall>c \<in> set path. in_force v now c \<Longrightarrow> \<forall>c \<in> set path'. in_force v now c"
    "pc_is_ca (hd path') = pc_is_ca (hd path)" "pc_constraints (hd path') = pc_constraints (hd path)"
    "i < length path \<Longrightarrow> may_issue path' i = may_issue path i"
    "Suc i < length path \<Longrightarrow> issued_by v (path' ! i) (path' ! Suc i) = issued_by v (path ! i) (path ! Suc i)"
    "i < length path \<Longrightarrow> self_issued (path' ! i) = self_issued (path ! i)"
    using assms(2)
    by (auto simp: with_policies_def in_force_def may_issue_def issued_by_def can_issue_def issuer_name_matches_def
        authority_key_matches_def self_issued_def nth_Cons' drop1_take_Cons simp del: One_nat_def
        split: option.splits)
qed

text \<open>C14. A bundle validates to a path exactly when it is admitted, has one leaf, was searched within
  the budget, and that path is the only one, among all simple chains of possible issuers from the leaf
  to a trust anchor, that passes validation. The search neither invents nor loses a chain.\<close>

theorem x509_accepts_unique_path:
  "validate_path D chain_der trust_anchors now v = Inr path \<longleftrightarrow>
     (\<exists>supplied leaf. admitted D chain_der trust_anchors supplied \<and> leaf_indices supplied = [leaf]
        \<and> \<not> sr_budget_exceeded (explore_paths leaf supplied (sort_certificates trust_anchors) [leaf] path_search_default)
        \<and> unique_valid_path v now supplied (sort_certificates trust_anchors) leaf path)"
  by (rule validate_path_iff)

lemma validate_path_accepted:
  assumes "validate_path D chain_der trust_anchors now v = Inr path"
  shows "path \<noteq> []" "last path \<in> set trust_anchors" "\<forall>c \<in> set path. in_force v now c"
    "\<not> pc_is_ca (hd path)" "cc_digital_signature (pc_constraints (hd path))"
    "\<forall>i < length path. 0 < i \<longrightarrow> may_issue path i"
    "\<forall>i. Suc i < length path \<longrightarrow> issued_by v (path ! i) (path ! Suc i)"
    "i < length path \<Longrightarrow> j < i \<Longrightarrow> cc_name_constraints (pc_constraints (path ! i)) = Some nc
      \<Longrightarrow> j = 0 \<or> \<not> self_issued (path ! j) \<Longrightarrow> enforce_name_constraints (cc_names (pc_constraints (path ! j))) nc = Inr ()"
proof -
  let ?A = "sort_certificates trust_anchors"
  from assms obtain supplied leaf b policies where b: "b \<in> anchored_paths supplied ?A [leaf] leaf"
      "validate_built_path v now (candidate_path supplied ?A b) = Inr policies"
      "path = with_policies policies (candidate_path supplied ?A b)"
    unfolding validate_path_iff unique_valid_path_def by blast
  define built where "built = candidate_path supplied ?A b"
  note V = validate_built_path_Inr [OF b(2), folded built_def]
  note F = with_policies_fields [OF V(1) b(3) [folded built_def]]
  have "last path = ?A ! bp_anchor_index b" "bp_anchor_index b < length ?A"
    using b(1,3) by (auto simp: anchored_paths_def candidate_path_def with_policies_def)
  then show "last path \<in> set trust_anchors" using nth_mem [of "bp_anchor_index b" ?A] by (simp add: sort_certificates_def)
  show "path \<noteq> []" using b(3) by (simp add: with_policies_def)
  show "\<forall>c \<in> set path. in_force v now c" using F(3) V(2) by blast
  show "\<not> pc_is_ca (hd path)" "cc_digital_signature (pc_constraints (hd path))" using F(4,5) V(3,4) by simp_all
  show "\<forall>i < length path. 0 < i \<longrightarrow> may_issue path i" using F(1,6) V(5) by simp
  show "\<forall>i. Suc i < length path \<longrightarrow> issued_by v (path ! i) (path ! Suc i)" using F(1,7) V(7) by simp
  show "enforce_name_constraints (cc_names (pc_constraints (path ! j))) nc = Inr ()"
    if "i < length path" "j < i" "cc_name_constraints (pc_constraints (path ! i)) = Some nc" "j = 0 \<or> \<not> self_issued (path ! j)"
    for i j nc
    using validate_name_constraints_Inr [OF V(6), of i j nc] that F(1) F(2) [of i] F(2) [of j] F(8) [of j] by simp
qed


text \<open>C16. Whatever certificates and anchors it is given, the search counts at most one step past its
  limit of 256 and records at most 256 complete paths.\<close>

theorem x509_search_bounded:
  "sr_steps (explore_paths leaf supplied anchors [leaf] path_search_default) \<le> 257
   \<and> length (sr_complete (explore_paths leaf supplied anchors [leaf] path_search_default)) \<le> 256"
proof -
  have "within_budget path_search_default" by (simp add: within_budget_def path_search_default_def)
  from explore_bounded(1) [OF this, of leaf supplied anchors "[leaf]"] show ?thesis
    by (auto simp: within_budget_def MAX_COMPLETE_PATHS_def MAX_PATH_BUILD_STEPS_def split: if_splits)
qed

section \<open>A concrete bundle\<close>

text \<open>A leaf issued by an anchor whose name constraints permit the DNS subtree \<open>a.b\<close>.\<close>

definition sample_name :: "u8 \<Rightarrow> dist_name" where
  "sample_name b = [[(''2.5.4.3'', \<lparr>any_tag = Ia5String, any_value = [b]\<rparr>)]]"

definition ed25519_id :: algorithm_identifier where
  "ed25519_id = \<lparr>ai_oid = OID_ED25519, ai_parameters = None\<rparr>"

definition sample_certificate :: "u8 \<Rightarrow> u8 \<Rightarrow> extension list \<Rightarrow> certificate" where
  "sample_certificate subject issuer exts =
     \<lparr>ct_tbs_der = Some [subject], ct_signature = Some [issuer], ct_signature_algorithm = ed25519_id,
       ct_tbs_signature = ed25519_id, ct_spki_der = Some [subject], ct_spki_algorithm = ed25519_id,
       ct_public_key = Some (replicate 32 subject), ct_not_before = 10, ct_not_after = 20,
       ct_subject = sample_name subject, ct_issuer = sample_name issuer, ct_subject_der = Some [subject],
       ct_issuer_der = Some [issuer], ct_subject_text = [], ct_issuer_text = [], ct_extensions = Some exts\<rparr>"

definition sample_leaf :: certificate where
  "sample_leaf = sample_certificate 0x6C 0x61
     [\<lparr>extn_id = OID_KEY_USAGE, extn_critical = True, extn_value = [0]\<rparr>,
      \<lparr>extn_id = OID_EKU, extn_critical = False, extn_value = []\<rparr>,
      \<lparr>extn_id = OID_POLICIES, extn_critical = False, extn_value = []\<rparr>,
      \<lparr>extn_id = OID_SUBJECT_ALT_NAME, extn_critical = False, extn_value = []\<rparr>]"

definition sample_anchor_cert :: certificate where
  "sample_anchor_cert = sample_certificate 0x61 0x61
     [\<lparr>extn_id = OID_BASIC_CONSTRAINTS, extn_critical = True, extn_value = []\<rparr>,
      \<lparr>extn_id = OID_KEY_USAGE, extn_critical = True, extn_value = [1]\<rparr>,
      \<lparr>extn_id = OID_NAME_CONSTRAINTS, extn_critical = True, extn_value = []\<rparr>]"

definition sample_codec :: der_codec where
  "sample_codec = \<lparr>certificate_from_der =
       (\<lambda>b. if b = [1] then Some sample_leaf else if b = [2] then Some sample_anchor_cert else None),
     oid_from_any = (\<lambda>_. None), rsa_public_key_from_der = (\<lambda>_. None), basic_constraints_from_der = (\<lambda>_. Some (True, None)),
     key_usage_from_der = (\<lambda>b. Some (b = [0], b = [1])), eku_from_der = (\<lambda>_. Some [EKU_MDOC_READER_AUTH]),
     policies_from_der = (\<lambda>_. Some [(''1.2'', False)]),
     policy_mappings_from_der = (\<lambda>_. None), policy_constraints_from_der = (\<lambda>_. None), inhibit_any_from_der = (\<lambda>_. None),
     san_from_der = (\<lambda>_. Some [DnsName ''x.a.b'']),
     name_constraints_from_der = (\<lambda>_. Some (Some [\<lparr>gs_base = DnsName ''a.b'', gs_minimum = 0, gs_maximum = None\<rparr>], None)),
     ski_from_der = (\<lambda>_. None), aki_from_der = (\<lambda>_. None), to_lowercase = (\<lambda>x. x)\<rparr>"

definition sample_parsed :: "u8 \<Rightarrow> u8 \<Rightarrow> bool \<Rightarrow> parsed_name_constraints option \<Rightarrow> string list \<Rightarrow> parsed_cert" where
  "sample_parsed subject issuer is_ca nc dns =
     \<lparr>pc_tbs_der = [subject], pc_signature = [issuer], pc_sig_alg = Ed25519, pc_spki_der = [subject],
      pc_public_key_raw = replicate 32 subject, pc_subject = [], pc_issuer = [], pc_uri_sans = [], pc_not_before = 10,
      pc_not_after = 20, pc_is_ca = is_ca, pc_eku = (if is_ca then [] else [EKU_MDOC_READER_AUTH]),
      pc_policies = (if is_ca then [] else [''1.2'']),
      pc_constraints = \<lparr>cc_subject_der = [subject], cc_issuer_der = [issuer],
        cc_canonical_subject = [[(''2.5.4.3'', [char_of (unat subject)])]], cc_canonical_issuer = [[(''2.5.4.3'', [char_of (unat issuer)])]],
        cc_basic_constraints_present = is_ca, cc_basic_constraints_critical = is_ca,
        cc_path_len_constraint = None, cc_key_usage_present = True,
        cc_digital_signature = (\<not> is_ca), cc_key_cert_sign = is_ca,
        cc_subject_key_identifier = None, cc_authority_key_identifier = None,
        cc_unsupported_critical_extension = False, cc_signature_algorithms_match = True,
        cc_public_key_algorithm = Some Ed25519Key,
        cc_names = \<lparr>cn_dns = dns, cn_emails = [], cn_uris = [], cn_ips = [],
          cn_directories = [[[(''2.5.4.3'', [char_of (unat subject)])]]]\<rparr>,
        cc_name_constraints_present = (nc \<noteq> None), cc_name_constraints = nc, cc_name_constraints_error = None,
        cc_policy = no_policy_state\<lparr>ps_policies := (if is_ca then None else Some [''1.2''])\<rparr>\<rparr>\<rparr>"

abbreviation sample_leaf_parsed :: parsed_cert where
  "sample_leaf_parsed \<equiv> sample_parsed 0x6C 0x61 False None [''x.a.b'']"

abbreviation sample_anchor :: parsed_cert where
  "sample_anchor \<equiv> sample_parsed 0x61 0x61 True (Some \<lparr>nc_permitted = [NC_Dns ''a.b''], nc_excluded = []\<rparr>) []"

definition sample_verifier :: cert_verifier where
  "sample_verifier = \<lparr>verify_certificate = (\<lambda>alg key tbs sig. if sig = take 1 key then Inr () else Inl NotFound),
     validate_certificate_public_key = (\<lambda>alg key. if length key = 32 then Inr () else Inl NotFound)\<rparr>"

lemmas parse_sample_defs = parse_cert_def MAX_CERTIFICATE_DER_BYTES_def sample_codec_def sample_leaf_def
  sample_anchor_cert_def sample_certificate_def sample_name_def ed25519_id_def map_sig_alg_def parse_public_key_def
  parameters_absent_def canonical_name_of_def canonical_rdn_def canonical_directory_value_def directory_chars_def
  encode_utf8_def is_whitespace_def parse_extension_def parse_key_usage_def parse_san_def parse_policies_def
  parse_basic_constraints_def parse_name_constraints_ext_def parse_name_constraints_def parse_subtree_def
  finish_constraints_def no_names_def no_policy_state_def sample_parsed_def checked_add_usize_def
  MAX_GENERAL_NAMES_PER_CERTIFICATE_def MAX_EXTENSIONS_PER_CERTIFICATE_def MAX_POLICIES_PER_CERTIFICATE_def
  MAX_NAME_CONSTRAINTS_PER_CERTIFICATE_def Let_def
  OID_ECDSA_SHA256_def OID_ECDSA_SHA384_def OID_ED25519_def OID_EC_PUBLIC_KEY_def OID_KEY_USAGE_def
  OID_BASIC_CONSTRAINTS_def OID_EKU_def OID_POLICIES_def OID_POLICY_MAPPINGS_def OID_POLICY_CONSTRAINTS_def
  OID_INHIBIT_ANY_POLICY_def OID_SUBJECT_ALT_NAME_def OID_NAME_CONSTRAINTS_def

lemma parse_sample_leaf: "parse_cert sample_codec [1] = Inr sample_leaf_parsed"
  by (simp add: parse_sample_defs)

lemma parse_sample_anchor: "parse_cert sample_codec [2] = Inr sample_anchor"
proof -
  have "canonical_dns_name ''a.b'' = Some ''a.b''" by code_simp
  then show ?thesis by (simp add: parse_sample_defs)
qed

lemma validate_sample:
  "validate_path sample_codec [[1]] [sample_anchor] 15 sample_verifier = Inr [sample_leaf_parsed, sample_anchor]"
proof -
  let ?S = "[sample_leaf_parsed]" and ?A = "[sample_anchor]"
  have leaf: "leaf_indices ?S = [0]" by (simp add: leaf_indices_def)
  have s: "sr_complete (explore_paths 0 ?S ?A [0] path_search_default) = [\<lparr>bp_supplied_indices = [0], bp_anchor_index = 0\<rparr>]"
    "\<not> sr_budget_exceeded (explore_paths 0 ?S ?A [0] path_search_default)"
    by (simp_all add: explore_paths.simps explore_parents.simps explore_anchors.simps count_step_def path_search_default_def
        MAX_PATH_BUILD_STEPS_def MAX_ISSUER_CANDIDATES_def MAX_COMPLETE_PATHS_def issuer_name_matches_def
        authority_key_matches_def sample_parsed_def)
  have dns: "canonical_dns_name ''x.a.b'' = Some ''x.a.b''"
    by code_simp
  have m: "dns_constraint_matches ''x.a.b'' ''a.b''" by code_simp
  have names: "validate_name_constraints [sample_leaf_parsed, sample_anchor] = Inr ()"
    by (simp add: validate_name_constraints_def constrained_subjects_def sample_parsed_def enforce_name_constraints_def
        dns m List.map_filter_def dns_of_def email_of_def uri_of_def ip_of_def directory_of_def check_subtrees_def)
  have pol: "validate_certificate_policies [sample_leaf_parsed, sample_anchor] = Inr [''1.2'']"
    by (simp add: OID_ANY_POLICY_def set_insert_def validate_certificate_policies_def policy_step_def sample_parsed_def no_policy_state_def
        intersect_policies_def min_limit_def saturating_dec_def set_collect_def Let_def)
  have "validate_built_path sample_verifier 15 [sample_leaf_parsed, sample_anchor] = Inr [''1.2'']"
    by (simp add: validate_built_path_def names pol)
      (simp add: check_certificate_def check_leaf_def check_issuer_def check_link_def sample_verifier_def sample_parsed_def
        no_policy_state_def issuer_name_matches_def authority_key_matches_def signature_compatible_with_issuer_def self_issued_def)
  then show ?thesis
    using leaf s
    by (simp add: validate_path_def parse_sample_leaf MAX_SUPPLIED_CERTIFICATES_def MAX_TRUST_ANCHORS_def
        sort_certificates_def candidate_path_def Let_def)
      (simp add: certificate_eq_def sample_parsed_def)
qed


end
