(* ===== verification/Trust.thy ===== *)
theory Trust
  imports X509_Path
begin

text \<open>
  Signed trust lists and the trust store, \<open>crates/trust/src/lib.rs\<close>: parsing and verifying a list,
  rollback protection on update, and the anchors and registrations it yields while it is current.
\<close>

section \<open>Trust lists\<close>

datatype service_type = PidProvider | AttestationProvider | RelyingPartyAccessCa | StatusProvider

definition service_type_parse :: "string \<Rightarrow> service_type option" where
  "service_type_parse s =
     (if s = ''pid'' then Some PidProvider
      else if s = ''attestation'' then Some AttestationProvider
      else if s = ''rp-access-ca'' then Some RelyingPartyAccessCa
      else if s = ''status'' then Some StatusProvider
      else None)"

datatype service_status = Granted | Withdrawn

record trust_anchor =
  ta_certificate_der :: bytes
  ta_service_type :: service_type
  ta_status :: service_status

definition MAX_RP_REGISTRATIONS :: nat where "MAX_RP_REGISTRATIONS = 1024"
definition MAX_RP_TEXT_BYTES :: nat where "MAX_RP_TEXT_BYTES = 256"
definition MAX_RP_CLAIMS :: nat where "MAX_RP_CLAIMS = 64"
definition MAX_RP_REDIRECT_URIS :: nat where "MAX_RP_REDIRECT_URIS = 16"
definition MAX_ISSUER_REGISTRATIONS :: nat where "MAX_ISSUER_REGISTRATIONS = 1024"

datatype trust_mark = EudiWallet

datatype retention_policy = NotStored | Days u16 | Unspecified

record relying_party_registration =
  rr_client_id :: string
  rr_display_name :: string
  rr_trust_mark :: "trust_mark option"
  rr_retention :: retention_policy
  rr_allowed_claims :: "string list"
  rr_redirect_uris :: "string list"

record credential_issuer_registration =
  ir_issuer_id :: string
  ir_display_name :: string

record trust_list =
  tl_sequence_number :: u64
  tl_valid_from :: int
  tl_valid_until :: int
  tl_anchors :: "trust_anchor list"
  tl_relying_parties :: "relying_party_registration list"
  tl_credential_issuers :: "credential_issuer_registration list"

datatype trust_error = Trust_BadSignature | Trust_Expired | Trust_Rollback | Trust_Malformed | Trust_UnsupportedAlg

section \<open>Parsing and verification\<close>

definition trust_b64 :: "text_codec \<Rightarrow> string \<Rightarrow> trust_error + bytes" where
  "trust_b64 C s = ok_or (b64_decode C s) Trust_Malformed"

definition parse_anchor :: "text_codec \<Rightarrow> json \<Rightarrow> trust_error + trust_anchor" where
  "parse_anchor C a =
     bind_result (ok_or (json_get_str ''cert'' a) Trust_Malformed) (\<lambda>cert_b64.
     bind_result (trust_b64 C cert_b64) (\<lambda>certificate_der.
     bind_result (ok_or (Option.bind (json_get_str ''service'' a) service_type_parse) Trust_Malformed) (\<lambda>service_type.
     bind_result
       (let status = json_get_str ''status'' a in
        if status = Some ''granted'' then Inr Granted
        else if status = Some ''withdrawn'' then Inr Withdrawn
        else Inl Trust_Malformed) (\<lambda>status.
       Inr \<lparr>ta_certificate_der = certificate_der, ta_service_type = service_type, ta_status = status\<rparr>))))"

definition bad_text :: "string \<Rightarrow> bool" where
  "bad_text v \<longleftrightarrow> v = [] \<or> length v > MAX_RP_TEXT_BYTES \<or> str_has_control v"

definition bounded_text :: "json \<Rightarrow> string \<Rightarrow> trust_error + string" where
  "bounded_text registration name =
     bind_result (ok_or (json_get_str name registration) Trust_Malformed) (\<lambda>v.
       if bad_text v then Inl Trust_Malformed else Inr v)"

fun bounded_values :: "json list \<Rightarrow> string list \<Rightarrow> trust_error + string list" where
  "bounded_values [] parsed = Inr parsed"
| "bounded_values (v # vs) parsed =
     bind_result (ok_or (json_as_str v) Trust_Malformed) (\<lambda>v.
       if bad_text v \<or> v \<in> set parsed then Inl Trust_Malformed else bounded_values vs (parsed @ [v]))"

definition bounded_list :: "json \<Rightarrow> string \<Rightarrow> nat \<Rightarrow> trust_error + string list" where
  "bounded_list registration name maximum =
     bind_result (ok_or (Option.bind (json_get name registration) json_as_array) Trust_Malformed) (\<lambda>vs.
       if length vs > maximum then Inl Trust_Malformed else bounded_values vs [])"

definition parse_trust_mark :: "json option \<Rightarrow> trust_error + trust_mark option" where
  "parse_trust_mark v =
     (case v of
        None \<Rightarrow> Inr None
      | Some JNull \<Rightarrow> Inr None
      | Some (JString s) \<Rightarrow> if s = ''eudi-wallet'' then Inr (Some EudiWallet) else Inl Trust_Malformed
      | _ \<Rightarrow> Inl Trust_Malformed)"

definition parse_retention :: "json option \<Rightarrow> trust_error + retention_policy" where
  "parse_retention v =
     (case v of
        None \<Rightarrow> Inr Unspecified
      | Some JNull \<Rightarrow> Inr Unspecified
      | Some (JString s) \<Rightarrow> if s = ''not-stored'' then Inr NotStored else Inl Trust_Malformed
      | Some (JObject m) \<Rightarrow>
          if length m = 1 then
            (case Option.bind (map_of m ''days'') json_as_u64 of
               None \<Rightarrow> Inl Trust_Malformed
             | Some days \<Rightarrow>
                 if unat days < 2 ^ 16 \<and> 0 < unat days then Inr (Days (ucast days)) else Inl Trust_Malformed)
          else Inl Trust_Malformed
      | _ \<Rightarrow> Inl Trust_Malformed)"

definition parse_registration ::
    "json \<Rightarrow> relying_party_registration list \<Rightarrow> trust_error + relying_party_registration" where
  "parse_registration registration relying_parties =
     bind_result (bounded_text registration ''client_id'') (\<lambda>client_id.
     if list_ex (\<lambda>existing. rr_client_id existing = client_id) relying_parties then Inl Trust_Malformed
     else
       bind_result (bounded_text registration ''display_name'') (\<lambda>display_name.
       bind_result (parse_trust_mark (json_get ''trust_mark'' registration)) (\<lambda>trust_mark.
       bind_result (parse_retention (json_get ''retention'' registration)) (\<lambda>retention.
       bind_result (bounded_list registration ''allowed_claims'' MAX_RP_CLAIMS) (\<lambda>allowed_claims.
       bind_result (bounded_list registration ''redirect_uris'' MAX_RP_REDIRECT_URIS) (\<lambda>redirect_uris.
         Inr \<lparr>rr_client_id = client_id, rr_display_name = display_name, rr_trust_mark = trust_mark,
           rr_retention = retention, rr_allowed_claims = allowed_claims, rr_redirect_uris = redirect_uris\<rparr>))))))"

fun parse_registrations ::
    "json list \<Rightarrow> relying_party_registration list \<Rightarrow> trust_error + relying_party_registration list" where
  "parse_registrations [] relying_parties = Inr relying_parties"
| "parse_registrations (registration # rs) relying_parties =
     (if length relying_parties \<ge> MAX_RP_REGISTRATIONS then Inl Trust_Malformed
      else
        bind_result (parse_registration registration relying_parties) (\<lambda>r.
          parse_registrations rs (relying_parties @ [r])))"

fun parse_issuers ::
    "json list \<Rightarrow> credential_issuer_registration list \<Rightarrow> trust_error + credential_issuer_registration list" where
  "parse_issuers [] credential_issuers = Inr credential_issuers"
| "parse_issuers (registration # rs) credential_issuers =
     bind_result (bounded_text registration ''issuer_id'') (\<lambda>issuer_id.
     if list_ex (\<lambda>existing. ir_issuer_id existing = issuer_id) credential_issuers then Inl Trust_Malformed
     else
       bind_result (bounded_text registration ''display_name'') (\<lambda>display_name.
         parse_issuers rs (credential_issuers @ [\<lparr>ir_issuer_id = issuer_id, ir_display_name = display_name\<rparr>])))"

definition optional_array :: "string \<Rightarrow> json \<Rightarrow> trust_error + json list" where
  "optional_array name payload =
     (case json_get name payload of None \<Rightarrow> Inr [] | Some v \<Rightarrow> ok_or (json_as_array v) Trust_Malformed)"

definition parse_trust_payload :: "text_codec \<Rightarrow> json \<Rightarrow> int \<Rightarrow> trust_error + trust_list" where
  "parse_trust_payload C payload now =
     bind_result (ok_or (json_get_u64 ''seq'' payload) Trust_Malformed) (\<lambda>sequence_number.
     bind_result (ok_or (Option.bind (json_get ''valid_from'' payload) json_as_i64) Trust_Malformed) (\<lambda>valid_from.
     bind_result (ok_or (Option.bind (json_get ''valid_until'' payload) json_as_i64) Trust_Malformed) (\<lambda>valid_until.
     if now < valid_from \<or> now > valid_until then Inl Trust_Expired
     else
       bind_result (ok_or (Option.bind (json_get ''anchors'' payload) json_as_array) Trust_Malformed) (\<lambda>entries.
       bind_result (collect_result (parse_anchor C) entries) (\<lambda>anchors.
       bind_result (optional_array ''relying_parties'' payload) (\<lambda>registrations.
       bind_result (parse_registrations registrations []) (\<lambda>relying_parties.
       bind_result (optional_array ''credential_issuers'' payload) (\<lambda>issuer_registrations.
       if length issuer_registrations > MAX_ISSUER_REGISTRATIONS then Inl Trust_Malformed
       else
         bind_result (parse_issuers issuer_registrations []) (\<lambda>credential_issuers.
           Inr \<lparr>tl_sequence_number = sequence_number, tl_valid_from = valid_from, tl_valid_until = valid_until,
             tl_anchors = anchors, tl_relying_parties = relying_parties,
             tl_credential_issuers = credential_issuers\<rparr>)))))))))"

definition trust_parse_and_verify ::
    "text_codec \<Rightarrow> bytes \<Rightarrow> bytes \<Rightarrow> verifier \<Rightarrow> alg \<Rightarrow> int \<Rightarrow> trust_error + trust_list" where
  "trust_parse_and_verify C signed_list operator_public_key verify alg now =
     bind_result (ok_or (from_utf8 signed_list) Trust_Malformed) (\<lambda>s.
     let parts = split_str (CHR ''.'') s in
     if length parts \<noteq> 3 then Inl Trust_Malformed
     else
       bind_result (trust_b64 C (parts ! 0)) (\<lambda>header_bytes.
       bind_result (ok_or (json_from_slice C header_bytes) Trust_Malformed) (\<lambda>header.
       if json_get_str ''alg'' header \<notin> {Some ''ES256'', Some ''ES384'', Some ''EdDSA''} then Inl Trust_UnsupportedAlg
       else
         let signing_input = parts ! 0 @ ''.'' @ parts ! 1 in
         bind_result (trust_b64 C (parts ! 2)) (\<lambda>sig.
         bind_result (map_err (\<lambda>_. Trust_BadSignature) (verify alg operator_public_key (as_bytes signing_input) sig)) (\<lambda>_.
         bind_result (trust_b64 C (parts ! 1)) (\<lambda>payload_bytes.
         bind_result (ok_or (json_from_slice C payload_bytes) Trust_Malformed) (\<lambda>payload.
           parse_trust_payload C payload now)))))))"

section \<open>The trust store\<close>

record trust_store =
  ts_current :: "trust_list option"

definition trust_store_new :: trust_store where
  "trust_store_new = \<lparr>ts_current = None\<rparr>"

definition trust_update :: "trust_store \<Rightarrow> trust_list \<Rightarrow> (trust_error + unit) \<times> trust_store" where
  "trust_update store list =
     (case ts_current store of
        Some cur \<Rightarrow>
          if tl_sequence_number list \<le> tl_sequence_number cur then (Inl Trust_Rollback, store)
          else (Inr (), store\<lparr>ts_current := Some list\<rparr>)
      | None \<Rightarrow> (Inr (), store\<lparr>ts_current := Some list\<rparr>))"

definition sequence_number :: "trust_store \<Rightarrow> u64 option" where
  "sequence_number store = map_option tl_sequence_number (ts_current store)"

definition is_valid_at :: "trust_store \<Rightarrow> int \<Rightarrow> bool" where
  "is_valid_at store now =
     (case ts_current store of None \<Rightarrow> False | Some list \<Rightarrow> now \<ge> tl_valid_from list \<and> now \<le> tl_valid_until list)"

definition granted_anchors :: "trust_store \<Rightarrow> service_type \<Rightarrow> bytes list" where
  "granted_anchors store service =
     (case ts_current store of
        None \<Rightarrow> []
      | Some l \<Rightarrow> map ta_certificate_der
          (filter (\<lambda>a. ta_service_type a = service \<and> ta_status a = Granted) (tl_anchors l)))"

definition granted_anchors_at :: "trust_store \<Rightarrow> service_type \<Rightarrow> int \<Rightarrow> bytes list" where
  "granted_anchors_at store service now = (if is_valid_at store now then granted_anchors store service else [])"

definition parse_cert_ok :: "der_codec \<Rightarrow> bytes \<Rightarrow> parsed_cert option" where
  "parse_cert_ok D der = (case parse_cert D der of Inl _ \<Rightarrow> None | Inr c \<Rightarrow> Some c)"

definition parsed_anchors :: "der_codec \<Rightarrow> trust_store \<Rightarrow> service_type \<Rightarrow> parsed_cert list" where
  "parsed_anchors D store service = List.map_filter (parse_cert_ok D) (granted_anchors store service)"

definition parsed_anchors_at :: "der_codec \<Rightarrow> trust_store \<Rightarrow> service_type \<Rightarrow> int \<Rightarrow> parsed_cert list" where
  "parsed_anchors_at D store service now = List.map_filter (parse_cert_ok D) (granted_anchors_at store service now)"

definition relying_party_at :: "trust_store \<Rightarrow> string \<Rightarrow> int \<Rightarrow> relying_party_registration option" where
  "relying_party_at store client_id now =
     (if is_valid_at store now
      then Option.bind (ts_current store) (\<lambda>l. find (\<lambda>r. rr_client_id r = client_id) (tl_relying_parties l))
      else None)"

definition credential_issuer_at :: "trust_store \<Rightarrow> string \<Rightarrow> int \<Rightarrow> credential_issuer_registration option" where
  "credential_issuer_at store issuer_id now =
     (if is_valid_at store now
      then Option.bind (ts_current store) (\<lambda>l. find (\<lambda>r. ir_issuer_id r = issuer_id) (tl_credential_issuers l))
      else None)"

section \<open>Rollback protection\<close>

definition install_all :: "trust_list list \<Rightarrow> trust_store" where
  "install_all ls = foldl (\<lambda>store list. snd (trust_update store list)) trust_store_new ls"

lemma install_all_snoc: "install_all (ls @ [l]) = snd (trust_update (install_all ls) l)"
  by (simp add: install_all_def)

text \<open>Whatever verified lists are offered, in whatever order, the store ends up with the first of those
  with the highest sequence number: every list offered before it is older, none offered after it is newer.\<close>

theorem trust_store_keeps_newest:
  "\<exists>pre cur post. first # rest = pre @ cur # post \<and> ts_current (install_all (first # rest)) = Some cur
    \<and> list_all (\<lambda>l. tl_sequence_number l < tl_sequence_number cur) pre
    \<and> list_all (\<lambda>l. tl_sequence_number l \<le> tl_sequence_number cur) post"
proof (induction rest rule: rev_induct)
  case Nil
  show ?case by (rule exI [of _ "[]"]) (simp add: install_all_def trust_update_def trust_store_new_def)
next
  case (snoc l rest)
  then obtain pre cur post where IH: "first # rest = pre @ cur # post" "ts_current (install_all (first # rest)) = Some cur"
      "list_all (\<lambda>l. tl_sequence_number l < tl_sequence_number cur) pre"
      "list_all (\<lambda>l. tl_sequence_number l \<le> tl_sequence_number cur) post"
    by blast
  note S = install_all_snoc [of "first # rest" l, simplified]
  show ?case
  proof (cases "tl_sequence_number l \<le> tl_sequence_number cur")
    case True
    then show ?thesis using IH S
      by (intro exI [of _ pre] exI [of _ cur] exI [of _ "post @ [l]"]) (simp add: trust_update_def)
  next
    case False
    then have "list_all (\<lambda>x. tl_sequence_number x < tl_sequence_number l) (pre @ cur # post)"
      using IH(3,4) by (auto simp: list_all_iff)
    then show ?thesis using False IH S
      by (intro exI [of _ "first # rest"] exI [of _ l] exI [of _ "[]"]) (simp add: trust_update_def)
  qed
qed

section \<open>What a verified list holds\<close>

definition good_text :: "string \<Rightarrow> bool" where
  "good_text v \<longleftrightarrow> v \<noteq> [] \<and> length v \<le> 256 \<and> \<not> str_has_control v"

definition registration_ok :: "relying_party_registration \<Rightarrow> bool" where
  "registration_ok r \<longleftrightarrow> good_text (rr_client_id r) \<and> good_text (rr_display_name r)
     \<and> length (rr_allowed_claims r) \<le> 64 \<and> length (rr_redirect_uris r) \<le> 16
     \<and> distinct (rr_allowed_claims r) \<and> distinct (rr_redirect_uris r)
     \<and> list_all good_text (rr_allowed_claims r @ rr_redirect_uris r) \<and> rr_retention r \<noteq> Days 0"

lemma bad_text_iff: "bad_text v \<longleftrightarrow> \<not> good_text v"
  by (auto simp: bad_text_def good_text_def MAX_RP_TEXT_BYTES_def)

lemma bounded_text_Inr: "bounded_text r n = Inr v \<Longrightarrow> good_text v"
  by (auto simp: bounded_text_def bind_result_Inr_iff bad_text_iff split: if_splits)

lemma bounded_values_Inr:
  "bounded_values vs parsed = Inr out \<Longrightarrow> distinct parsed \<Longrightarrow> list_all good_text parsed \<Longrightarrow>
    distinct out \<and> list_all good_text out \<and> length out = length parsed + length vs"
  by (induction vs parsed rule: bounded_values.induct)
    (auto simp: bind_result_Inr_iff bad_text_iff split: if_splits)

lemma bounded_list_Inr:
  "bounded_list r n k = Inr out \<Longrightarrow> distinct out \<and> list_all good_text out \<and> length out \<le> k"
  using bounded_values_Inr [of _ "[]" out]
  by (auto simp: bounded_list_def bind_result_Inr_iff not_less split: if_splits)

lemma parse_retention_Inr: "parse_retention v = Inr r \<Longrightarrow> r \<noteq> Days 0"
proof
  assume "parse_retention v = Inr r" "r = Days 0"
  then obtain d :: u64 where "unat d < 2 ^ 16" "0 < unat d" "(ucast d :: u16) = 0"
    by (auto simp: parse_retention_def split: option.splits json.splits if_splits)
  moreover have "unat (ucast d :: u16) = unat d" using calculation(1) by (simp add: unsigned_ucast_eq take_bit_nat_eq_self)
  ultimately show False by simp
qed

lemma parse_registration_Inr:
  assumes "parse_registration j rs = Inr r"
  shows "registration_ok r \<and> rr_client_id r \<notin> rr_client_id ` set rs"
  using assms
  by (auto simp: parse_registration_def bind_result_Inr_iff registration_ok_def list_ex_iff MAX_RP_CLAIMS_def
      MAX_RP_REDIRECT_URIS_def dest: bounded_text_Inr bounded_list_Inr parse_retention_Inr split: if_splits)

lemma parse_registrations_Inr:
  "parse_registrations js rs = Inr out \<Longrightarrow> list_all registration_ok rs \<Longrightarrow> distinct (map rr_client_id rs) \<Longrightarrow> length rs \<le> 1024
    \<Longrightarrow> list_all registration_ok out \<and> distinct (map rr_client_id out) \<and> length out \<le> 1024"
  by (induction js rs rule: parse_registrations.induct)
    (auto simp: bind_result_Inr_iff MAX_RP_REGISTRATIONS_def dest: parse_registration_Inr split: if_splits)

lemma parse_issuers_Inr:
  "parse_issuers js rs = Inr out \<Longrightarrow> distinct (map ir_issuer_id rs)
    \<Longrightarrow> distinct (map ir_issuer_id out) \<and> length out = length rs + length js"
  by (induction js rs rule: parse_issuers.induct)
    (auto simp: bind_result_Inr_iff list_ex_iff split: if_splits)

definition trust_list_ok :: "trust_list \<Rightarrow> bool" where
  "trust_list_ok l \<longleftrightarrow> list_all registration_ok (tl_relying_parties l) \<and> distinct (map rr_client_id (tl_relying_parties l))
     \<and> length (tl_relying_parties l) \<le> 1024 \<and> distinct (map ir_issuer_id (tl_credential_issuers l))
     \<and> length (tl_credential_issuers l) \<le> 1024"

lemma parse_trust_payload_Inr:
  assumes "parse_trust_payload C payload now = Inr l"
  shows "trust_list_ok l \<and> tl_valid_from l \<le> now \<and> now \<le> tl_valid_until l"
  using assms parse_registrations_Inr [of _ "[]"] parse_issuers_Inr [of _ "[]"]
  by (auto simp: parse_trust_payload_def bind_result_Inr_iff trust_list_ok_def MAX_ISSUER_REGISTRATIONS_def not_less
      split: if_splits)



section \<open>Trust decisions\<close>

lemma parsed_anchors_at_source:
  assumes "c \<in> set (parsed_anchors_at D store service now)"
  shows "\<exists>l a. ts_current store = Some l \<and> tl_valid_from l \<le> now \<and> now \<le> tl_valid_until l \<and> a \<in> set (tl_anchors l)
    \<and> ta_service_type a = service \<and> ta_status a = Granted \<and> parse_cert D (ta_certificate_der a) = Inr c"
proof -
  from assms obtain der where d: "der \<in> set (granted_anchors_at store service now)" "parse_cert_ok D der = Some c"
    by (auto simp: parsed_anchors_at_def set_map_filter)
  from d(2) have "parse_cert D der = Inr c" by (simp add: parse_cert_ok_def split: sum.splits)
  moreover from d(1) obtain l where "ts_current store = Some l" "tl_valid_from l \<le> now" "now \<le> tl_valid_until l"
      "\<exists>a \<in> set (tl_anchors l). ta_service_type a = service \<and> ta_status a = Granted \<and> der = ta_certificate_der a"
    by (auto simp: granted_anchors_at_def granted_anchors_def is_valid_at_def split: if_splits option.splits)
  ultimately show ?thesis by blast
qed

text \<open>C17. A relying party is accepted against the store only through a granted access-CA anchor of a list that is
  current: the leaf carries the reader usage and a policy, and it chains, each certificate signed by the
  next, to the certificate of such an anchor.\<close>

theorem relying_party_rooted_in_trust_list:
  assumes "check_relying_party D chain_der (parsed_anchors_at D store RelyingPartyAccessCa now) now v = Inr profile"
  shows "\<exists>l a path. ts_current store = Some l \<and> tl_valid_from l \<le> now \<and> now \<le> tl_valid_until l
    \<and> a \<in> set (tl_anchors l) \<and> ta_service_type a = RelyingPartyAccessCa \<and> ta_status a = Granted
    \<and> parse_cert D (ta_certificate_der a) = Inr (last path)
    \<and> list_all (\<lambda>(child, parent). issued_by v child parent) (zip path (tl path))
    \<and> list_all (in_force v now) path
    \<and> EKU_MDOC_READER_AUTH \<in> set (pc_eku (hd path)) \<and> pc_policies (hd path) \<noteq> []
    \<and> rp_subject profile = pc_subject (hd path)"
proof -
  from assms obtain path where path: "validate_path D chain_der (parsed_anchors_at D store RelyingPartyAccessCa now) now v = Inr path"
      "EKU_MDOC_READER_AUTH \<in> set (pc_eku (hd path))" "pc_policies (hd path) \<noteq> []" "rp_subject profile = pc_subject (hd path)"
    by (auto simp: check_relying_party_def bind_result_Inr_iff Let_def split: if_splits)
  note A = validate_path_accepted [OF path(1)]
  obtain l a where la: "ts_current store = Some l" "tl_valid_from l \<le> now" "now \<le> tl_valid_until l" "a \<in> set (tl_anchors l)"
      "ta_service_type a = RelyingPartyAccessCa" "ta_status a = Granted" "parse_cert D (ta_certificate_der a) = Inr (last path)"
    using parsed_anchors_at_source [OF A(2)] by blast
  have "list_all (\<lambda>(child, parent). issued_by v child parent) (zip path (tl path))"
    using A(7) by (auto simp: list_all_length nth_tl)
  moreover have "list_all (in_force v now) path" using A(3) by (simp add: list_all_iff)
  ultimately show ?thesis using path la
    by (rule_tac x = l in exI, rule_tac x = a in exI, rule_tac x = path in exI) simp
qed

section \<open>A concrete list\<close>

definition sample_anchor_json :: json where
  "sample_anchor_json = JObject [(''cert'', JString ''c''), (''service'', JString ''rp-access-ca''), (''status'', JString ''granted'')]"

definition sample_payload_json :: json where
  "sample_payload_json = JObject [(''anchors'', JArray [sample_anchor_json]), (''seq'', JNumber (PosInt 5)),
     (''valid_from'', JNumber (PosInt 10)), (''valid_until'', JNumber (PosInt 20))]"

definition sample_trust_codec :: text_codec where
  "sample_trust_codec = \<lparr>b64_decode = (\<lambda>s. if s = ''c'' then Some [2] else Some (as_bytes s)), b64_encode = (\<lambda>_. []),
     json_from_slice = (\<lambda>b. if b = as_bytes ''h'' then Some (JObject [(''alg'', JString ''ES256'')])
       else if b = as_bytes ''p'' then Some sample_payload_json else None), json_to_vec = (\<lambda>_. None)\<rparr>"

definition sample_trust_verifier :: verifier where
  "sample_trust_verifier alg key input sig = (if input = as_bytes ''h.p'' \<and> sig = as_bytes ''s'' then Inr () else Inl NotFound)"

definition sample_trust_list :: trust_list where
  "sample_trust_list = \<lparr>tl_sequence_number = 5, tl_valid_from = 10, tl_valid_until = 20,
     tl_anchors = [\<lparr>ta_certificate_der = [2], ta_service_type = RelyingPartyAccessCa, ta_status = Granted\<rparr>],
     tl_relying_parties = [], tl_credential_issuers = []\<rparr>"

definition sample_token :: bytes where "sample_token = as_bytes ''h.p.s''"

lemma sample_token_text: "from_utf8 sample_token = Some ''h.p.s''"
  by code_simp

lemma sample_list_verifies:
  "trust_parse_and_verify sample_trust_codec sample_token [] sample_trust_verifier Es256 15 = Inr sample_trust_list"
  by (simp add: trust_parse_and_verify_def sample_token_text sample_trust_codec_def sample_trust_verifier_def trust_b64_def
      as_bytes_def json_defs parse_trust_payload_def sample_payload_json_def sample_anchor_json_def parse_anchor_def
      service_type_parse_def optional_array_def sample_trust_list_def i64_max_def Let_def)



lemma sample_relying_party:
  "check_relying_party sample_codec [[1]] (parsed_anchors_at sample_codec \<lparr>ts_current = Some sample_trust_list\<rparr> RelyingPartyAccessCa 15)
     15 sample_verifier = Inr \<lparr>rp_subject = [], rp_registered = True, rp_dns_sans = [''x.a.b'']\<rparr>"
proof -
  have "parsed_anchors_at sample_codec \<lparr>ts_current = Some sample_trust_list\<rparr> RelyingPartyAccessCa 15 = [sample_anchor]"
    by (simp add: parsed_anchors_at_def granted_anchors_at_def granted_anchors_def is_valid_at_def sample_trust_list_def
        parse_cert_ok_def parse_sample_anchor List.map_filter_def)
  then show ?thesis by (simp add: check_relying_party_def validate_sample) (simp add: sample_parsed_def)
qed

theorem relying_party_rooted_in_trust_list_witness:
  "\<exists>a path. a \<in> set (tl_anchors sample_trust_list) \<and> ta_status a = Granted
    \<and> parse_cert sample_codec (ta_certificate_der a) = Inr (last path) \<and> EKU_MDOC_READER_AUTH \<in> set (pc_eku (hd path))"
proof -
  from relying_party_rooted_in_trust_list [OF sample_relying_party] obtain l a path where
    "Some sample_trust_list = Some l" "a \<in> set (tl_anchors l)" "ta_status a = Granted"
    "parse_cert sample_codec (ta_certificate_der a) = Inr (last path)" "EKU_MDOC_READER_AUTH \<in> set (pc_eku (hd path))"
    by auto
  then show ?thesis by blast
qed

end
