(* ===== verification/Status.thy ===== *)
theory Status
  imports Crypto_Traits
begin

text \<open>
  Token Status List, \<open>crates/status/src/lib.rs\<close>: verification of the status token, the bit-packed
  list and the accept/reject decision. Arguments of the model: \<open>b64_decode\<close> (base64url without
  padding), \<open>from_slice\<close> (JSON), \<open>verify\<close> (the crypto boundary) and \<open>inflate\<close> (zlib decompression
  with an output limit; its error carries the output produced so far).
\<close>

section \<open>Data\<close>

definition TOKEN_STATUS_LIST_DRAFT :: string where
  "TOKEN_STATUS_LIST_DRAFT = ''draft-21''"

definition MAX_TOKEN_BYTES :: nat where
  "MAX_TOKEN_BYTES = 2 * 1024 * 1024"

definition MAX_DECOMPRESSED_BYTES :: nat where
  "MAX_DECOMPRESSED_BYTES = 8 * 1024 * 1024"

definition MAX_STATUS_AGE_SECONDS :: int where
  "MAX_STATUS_AGE_SECONDS = 24 * 60 * 60"

definition DEFAULT_CACHE_TTL_SECONDS :: int where
  "DEFAULT_CACHE_TTL_SECONDS = 60 * 60"

definition CLOCK_SKEW_SECONDS :: int where
  "CLOCK_SKEW_SECONDS = 300"

lemmas status_consts = MAX_TOKEN_BYTES_def MAX_DECOMPRESSED_BYTES_def MAX_STATUS_AGE_SECONDS_def
  DEFAULT_CACHE_TTL_SECONDS_def CLOCK_SKEW_SECONDS_def

datatype credential_status = Cs_Valid | Cs_Invalid | Cs_Suspended | Cs_Unknown

datatype fail_policy = FailOpen | FailClosed

datatype decision = Accept | Reject

datatype status_error =
    Status_BadSignature
  | Status_Expired
  | Status_NotYetValid
  | Status_Stale
  | Status_SubjectMismatch
  | Status_Malformed
  | Status_UnsupportedAlg
  | Status_UnsupportedHeader
  | Status_UnsupportedBits
  | Status_ResourceLimit

record status_list =
  sl_subject :: string
  sl_bits :: u8
  sl_list :: bytes
  sl_issued_at :: int
  sl_fresh_until :: int

section \<open>Operations\<close>

definition is_fresh_at :: "status_list \<Rightarrow> int \<Rightarrow> bool" where
  "is_fresh_at sl now \<longleftrightarrow>
     saturating_add_i64 now CLOCK_SKEW_SECONDS \<ge> sl_issued_at sl \<and> now < sl_fresh_until sl"

definition classify_status :: "u16 \<Rightarrow> credential_status" where
  "classify_status v =
     (if v = 0 then Cs_Valid else if v = 1 then Cs_Invalid else if v = 2 then Cs_Suspended else Cs_Unknown)"

definition status_at :: "status_list \<Rightarrow> nat \<Rightarrow> credential_status" where
  "status_at sl index =
     (let per_byte = 8 div unat (sl_bits sl);
          byte_idx = index div per_byte
      in if byte_idx \<ge> length (sl_list sl) then Cs_Unknown
         else
           let byte = sl_list sl ! byte_idx;
               slot = index mod per_byte;
               shift = slot * unat (sl_bits sl);
               mask = push_bit (unat (sl_bits sl)) (1 :: u16) - 1
           in classify_status (drop_bit shift (ucast byte :: u16) AND mask))"

definition status_b64 :: "(string \<Rightarrow> bytes option) \<Rightarrow> string \<Rightarrow> status_error + bytes" where
  "status_b64 b64_decode s = ok_or (b64_decode s) Status_Malformed"

definition status_alg_name :: "alg \<Rightarrow> string" where
  "status_alg_name alg = (case alg of Es256 \<Rightarrow> ''ES256'' | Es384 \<Rightarrow> ''ES384'' | EdDsa \<Rightarrow> ''EdDSA'')"

definition status_check_header :: "alg \<Rightarrow> json \<Rightarrow> status_error + unit" where
  "status_check_header alg header =
     bind_result (ensure (json_get_str ''alg'' header = Some (status_alg_name alg)) Status_UnsupportedAlg) (\<lambda>_.
       ensure (\<not> (json_get_str ''typ'' header \<noteq> Some ''statuslist+jwt''
           \<or> json_get ''crit'' header \<noteq> None
           \<or> json_get ''jwk'' header \<noteq> None
           \<or> json_get ''jku'' header \<noteq> None
           \<or> json_get ''x5u'' header \<noteq> None))
         Status_UnsupportedHeader)"

definition status_subject :: "json \<Rightarrow> string \<Rightarrow> status_error + string" where
  "status_subject payload expected_uri =
     bind_result
       (ok_or (case json_get_str ''sub'' payload of Some v \<Rightarrow> if v = [] then None else Some v | None \<Rightarrow> None)
         Status_Malformed)
       (\<lambda>subject. bind_result (ensure (subject = expected_uri) Status_SubjectMismatch) (\<lambda>_. Inr subject))"

definition status_expiry :: "json \<Rightarrow> int \<Rightarrow> int \<Rightarrow> status_error + int option" where
  "status_expiry payload issued_at now =
     (case json_get ''exp'' payload of
        None \<Rightarrow> Inr None
      | Some v \<Rightarrow>
          bind_result (ok_or (json_as_i64 v) Status_Malformed) (\<lambda>exp.
            if exp \<le> issued_at \<or> now \<ge> exp then Inl Status_Expired else Inr (Some exp)))"

definition status_ttl :: "json \<Rightarrow> status_error + int" where
  "status_ttl payload =
     (case json_get ''ttl'' payload of
        None \<Rightarrow> Inr DEFAULT_CACHE_TTL_SECONDS
      | Some v \<Rightarrow>
          bind_result
            (ok_or (case json_as_i64 v of Some t \<Rightarrow> if t > 0 then Some t else None | None \<Rightarrow> None)
              Status_Malformed)
            (\<lambda>ttl. Inr (min ttl MAX_STATUS_AGE_SECONDS)))"

text \<open>The validity window: issue time, optional expiry, optional time to live.\<close>

definition status_times :: "json \<Rightarrow> int \<Rightarrow> status_error + (int \<times> int)" where
  "status_times payload now =
     bind_result (ok_or (Option.bind (json_get ''iat'' payload) json_as_i64) Status_Malformed) (\<lambda>issued_at.
     bind_result (ensure (\<not> issued_at > saturating_add_i64 now CLOCK_SKEW_SECONDS) Status_NotYetValid) (\<lambda>_.
     bind_result (ensure (\<not> issued_at < saturating_sub_i64 now MAX_STATUS_AGE_SECONDS) Status_Stale) (\<lambda>_.
     bind_result (status_expiry payload issued_at now) (\<lambda>expires_at.
     bind_result (status_ttl payload) (\<lambda>ttl.
     bind_result (ok_or (checked_add_i64 now ttl) Status_Malformed) (\<lambda>by_ttl.
     bind_result (ok_or (checked_add_i64 issued_at MAX_STATUS_AGE_SECONDS) Status_Malformed) (\<lambda>by_age.
       let fresh_until = min by_ttl by_age in
       Inr (issued_at, case expires_at of None \<Rightarrow> fresh_until | Some exp \<Rightarrow> min fresh_until exp))))))))"

definition status_entries ::
    "(string \<Rightarrow> bytes option) \<Rightarrow> (bytes \<Rightarrow> nat \<Rightarrow> bytes + bytes) \<Rightarrow> json \<Rightarrow> status_error + (u8 \<times> bytes)" where
  "status_entries b64_decode inflate payload =
     bind_result (ok_or (json_get ''status_list'' payload) Status_Malformed) (\<lambda>sl.
     bind_result
       (ok_or
         (case json_get_u64 ''bits'' sl of
            Some v \<Rightarrow> if v \<le> 255 then Some (ucast v :: u8) else None
          | None \<Rightarrow> None)
         Status_UnsupportedBits)
       (\<lambda>bits.
     bind_result (ensure (bits \<in> {1, 2, 4, 8}) Status_UnsupportedBits) (\<lambda>_.
     bind_result (ok_or (json_get_str ''lst'' sl) Status_Malformed) (\<lambda>lst_b64.
     bind_result (ensure (\<not> length lst_b64 > MAX_TOKEN_BYTES) Status_ResourceLimit) (\<lambda>_.
     bind_result (ok_or (b64_decode lst_b64) Status_Malformed) (\<lambda>compressed.
     bind_result
       (map_err
         (\<lambda>output. if length output \<ge> MAX_DECOMPRESSED_BYTES then Status_ResourceLimit else Status_Malformed)
         (inflate compressed MAX_DECOMPRESSED_BYTES))
       (\<lambda>list.
     bind_result (ensure (list \<noteq> []) Status_Malformed) (\<lambda>_. Inr (bits, list)))))))))"

definition parse_and_verify ::
    "(string \<Rightarrow> bytes option) \<Rightarrow> (bytes \<Rightarrow> json option) \<Rightarrow> (bytes \<Rightarrow> nat \<Rightarrow> bytes + bytes)
      \<Rightarrow> bytes \<Rightarrow> string \<Rightarrow> bytes \<Rightarrow> verifier \<Rightarrow> alg \<Rightarrow> int \<Rightarrow> status_error + status_list" where
  "parse_and_verify b64_decode from_slice inflate token_jwt expected_uri provider_public_key verify alg now =
     bind_result (ensure (\<not> (token_jwt = [] \<or> length token_jwt > MAX_TOKEN_BYTES)) Status_ResourceLimit) (\<lambda>_.
     bind_result (ok_or (from_utf8 token_jwt) Status_Malformed) (\<lambda>s.
     let parts = split_str CHR ''.'' s in
     bind_result (ensure (length parts = 3) Status_Malformed) (\<lambda>_.
     bind_result (status_b64 b64_decode (parts ! 0)) (\<lambda>header_bytes.
     bind_result (ok_or (from_slice header_bytes) Status_Malformed) (\<lambda>header.
     bind_result (status_check_header alg header) (\<lambda>_.
     let signing_input = parts ! 0 @ ''.'' @ parts ! 1 in
     bind_result (status_b64 b64_decode (parts ! 2)) (\<lambda>sig.
     bind_result (ensure (verified (verify alg provider_public_key (as_bytes signing_input) sig)) Status_BadSignature) (\<lambda>_.
     bind_result (status_b64 b64_decode (parts ! 1)) (\<lambda>payload_bytes.
     bind_result (ok_or (from_slice payload_bytes) Status_Malformed) (\<lambda>payload.
     bind_result (status_subject payload expected_uri) (\<lambda>subject.
     bind_result (status_times payload now) (\<lambda>(issued_at, fresh_until).
     bind_result (status_entries b64_decode inflate payload) (\<lambda>(bits, list).
       Inr \<lparr>sl_subject = subject, sl_bits = bits, sl_list = list, sl_issued_at = issued_at,
         sl_fresh_until = fresh_until\<rparr>)))))))))))))"

definition decide :: "credential_status option \<Rightarrow> fail_policy \<Rightarrow> decision" where
  "decide status policy =
     (case status of
        Some Cs_Valid \<Rightarrow> Accept
      | Some Cs_Invalid \<Rightarrow> Reject
      | Some Cs_Suspended \<Rightarrow> Reject
      | _ \<Rightarrow> (case policy of FailOpen \<Rightarrow> Accept | FailClosed \<Rightarrow> Reject))"

section \<open>The bit-packed list\<close>

definition status_list_ok :: "status_list \<Rightarrow> bool" where
  "status_list_ok sl \<longleftrightarrow> sl_bits sl \<in> {1, 2, 4, 8}"

text \<open>
  The specification of the packed list: entry \<open>i\<close> of width \<open>b\<close> is the number whose binary digits,
  least significant first, are the bits \<open>i * b\<close> to \<open>i * b + b - 1\<close> of the byte string, where bit
  \<open>n\<close> is bit \<open>n mod 8\<close> of byte \<open>n div 8\<close>.
\<close>

definition nth_bit :: "bytes \<Rightarrow> nat \<Rightarrow> bool" where
  "nth_bit bs n = bit (bs ! (n div 8)) (n mod 8)"

definition packed_entry :: "nat \<Rightarrow> bytes \<Rightarrow> nat \<Rightarrow> nat" where
  "packed_entry b bs i = horner_sum of_bool 2 (map (\<lambda>k. nth_bit bs (i * b + k)) [0..<b])"

lemma packed_position:
  fixes b i k :: nat
  assumes "b \<in> {1, 2, 4, 8}" "k < b"
  shows "(i * b + k) div 8 = i div (8 div b)" "(i * b + k) mod 8 = i mod (8 div b) * b + k"
proof -
  have "8 = b * (8 div b)" "0 < b" using assms(1) by auto
  moreover have "(i * b + k) div b = i" "(i * b + k) mod b = k" using assms(2) by simp_all
  ultimately show "(i * b + k) div 8 = i div (8 div b)" "(i * b + k) mod 8 = i mod (8 div b) * b + k"
    by (metis div_mult2_eq, metis mod_mult2_eq mult.commute)
qed

lemma packed_in_range:
  fixes b i n :: nat
  assumes "b \<in> {1, 2, 4, 8}"
  shows "i * b + b \<le> 8 * n \<longleftrightarrow> i div (8 div b) < n"
  using assms by auto

lemma packed_entry_bits:
  assumes "b \<in> {1, 2, 4, 8}"
  shows "packed_entry b bs i = take_bit b (drop_bit (i mod (8 div b) * b) (unat (bs ! (i div (8 div b)))))"
proof -
  have "nth_bit bs (i * b + k) = bit (drop_bit (i mod (8 div b) * b) (unat (bs ! (i div (8 div b))))) k"
    if "k < b" for k
    using packed_position [OF assms that, of i]
    by (simp add: nth_bit_def bit_drop_bit_eq bit_unsigned_iff)
  then have "packed_entry b bs i = horner_sum of_bool 2
      (map (bit (drop_bit (i mod (8 div b) * b) (unat (bs ! (i div (8 div b)))))) [0..<b])"
    unfolding packed_entry_def by (intro arg_cong [where f = "horner_sum of_bool 2"]) simp
  then show ?thesis by (simp add: horner_sum_bit_eq_take_bit)
qed

lemma status_field:
  fixes byte :: u8
  assumes "b \<in> {1, 2, 4, 8}"
  shows "unat (drop_bit sh (ucast byte :: u16) AND (push_bit b 1 - 1)) = take_bit b (drop_bit sh (unat byte))"
proof -
  have "drop_bit sh (ucast byte :: u16) AND (push_bit b 1 - 1) = take_bit b (drop_bit sh (ucast byte))"
    by (simp add: take_bit_eq_mask mask_eq_exp_minus_1 push_bit_eq_mult)
  moreover have "unat (ucast byte :: u16) = unat byte"
    by (simp add: unsigned_ucast_eq take_bit_eq_mod order.strict_trans [OF unat_byte_lt])
  moreover have "take_bit (min 16 n) (unat byte) = take_bit n (unat byte)" for n
  proof (cases "n \<le> 16")
    case False
    then have "(256 :: nat) < 2 ^ n" using power_strict_increasing [of 8 n "2 :: nat"] by simp
    then have "unat byte < 2 ^ n" "unat byte < 2 ^ 16"
      using unat_byte_lt [of byte] by (linarith, simp add: order.strict_trans [OF unat_byte_lt])
    then show ?thesis using False
      by (metis min.absorb1 nle_le take_bit_nat_eq_self)
  qed simp
  ultimately show ?thesis
    by (simp add: unsigned_take_bit_eq unsigned_drop_bit_eq take_bit_drop_bit)
qed

definition entry_status :: "nat \<Rightarrow> credential_status" where
  "entry_status n =
     (if n = 0 then Cs_Valid else if n = 1 then Cs_Invalid else if n = 2 then Cs_Suspended else Cs_Unknown)"

lemma classify_status_unat: "classify_status v = entry_status (unat v)"
  by (simp add: classify_status_def entry_status_def word_unat_eq_iff)

lemma status_bits_cases:
  assumes "status_list_ok sl"
  shows "unat (sl_bits sl) \<in> {1, 2, 4, 8}"
  using assms by (auto simp: status_list_ok_def)

lemma status_at_packed:
  assumes "status_list_ok sl" "b = unat (sl_bits sl)"
  shows "status_at sl i =
    (if i * b + b \<le> 8 * length (sl_list sl) then entry_status (packed_entry b (sl_list sl) i) else Cs_Unknown)"
proof -
  have b: "b \<in> {1, 2, 4, 8}" using status_bits_cases [OF assms(1)] assms(2) by simp
  show ?thesis
    unfolding status_at_def Let_def assms(2) [symmetric] packed_in_range [OF b]
      classify_status_unat status_field [OF b] packed_entry_bits [OF b] by auto
qed

text \<open>
  C36. Reading the status list is exact: the status at an index is the status whose code is stored
  in that index's bits of the packed list, and it is unknown beyond the end. Consequently a
  fail-closed verifier accepts exactly the entries stored as zero, and a fail-open verifier rejects
  exactly the entries stored as revoked or suspended.
\<close>

theorem status_decision_exact:
  assumes "status_list_ok sl" "b = unat (sl_bits sl)"
  shows "status_at sl i =
      (if i * b + b \<le> 8 * length (sl_list sl) then entry_status (packed_entry b (sl_list sl) i) else Cs_Unknown)
    \<and> (decide (Some (status_at sl i)) FailClosed = Accept \<longleftrightarrow>
         i * b + b \<le> 8 * length (sl_list sl) \<and> packed_entry b (sl_list sl) i = 0)
    \<and> (decide (Some (status_at sl i)) FailOpen = Reject \<longleftrightarrow>
         i * b + b \<le> 8 * length (sl_list sl) \<and> packed_entry b (sl_list sl) i \<in> {1, 2})"
  unfolding status_at_packed [OF assms] by (auto simp: entry_status_def decide_def)

abbreviation sample_status_list :: status_list where
  "sample_status_list \<equiv> \<lparr>sl_subject = ''u'', sl_bits = 2, sl_list = [0xE4], sl_issued_at = 0, sl_fresh_until = 9\<rparr>"

lemma sample_entries: "packed_entry 2 [0xE4] 0 = 0" "packed_entry 2 [0xE4] 1 = 1"
  by code_simp+

theorem status_decision_exact_witness:
  "decide (Some (status_at sample_status_list 0)) FailClosed = Accept
    \<and> decide (Some (status_at sample_status_list 1)) FailOpen = Reject"
proof -
  have ok: "status_list_ok sample_status_list" and b: "2 = unat (sl_bits sample_status_list)"
    by (simp_all add: status_list_ok_def)
  show ?thesis
    using status_decision_exact [OF ok b, of 0, THEN conjunct2, THEN conjunct1]
      status_decision_exact [OF ok b, of 1, THEN conjunct2, THEN conjunct2]
    unfolding status_list.select_convs sample_entries by simp
qed

section \<open>The verified token\<close>

lemma status_expiry_Inr:
  "status_expiry payload iat now = Inr ex \<Longrightarrow>
     (case json_get ''exp'' payload of
        None \<Rightarrow> ex = None
      | Some v \<Rightarrow> \<exists>x. json_as_i64 v = Some x \<and> ex = Some x \<and> iat < x \<and> now < x)"
  by (auto simp: status_expiry_def bind_result_Inr_iff not_le split: option.splits if_splits)

lemma status_ttl_Inr:
  "status_ttl payload = Inr ttl \<longleftrightarrow>
     (case json_get ''ttl'' payload of
        None \<Rightarrow> ttl = DEFAULT_CACHE_TTL_SECONDS
      | Some v \<Rightarrow> \<exists>x. json_as_i64 v = Some x \<and> 0 < x \<and> ttl = min x MAX_STATUS_AGE_SECONDS)"
  by (auto simp: status_ttl_def bind_result_Inr_iff split: option.split option.split_asm if_splits)

lemma status_times_Inr:
  assumes "status_times payload now = Inr (iat, until)"
  obtains ex ttl where "Option.bind (json_get ''iat'' payload) json_as_i64 = Some iat"
    "iat \<le> saturating_add_i64 now CLOCK_SKEW_SECONDS" "saturating_sub_i64 now MAX_STATUS_AGE_SECONDS \<le> iat"
    "status_expiry payload iat now = Inr ex" "status_ttl payload = Inr ttl"
    "in_i64 (now + ttl)" "in_i64 (iat + MAX_STATUS_AGE_SECONDS)"
    "until = (case ex of None \<Rightarrow> min (now + ttl) (iat + MAX_STATUS_AGE_SECONDS)
        | Some x \<Rightarrow> min (min (now + ttl) (iat + MAX_STATUS_AGE_SECONDS)) x)"
  using assms
  by (auto simp: status_times_def bind_result_Inr_iff checked_add_i64_def Let_def not_less split: if_splits)

lemma status_entries_Inr:
  assumes "status_entries b64 inflate payload = Inr (bits, list)"
  shows "bits \<in> {1, 2, 4, 8}" "list \<noteq> []" "\<exists>c. inflate c MAX_DECOMPRESSED_BYTES = Inr list"
  using assms by (auto simp: status_entries_def bind_result_Inr_iff)

lemma status_times_window:
  assumes "status_times payload now = Inr (iat, until)" "in_i64 now"
  shows "iat \<le> now + CLOCK_SKEW_SECONDS" "now - MAX_STATUS_AGE_SECONDS \<le> iat"
    "until \<le> iat + MAX_STATUS_AGE_SECONDS" "until \<le> now + MAX_STATUS_AGE_SECONDS"
    "Option.bind (json_get ''exp'' payload) json_as_i64 = Some x \<Longrightarrow> now < x \<and> until \<le> x"
proof -
  obtain ex ttl where t: "iat \<le> saturating_add_i64 now CLOCK_SKEW_SECONDS"
    "saturating_sub_i64 now MAX_STATUS_AGE_SECONDS \<le> iat"
    "status_expiry payload iat now = Inr ex" "status_ttl payload = Inr ttl"
    "in_i64 (iat + MAX_STATUS_AGE_SECONDS)"
    "until = (case ex of None \<Rightarrow> min (now + ttl) (iat + MAX_STATUS_AGE_SECONDS)
        | Some x \<Rightarrow> min (min (now + ttl) (iat + MAX_STATUS_AGE_SECONDS)) x)"
    using status_times_Inr [OF assms(1)] by metis
  from t(1) show "iat \<le> now + CLOCK_SKEW_SECONDS"
    using assms(2) by (auto simp: i64_defs status_consts)
  from t(2) show "now - MAX_STATUS_AGE_SECONDS \<le> iat"
    using assms(2) by (auto simp: i64_defs status_consts)
  show "until \<le> iat + MAX_STATUS_AGE_SECONDS" unfolding t(6) by (auto split: option.split)
  have "ttl \<le> MAX_STATUS_AGE_SECONDS"
    using t(4) by (auto simp: status_ttl_Inr status_consts split: option.splits)
  then show "until \<le> now + MAX_STATUS_AGE_SECONDS" unfolding t(6) by (auto split: option.split)
  show "now < x \<and> until \<le> x" if "Option.bind (json_get ''exp'' payload) json_as_i64 = Some x"
    using that t(3) unfolding t(6) by (auto dest!: status_expiry_Inr split: option.splits)
qed

text \<open>
  C35. What a caller may rely on once a status token verified. The provider's key verified a
  signature over the first two segments of exactly these token bytes, and the list's subject is the
  URI the credential pointed to. The list is usable only in a bounded window: it was issued at most
  a day before and at most five minutes after \<open>now\<close>, and no later reading of it at time \<open>t\<close> is
  fresh a day or more after issue, after the cache lifetime of a day from now, or past the token's
  expiry. Its entries have a supported width, and under the decompressor's documented output limit
  it is never larger than eight mebibytes.
\<close>

theorem verified_status_list:
  assumes ok: "parse_and_verify b64_decode from_slice inflate token uri key verify alg now = Inr sl"
    and now: "in_i64 now"
    and limit: "\<And>c n out. inflate c n = Inr out \<Longrightarrow> length out \<le> n"
  shows "\<exists>h p s sig payload.
      token = as_bytes (h @ ''.'' @ p @ ''.'' @ s)
      \<and> b64_decode s = Some sig \<and> verify alg key (as_bytes (h @ ''.'' @ p)) sig = Inr ()
      \<and> Option.bind (b64_decode p) from_slice = Some payload
      \<and> json_get_str ''sub'' payload = Some uri \<and> sl_subject sl = uri
      \<and> (\<forall>t. is_fresh_at sl t \<longrightarrow>
           t < sl_issued_at sl + MAX_STATUS_AGE_SECONDS \<and> t < now + MAX_STATUS_AGE_SECONDS
           \<and> (\<forall>x. Option.bind (json_get ''exp'' payload) json_as_i64 = Some x \<longrightarrow> t < x))
      \<and> now - MAX_STATUS_AGE_SECONDS \<le> sl_issued_at sl \<and> sl_issued_at sl \<le> now + CLOCK_SKEW_SECONDS
      \<and> status_list_ok sl \<and> sl_list sl \<noteq> [] \<and> length (sl_list sl) \<le> MAX_DECOMPRESSED_BYTES"
proof -
  let ?parts = "\<lambda>s. split_str CHR ''.'' s"
  from ok obtain str sig hb payload pb iat until bits list where
    str: "from_utf8 token = Some str" "length (?parts str) = 3"
    and sig: "b64_decode (?parts str ! 2) = Some sig"
      "verify alg key (as_bytes (?parts str ! 0 @ ''.'' @ ?parts str ! 1)) sig = Inr ()"
    and payload: "b64_decode (?parts str ! 1) = Some pb" "from_slice pb = Some payload"
    and sub: "status_subject payload uri = Inr (sl_subject sl)"
    and times: "status_times payload now = Inr (sl_issued_at sl, sl_fresh_until sl)"
    and entries: "status_entries b64_decode inflate payload = Inr (sl_bits sl, sl_list sl)"
    by (auto simp: parse_and_verify_def bind_result_Inr_iff Let_def status_b64_def verified_def)
  have tok: "token = as_bytes (?parts str ! 0 @ ''.'' @ ?parts str ! 1 @ ''.'' @ ?parts str ! 2)"
    using str split_str_three [OF str(2)] by (simp add: from_utf8_Some_iff)
  have sub': "json_get_str ''sub'' payload = Some uri" "sl_subject sl = uri"
    using sub by (auto simp: status_subject_def bind_result_Inr_iff split: option.splits if_splits)
  note w = status_times_window [OF times now]
  have fresh: "\<forall>t. is_fresh_at sl t \<longrightarrow>
       t < sl_issued_at sl + MAX_STATUS_AGE_SECONDS \<and> t < now + MAX_STATUS_AGE_SECONDS
       \<and> (\<forall>x. Option.bind (json_get ''exp'' payload) json_as_i64 = Some x \<longrightarrow> t < x)"
    using w(3,4) w(5) by (force simp: is_fresh_at_def)
  have list: "status_list_ok sl" "sl_list sl \<noteq> []" "length (sl_list sl) \<le> MAX_DECOMPRESSED_BYTES"
    using status_entries_Inr [OF entries] limit by (auto simp: status_list_ok_def)
  from payload have "Option.bind (b64_decode (?parts str ! 1)) from_slice = Some payload" by simp
  with tok sig sub' fresh w(1,2) list show ?thesis by blast
qed

text \<open>A concrete token: the segments are \<open>h\<close>, \<open>p\<close> and \<open>s\<close>, decoded to themselves.\<close>

definition sample_status_from_slice :: "bytes \<Rightarrow> json option" where
  "sample_status_from_slice b =
     (if b = as_bytes ''h'' then
        Some (JObject [(''alg'', JString ''ES256''), (''typ'', JString ''statuslist+jwt'')])
      else
        Some (JObject [(''exp'', JNumber (PosInt 5000)), (''iat'', JNumber (PosInt 1000)),
          (''status_list'', JObject [(''bits'', JNumber (PosInt 1)), (''lst'', JString ''l'')]),
          (''sub'', JString ''u'')]))"

abbreviation sample_parse :: "status_error + status_list" where
  "sample_parse \<equiv> parse_and_verify (\<lambda>s. Some (as_bytes s)) sample_status_from_slice
     (\<lambda>c n. if length c \<le> n then Inr c else Inl []) (as_bytes ''h.p.s'') ''u'' [] (\<lambda>_ _ _ _. Inr ()) Es256 1200"

lemma sample_parse:
  "sample_parse = Inr \<lparr>sl_subject = ''u'', sl_bits = 1, sl_list = as_bytes ''l'', sl_issued_at = 1000,
     sl_fresh_until = 4800\<rparr>"
proof -
  have "from_utf8 (as_bytes ''h.p.s'') = Some ''h.p.s''"
    by (intro from_utf8_as_bytes) (simp add: valid_str_def valid_utf8_def as_bytes_def)
  then show ?thesis
    by (simp add: parse_and_verify_def status_consts status_b64_def sample_status_from_slice_def
        status_check_header_def status_alg_name_def json_defs verified_def status_subject_def
        status_times_def status_expiry_def status_ttl_def status_entries_def i64_defs as_bytes_def)
qed

theorem verified_status_list_witness:
  "\<exists>sl. sample_parse = Inr sl \<and> status_list_ok sl
    \<and> (\<forall>t. is_fresh_at sl t \<longrightarrow> t < sl_issued_at sl + MAX_STATUS_AGE_SECONDS)"
proof -
  have now: "in_i64 1200" by (simp add: i64_defs)
  have limit: "length out \<le> n" if "(if length c \<le> n then Inr c else Inl [] :: bytes + bytes) = Inr out"
    for c n out using that by (auto split: if_splits)
  obtain sl where sl: "sample_parse = Inr sl" using sample_parse by blast
  have "status_list_ok sl \<and> (\<forall>t. is_fresh_at sl t \<longrightarrow> t < sl_issued_at sl + MAX_STATUS_AGE_SECONDS)"
    by (rule verified_status_list [OF sl now, elim_format]) (rule limit, assumption, blast)
  with sl show ?thesis by blast
qed

end
