(* ===== verification/Oid4vci.thy ===== *)
theory Oid4vci
  imports Sdjwt Wallet_Interfaces
begin

text \<open>
  The OpenID4VCI issuance machine, \<open>crates/oid4vci/src/lib.rs\<close>: offer parsing, the guards, the
  transition function, the proof-of-possession text and the crate's reference model. Base64url and
  JSON are arguments.
\<close>

section \<open>States, inputs and outputs\<close>

datatype haip_grant = PreAuthorized (tx_code_required: bool) | AuthorizationCode

datatype credential_format = MsoMdoc | DcSdJwt

datatype vci_abort_reason =
    UnsupportedGrant
  | UnsupportedFormat
  | IssuerNotTrusted
  | PkceMissing
  | TxCodeInvalid
  | TokenNotBound
  | CNonceStale
  | ProofKeyNotAttested
  | CredentialInvalid
  | Vci_UserDeclined

datatype vci_state =
    Vci_Idle
  | ReviewingOffer haip_grant credential_format
  | OfferParsed haip_grant credential_format
  | Authorizing credential_format
  | AwaitingTxCode credential_format
  | RequestingToken credential_format
  | ProvingPossession credential_format string
  | RequestingCredential credential_format
  | CredentialIssued credential_format bytes
  | Vci_Aborted vci_abort_reason

datatype vci_input =
    CredentialOffer bytes
  | AcceptOffer
  | ParPushed bool
  | AuthCodeReturned bytes
  | TxCodeEntered bytes
  | TokenResponse bool u64
  | ProofSignatureProduced bytes
  | CredentialResponse credential_format bytes bool
  | CredentialResponseRejected
  | Decline

datatype vci_output =
    ReviewOffer credential_format
  | PushPar
  | OpenAuthBrowser
  | PromptTxCode
  | RequestToken
  | SignProof string bytes
  | RequestCredential bytes
  | Vci_Close

record vci_env =
  ie_issuer_trusted :: bool
  ie_proof_key_attested :: bool
  ie_seen_c_nonces :: "u64 list"
  ie_device_key_ref :: string
  ie_device_public_key :: bytes
  ie_issuer_id :: string
  ie_now_epoch :: int

section \<open>Guards\<close>

definition grant_type_is_haip_allowed :: "haip_grant \<Rightarrow> bool" where
  "grant_type_is_haip_allowed g = True"

definition credential_format_is_supported :: "credential_format \<Rightarrow> bool" where
  "credential_format_is_supported f = (case f of MsoMdoc \<Rightarrow> True | DcSdJwt \<Rightarrow> True)"

definition issuer_is_trusted :: "vci_env \<Rightarrow> bool" where
  "issuer_is_trusted env = ie_issuer_trusted env"

definition pkce_s256_present :: "bool \<Rightarrow> bool" where
  "pkce_s256_present pkce_s256 = pkce_s256"

definition tx_code_valid :: "bytes \<Rightarrow> bool" where
  "tx_code_valid code \<longleftrightarrow> code \<noteq> []"

definition access_token_is_bound :: "bool \<Rightarrow> bool" where
  "access_token_is_bound bound = bound"

definition c_nonce_is_fresh :: "u64 \<Rightarrow> u64 list \<Rightarrow> bool" where
  "c_nonce_is_fresh c_nonce seen \<longleftrightarrow> c_nonce \<notin> set seen"

definition proof_key_is_attested :: "vci_env \<Rightarrow> bool" where
  "proof_key_is_attested env = ie_proof_key_attested env"

section \<open>The proof of possession, the offer and the issued credential\<close>

definition proof_header :: "text_codec \<Rightarrow> bytes \<Rightarrow> json" where
  "proof_header C device_public_key =
     (let (x, y) = if length device_public_key = 65 \<and> hd device_public_key = 4
            then (take 32 (drop 1 device_public_key), drop 33 device_public_key) else ([], [])
      in JObject
           [(''alg'', JString ''ES256''),
            (''jwk'', JObject [(''crv'', JString ''P-256''), (''kty'', JString ''EC''),
               (''x'', JString (b64_encode C x)), (''y'', JString (b64_encode C y))]),
            (''typ'', JString ''openid4vci-proof+jwt'')])"

definition proof_payload :: "string \<Rightarrow> u64 \<Rightarrow> int \<Rightarrow> json" where
  "proof_payload issuer_id c_nonce iat =
     JObject [(''aud'', JString issuer_id), (''iat'', json_of_i64 iat), (''nonce'', JNumber (PosInt c_nonce))]"

definition proof_signing_input :: "text_codec \<Rightarrow> string \<Rightarrow> u64 \<Rightarrow> int \<Rightarrow> bytes \<Rightarrow> string" where
  "proof_signing_input C issuer_id c_nonce iat device_public_key =
     b64_encode C (unwrap_or [] (json_to_vec C (proof_header C device_public_key))) @ ''.''
     @ b64_encode C (unwrap_or [] (json_to_vec C (proof_payload issuer_id c_nonce iat)))"

definition live_offer_ok :: "json \<Rightarrow> json list \<Rightarrow> bool" where
  "live_offer_ok v ids \<longleftrightarrow>
     length ids = 1 \<and> json_as_str (hd ids) = Some ''dev.advatar.tlsn.evidence.sd-jwt''
     \<and> Option.bind (json_get ''grants'' v) (json_get ''authorization_code'') \<noteq> None"

definition parse_offer :: "text_codec \<Rightarrow> bytes \<Rightarrow> (haip_grant \<times> credential_format) option" where
  "parse_offer C bytes =
     Option.bind (json_from_slice C bytes) (\<lambda>v.
       if json_get ''credential_issuer'' v \<noteq> None then
         Option.bind (Option.bind (json_get ''credential_configuration_ids'' v) json_as_array) (\<lambda>ids.
           if live_offer_ok v ids then Some (AuthorizationCode, DcSdJwt) else None)
       else
         Option.bind
           (let format = json_get_str ''format'' v in
            if format = Some ''mso_mdoc'' then Some MsoMdoc
            else if format = Some ''dc+sd-jwt'' \<or> format = Some ''vc+sd-jwt'' then Some DcSdJwt
            else None) (\<lambda>format.
         Option.bind
           (let grant = json_get_str ''grant'' v in
            if grant = Some ''pre-authorized'' \<or> grant = Some ''urn:ietf:params:oauth:grant-type:pre-authorized_code''
            then Some (PreAuthorized (unwrap_or False (Option.bind (json_get ''tx_code_required'' v) json_as_bool)))
            else if grant = Some ''authorization_code'' then Some AuthorizationCode
            else None) (\<lambda>grant.
           Some (grant, format))))"

definition validate_issued_credential :: "credential_format \<Rightarrow> bytes \<Rightarrow> bool" where
  "validate_issued_credential format bytes =
     (case format of
        DcSdJwt \<Rightarrow>
          (case from_utf8 bytes of
             None \<Rightarrow> False
           | Some s \<Rightarrow> (case sdjwt_parse s of Inl _ \<Rightarrow> False | Inr _ \<Rightarrow> True))
      | MsoMdoc \<Rightarrow> bytes \<noteq> [])"

section \<open>The transition function\<close>

definition vci_step :: "text_codec \<Rightarrow> vci_env \<Rightarrow> vci_state \<Rightarrow> vci_input \<Rightarrow> vci_state \<times> vci_output list" where
  "vci_step C env state input =
     (case (state, input) of
        (Vci_Idle, CredentialOffer bytes) \<Rightarrow>
          (case parse_offer C bytes of
             Some (grant, format) \<Rightarrow>
               if \<not> issuer_is_trusted env then (Vci_Aborted IssuerNotTrusted, [])
               else if \<not> grant_type_is_haip_allowed grant then (Vci_Aborted UnsupportedGrant, [])
               else if \<not> credential_format_is_supported format then (Vci_Aborted UnsupportedFormat, [])
               else (ReviewingOffer grant format, [ReviewOffer format])
           | None \<Rightarrow> (Vci_Aborted UnsupportedGrant, []))
      | (ReviewingOffer grant format, AcceptOffer) \<Rightarrow>
          (case grant of
             AuthorizationCode \<Rightarrow> (OfferParsed grant format, [PushPar])
           | PreAuthorized True \<Rightarrow> (AwaitingTxCode format, [PromptTxCode])
           | PreAuthorized False \<Rightarrow> (RequestingToken format, [RequestToken]))
      | (OfferParsed AuthorizationCode format, ParPushed pkce_s256) \<Rightarrow>
          if \<not> pkce_s256_present pkce_s256 then (Vci_Aborted PkceMissing, [])
          else (Authorizing format, [OpenAuthBrowser])
      | (Authorizing format, AuthCodeReturned _) \<Rightarrow> (RequestingToken format, [RequestToken])
      | (AwaitingTxCode format, TxCodeEntered code) \<Rightarrow>
          if \<not> tx_code_valid code then (Vci_Aborted TxCodeInvalid, [])
          else (RequestingToken format, [RequestToken])
      | (RequestingToken format, TokenResponse bound c_nonce) \<Rightarrow>
          if \<not> access_token_is_bound bound then (Vci_Aborted TokenNotBound, [])
          else if \<not> c_nonce_is_fresh c_nonce (ie_seen_c_nonces env) then (Vci_Aborted CNonceStale, [])
          else if \<not> proof_key_is_attested env then (Vci_Aborted ProofKeyNotAttested, [])
          else
            let input = proof_signing_input C (ie_issuer_id env) c_nonce (ie_now_epoch env) (ie_device_public_key env)
            in (ProvingPossession format input, [SignProof (ie_device_key_ref env) (as_bytes input)])
      | (ProvingPossession format input, ProofSignatureProduced sig) \<Rightarrow>
          (RequestingCredential format, [RequestCredential (as_bytes (input @ ''.'' @ b64_encode C sig))])
      | (RequestingCredential format, CredentialResponse got bytes issuer_authenticated) \<Rightarrow>
          if got \<noteq> format \<or> \<not> credential_format_is_supported got then (Vci_Aborted UnsupportedFormat, [Vci_Close])
          else if \<not> issuer_authenticated \<or> \<not> validate_issued_credential got bytes
          then (Vci_Aborted CredentialInvalid, [Vci_Close])
          else (CredentialIssued got bytes, [Vci_Close])
      | (RequestingCredential _, CredentialResponseRejected) \<Rightarrow> (Vci_Aborted CredentialInvalid, [Vci_Close])
      | (_, Decline) \<Rightarrow> (Vci_Aborted Vci_UserDeclined, [Vci_Close])
      | (s, _) \<Rightarrow> (s, []))"

section \<open>The reference model\<close>

datatype vcm_st =
    CM_Idle
  | CM_ReviewingOffer
  | CM_OfferParsed
  | CM_ProvingPossession
  | CM_RequestingCredential
  | CM_CredentialIssued
  | CM_Aborted

datatype vcm_ev =
    CM_Offer bool
  | CM_ApproveOffer
  | CM_Token bool bool
  | CM_Proof
  | CM_Credential bool bool
  | CM_ProcessDeath

record vcm_ctx =
  cm_st :: vcm_st
  cm_issuer_trusted :: bool
  cm_token_bound :: bool
  cm_proof_key_attested :: bool
  cm_portrait_profile_valid :: bool
  cm_holder_approved :: bool

definition vci_model_init :: vcm_ctx where
  "vci_model_init = \<lparr>cm_st = CM_Idle, cm_issuer_trusted = False, cm_token_bound = False,
     cm_proof_key_attested = False, cm_portrait_profile_valid = False, cm_holder_approved = False\<rparr>"

fun vci_model_step :: "vcm_ctx \<Rightarrow> vcm_ev \<Rightarrow> vcm_ctx" where
  "vci_model_step c (CM_Offer trusted) =
     (if cm_st c = CM_Idle then
        if trusted then c\<lparr>cm_st := CM_ReviewingOffer, cm_issuer_trusted := True\<rparr> else c\<lparr>cm_st := CM_Aborted\<rparr>
      else c)"
| "vci_model_step c CM_ApproveOffer =
     (if cm_st c = CM_ReviewingOffer then c\<lparr>cm_st := CM_OfferParsed, cm_holder_approved := True\<rparr> else c)"
| "vci_model_step c (CM_Token bound attested) =
     (if cm_st c = CM_OfferParsed then
        if \<not> bound then c\<lparr>cm_st := CM_Aborted\<rparr>
        else if \<not> attested then c\<lparr>cm_st := CM_Aborted\<rparr>
        else c\<lparr>cm_st := CM_ProvingPossession, cm_token_bound := True, cm_proof_key_attested := True\<rparr>
      else c)"
| "vci_model_step c CM_Proof =
     (if cm_st c = CM_ProvingPossession then c\<lparr>cm_st := CM_RequestingCredential\<rparr> else c)"
| "vci_model_step c (CM_Credential valid portrait_profile_valid) =
     (if cm_st c = CM_RequestingCredential then
        if valid \<and> portrait_profile_valid
        then c\<lparr>cm_st := CM_CredentialIssued, cm_portrait_profile_valid := True\<rparr>
        else c\<lparr>cm_st := CM_Aborted\<rparr>
      else c)"
| "vci_model_step c CM_ProcessDeath =
     (if cm_st c \<in> {CM_ReviewingOffer, CM_OfferParsed, CM_ProvingPossession, CM_RequestingCredential}
      then c\<lparr>cm_st := CM_Aborted\<rparr> else c)"

definition vci_model_run :: "vcm_ev list \<Rightarrow> vcm_ctx" where
  "vci_model_run evs = foldl vci_model_step vci_model_init evs"

fun vci_state_name :: "vcm_st \<Rightarrow> string" where
  "vci_state_name CM_Idle = ''idle''"
| "vci_state_name CM_ReviewingOffer = ''reviewingOffer''"
| "vci_state_name CM_OfferParsed = ''offerParsed''"
| "vci_state_name CM_ProvingPossession = ''provingPossession''"
| "vci_state_name CM_RequestingCredential = ''requestingCredential''"
| "vci_state_name CM_CredentialIssued = ''credentialIssued''"
| "vci_state_name CM_Aborted = ''aborted''"

section \<open>Only checked credentials are issued\<close>

definition vci_accepted :: "text_codec \<Rightarrow> (vci_env \<times> vci_input) list \<Rightarrow> nat \<Rightarrow> haip_grant \<Rightarrow> credential_format \<Rightarrow> bool" where
  "vci_accepted C xs a grant format \<longleftrightarrow>
     (\<exists>i < a. \<exists>bytes. snd (xs ! i) = CredentialOffer bytes \<and> parse_offer C bytes = Some (grant, format)
       \<and> ie_issuer_trusted (fst (xs ! i))) \<and> snd (xs ! a) = AcceptOffer"

text \<open>
  What a token request before step \<open>k\<close> rests on: an accepted offer of a trusted issuer, and for its
  grant either the pushed authorization request with PKCE and the code that came back, or the
  transaction code where the offer asks for one.
\<close>

fun vci_granted :: "(vci_env \<times> vci_input) list \<Rightarrow> nat \<Rightarrow> nat \<Rightarrow> haip_grant \<Rightarrow> bool" where
  "vci_granted xs a k AuthorizationCode \<longleftrightarrow>
     (\<exists>p q code. a < p \<and> p < q \<and> q < k \<and> snd (xs ! p) = ParPushed True \<and> snd (xs ! q) = AuthCodeReturned code)"
| "vci_granted xs a k (PreAuthorized True) \<longleftrightarrow>
     (\<exists>q code. a < q \<and> q < k \<and> snd (xs ! q) = TxCodeEntered code \<and> code \<noteq> [])"
| "vci_granted xs a k (PreAuthorized False) \<longleftrightarrow> True"

definition vci_authorized :: "text_codec \<Rightarrow> (vci_env \<times> vci_input) list \<Rightarrow> nat \<Rightarrow> credential_format \<Rightarrow> bool" where
  "vci_authorized C xs k format \<longleftrightarrow>
     (\<exists>a < k. \<exists>grant. vci_accepted C xs a grant format \<and> vci_granted xs a k grant)"

definition vci_proving :: "text_codec \<Rightarrow> (vci_env \<times> vci_input) list \<Rightarrow> nat \<Rightarrow> credential_format \<Rightarrow> string \<Rightarrow> bool" where
  "vci_proving C xs t format input \<longleftrightarrow>
     vci_authorized C xs t format
     \<and> (\<exists>c_nonce. snd (xs ! t) = TokenResponse True c_nonce \<and> c_nonce \<notin> set (ie_seen_c_nonces (fst (xs ! t)))
         \<and> input = proof_signing_input C (ie_issuer_id (fst (xs ! t))) c_nonce (ie_now_epoch (fst (xs ! t)))
             (ie_device_public_key (fst (xs ! t))))
     \<and> ie_proof_key_attested (fst (xs ! t))"

definition vci_requested :: "text_codec \<Rightarrow> (vci_env \<times> vci_input) list \<Rightarrow> nat \<Rightarrow> credential_format \<Rightarrow> bool" where
  "vci_requested C xs p format \<longleftrightarrow>
     (\<exists>t < p. \<exists>input sig. vci_proving C xs t format input \<and> snd (xs ! p) = ProofSignatureProduced sig
       \<and> flow_outputs (vci_step C) Vci_Idle xs ! p = [RequestCredential (as_bytes (input @ ''.'' @ b64_encode C sig))])"

definition vci_history :: "text_codec \<Rightarrow> (vci_env \<times> vci_input) list \<Rightarrow> nat \<Rightarrow> vci_state \<Rightarrow> bool" where
  "vci_history C xs k s =
     (case s of
        ReviewingOffer grant format \<Rightarrow>
          (\<exists>i < k. \<exists>bytes. snd (xs ! i) = CredentialOffer bytes \<and> parse_offer C bytes = Some (grant, format)
            \<and> ie_issuer_trusted (fst (xs ! i)))
      | OfferParsed grant format \<Rightarrow> grant = AuthorizationCode \<and> (\<exists>a < k. vci_accepted C xs a grant format)
      | Authorizing format \<Rightarrow>
          (\<exists>a p. a < p \<and> p < k \<and> vci_accepted C xs a AuthorizationCode format \<and> snd (xs ! p) = ParPushed True)
      | AwaitingTxCode format \<Rightarrow> (\<exists>a < k. vci_accepted C xs a (PreAuthorized True) format)
      | RequestingToken format \<Rightarrow> vci_authorized C xs k format
      | ProvingPossession format input \<Rightarrow> (\<exists>t < k. vci_proving C xs t format input)
      | RequestingCredential format \<Rightarrow> (\<exists>p < k. vci_requested C xs p format)
      | CredentialIssued format credential \<Rightarrow>
          (\<exists>p r. p < r \<and> r < k \<and> vci_requested C xs p format \<and> snd (xs ! r) = CredentialResponse format credential True
            \<and> validate_issued_credential format credential)
      | _ \<Rightarrow> True)"

lemmas vci_guard_defs = grant_type_is_haip_allowed_def issuer_is_trusted_def pkce_s256_present_def tx_code_valid_def
  access_token_is_bound_def c_nonce_is_fresh_def proof_key_is_attested_def

lemma format_supported [simp]: "credential_format_is_supported f"
  by (cases f) (simp_all add: credential_format_is_supported_def)

lemma vci_granted_mono: "vci_granted xs a k grant \<Longrightarrow> vci_granted xs a (Suc k) grant"
  by (induction xs a k grant rule: vci_granted.induct) (auto intro: less_SucI)

lemma vci_authorized_mono: "vci_authorized C xs k f \<Longrightarrow> vci_authorized C xs (Suc k) f"
  unfolding vci_authorized_def using vci_granted_mono less_SucI by blast

lemma vci_history_mono: "vci_history C xs k s \<Longrightarrow> vci_history C xs (Suc k) s"
  by (cases s) (auto simp: vci_history_def vci_authorized_mono less_Suc_eq)

text \<open>The steps that change the state, one case each.\<close>

lemma vci_step_cases:
  assumes "fst (vci_step C e s i) \<noteq> s"
  obtains bytes grant f where "s = Vci_Idle" "i = CredentialOffer bytes" "parse_offer C bytes = Some (grant, f)"
      "ie_issuer_trusted e" "fst (vci_step C e s i) = ReviewingOffer grant f"
    | f where "s = ReviewingOffer AuthorizationCode f" "i = AcceptOffer" "fst (vci_step C e s i) = OfferParsed AuthorizationCode f"
    | f where "s = ReviewingOffer (PreAuthorized True) f" "i = AcceptOffer" "fst (vci_step C e s i) = AwaitingTxCode f"
    | f where "s = ReviewingOffer (PreAuthorized False) f" "i = AcceptOffer" "fst (vci_step C e s i) = RequestingToken f"
    | f where "s = OfferParsed AuthorizationCode f" "i = ParPushed True" "fst (vci_step C e s i) = Authorizing f"
    | f code where "s = Authorizing f" "i = AuthCodeReturned code" "fst (vci_step C e s i) = RequestingToken f"
    | f code where "s = AwaitingTxCode f" "i = TxCodeEntered code" "code \<noteq> []" "fst (vci_step C e s i) = RequestingToken f"
    | f n where "s = RequestingToken f" "i = TokenResponse True n" "n \<notin> set (ie_seen_c_nonces e)" "ie_proof_key_attested e"
      "fst (vci_step C e s i)
        = ProvingPossession f (proof_signing_input C (ie_issuer_id e) n (ie_now_epoch e) (ie_device_public_key e))"
    | f input sig where "s = ProvingPossession f input" "i = ProofSignatureProduced sig"
      "vci_step C e s i = (RequestingCredential f, [RequestCredential (as_bytes (input @ ''.'' @ b64_encode C sig))])"
    | f c where "s = RequestingCredential f" "i = CredentialResponse f c True" "validate_issued_credential f c"
      "fst (vci_step C e s i) = CredentialIssued f c"
    | r where "fst (vci_step C e s i) = Vci_Aborted r"
  using assms
  by (cases s; cases i)
    (auto simp: vci_step_def vci_guard_defs Let_def split: option.splits haip_grant.splits bool.splits if_splits)

lemma vci_history_run:
  "k \<le> length xs \<Longrightarrow> vci_history C xs k (flow_state (vci_step C) Vci_Idle (take k xs))"
proof (induction k)
  case 0
  then show ?case by (simp add: vci_history_def)
next
  case (Suc k)
  let ?s = "flow_state (vci_step C) Vci_Idle (take k xs)" and ?e = "fst (xs ! k)" and ?i = "snd (xs ! k)"
  from Suc.prems have k: "k < length xs" by simp
  from Suc have H: "vci_history C xs k ?s" by simp
  have "vci_history C xs (Suc k) (fst (vci_step C ?e ?s ?i))"
  proof (cases "fst (vci_step C ?e ?s ?i) = ?s")
    case True
    then show ?thesis using vci_history_mono [OF H] by simp
  next
    case False
    from this show ?thesis
    proof (cases rule: vci_step_cases)
      case 1
      then show ?thesis by (auto simp: vci_history_def)
    next
      case 2
      then show ?thesis using H by (auto simp: vci_history_def vci_accepted_def)
    next
      case 3
      then show ?thesis using H by (auto simp: vci_history_def vci_accepted_def)
    next
      case (4 f)
      then have "vci_accepted C xs k (PreAuthorized False) f" using H by (auto simp: vci_history_def vci_accepted_def)
      then show ?thesis using 4 by (simp add: vci_history_def vci_authorized_def) (metis lessI vci_granted.simps(3))
    next
      case 5
      then show ?thesis using H by (auto simp: vci_history_def)
    next
      case (6 f code)
      then obtain a p where "a < p" "p < k" "vci_accepted C xs a AuthorizationCode f" "snd (xs ! p) = ParPushed True"
        using H by (auto simp: vci_history_def)
      moreover from this 6(2) have "vci_granted xs a (Suc k) AuthorizationCode" by auto
      ultimately have "vci_authorized C xs (Suc k) f" unfolding vci_authorized_def by (meson less_SucI less_trans)
      then show ?thesis using 6 by (simp add: vci_history_def)
    next
      case (7 f code)
      then obtain a where "a < k" "vci_accepted C xs a (PreAuthorized True) f" using H by (auto simp: vci_history_def)
      moreover from this 7(2,3) have "vci_granted xs a (Suc k) (PreAuthorized True)" by auto
      ultimately have "vci_authorized C xs (Suc k) f" unfolding vci_authorized_def by (meson less_SucI)
      then show ?thesis using 7 by (simp add: vci_history_def)
    next
      case 8
      then show ?thesis using H by (auto simp: vci_history_def vci_proving_def)
    next
      case (9 f input sig)
      have "flow_outputs (vci_step C) Vci_Idle xs ! k = [RequestCredential (as_bytes (input @ ''.'' @ b64_encode C sig))]"
        using 9(3) by (simp add: flow_outputs_nth [OF k])
      moreover obtain t where "t < k" "vci_proving C xs t f input" using 9(1) H by (auto simp: vci_history_def)
      ultimately have "vci_requested C xs k f" using 9(2) unfolding vci_requested_def by blast
      then show ?thesis using 9 by (auto simp: vci_history_def)
    next
      case 10
      then show ?thesis using H by (auto simp: vci_history_def)
    next
      case 11
      then show ?thesis by (simp add: vci_history_def)
    qed
  qed
  then show ?case by (simp add: flow_state_take_Suc [OF k])
qed

text \<open>
  C25. A credential is issued only at the end of the whole exchange. When a run has reached a held
  credential, then in this order: a trusted issuer's offer for that format was parsed, the
  holder accepted it, the grant was satisfied (a PKCE-protected authorization with its code, or the
  transaction code where the offer requires one), a sender-bound token brought an unused nonce while
  the proof key was attested, the device signed the proof over that issuer, nonce, time and key and exactly
  this proof was sent, and the response had the requested format, was authenticated and passed the
  format's validator.
\<close>

theorem vci_issues_only_checked:
  assumes "flow_state (vci_step C) Vci_Idle xs = CredentialIssued format credential"
  shows "\<exists>a t p r grant c_nonce sig. a < t \<and> t < p \<and> p < r \<and> r < length xs
    \<and> vci_accepted C xs a grant format \<and> vci_granted xs a t grant
    \<and> snd (xs ! t) = TokenResponse True c_nonce \<and> c_nonce \<notin> set (ie_seen_c_nonces (fst (xs ! t)))
    \<and> ie_proof_key_attested (fst (xs ! t))
    \<and> snd (xs ! p) = ProofSignatureProduced sig
    \<and> flow_outputs (vci_step C) Vci_Idle xs ! p
        = [RequestCredential (as_bytes (proof_signing_input C (ie_issuer_id (fst (xs ! t))) c_nonce
            (ie_now_epoch (fst (xs ! t))) (ie_device_public_key (fst (xs ! t))) @ ''.'' @ b64_encode C sig))]
    \<and> snd (xs ! r) = CredentialResponse format credential True \<and> validate_issued_credential format credential"
proof -
  from vci_history_run [of "length xs" xs C] assms obtain p r where r: "p < r" "r < length xs" "vci_requested C xs p format"
      "snd (xs ! r) = CredentialResponse format credential True" "validate_issued_credential format credential"
    by (auto simp: vci_history_def)
  from r(3) obtain t input sig where t: "t < p" "vci_proving C xs t format input" "snd (xs ! p) = ProofSignatureProduced sig"
      "flow_outputs (vci_step C) Vci_Idle xs ! p = [RequestCredential (as_bytes (input @ ''.'' @ b64_encode C sig))]"
    by (auto simp: vci_requested_def)
  from t(2) obtain a grant c_nonce where "a < t" "vci_accepted C xs a grant format" "vci_granted xs a t grant"
      "snd (xs ! t) = TokenResponse True c_nonce" "c_nonce \<notin> set (ie_seen_c_nonces (fst (xs ! t)))"
      "input = proof_signing_input C (ie_issuer_id (fst (xs ! t))) c_nonce (ie_now_epoch (fst (xs ! t)))
        (ie_device_public_key (fst (xs ! t)))" "ie_proof_key_attested (fst (xs ! t))"
    by (auto simp: vci_proving_def vci_authorized_def)
  with r t show ?thesis by blast
qed

section \<open>A concrete issuance\<close>

definition vci_codec0 :: text_codec where
  "vci_codec0 = \<lparr>b64_decode = (\<lambda>s. Some (as_bytes s)), b64_encode = map char_of_byte,
     json_from_slice = (\<lambda>b. if b = as_bytes ''F'' then Some (JObject [(''format'', JString ''mso_mdoc''),
        (''grant'', JString ''pre-authorized''), (''tx_code_required'', JBool True)]) else None),
     json_to_vec = (\<lambda>_. Some (as_bytes ''J''))\<rparr>"

definition vci_env0 :: vci_env where
  "vci_env0 = \<lparr>ie_issuer_trusted = True, ie_proof_key_attested = True, ie_seen_c_nonces = [4], ie_device_key_ref = ''k'',
     ie_device_public_key = 4 # replicate 64 1, ie_issuer_id = ''i'', ie_now_epoch = 7\<rparr>"

definition vci_run0 :: "(vci_env \<times> vci_input) list" where
  "vci_run0 = map (Pair vci_env0) [CredentialOffer (as_bytes ''F''), AcceptOffer, TxCodeEntered [1], TokenResponse True 5,
     ProofSignatureProduced (as_bytes ''s''), CredentialResponse MsoMdoc [9] True]"

lemma vci_run0_issues: "flow_state (vci_step vci_codec0) Vci_Idle vci_run0 = CredentialIssued MsoMdoc [9]"
proof -
  have "parse_offer vci_codec0 (as_bytes ''F'') = Some (PreAuthorized True, MsoMdoc)"
    by (simp add: parse_offer_def vci_codec0_def json_defs)
  then show ?thesis
    by (simp add: vci_run0_def vci_step_def vci_guard_defs vci_env0_def Let_def validate_issued_credential_def)
qed

theorem vci_issues_only_checked_witness:
  "\<exists>t c_nonce. snd (vci_run0 ! t) = TokenResponse True c_nonce \<and> c_nonce \<notin> set (ie_seen_c_nonces (fst (vci_run0 ! t)))"
  using vci_issues_only_checked [OF vci_run0_issues] by blast

section \<open>Refinement of the reference model\<close>

definition vci_events :: "text_codec \<Rightarrow> vci_env \<Rightarrow> vci_state \<Rightarrow> vci_input \<Rightarrow> vcm_ev list" where
  "vci_events C env s i =
     (case (s, i) of
        (Vci_Idle, CredentialOffer bytes) \<Rightarrow> [CM_Offer (parse_offer C bytes \<noteq> None \<and> ie_issuer_trusted env)]
      | (Vci_Idle, Decline) \<Rightarrow> [CM_Offer False]
      | (ReviewingOffer _ _, AcceptOffer) \<Rightarrow> [CM_ApproveOffer]
      | (OfferParsed AuthorizationCode _, ParPushed pkce) \<Rightarrow> if pkce then [] else [CM_ProcessDeath]
      | (AwaitingTxCode _, TxCodeEntered code) \<Rightarrow> if code = [] then [CM_ProcessDeath] else []
      | (RequestingToken _, TokenResponse bound c_nonce) \<Rightarrow>
          if bound \<and> c_nonce \<in> set (ie_seen_c_nonces env) then [CM_ProcessDeath]
          else [CM_Token bound (ie_proof_key_attested env)]
      | (ProvingPossession _ _, ProofSignatureProduced _) \<Rightarrow> [CM_Proof]
      | (RequestingCredential format, CredentialResponse got bytes authentic) \<Rightarrow>
          (let valid = (got = format \<and> authentic \<and> validate_issued_credential got bytes) in [CM_Credential valid valid])
      | (RequestingCredential _, CredentialResponseRejected) \<Rightarrow> [CM_Credential False False]
      | (_, Decline) \<Rightarrow> [CM_ProcessDeath]
      | _ \<Rightarrow> [])"

definition vci_related :: "vci_state \<Rightarrow> vcm_ctx \<Rightarrow> bool" where
  "vci_related s c =
     (case s of
        Vci_Idle \<Rightarrow> cm_st c = CM_Idle
      | ReviewingOffer _ _ \<Rightarrow> cm_st c = CM_ReviewingOffer \<and> cm_issuer_trusted c
      | ProvingPossession _ _ \<Rightarrow>
          cm_st c = CM_ProvingPossession \<and> cm_issuer_trusted c \<and> cm_holder_approved c \<and> cm_token_bound c
          \<and> cm_proof_key_attested c
      | RequestingCredential _ \<Rightarrow>
          cm_st c = CM_RequestingCredential \<and> cm_issuer_trusted c \<and> cm_holder_approved c \<and> cm_token_bound c
          \<and> cm_proof_key_attested c
      | CredentialIssued _ _ \<Rightarrow>
          cm_st c = CM_CredentialIssued \<and> cm_issuer_trusted c \<and> cm_holder_approved c \<and> cm_token_bound c
          \<and> cm_proof_key_attested c \<and> cm_portrait_profile_valid c
      | Vci_Aborted r \<Rightarrow> cm_st c = CM_Aborted \<or> (r = Vci_UserDeclined \<and> cm_st c = CM_CredentialIssued)
      | _ \<Rightarrow> cm_st c = CM_OfferParsed \<and> cm_issuer_trusted c \<and> cm_holder_approved c)"

lemma vci_step_simulates:
  assumes "vci_related s c"
  shows "vci_related (fst (vci_step C env s i)) (foldl vci_model_step c (vci_events C env s i))"
  using assms
  by (cases s; cases i)
    (auto simp: vci_related_def vci_step_def vci_events_def vci_guard_defs Let_def
      split: option.splits haip_grant.splits bool.splits)

interpretation vci: flow_simulation "vci_step C" vci_model_step vci_related "vci_events C" "\<lambda>_ _ _. True" for C
  by unfold_locales (rule vci_step_simulates)

lemma vci_admissible: "admissible_run (vci_step C) vci_model_step (vci_events C) (\<lambda>_ _ _. True) s c xs"
  by (induction xs arbitrary: s c) auto

text \<open>
  The issuance machine refines the crate's reference model on every run: a held credential is a
  credential issued in the model with all five of its flags set, every refusal is an abort there,
  with one exception that is the machine's own: a decline also discards a credential that the model
  keeps as issued.
\<close>

theorem vci_refines_model:
  "vci_related (flow_state (vci_step C) Vci_Idle xs)
     (model_run (vci_step C) vci_model_step (vci_events C) Vci_Idle vci_model_init xs)"
  by (rule vci.run_simulates [OF _ vci_admissible]) (simp add: vci_related_def vci_model_init_def)

text \<open>
  The exception is real: after the credential was issued, a decline aborts the machine, while no
  event takes the model out of the issued state.
\<close>

lemma vci_decline_after_issue:
  "flow_state (vci_step C) (CredentialIssued f c) [(e, Decline)] = Vci_Aborted Vci_UserDeclined"
  "cm_st m = CM_CredentialIssued \<Longrightarrow> cm_st (vci_model_step m ev) = CM_CredentialIssued"
  by (simp add: vci_step_def) (cases ev; simp)

end
