(* ===== verification/Wua.thy ===== *)
theory Wua
  imports Wallet_Std Crypto_Traits
begin

text \<open>
  Wallet unit attestations, \<open>crates/wua/src/lib.rs\<close>: verification of the provider's statement and the checks that
  a device key is the one attested, at a sufficient assurance level and time.
\<close>

datatype assurance_level = High | Substantial | Low

definition assurance_parse :: "string \<Rightarrow> assurance_level option" where
  "assurance_parse s =
     (if s = ''high'' then Some High else if s = ''substantial'' then Some Substantial
      else if s = ''low'' then Some Low else None)"

record wallet_unit_attestation =
  wu_device_public_key :: bytes
  wu_assurance_level :: assurance_level
  wu_valid_until :: int

datatype wua_error = Wua_BadSignature | Wua_Expired | Wua_Malformed | Wua_UnsupportedAlg

definition wua_b64 :: "text_codec \<Rightarrow> string \<Rightarrow> wua_error + bytes" where
  "wua_b64 C s = ok_or (b64_decode C s) Wua_Malformed"

definition wua_payload :: "text_codec \<Rightarrow> json \<Rightarrow> int \<Rightarrow> wua_error + wallet_unit_attestation" where
  "wua_payload C payload now =
     bind_result (ok_or (Option.bind (json_get ''exp'' payload) json_as_i64) Wua_Malformed) (\<lambda>valid_until.
     if now \<ge> valid_until then Inl Wua_Expired
     else
       bind_result (ok_or (Option.bind (json_get_str ''aal'' payload) assurance_parse) Wua_Malformed) (\<lambda>assurance_level.
       bind_result (ok_or (Option.bind (Option.bind (json_get ''cnf'' payload) (json_get_str ''jwk_raw'')) (b64_decode C))
         Wua_Malformed) (\<lambda>device_public_key.
         Inr \<lparr>wu_device_public_key = device_public_key, wu_assurance_level = assurance_level,
           wu_valid_until = valid_until\<rparr>)))"

definition wua_parse_and_verify ::
    "text_codec \<Rightarrow> bytes \<Rightarrow> bytes \<Rightarrow> verifier \<Rightarrow> alg \<Rightarrow> int \<Rightarrow> wua_error + wallet_unit_attestation" where
  "wua_parse_and_verify C wua_jwt provider_public_key verify alg now =
     bind_result (ok_or (from_utf8 wua_jwt) Wua_Malformed) (\<lambda>s.
     let parts = split_str (CHR ''.'') s in
     if length parts \<noteq> 3 then Inl Wua_Malformed
     else
       bind_result (wua_b64 C (parts ! 0)) (\<lambda>header_bytes.
       bind_result (ok_or (json_from_slice C header_bytes) Wua_Malformed) (\<lambda>header.
       if json_get_str ''alg'' header \<notin> {Some ''ES256'', Some ''ES384'', Some ''EdDSA''} then Inl Wua_UnsupportedAlg
       else
         let signing_input = parts ! 0 @ ''.'' @ parts ! 1 in
         bind_result (wua_b64 C (parts ! 2)) (\<lambda>sig.
         bind_result (map_err (\<lambda>_. Wua_BadSignature) (verify alg provider_public_key (as_bytes signing_input) sig)) (\<lambda>_.
         bind_result (wua_b64 C (parts ! 1)) (\<lambda>payload_bytes.
         bind_result (ok_or (json_from_slice C payload_bytes) Wua_Malformed) (\<lambda>payload.
           wua_payload C payload now)))))))"

definition attests_key :: "wallet_unit_attestation \<Rightarrow> bytes \<Rightarrow> bool" where
  "attests_key w device_public_key \<longleftrightarrow> wu_device_public_key w = device_public_key"

fun rank :: "assurance_level \<Rightarrow> nat" where
  "rank Low = 0"
| "rank Substantial = 1"
| "rank High = 2"

definition meets :: "wallet_unit_attestation \<Rightarrow> assurance_level \<Rightarrow> bool" where
  "meets w lvl \<longleftrightarrow> rank (wu_assurance_level w) \<ge> rank lvl"

definition is_valid_for :: "wallet_unit_attestation \<Rightarrow> bytes \<Rightarrow> assurance_level \<Rightarrow> bool" where
  "is_valid_for w device_public_key min_level \<longleftrightarrow> attests_key w device_public_key \<and> meets w min_level"

definition is_valid_for_at :: "wallet_unit_attestation \<Rightarrow> bytes \<Rightarrow> assurance_level \<Rightarrow> int \<Rightarrow> bool" where
  "is_valid_for_at w device_public_key min_level now \<longleftrightarrow>
     now < wu_valid_until w \<and> is_valid_for w device_public_key min_level"

text \<open>A verified attestation vouches at a later time for one device key only: the key the provider signed in the
  confirmation claim, at a level at least as high as asked, before the expiry the provider signed.\<close>

theorem wua_vouches_for_signed_key:
  assumes "wua_parse_and_verify C token provider verify alg now = Inr w" "is_valid_for_at w key lvl later"
  shows "\<exists>h p sg sig payload_bytes payload exp stated.
    from_utf8 token = Some (h @ ''.'' @ p @ ''.'' @ sg) \<and> b64_decode C sg = Some sig
    \<and> verify alg provider (as_bytes (h @ ''.'' @ p)) sig = Inr ()
    \<and> b64_decode C p = Some payload_bytes \<and> json_from_slice C payload_bytes = Some payload
    \<and> Option.bind (Option.bind (Option.bind (json_get ''cnf'' payload) (json_get ''jwk_raw'')) json_as_str) (b64_decode C) = Some key
    \<and> Option.bind (json_get ''exp'' payload) json_as_i64 = Some exp \<and> now < exp \<and> later < exp
    \<and> Option.bind (json_get_str ''aal'' payload) assurance_parse = Some stated \<and> rank lvl \<le> rank stated"
proof -
  from assms(1) obtain s sig payload_bytes payload where
    p: "from_utf8 token = Some s" "length (split_str (CHR ''.'') s) = 3"
      "b64_decode C (split_str (CHR ''.'') s ! 2) = Some sig"
      "verify alg provider (as_bytes (split_str (CHR ''.'') s ! 0 @ ''.'' @ split_str (CHR ''.'') s ! 1)) sig = Inr ()"
      "b64_decode C (split_str (CHR ''.'') s ! 1) = Some payload_bytes" "json_from_slice C payload_bytes = Some payload"
      "wua_payload C payload now = Inr w"
    by (auto simp: wua_parse_and_verify_def wua_b64_def Let_def bind_result_Inr_iff simp del: One_nat_def split: if_splits)
  have "Option.bind (Option.bind (Option.bind (json_get ''cnf'' payload) (json_get ''jwk_raw'')) json_as_str) (b64_decode C) = Some key"
    "Option.bind (json_get ''exp'' payload) json_as_i64 = Some (wu_valid_until w)" "now < wu_valid_until w" "later < wu_valid_until w"
    "Option.bind (json_get_str ''aal'' payload) assurance_parse = Some (wu_assurance_level w)" "rank lvl \<le> rank (wu_assurance_level w)"
    using p(7) assms(2)
    by (auto simp: wua_payload_def bind_result_Inr_iff is_valid_for_at_def is_valid_for_def attests_key_def meets_def json_get_str_def
        bind_eq_Some_conv split: if_splits)
  then show ?thesis
    using p split_str_three [OF p(2)]
    by (rule_tac x = "split_str (CHR ''.'') s ! 0" in exI, rule_tac x = "split_str (CHR ''.'') s ! 1" in exI,
        rule_tac x = "split_str (CHR ''.'') s ! 2" in exI, rule_tac x = sig in exI, rule_tac x = payload_bytes in exI,
        rule_tac x = payload in exI, rule_tac x = "wu_valid_until w" in exI, rule_tac x = "wu_assurance_level w" in exI) simp
qed

definition wua_sample_codec :: text_codec where
  "wua_sample_codec = \<lparr>b64_decode = (\<lambda>s. Some (as_bytes s)), b64_encode = (\<lambda>_. []),
     json_from_slice = (\<lambda>b. if b = as_bytes ''h'' then Some (JObject [(''alg'', JString ''ES256'')])
       else Some (JObject [(''aal'', JString ''high''), (''cnf'', JObject [(''jwk_raw'', JString ''k'')]), (''exp'', JNumber (PosInt 50))])),
     json_to_vec = (\<lambda>_. None)\<rparr>"

definition wua_sample_token :: bytes where "wua_sample_token = as_bytes ''h.p.s''"

theorem wua_vouches_for_signed_key_witness:
  "\<exists>payload exp. Option.bind (Option.bind (json_get ''cnf'' payload) (json_get ''jwk_raw'')) json_as_str = Some ''k''
    \<and> Option.bind (json_get ''exp'' payload) json_as_i64 = Some exp \<and> 49 < exp"
proof -
  have t: "from_utf8 wua_sample_token = Some ''h.p.s''" by code_simp
  have v: "wua_parse_and_verify wua_sample_codec wua_sample_token [] (\<lambda>_ _ _ _. Inr ()) Es256 10
      = Inr \<lparr>wu_device_public_key = as_bytes ''k'', wu_assurance_level = High, wu_valid_until = 50\<rparr>"
    by (simp add: wua_parse_and_verify_def t wua_sample_codec_def wua_b64_def json_defs as_bytes_def wua_payload_def
        assurance_parse_def i64_max_def)
  have "is_valid_for_at \<lparr>wu_device_public_key = as_bytes ''k'', wu_assurance_level = High, wu_valid_until = 50\<rparr>
      (as_bytes ''k'') Substantial 49"
    by (simp add: is_valid_for_at_def is_valid_for_def attests_key_def meets_def)
  from wua_vouches_for_signed_key [OF v this] obtain payload exp where
    "Option.bind (Option.bind (Option.bind (json_get ''cnf'' payload) (json_get ''jwk_raw'')) json_as_str) (b64_decode wua_sample_codec)
       = Some (as_bytes ''k'')" "Option.bind (json_get ''exp'' payload) json_as_i64 = Some exp" "49 < exp"
    by blast
  then show ?thesis by (auto simp: wua_sample_codec_def bind_eq_Some_conv)
qed

end
