(* ===== verification/Pid_Profile.thy ===== *)
theory Pid_Profile
  imports Wallet_Std Mdoc Catalogue
begin

text \<open>
  The portrait profile of a PID, \<open>crates/oid4vci/src/pid_profile.rs\<close>: the portrait must be present, may be empty
  (the opt-out), and is otherwise a bounded JPEG. The padded base64 decoder of the data URL is an argument.
\<close>

definition PID_MDOC_DOCTYPE :: string where "PID_MDOC_DOCTYPE = ''eu.europa.ec.eudi.pid.1''"
definition PID_MDOC_NAMESPACE :: string where "PID_MDOC_NAMESPACE = ''eu.europa.ec.eudi.pid.1''"
definition PID_SD_JWT_VCT :: string where "PID_SD_JWT_VCT = ''urn:eudi:pid:1''"
definition MAX_PID_PORTRAIT_BYTES :: nat where "MAX_PID_PORTRAIT_BYTES = 2 * 1024 * 1024"
definition JPEG_DATA_URL_PREFIX :: string where "JPEG_DATA_URL_PREFIX = ''data:image/jpeg;base64,''"

datatype pid_portrait_error =
    Portrait_Missing
  | Portrait_Duplicate
  | Portrait_WrongType
  | Portrait_TooLarge
  | Portrait_InvalidDataUrl
  | Portrait_InvalidJpeg

definition encoded_len_limit :: "nat \<Rightarrow> nat" where
  "encoded_len_limit bytes = ((bytes + 2) div 3) * 4"

definition starts_with :: "'a list \<Rightarrow> 'a list \<Rightarrow> bool" where
  "starts_with pre xs \<longleftrightarrow> take (length pre) xs = pre"

definition ends_with :: "'a list \<Rightarrow> 'a list \<Rightarrow> bool" where
  "ends_with post xs \<longleftrightarrow> starts_with (rev post) (rev xs)"

definition validate_jpeg :: "bytes \<Rightarrow> pid_portrait_error + unit" where
  "validate_jpeg bytes =
     (if length bytes > MAX_PID_PORTRAIT_BYTES then Inl Portrait_TooLarge
      else if length bytes < 4 \<or> \<not> starts_with [0xff, 0xd8, 0xff] bytes \<or> \<not> ends_with [0xff, 0xd9] bytes
      then Inl Portrait_InvalidJpeg
      else Inr ())"

definition validate_sd_jwt_pid_portrait ::
    "(string \<Rightarrow> bytes option) \<Rightarrow> (string \<times> json) list \<Rightarrow> pid_portrait_error + unit" where
  "validate_sd_jwt_pid_portrait base64_decode claims =
     bind_result (ok_or (map_of claims ''picture'') Portrait_Missing) (\<lambda>picture.
     bind_result (ok_or (json_as_str picture) Portrait_WrongType) (\<lambda>picture.
     if picture = [] then Inr ()
     else
       bind_result (ok_or (strip_prefix_str JPEG_DATA_URL_PREFIX picture) Portrait_InvalidDataUrl) (\<lambda>encoded.
       if encoded = [] \<or> length encoded > encoded_len_limit MAX_PID_PORTRAIT_BYTES then Inl Portrait_TooLarge
       else bind_result (ok_or (base64_decode encoded) Portrait_InvalidDataUrl) validate_jpeg)))"

definition validate_mdoc_pid_portrait :: "issuer_signed \<Rightarrow> pid_portrait_error + unit" where
  "validate_mdoc_pid_portrait credential =
     (case filter (\<lambda>item. element_id item = ''portrait'')
             (concat (map snd (filter (\<lambda>(namespace, _). namespace = PID_MDOC_NAMESPACE) (is_name_spaces credential)))) of
        [] \<Rightarrow> Inl Portrait_Missing
      | portrait # portraits \<Rightarrow>
          if portraits \<noteq> [] then Inl Portrait_Duplicate
          else
            (case element_value portrait of
               Bytes bytes \<Rightarrow> if bytes = [] then Inr () else validate_jpeg bytes
             | _ \<Rightarrow> Inl Portrait_WrongType))"

end
