(* ===== verification/Ingestion.thy ===== *)
theory Ingestion
  imports Sdjwt Mdoc Tdate Catalogue Trust Status Oid4vci Wua Uri Pid_Profile
begin

text \<open>
  Authentication and storage of credentials, \<open>crates/wallet-core/src/lib.rs\<close>: the issuer is resolved
  through the trust list in each service domain, the SD-JWT or mdoc is verified under its key, the catalogue, the
  validity period and the device binding are checked, and only then is the credential stored. The build without
  the \<open>experimental-pq\<close> feature is modelled. The operating environment (JSON and base64 codecs, DER
  decoder, inflate, signature verification and the digest) is the record \<open>core_env\<close>.
\<close>

section \<open>Data\<close>

record core_env =
  ce_codec :: text_codec
  ce_base64 :: "string \<Rightarrow> bytes option"
  ce_inflate :: "bytes \<Rightarrow> nat \<Rightarrow> bytes + bytes"
  ce_der :: der_codec
  ce_verify :: verifier
  ce_sha256 :: digest
  ce_certs :: cert_verifier

datatype credential_ingestion_error =
    ClockNotSet
  | UnsupportedFormat
  | UntrustedIssuer
  | MalformedCredential
  | UnsupportedAlgorithm
  | SignatureInvalid
  | IssuerMismatch
  | IssuerServiceMismatch
  | UnknownCredentialType
  | CredentialTypeFormatMismatch
  | IssuerNotAllowedForType
  | MandatoryClaimsMissing
  | TlsEvidenceInvalid
  | PidPortraitInvalid
  | CredentialNotYetValid
  | CredentialExpired
  | DeviceBindingMissing
  | DeviceBindingMismatch
  | DuplicateClaim
  | UnsupportedStatusReference

record status_reference =
  sr_uri :: string
  sr_index :: u64

record held_credential =
  hc_issuer_jwt :: string
  hc_disclosures_by_claim :: "(string \<times> string) list"
  hc_status :: "status_reference option"

record mdoc_holding =
  mh_doctype :: string
  mh_issuer_signed :: issuer_signed

record credential_issuer_evidence =
  ev_identity :: string
  ev_service :: issuer_trust_domain
  ev_public_key_raw :: bytes
  ev_certificate_path :: "bytes list"
  ev_not_before :: int
  ev_not_after :: int

definition is_internally_consistent :: "credential_issuer_evidence \<Rightarrow> bool" where
  "is_internally_consistent ev \<longleftrightarrow>
     ev_identity ev \<noteq> [] \<and> ev_public_key_raw ev \<noteq> [] \<and> ev_certificate_path ev \<noteq> []
     \<and> ev_not_before ev \<le> ev_not_after ev \<and> ev_service ev \<in> {Dom_Pid, Dom_Attestation}"

record credential_provenance =
  cp_format :: credential_format
  cp_raw_credential :: bytes
  cp_issuer :: credential_issuer_evidence

datatype stored_provenance = AuthenticatedProvenance credential_provenance | TestFixture

record credential_validity =
  cv_issued_at :: "int option"
  cv_not_before :: "int option"
  cv_expires_at :: "int option"

definition validity_default :: credential_validity where
  "validity_default = \<lparr>cv_issued_at = None, cv_not_before = None, cv_expires_at = None\<rparr>"

record stored_sdjwt_credential =
  ss_holding :: held_credential
  ss_authenticated :: "processed_sdjwt option"
  ss_validity :: credential_validity
  ss_provenance :: stored_provenance

record stored_mdoc_credential =
  sm_holding :: mdoc_holding
  sm_validity :: credential_validity
  sm_provenance :: stored_provenance

datatype verified_credential =
    VerifiedSdJwt held_credential processed_sdjwt credential_validity
  | VerifiedMdoc mdoc_holding credential_validity

definition verified_format :: "verified_credential \<Rightarrow> credential_format" where
  "verified_format v = (case v of VerifiedSdJwt _ _ _ \<Rightarrow> DcSdJwt | VerifiedMdoc _ _ \<Rightarrow> MsoMdoc)"

record authenticated_credential =
  ac_credential :: verified_credential
  ac_provenance :: credential_provenance

section \<open>Formats and claims\<close>

definition parse_format :: "string \<Rightarrow> credential_format option" where
  "parse_format s =
     (if s = ''mso_mdoc'' then Some MsoMdoc
      else if s = ''dc+sd-jwt'' \<or> s = ''vc+sd-jwt'' then Some DcSdJwt
      else None)"

definition format_name :: "credential_format \<Rightarrow> string" where
  "format_name f = (case f of MsoMdoc \<Rightarrow> ''mso_mdoc'' | DcSdJwt \<Rightarrow> ''dc+sd-jwt'')"

fun collect_claims ::
    "verified_disclosure list \<Rightarrow> (string \<times> string) list
      \<Rightarrow> credential_ingestion_error + (string \<times> string) list" where
  "collect_claims [] m = Inr m"
| "collect_claims (d # ds) m =
     (case vd_path d of
        [PName name] \<Rightarrow>
          if has_key name m then Inl DuplicateClaim else collect_claims ds (btree_insert name (vd_raw d) m)
      | _ \<Rightarrow> collect_claims ds m)"

definition held_credential_from_verified_sd ::
    "sdjwt_vc \<Rightarrow> processed_sdjwt \<Rightarrow> status_reference option \<Rightarrow> credential_ingestion_error + held_credential" where
  "held_credential_from_verified_sd sd processed st =
     bind_result (collect_claims (ps_disclosures processed) []) (\<lambda>disclosures_by_claim.
       Inr \<lparr>hc_issuer_jwt = issuer_jwt sd, hc_disclosures_by_claim = disclosures_by_claim, hc_status = st\<rparr>)"

definition SDJWT_CONTROL_CLAIMS :: "string list" where
  "SDJWT_CONTROL_CLAIMS =
     [''iss'', ''vct'', ''cnf'', ''iat'', ''nbf'', ''exp'', ''status'', ''vct#integrity'']"

fun contains_sdjwt_placeholder :: "json \<Rightarrow> bool" where
  "contains_sdjwt_placeholder (JObject m) \<longleftrightarrow>
     has_key ''_sd'' m \<or> has_key ''...'' m \<or> list_ex (\<lambda>(_, v). contains_sdjwt_placeholder v) m"
| "contains_sdjwt_placeholder (JArray vs) \<longleftrightarrow> list_ex contains_sdjwt_placeholder vs"
| "contains_sdjwt_placeholder _ \<longleftrightarrow> False"

definition control_claim_ok :: "(string \<times> json) list \<Rightarrow> processed_sdjwt \<Rightarrow> string \<Rightarrow> bool" where
  "control_claim_ok payload processed control \<longleftrightarrow>
     (case map_of payload control of
        None \<Rightarrow> map_of (ps_claims processed) control = None
      | Some issuer_value \<Rightarrow>
          map_of (ps_claims processed) control = Some issuer_value
          \<and> \<not> contains_sdjwt_placeholder issuer_value
          \<and> \<not> list_ex (\<lambda>d. case vd_path d of PName name # _ \<Rightarrow> name = control | _ \<Rightarrow> False) (ps_disclosures processed))"

definition validate_sdjwt_issuer_profile ::
    "sdjwt_vc \<Rightarrow> (string \<times> json) list \<Rightarrow> processed_sdjwt \<Rightarrow> credential_ingestion_error + unit" where
  "validate_sdjwt_issuer_profile sd payload processed =
     (if key_binding_jwt sd \<noteq> None then Inl MalformedCredential
      else if list_ex (\<lambda>required. \<not> has_key required payload \<or> \<not> has_key required (ps_claims processed))
                [''iss'', ''vct'', ''cnf'']
      then Inl MalformedCredential
      else ensure (list_all (control_claim_ok payload processed) SDJWT_CONTROL_CLAIMS) MalformedCredential)"

text \<open>\<open>str::trim\<close>: the characters of the text, with white space dropped at both ends.\<close>

function char_chunks :: "string \<Rightarrow> string list" where
  "char_chunks [] = []"
| "char_chunks (c # cs) =
     (let cont = (\<lambda>x. is_cont (of_char x)) in (c # takeWhile cont cs) # char_chunks (dropWhile cont cs))"
  by pat_completeness auto
termination
  by (relation "measure length") (auto simp: le_imp_less_Suc length_dropWhile_le)

definition str_trim :: "string \<Rightarrow> string" where
  "str_trim s = concat (rev (dropWhile str_is_blank (rev (dropWhile str_is_blank (char_chunks s)))))"

definition decode_mdoc_credential :: "core_env \<Rightarrow> bytes \<Rightarrow> credential_ingestion_error + issuer_signed" where
  "decode_mdoc_credential E bytes =
     bind_result (ok_or (from_utf8 bytes) MalformedCredential) (\<lambda>compact.
     bind_result (ok_or (b64_decode (ce_codec E) (str_trim compact)) MalformedCredential) (\<lambda>cbor.
       map_err (\<lambda>_. MalformedCredential) (issuer_signed_parse cbor)))"

definition embedded_mdoc_issuer_chain :: "issuer_signed \<Rightarrow> credential_ingestion_error + bytes list" where
  "embedded_mdoc_issuer_chain issued =
     bind_result (map_err (\<lambda>_. MalformedCredential) (cose_x5chain (issuer_auth issued))) (\<lambda>chain.
     bind_result (ok_or chain UntrustedIssuer) (\<lambda>chain. Inr (certificates chain)))"

definition json_epoch_claim :: "(string \<times> json) list \<Rightarrow> string \<Rightarrow> credential_ingestion_error + int option" where
  "json_epoch_claim claims name =
     (case map_of claims name of
        None \<Rightarrow> Inr None
      | Some v \<Rightarrow> (case json_as_i64 v of Some i \<Rightarrow> Inr (Some i) | None \<Rightarrow> Inl MalformedCredential))"

definition IAT_CLOCK_SKEW_SECONDS :: int where "IAT_CLOCK_SKEW_SECONDS = 300"

definition validate_at :: "credential_validity \<Rightarrow> int \<Rightarrow> credential_ingestion_error + unit" where
  "validate_at v now =
     (if (case cv_issued_at v of None \<Rightarrow> False | Some iat \<Rightarrow> iat > saturating_add_i64 now IAT_CLOCK_SKEW_SECONDS)
         \<or> (case cv_not_before v of None \<Rightarrow> False | Some nbf \<Rightarrow> nbf > now)
      then Inl CredentialNotYetValid
      else if (case cv_expires_at v of None \<Rightarrow> False | Some ex \<Rightarrow> ex \<le> now) then Inl CredentialExpired
      else Inr ())"

definition json_validity :: "(string \<times> json) list \<Rightarrow> int \<Rightarrow> credential_ingestion_error + credential_validity" where
  "json_validity claims now =
     bind_result (json_epoch_claim claims ''iat'') (\<lambda>iat.
     bind_result (json_epoch_claim claims ''nbf'') (\<lambda>nbf.
     bind_result (json_epoch_claim claims ''exp'') (\<lambda>ex.
     let v = \<lparr>cv_issued_at = iat, cv_not_before = nbf, cv_expires_at = ex\<rparr> in
     bind_result (validate_at v now) (\<lambda>_. Inr v))))"

definition uncompressed_point :: "bytes \<Rightarrow> bool" where
  "uncompressed_point key \<longleftrightarrow> length key = 65 \<and> hd key = 0x04"

definition jwk_coordinate :: "core_env \<Rightarrow> (string \<times> json) list \<Rightarrow> string \<Rightarrow> bytes option" where
  "jwk_coordinate E jwk name = Option.bind (Option.bind (map_of jwk name) json_as_str) (b64_decode (ce_codec E))"

definition sdjwt_device_binding_matches :: "core_env \<Rightarrow> (string \<times> json) list \<Rightarrow> bytes \<Rightarrow> bool" where
  "sdjwt_device_binding_matches E claims key \<longleftrightarrow>
     uncompressed_point key
     \<and> (case Option.bind (Option.bind (map_of claims ''cnf'') (json_get ''jwk'')) json_as_object of
          None \<Rightarrow> False
        | Some jwk \<Rightarrow>
            Option.bind (map_of jwk ''kty'') json_as_str = Some ''EC''
            \<and> Option.bind (map_of jwk ''crv'') json_as_str = Some ''P-256''
            \<and> \<not> has_key ''d'' jwk \<and> \<not> has_key ''jku'' jwk \<and> \<not> has_key ''x5u'' jwk
            \<and> (case (jwk_coordinate E jwk ''x'', jwk_coordinate E jwk ''y'') of
                 (Some x, Some y) \<Rightarrow>
                   length x = 32 \<and> length y = 32
                   \<and> take 32 (drop 1 key) = x \<and> take 32 (drop 33 key) = y
               | _ \<Rightarrow> False))"

section \<open>Status references\<close>

definition MAX_STATUS_URI_BYTES :: nat where "MAX_STATUS_URI_BYTES = 2048"

definition all_digits :: "string \<Rightarrow> bool" where
  "all_digits s \<longleftrightarrow> s \<noteq> [] \<and> list_all is_ascii_digit (as_bytes s)"

definition status_authority_ok :: "string \<Rightarrow> bool" where
  "status_authority_ok authority \<longleftrightarrow>
     (if authority = [] \<or> CHR ''@'' \<in> set authority then False
      else if hd authority = CHR ''['' then
        (case find_char (CHR '']'') authority of
           None \<Rightarrow> False
         | Some fin \<Rightarrow>
             fin > 1
             \<and> (let rest = drop (fin + 1) authority in
                rest = [] \<or> (case strip_prefix_str '':'' rest of None \<Rightarrow> False | Some port \<Rightarrow> all_digits port)))
      else if count_chr (CHR '':'') authority > 1 then False
      else
        (let (host, port) = (case split_once_str (CHR '':'') authority of
                               None \<Rightarrow> (authority, None) | Some (host, port) \<Rightarrow> (host, Some port)) in
         host \<noteq> [] \<and> list_all (\<lambda>b. is_ascii_alphanumeric b \<or> b = 0x2E \<or> b = 0x2D) (as_bytes host)
         \<and> (case port of None \<Rightarrow> True | Some p \<Rightarrow> all_digits p)))"

definition valid_status_uri :: "string \<Rightarrow> bool" where
  "valid_status_uri uri \<longleftrightarrow>
     \<not> (uri = [] \<or> length uri > MAX_STATUS_URI_BYTES \<or> \<not> is_ascii uri
        \<or> list_ex (\<lambda>b. is_ascii_control b \<or> b = 0x20 \<or> b = 0x5C) (as_bytes uri)
        \<or> CHR ''#'' \<in> set uri)
     \<and> (case strip_prefix_str ''https://'' uri of
          None \<Rightarrow> False
        | Some remainder \<Rightarrow>
            status_authority_ok (takeWhile (\<lambda>c. c \<noteq> CHR ''/'' \<and> c \<noteq> CHR ''?'') remainder))"

definition status_reference_from_claims ::
    "(string \<times> json) list \<Rightarrow> credential_ingestion_error + status_reference option" where
  "status_reference_from_claims claims =
     (case map_of claims ''status'' of
        None \<Rightarrow> Inr None
      | Some st \<Rightarrow>
          bind_result (ok_or (Option.bind (json_get ''status_list'' st) json_as_object) UnsupportedStatusReference) (\<lambda>reference.
          bind_result (ok_or (Option.bind (map_of reference ''uri'') json_as_str) UnsupportedStatusReference) (\<lambda>uri.
          bind_result (ensure (valid_status_uri uri) UnsupportedStatusReference) (\<lambda>_.
          bind_result (ok_or (Option.bind (map_of reference ''idx'') json_as_u64) UnsupportedStatusReference) (\<lambda>index.
            Inr (Some \<lparr>sr_uri = uri, sr_index = index\<rparr>))))))"

section \<open>The mdoc device key and validity\<close>

definition cbor_get :: "(cbor_value \<times> cbor_value) list \<Rightarrow> cbor_value \<Rightarrow> cbor_value option" where
  "cbor_get pairs label = map_option snd (find (\<lambda>(candidate, _). candidate = label) pairs)"

definition mdoc_device_binding_matches :: "cbor_value \<Rightarrow> bytes \<Rightarrow> bool" where
  "mdoc_device_binding_matches dk key \<longleftrightarrow>
     uncompressed_point key
     \<and> (case dk of
          Map pairs \<Rightarrow>
            \<not> list_ex (\<lambda>(label, _). label = Nint 3) pairs
            \<and> cbor_get pairs (Uint 1) = Some (Uint 2)
            \<and> cbor_get pairs (Nint 0) = Some (Uint 1)
            \<and> cbor_get pairs (Nint 1) = Some (Bytes (take 32 (drop 1 key)))
            \<and> cbor_get pairs (Nint 2) = Some (Bytes (take 32 (drop 33 key)))
        | _ \<Rightarrow> False)"

definition mdoc_validity :: "validity_info \<Rightarrow> int \<Rightarrow> credential_ingestion_error + credential_validity" where
  "mdoc_validity validity now =
     bind_result (ok_or (tdate_parse (vi_signed validity)) MalformedCredential) (\<lambda>sig_date.
     bind_result (ok_or (tdate_parse (valid_from validity)) MalformedCredential) (\<lambda>from_date.
     bind_result (ok_or (tdate_parse (valid_until validity)) MalformedCredential) (\<lambda>until_date.
     if tdate_cmp sig_date until_date = Greater \<or> tdate_cmp from_date until_date = Greater then Inl MalformedCredential
     else
       let v = \<lparr>cv_issued_at = Some (unix_seconds_ceil sig_date), cv_not_before = Some (unix_seconds_ceil from_date),
                cv_expires_at = Some (unix_seconds_ceil until_date)\<rparr> in
       bind_result (validate_at v now) (\<lambda>_. Inr v))))"

section \<open>The wallet core\<close>

record cached_status_list =
  cl_list :: status_list
  cl_provider_cert_chain :: "bytes list"

record core =
  co_now_epoch :: int
  co_credentials :: "stored_sdjwt_credential list"
  co_mdoc_holdings :: "stored_mdoc_credential list"
  co_trust_store :: trust_store
  co_device_public_key :: bytes
  co_wua :: "wallet_unit_attestation option"
  co_last_credential_ingestion_error :: "credential_ingestion_error option"
  co_status_lists :: "(string \<times> cached_status_list) list"
  co_catalogue :: catalogue

definition core_new :: core where
  "core_new = \<lparr>co_now_epoch = 0, co_credentials = [], co_mdoc_holdings = [], co_trust_store = trust_store_new,
     co_device_public_key = [], co_wua = None, co_last_credential_ingestion_error = None, co_status_lists = [],
     co_catalogue = default_catalogue\<rparr>"

text \<open>The clock is a high-water mark: a backwards update is refused, and the event handler then aborts the presentation in progress, which
  is not part of this record. The result says whether the update was taken.\<close>

definition set_clock :: "int \<Rightarrow> core \<Rightarrow> bool \<times> core" where
  "set_clock epoch core =
     (if epoch < co_now_epoch core then (False, core) else (True, core\<lparr>co_now_epoch := epoch\<rparr>))"

definition load_device_key :: "bytes \<Rightarrow> core \<Rightarrow> core" where
  "load_device_key key core = core\<lparr>co_device_public_key := key\<rparr>"

definition load_wua :: "core_env \<Rightarrow> bytes \<Rightarrow> bytes \<Rightarrow> core \<Rightarrow> (wua_error + unit) \<times> core" where
  "load_wua E wua_jwt provider_public_key core =
     (case wua_parse_and_verify (ce_codec E) wua_jwt provider_public_key (ce_verify E) Es256 (co_now_epoch core) of
        Inl e \<Rightarrow> (Inl e, core)
      | Inr att \<Rightarrow> (Inr (), core\<lparr>co_wua := Some att\<rparr>))"

definition load_trust_list :: "core_env \<Rightarrow> bytes \<Rightarrow> bytes \<Rightarrow> core \<Rightarrow> (trust_error + unit) \<times> core" where
  "load_trust_list E signed_list operator_public_key core =
     (case trust_parse_and_verify (ce_codec E) signed_list operator_public_key (ce_verify E) Es256 (co_now_epoch core) of
        Inl e \<Rightarrow> (Inl e, core)
      | Inr list \<Rightarrow>
          (case trust_update (co_trust_store core) list of
             (r, store) \<Rightarrow> (r, core\<lparr>co_trust_store := store\<rparr>)))"

definition resolve_rp :: "core_env \<Rightarrow> core \<Rightarrow> bytes list \<Rightarrow> bool \<times> bytes \<times> string list" where
  "resolve_rp E core chain =
     (case check_relying_party (ce_der E) chain
             (parsed_anchors_at (ce_der E) (co_trust_store core) RelyingPartyAccessCa (co_now_epoch core))
             (co_now_epoch core) (ce_certs E) of
        Inr profile \<Rightarrow>
          (True,
           (case chain of
              [] \<Rightarrow> []
            | der # _ \<Rightarrow> (case parse_cert (ce_der E) der of Inr c \<Rightarrow> pc_public_key_raw c | Inl _ \<Rightarrow> [])),
           rp_dns_sans profile)
      | Inl _ \<Rightarrow> (False, [], []))"

definition load_unverified_credential_for_testing :: "held_credential \<Rightarrow> core \<Rightarrow> core" where
  "load_unverified_credential_for_testing credential core =
     (if list_ex (\<lambda>stored. ss_holding stored = credential) (co_credentials core) then core
      else core\<lparr>co_credentials := co_credentials core @
             [\<lparr>ss_holding = credential, ss_authenticated = None, ss_validity = validity_default,
               ss_provenance = TestFixture\<rparr>]\<rparr>)"

definition load_unverified_mdoc_for_testing :: "mdoc_holding \<Rightarrow> core \<Rightarrow> core" where
  "load_unverified_mdoc_for_testing holding core =
     (if list_ex (\<lambda>stored. sm_holding stored = holding) (co_mdoc_holdings core) then core
      else core\<lparr>co_mdoc_holdings := co_mdoc_holdings core @
             [\<lparr>sm_holding = holding, sm_validity = validity_default, sm_provenance = TestFixture\<rparr>]\<rparr>)"

text \<open>\<open>iter_mut().find(p)\<close> and an update of what was found, or else a push.\<close>

fun update_first :: "('a \<Rightarrow> bool) \<Rightarrow> ('a \<Rightarrow> 'a) \<Rightarrow> 'a list \<Rightarrow> 'a list option" where
  "update_first P f [] = None"
| "update_first P f (x # xs) = (if P x then Some (f x # xs) else map_option ((#) x) (update_first P f xs))"

definition update_or_push :: "('a \<Rightarrow> bool) \<Rightarrow> ('a \<Rightarrow> 'a) \<Rightarrow> 'a \<Rightarrow> 'a list \<Rightarrow> 'a list" where
  "update_or_push P f new xs = (case update_first P f xs of Some ys \<Rightarrow> ys | None \<Rightarrow> xs @ [new])"

definition store_verified_credential :: "authenticated_credential \<Rightarrow> core \<Rightarrow> core" where
  "store_verified_credential auth core =
     (let provenance = AuthenticatedProvenance (ac_provenance auth) in
      case ac_credential auth of
        VerifiedSdJwt holding processed validity \<Rightarrow>
          core\<lparr>co_credentials :=
            update_or_push (\<lambda>stored. ss_holding stored = holding)
              (\<lambda>stored. stored\<lparr>ss_authenticated := Some processed, ss_validity := validity, ss_provenance := provenance\<rparr>)
              \<lparr>ss_holding = holding, ss_authenticated = Some processed, ss_validity = validity,
                ss_provenance = provenance\<rparr>
              (co_credentials core)\<rparr>
      | VerifiedMdoc holding validity \<Rightarrow>
          core\<lparr>co_mdoc_holdings :=
            update_or_push (\<lambda>stored. sm_holding stored = holding)
              (\<lambda>stored. stored\<lparr>sm_validity := validity, sm_provenance := provenance\<rparr>)
              \<lparr>sm_holding = holding, sm_validity = validity, sm_provenance = provenance\<rparr>
              (co_mdoc_holdings core)\<rparr>)"

section \<open>Issuer resolution\<close>

definition trust_service :: "issuer_trust_domain \<Rightarrow> service_type" where
  "trust_service service = (case service of Dom_Pid \<Rightarrow> PidProvider | Dom_Attestation \<Rightarrow> AttestationProvider)"

definition resolve_issuer_in ::
    "core_env \<Rightarrow> core \<Rightarrow> bytes list \<Rightarrow> issuer_trust_domain \<Rightarrow> credential_issuer_evidence option" where
  "resolve_issuer_in E core chain service =
     (let anchors = parsed_anchors_at (ce_der E) (co_trust_store core) (trust_service service) (co_now_epoch core) in
      if anchors = [] then None
      else
        (case check_credential_issuer (ce_der E) chain anchors (co_now_epoch core) (ce_certs E) of
           Inl _ \<Rightarrow> None
         | Inr validated \<Rightarrow>
             Some \<lparr>ev_identity = vi_identity validated, ev_service = service,
               ev_public_key_raw = vi_public_key_raw validated, ev_certificate_path = chain,
               ev_not_before = vi_not_before validated, ev_not_after = vi_not_after validated\<rparr>))"

definition resolve_credential_issuers :: "core_env \<Rightarrow> core \<Rightarrow> bytes list \<Rightarrow> credential_issuer_evidence list" where
  "resolve_credential_issuers E core chain =
     List.map_filter (resolve_issuer_in E core chain) [Dom_Pid, Dom_Attestation]"

definition issuer_for_type ::
    "core \<Rightarrow> credential_issuer_evidence list \<Rightarrow> string \<Rightarrow> credential_ingestion_error + credential_issuer_evidence" where
  "issuer_for_type core issuers credential_type =
     bind_result (ok_or (catalogue_trust_domain (co_catalogue core) credential_type) UnknownCredentialType) (\<lambda>service.
       ok_or (find (\<lambda>issuer. ev_service issuer = service) issuers) IssuerServiceMismatch)"

definition issuer_candidates_are_consistent :: "credential_issuer_evidence list \<Rightarrow> bool" where
  "issuer_candidates_are_consistent issuers =
     (case issuers of
        [] \<Rightarrow> False
      | candidate # _ \<Rightarrow>
          is_internally_consistent candidate
          \<and> list_all (\<lambda>issuer. is_internally_consistent issuer \<and> ev_identity issuer = ev_identity candidate
              \<and> ev_public_key_raw issuer = ev_public_key_raw candidate
              \<and> ev_certificate_path issuer = ev_certificate_path candidate
              \<and> ev_not_before issuer = ev_not_before candidate
              \<and> ev_not_after issuer = ev_not_after candidate) issuers)"

section \<open>Verification\<close>

definition hex_digest96 :: "string \<Rightarrow> bool" where
  "hex_digest96 v \<longleftrightarrow>
     length v = 96
     \<and> list_all (\<lambda>b. is_ascii_digit b \<or> (0x61 \<le> b \<and> b \<le> 0x66)) (as_bytes v)
     \<and> list_ex (\<lambda>b. b \<noteq> 0x30) (as_bytes v)"

definition is_digest_field :: "(string \<times> json) list \<Rightarrow> string \<Rightarrow> bool" where
  "is_digest_field evidence field =
     (case Option.bind (map_of evidence field) json_as_str of None \<Rightarrow> False | Some v \<Rightarrow> hex_digest96 v)"

definition validate_tlsnotary_evidence_claim ::
    "(string \<times> json) list \<Rightarrow> int \<Rightarrow> credential_ingestion_error + unit" where
  "validate_tlsnotary_evidence_claim claims now_epoch =
     bind_result (ok_or (Option.bind (map_of claims ''tlsn_evidence'') json_as_object) TlsEvidenceInvalid) (\<lambda>evidence.
     if length evidence \<noteq> 12
        \<or> Option.bind (map_of evidence ''version'') json_as_u64 \<noteq> Some 1
        \<or> \<not> list_all (is_digest_field evidence)
              [''notary_identity_commitment'', ''server_identity_commitment'', ''transcript_commitment'',
               ''disclosed_fields_commitment'', ''holder_binding_commitment'', ''schema_commitment'',
               ''status_commitment'']
     then Inl TlsEvidenceInvalid
     else
       bind_result (ok_or (Option.bind (map_of evidence ''observed_at'') json_as_i64) TlsEvidenceInvalid) (\<lambda>observed_at.
       bind_result (ok_or (Option.bind (map_of evidence ''fresh_until'') json_as_i64) TlsEvidenceInvalid) (\<lambda>fresh_until.
       if observed_at \<le> 0 \<or> observed_at > now_epoch \<or> now_epoch \<ge> fresh_until then Inl TlsEvidenceInvalid
       else
         bind_result (ok_or (Option.bind (map_of evidence ''assurance'') json_as_str) TlsEvidenceInvalid) (\<lambda>assurance.
         let authorization = map_of evidence ''issuer_authorization_commitment'' in
         ensure
           ((assurance \<in> {''tlsNotarizedEvidence'', ''holderSelfIssued''} \<and> authorization = Some JNull)
            \<or> (assurance \<in> {''issuerUpgraded'', ''regulatedAttestation''}
               \<and> is_digest_field evidence ''issuer_authorization_commitment''))
           TlsEvidenceInvalid))))"

definition check_special_type ::
    "core_env \<Rightarrow> core \<Rightarrow> string \<Rightarrow> (string \<times> json) list \<Rightarrow> credential_ingestion_error + unit" where
  "check_special_type E core vct claims =
     (if vct = PID_SD_JWT_VCT
      then map_err (\<lambda>_. PidPortraitInvalid) (validate_sd_jwt_pid_portrait (ce_base64 E) claims)
      else if vct = ''dev.advatar.tlsn.evidence.1'' then validate_tlsnotary_evidence_claim claims (co_now_epoch core)
      else Inr ())"

definition verify_sdjwt_credential ::
    "core_env \<Rightarrow> core \<Rightarrow> bytes \<Rightarrow> credential_issuer_evidence list \<Rightarrow> string
      \<Rightarrow> credential_ingestion_error + verified_credential \<times> credential_issuer_evidence" where
  "verify_sdjwt_credential E core bytes issuers issuer_id_assertion =
     bind_result (ok_or (from_utf8 bytes) MalformedCredential) (\<lambda>compact.
     bind_result (map_err (\<lambda>_. MalformedCredential) (sdjwt_parse compact)) (\<lambda>sd.
     bind_result (map_err (\<lambda>_. MalformedCredential) (issuer_algorithm (ce_codec E) sd)) (\<lambda>alg.
     bind_result (ensure (alg = Es256) UnsupportedAlgorithm) (\<lambda>_.
     bind_result
       (map_err (\<lambda>e. case e of SJ_Crypto _ \<Rightarrow> SignatureInvalid | _ \<Rightarrow> MalformedCredential)
         (verify_and_process (ce_codec E) sd (ce_verify E) (ce_sha256 E) (ev_public_key_raw (issuers ! 0)) alg))
       (\<lambda>processed.
     bind_result (map_err (\<lambda>_. MalformedCredential) (issuer_payload (ce_codec E) sd)) (\<lambda>payload.
     bind_result (validate_sdjwt_issuer_profile sd payload processed) (\<lambda>_.
     let claims = ps_claims processed in
     bind_result (ok_or (Option.bind (map_of claims ''iss'') json_as_str) MalformedCredential) (\<lambda>issuer.
     bind_result
       (case Option.bind (map_of claims ''vct'') json_as_str of
          None \<Rightarrow> Inl UnknownCredentialType
        | Some vct \<Rightarrow> if vct = [] then Inl UnknownCredentialType else Inr vct)
       (\<lambda>vct.
     bind_result (ok_or (cat_get (co_catalogue core) vct) UnknownCredentialType) (\<lambda>credential_type.
     bind_result (ensure (at_format credential_type = ''dc+sd-jwt'') CredentialTypeFormatMismatch) (\<lambda>_.
     bind_result (check_special_type E core vct claims) (\<lambda>_.
     bind_result (issuer_for_type core issuers vct) (\<lambda>authenticated_issuer.
     bind_result
       (ensure (\<not> (issuer = [] \<or> issuer \<noteq> ev_identity authenticated_issuer
                   \<or> issuer_id_assertion \<noteq> ev_identity authenticated_issuer)) IssuerMismatch) (\<lambda>_.
     bind_result (ensure (issuer_allowed (co_catalogue core) vct (ev_identity authenticated_issuer))
       IssuerNotAllowedForType) (\<lambda>_.
     bind_result (ensure (satisfies_mandatory (co_catalogue core) vct (map fst claims)) MandatoryClaimsMissing) (\<lambda>_.
     bind_result (json_validity claims (co_now_epoch core)) (\<lambda>validity.
     bind_result (ensure (has_key ''cnf'' claims) DeviceBindingMissing) (\<lambda>_.
     bind_result (ensure (sdjwt_device_binding_matches E claims (co_device_public_key core)) DeviceBindingMismatch) (\<lambda>_.
     bind_result (status_reference_from_claims claims) (\<lambda>st.
     bind_result (held_credential_from_verified_sd sd processed st) (\<lambda>holding.
       Inr (VerifiedSdJwt holding processed validity, authenticated_issuer))))))))))))))))))))))"

definition mdoc_held_claims :: "issuer_signed \<Rightarrow> (string \<times> string) list" where
  "mdoc_held_claims issued =
     concat (map (\<lambda>(namespace, items). map (\<lambda>item. (namespace, element_id item)) items) (is_name_spaces issued))"

definition verify_mdoc_credential ::
    "core_env \<Rightarrow> core \<Rightarrow> issuer_signed \<Rightarrow> credential_issuer_evidence list \<Rightarrow> string
      \<Rightarrow> credential_ingestion_error + verified_credential \<times> credential_issuer_evidence" where
  "verify_mdoc_credential E core issued issuers issuer_id_assertion =
     bind_result
       (map_err (\<lambda>_. SignatureInvalid)
         (verify_issuer_signed issued (ce_verify E) (ce_sha256 E) (ev_public_key_raw (issuers ! 0)) Es256))
       (\<lambda>mso.
     bind_result
       (ensure (\<not> (mso_version mso \<noteq> ''1.0'' \<or> digest_algorithm mso \<noteq> ''SHA-256'' \<or> doc_type mso = []))
         MalformedCredential) (\<lambda>_.
     bind_result (ok_or (cat_get (co_catalogue core) (doc_type mso)) UnknownCredentialType) (\<lambda>credential_type.
     bind_result (ensure (at_format credential_type = ''mso_mdoc'') CredentialTypeFormatMismatch) (\<lambda>_.
     bind_result
       (if doc_type mso = PID_MDOC_DOCTYPE then map_err (\<lambda>_. PidPortraitInvalid) (validate_mdoc_pid_portrait issued)
        else Inr ()) (\<lambda>_.
     bind_result (issuer_for_type core issuers (doc_type mso)) (\<lambda>authenticated_issuer.
     bind_result (ensure (issuer_id_assertion = ev_identity authenticated_issuer) IssuerMismatch) (\<lambda>_.
     bind_result (ensure (issuer_allowed (co_catalogue core) (doc_type mso) (ev_identity authenticated_issuer))
       IssuerNotAllowedForType) (\<lambda>_.
     bind_result (ensure (satisfies_mandatory_mdoc (co_catalogue core) (doc_type mso) (mdoc_held_claims issued))
       MandatoryClaimsMissing) (\<lambda>_.
     bind_result (mdoc_validity (mso_validity_info mso) (co_now_epoch core)) (\<lambda>validity.
     bind_result (ensure (device_key mso \<noteq> Null) DeviceBindingMissing) (\<lambda>_.
     bind_result (ensure (mdoc_device_binding_matches (device_key mso) (co_device_public_key core))
       DeviceBindingMismatch) (\<lambda>_.
       Inr (VerifiedMdoc \<lparr>mh_doctype = doc_type mso, mh_issuer_signed = issued\<rparr> validity,
         authenticated_issuer)))))))))))))"

definition authenticate_received_credential ::
    "core_env \<Rightarrow> core \<Rightarrow> credential_format \<Rightarrow> bytes \<Rightarrow> bytes list \<Rightarrow> string
      \<Rightarrow> credential_ingestion_error + authenticated_credential" where
  "authenticate_received_credential E core format bytes issuer_cert_chain issuer_id_assertion =
     (if co_now_epoch core \<le> 0 then Inl ClockNotSet
      else if co_device_public_key core = [] then Inl DeviceBindingMissing
      else
        bind_result
          (case format of
             DcSdJwt \<Rightarrow>
               (let issuers = resolve_credential_issuers E core issuer_cert_chain in
                if \<not> issuer_candidates_are_consistent issuers then Inl UntrustedIssuer
                else verify_sdjwt_credential E core bytes issuers issuer_id_assertion)
           | MsoMdoc \<Rightarrow>
               bind_result (decode_mdoc_credential E bytes) (\<lambda>issued.
               bind_result (embedded_mdoc_issuer_chain issued) (\<lambda>embedded_chain.
               let issuers = resolve_credential_issuers E core embedded_chain in
               if \<not> issuer_candidates_are_consistent issuers then Inl UntrustedIssuer
               else verify_mdoc_credential E core issued issuers issuer_id_assertion)))
          (\<lambda>(credential, issuer).
            Inr \<lparr>ac_credential = credential,
              ac_provenance = \<lparr>cp_format = format, cp_raw_credential = bytes, cp_issuer = issuer\<rparr>\<rparr>))"

definition ingest_credential ::
    "core_env \<Rightarrow> string \<Rightarrow> bytes \<Rightarrow> bytes list \<Rightarrow> string \<Rightarrow> core \<Rightarrow> (credential_ingestion_error + unit) \<times> core" where
  "ingest_credential E format bytes issuer_cert_chain issuer_id core =
     (case parse_format format of
        None \<Rightarrow> (Inl UnsupportedFormat, core)
      | Some f \<Rightarrow>
          (case authenticate_received_credential E core f bytes issuer_cert_chain issuer_id of
             Inl e \<Rightarrow> (Inl e, core)
           | Inr auth \<Rightarrow>
               (Inr (), (store_verified_credential auth core)\<lparr>co_last_credential_ingestion_error := None\<rparr>)))"

section \<open>Status lists\<close>

datatype status_load_error =
    Load_ClockNotSet
  | Load_InvalidUri
  | Load_UntrustedProvider
  | Load_InvalidToken status_error
  | Load_CacheFull

definition MAX_CACHED_STATUS_LISTS :: nat where "MAX_CACHED_STATUS_LISTS = 8"
definition MAX_STATUS_LISTS_PER_PRESENTATION :: nat where "MAX_STATUS_LISTS_PER_PRESENTATION = 8"

definition resolve_status_provider_key :: "core_env \<Rightarrow> core \<Rightarrow> bytes list \<Rightarrow> bytes option" where
  "resolve_status_provider_key E core chain =
     (let anchors = parsed_anchors_at (ce_der E) (co_trust_store core) StatusProvider (co_now_epoch core) in
      if anchors = [] then None
      else
        (case validate_path (ce_der E) chain anchors (co_now_epoch core) (ce_certs E) of
           Inl _ \<Rightarrow> None
         | Inr path \<Rightarrow>
             (case path of
                [] \<Rightarrow> None
              | leaf # _ \<Rightarrow> if pc_is_ca leaf then None else Some (pc_public_key_raw leaf))))"

definition load_status_list ::
    "core_env \<Rightarrow> string \<Rightarrow> bytes \<Rightarrow> bytes list \<Rightarrow> core \<Rightarrow> (status_load_error + unit) \<times> core" where
  "load_status_list E uri token provider_cert_chain core =
     (if co_now_epoch core \<le> 0 then (Inl Load_ClockNotSet, core)
      else if \<not> valid_status_uri uri then (Inl Load_InvalidUri, core)
      else
        (case resolve_status_provider_key E core provider_cert_chain of
           None \<Rightarrow> (Inl Load_UntrustedProvider, core)
         | Some provider_public_key \<Rightarrow>
             (case parse_and_verify (b64_decode (ce_codec E)) (json_from_slice (ce_codec E)) (ce_inflate E)
                     token uri provider_public_key (ce_verify E) Es256 (co_now_epoch core) of
                Inl e \<Rightarrow> (Inl (Load_InvalidToken e), core)
              | Inr list \<Rightarrow>
                  (let fresh = filter (\<lambda>(_, cached). is_fresh_at (cl_list cached) (co_now_epoch core)) (co_status_lists core) in
                   if \<not> has_key uri fresh \<and> length fresh \<ge> MAX_CACHED_STATUS_LISTS
                   then (Inl Load_CacheFull, core\<lparr>co_status_lists := fresh\<rparr>)
                   else
                     (Inr (), core\<lparr>co_status_lists :=
                        btree_insert uri \<lparr>cl_list = list, cl_provider_cert_chain = provider_cert_chain\<rparr> fresh\<rparr>)))))"

datatype presentation_credential_reference = SdJwtReference held_credential "processed_sdjwt option" | MdocReference mdoc_holding

datatype status_gate =
    Gate_Ready
  | Gate_Fetch "status_reference list" "string list"
  | Gate_Revoked
  | Gate_Indeterminate

text \<open>The status reference of a selected credential; an unusable one is an error.\<close>

definition source_status :: "presentation_credential_reference \<Rightarrow> status_gate + status_reference option" where
  "source_status source =
     (case source of
        SdJwtReference holding _ \<Rightarrow> Inr (hc_status holding)
      | MdocReference holding \<Rightarrow>
          (case decode_mso (mh_issuer_signed holding) of
             Inl _ \<Rightarrow> Inl Gate_Indeterminate
           | Inr mso \<Rightarrow>
               (case mso_status_ref mso of
                  None \<Rightarrow> Inr None
                | Some st \<Rightarrow>
                    if valid_status_uri (status_uri st)
                    then Inr (Some \<lparr>sr_uri = status_uri st, sr_index = status_index st\<rparr>)
                    else Inl Gate_Indeterminate)))"

definition push_new :: "'a \<Rightarrow> 'a list \<Rightarrow> 'a list" where
  "push_new x xs = (if x \<in> set xs then xs else xs @ [x])"

fun collect_references ::
    "presentation_credential_reference list \<Rightarrow> status_reference list \<Rightarrow> status_gate + status_reference list" where
  "collect_references [] refs = Inr refs"
| "collect_references (source # sources) refs =
     bind_result (source_status source) (\<lambda>reference.
       collect_references sources (case reference of None \<Rightarrow> refs | Some r \<Rightarrow> push_new r refs))"

fun check_references ::
    "core_env \<Rightarrow> core \<Rightarrow> status_reference list \<Rightarrow> string list \<Rightarrow> status_gate + string list" where
  "check_references E core [] fetch_uris = Inr fetch_uris"
| "check_references E core (r # refs) fetch_uris =
     (case map_of (co_status_lists core) (sr_uri r) of
        None \<Rightarrow> check_references E core refs (push_new (sr_uri r) fetch_uris)
      | Some cached \<Rightarrow>
          if \<not> is_fresh_at (cl_list cached) (co_now_epoch core)
             \<or> resolve_status_provider_key E core (cl_provider_cert_chain cached) = None
          then check_references E core refs (push_new (sr_uri r) fetch_uris)
          else
            (case status_at (cl_list cached) (unat (sr_index r)) of
               Cs_Valid \<Rightarrow> check_references E core refs fetch_uris
             | Cs_Invalid \<Rightarrow> Inl Gate_Revoked
             | Cs_Suspended \<Rightarrow> Inl Gate_Revoked
             | Cs_Unknown \<Rightarrow> Inl Gate_Indeterminate))"

text \<open>The gate for the sources the session selected; \<open>None\<close> is the absence of a session.\<close>

definition presentation_status_gate ::
    "core_env \<Rightarrow> core \<Rightarrow> presentation_credential_reference list option \<Rightarrow> status_gate" where
  "presentation_status_gate E core session =
     (case session of
        None \<Rightarrow> Gate_Indeterminate
      | Some selected_sources \<Rightarrow>
          (case collect_references selected_sources [] of
             Inl gate \<Rightarrow> gate
           | Inr references \<Rightarrow>
               if length references > MAX_STATUS_LISTS_PER_PRESENTATION then Gate_Indeterminate
               else
                 (case check_references E core references [] of
                    Inl gate \<Rightarrow> gate
                  | Inr uris \<Rightarrow> if uris = [] then Gate_Ready else Gate_Fetch references uris)))"

end
