(* ===== verification/Presenter.thy ===== *)
theory Presenter
  imports Cbor Crypto_Traits
begin

text \<open>
  The presenter, \<open>crates/presenter/src/lib.rs\<close>: the closed vocabulary of screens, the presentation
  function, the minimum claim set, and the canonical bytes whose hash is the consent hash.
\<close>

section \<open>Screens\<close>

record payment_screen =
  psc_creditor_name :: string
  psc_creditor_account :: string
  psc_amount_minor :: u64
  psc_currency :: string

record sign_screen =
  ss_document_name :: string
  ss_qtsp_id :: string
  ss_document_hash_hex :: string

datatype screen_format = Sf_DcSdJwt | Sf_MsoMdoc

datatype document_status = Ds_Preparing | Ds_Ready | Ds_NeedsAttention

record document_summary =
  dsu_document_id :: string
  dsu_document_name :: string
  dsu_issuer_name :: string
  dsu_format :: screen_format
  dsu_status :: document_status
  dsu_portrait_required :: bool

record display_attribute =
  da_label :: string
  da_value :: string

record credential_list_screen =
  cls_documents :: "document_summary list"

record credential_detail_screen =
  cds_document :: document_summary
  cds_attributes :: "display_attribute list"

record issuance_offer_screen =
  ios_issuer_name :: string
  ios_document_name :: string
  ios_format :: screen_format
  ios_attributes :: "string list"
  ios_portrait_required :: bool

datatype nfc_read_state = WaitingForCard | Nfc_Reading | ConnectionLost

datatype issuance_recovery =
    WrongPin
  | PinBlocked
  | NfcInterrupted
  | NfcUnavailable
  | IssuerRejected
  | NetworkInterrupted
  | Delayed
  | SessionInterrupted

record issuance_recovery_screen =
  irs_reason :: issuance_recovery
  irs_document_name :: string
  irs_attempts_remaining :: "u8 option"
  irs_can_resume :: bool

datatype verifier_registration = Vr_Registered | Vr_CertificateValidated

datatype verifier_trust_mark = Vt_EudiWallet

datatype retention_disclosure = Rd_NotStored | Rd_Days u16 | Rd_Unspecified

datatype over_ask_result =
    WithinRegisteredScope
  | ExceedsRegisteredScope "string list"
  | RegistrationScopeUnavailable

record activechain_context =
  ac_principal_id :: string
  ac_chain_id :: string
  ac_resource_commitment :: string
  ac_action_id :: string
  ac_purpose_commitment :: string
  ac_audience_id :: string
  ac_issuer_binding_commitment :: string
  ac_credential_profile_commitment :: string
  ac_assurance :: string
  ac_policy_revision :: u64
  ac_nonce_commitment :: string
  ac_expires_at :: u64
  ac_linkability :: string
  ac_value_minor :: u64
  ac_fee_minor :: u64
  ac_capability_action_commitment :: string

record consent_screen =
  csc_rp_display_name :: string
  csc_purpose :: string
  csc_requested_claims :: "string list"
  csc_not_shared_claims :: "string list"
  csc_verifier_registration :: verifier_registration
  csc_trust_mark :: "verifier_trust_mark option"
  csc_retention :: retention_disclosure
  csc_over_ask :: over_ask_result
  csc_activechain :: "activechain_context option"

datatype screen_description =
    Sc_Loading
  | Sc_Error string string
  | Sc_Consent consent_screen
  | Sc_PaymentConfirmation payment_screen
  | Sc_SignConfirmation sign_screen
  | Sc_CredentialList credential_list_screen
  | Sc_CredentialDetail credential_detail_screen
  | Sc_IssuanceOffer issuance_offer_screen
  | Sc_PinPreparation string
  | Sc_PinHelp
  | Sc_NfcReady string
  | Sc_NfcReading nfc_read_state
  | Sc_IssuancePreparing document_summary
  | Sc_IssuanceReady document_summary
  | Sc_IssuanceNeedsAttention document_summary issuance_recovery
  | Sc_IssuanceRecovery issuance_recovery_screen
  | Sc_PresentQr
  | Sc_ScanQr
  | Sc_AuthPrompt
  | Sc_TransactionHistory
  | Sc_ProximityConsent "string list"
  | Sc_DcApiConsent string "string list"

section \<open>Presentation\<close>

datatype screen_kind = Sk_Loading | Sk_Consent | Sk_CredentialList | Sk_Error

record snapshot =
  sn_screen :: "screen_kind option"
  sn_consent :: consent_screen
  sn_error :: "(string \<times> string) option"

definition present :: "snapshot \<Rightarrow> screen_description" where
  "present s =
     (case sn_screen s of
        Some Sk_Consent \<Rightarrow> Sc_Consent (sn_consent s)
      | Some Sk_CredentialList \<Rightarrow> Sc_CredentialList \<lparr>cls_documents = []\<rparr>
      | Some Sk_Error \<Rightarrow> (let (c, m) = unwrap_or ([], []) (sn_error s) in Sc_Error c m)
      | _ \<Rightarrow> Sc_Loading)"

definition minimum_claim_set :: "string list \<Rightarrow> string list \<Rightarrow> string list" where
  "minimum_claim_set requested held = remdups_adj (sort (filter (\<lambda>r. r \<in> set held) requested))"

section \<open>Canonical bytes\<close>

definition texts_value :: "string list \<Rightarrow> cbor_value" where
  "texts_value ts = Array (map Text ts)"

definition activechain_consent_value :: "activechain_context \<Rightarrow> cbor_value" where
  "activechain_consent_value c = Array [Text ''activechain-v1'', Text (ac_principal_id c), Text (ac_chain_id c),
     Text (ac_resource_commitment c), Text (ac_action_id c), Text (ac_purpose_commitment c), Text (ac_audience_id c),
     Text (ac_issuer_binding_commitment c), Text (ac_credential_profile_commitment c), Text (ac_assurance c),
     Uint (ac_policy_revision c), Text (ac_nonce_commitment c), Uint (ac_expires_at c), Text (ac_linkability c),
     Uint (ac_value_minor c), Uint (ac_fee_minor c), Text (ac_capability_action_commitment c)]"

definition credential_format_value :: "screen_format \<Rightarrow> cbor_value" where
  "credential_format_value f = Text (case f of Sf_DcSdJwt \<Rightarrow> ''dcSdJwt'' | Sf_MsoMdoc \<Rightarrow> ''msoMdoc'')"

definition document_status_value :: "document_status \<Rightarrow> cbor_value" where
  "document_status_value s =
     Text (case s of Ds_Preparing \<Rightarrow> ''preparing'' | Ds_Ready \<Rightarrow> ''ready'' | Ds_NeedsAttention \<Rightarrow> ''needsAttention'')"

definition document_summary_value :: "document_summary \<Rightarrow> cbor_value" where
  "document_summary_value d = Array [Text (dsu_document_id d), Text (dsu_document_name d), Text (dsu_issuer_name d),
     credential_format_value (dsu_format d), document_status_value (dsu_status d), Bool (dsu_portrait_required d)]"

definition document_summaries_value :: "document_summary list \<Rightarrow> cbor_value" where
  "document_summaries_value ds = Array (map document_summary_value ds)"

definition issuance_recovery_value :: "issuance_recovery \<Rightarrow> cbor_value" where
  "issuance_recovery_value r =
     Text (case r of
         WrongPin \<Rightarrow> ''wrongPin'' | PinBlocked \<Rightarrow> ''pinBlocked'' | NfcInterrupted \<Rightarrow> ''nfcInterrupted''
       | NfcUnavailable \<Rightarrow> ''nfcUnavailable'' | IssuerRejected \<Rightarrow> ''issuerRejected''
       | NetworkInterrupted \<Rightarrow> ''networkInterrupted'' | Delayed \<Rightarrow> ''delayed'' | SessionInterrupted \<Rightarrow> ''sessionInterrupted'')"

definition registration_value :: "verifier_registration \<Rightarrow> cbor_value" where
  "registration_value r =
     Text (case r of Vr_Registered \<Rightarrow> ''registered'' | Vr_CertificateValidated \<Rightarrow> ''certificateValidated'')"

definition trust_mark_value :: "verifier_trust_mark option \<Rightarrow> cbor_value" where
  "trust_mark_value t = (case t of Some Vt_EudiWallet \<Rightarrow> Text ''eudiWallet'' | None \<Rightarrow> Null)"

definition retention_value :: "retention_disclosure \<Rightarrow> cbor_value" where
  "retention_value r =
     (case r of
        Rd_NotStored \<Rightarrow> Array [Text ''notStored'']
      | Rd_Days days \<Rightarrow> Array [Text ''days'', Uint (ucast days)]
      | Rd_Unspecified \<Rightarrow> Array [Text ''unspecified''])"

definition over_ask_value :: "over_ask_result \<Rightarrow> cbor_value" where
  "over_ask_value r =
     (case r of
        WithinRegisteredScope \<Rightarrow> Array [Text ''withinRegisteredScope'']
      | ExceedsRegisteredScope claims \<Rightarrow> Array [Text ''exceedsRegisteredScope'', texts_value claims]
      | RegistrationScopeUnavailable \<Rightarrow> Array [Text ''registrationScopeUnavailable''])"

definition optional_value :: "('a \<Rightarrow> cbor_value) \<Rightarrow> 'a option \<Rightarrow> cbor_value" where
  "optional_value f x = (case x of None \<Rightarrow> Null | Some v \<Rightarrow> f v)"

definition consent_fields :: "consent_screen \<Rightarrow> cbor_value list" where
  "consent_fields c =
     [Text (csc_rp_display_name c), Text (csc_purpose c), texts_value (csc_requested_claims c),
      texts_value (csc_not_shared_claims c), registration_value (csc_verifier_registration c),
      trust_mark_value (csc_trust_mark c), retention_value (csc_retention c), over_ask_value (csc_over_ask c),
      optional_value activechain_consent_value (csc_activechain c)]"

definition nfc_state_value :: "nfc_read_state \<Rightarrow> cbor_value" where
  "nfc_state_value st =
     Text (case st of WaitingForCard \<Rightarrow> ''waitingForCard'' | Nfc_Reading \<Rightarrow> ''reading'' | ConnectionLost \<Rightarrow> ''connectionLost'')"

definition attribute_value :: "display_attribute \<Rightarrow> cbor_value" where
  "attribute_value a = Array [Text (da_label a), Text (da_value a)]"

fun screen_value :: "screen_description \<Rightarrow> cbor_value" where
  "screen_value Sc_Loading = Array [Text ''loading'']"
| "screen_value (Sc_Error code message) = Array [Text ''error'', Text code, Text message]"
| "screen_value (Sc_Consent c) = Array (Text ''consent'' # consent_fields c)"
| "screen_value (Sc_PaymentConfirmation p) = Array [Text ''paymentConfirmation'', Text (psc_creditor_name p),
     Text (psc_creditor_account p), Uint (psc_amount_minor p), Text (psc_currency p)]"
| "screen_value (Sc_SignConfirmation s) = Array [Text ''signConfirmation'', Text (ss_document_name s), Text (ss_qtsp_id s),
     Text (ss_document_hash_hex s)]"
| "screen_value (Sc_CredentialList s) = Array [Text ''credentialList'', document_summaries_value (cls_documents s)]"
| "screen_value (Sc_CredentialDetail s) = Array [Text ''credentialDetail'', document_summary_value (cds_document s),
     Array (map attribute_value (cds_attributes s))]"
| "screen_value (Sc_IssuanceOffer s) = Array [Text ''issuanceOffer'', Text (ios_issuer_name s), Text (ios_document_name s),
     credential_format_value (ios_format s), texts_value (ios_attributes s), Bool (ios_portrait_required s)]"
| "screen_value (Sc_PinPreparation document_name) = Array [Text ''pinPreparation'', Text document_name]"
| "screen_value Sc_PinHelp = Array [Text ''pinHelp'']"
| "screen_value (Sc_NfcReady document_name) = Array [Text ''nfcReady'', Text document_name]"
| "screen_value (Sc_NfcReading st) = Array [Text ''nfcReading'', nfc_state_value st]"
| "screen_value (Sc_IssuancePreparing d) = Array [Text ''issuancePreparing'', document_summary_value d]"
| "screen_value (Sc_IssuanceReady d) = Array [Text ''issuanceReady'', document_summary_value d]"
| "screen_value (Sc_IssuanceNeedsAttention d r) =
     Array [Text ''issuanceNeedsAttention'', document_summary_value d, issuance_recovery_value r]"
| "screen_value (Sc_IssuanceRecovery s) = Array [Text ''issuanceRecovery'', issuance_recovery_value (irs_reason s),
     Text (irs_document_name s),
     optional_value (\<lambda>attempts. Uint (ucast attempts)) (irs_attempts_remaining s), Bool (irs_can_resume s)]"
| "screen_value Sc_PresentQr = Array [Text ''presentQr'']"
| "screen_value Sc_ScanQr = Array [Text ''scanQr'']"
| "screen_value Sc_AuthPrompt = Array [Text ''authPrompt'']"
| "screen_value Sc_TransactionHistory = Array [Text ''transactionHistory'']"
| "screen_value (Sc_ProximityConsent claims) = Array [Text ''proximityConsent'', texts_value claims]"
| "screen_value (Sc_DcApiConsent origin claims) = Array [Text ''dcApiConsent'', Text origin, texts_value claims]"

definition screen_canonical_bytes :: "screen_description \<Rightarrow> bytes" where
  "screen_canonical_bytes screen = to_canonical (screen_value screen)"

definition consent_hash :: "digest \<Rightarrow> screen_description \<Rightarrow> bytes" where
  "consent_hash digest screen = digest (screen_canonical_bytes screen)"

section \<open>The bytes determine the screen\<close>

lemma texts_value_inject [simp]: "texts_value a = texts_value b \<longleftrightarrow> a = b"
  by (auto simp: texts_value_def inj_def intro: map_injective)

lemma activechain_value_inject [simp]: "activechain_consent_value a = activechain_consent_value b \<longleftrightarrow> a = b"
  by (cases a; cases b) (auto simp: activechain_consent_value_def)

lemma format_value_inject [simp]: "credential_format_value a = credential_format_value b \<longleftrightarrow> a = b"
  by (cases a; cases b) (simp_all add: credential_format_value_def)

lemma status_value_inject [simp]: "document_status_value a = document_status_value b \<longleftrightarrow> a = b"
  by (cases a; cases b) (simp_all add: document_status_value_def)

lemma summary_value_inject [simp]: "document_summary_value a = document_summary_value b \<longleftrightarrow> a = b"
  by (cases a; cases b) (auto simp: document_summary_value_def)

lemma summaries_value_inject [simp]: "document_summaries_value a = document_summaries_value b \<longleftrightarrow> a = b"
  by (auto simp: document_summaries_value_def inj_def intro: map_injective)

lemma recovery_value_inject [simp]: "issuance_recovery_value a = issuance_recovery_value b \<longleftrightarrow> a = b"
  by (cases a; cases b) (simp_all add: issuance_recovery_value_def)

lemma ucast_up_inject [simp]:
  "(ucast (a :: u16) :: u64) = ucast b \<longleftrightarrow> a = b" "(ucast (c :: u8) :: u64) = ucast d \<longleftrightarrow> c = d"
proof -
  have "(ucast (ucast x :: u64) :: u16) = x" "(ucast (ucast y :: u64) :: u8) = y" for x :: u16 and y :: u8
    by (simp_all add: ucast_up_ucast_id is_up)
  then show "(ucast a :: u64) = ucast b \<longleftrightarrow> a = b" "(ucast c :: u64) = ucast d \<longleftrightarrow> c = d"
    by metis+
qed

lemma registration_value_inject [simp]: "registration_value a = registration_value b \<longleftrightarrow> a = b"
  by (cases a; cases b) (simp_all add: registration_value_def)

lemma trust_mark_value_inject [simp]: "trust_mark_value a = trust_mark_value b \<longleftrightarrow> a = b"
proof -
  have "x = Vt_EudiWallet" for x by (cases x)
  then have "x = None \<or> x = Some Vt_EudiWallet" for x by (metis option.exhaust)
  from this [of a] this [of b] show ?thesis by (elim disjE) (simp_all add: trust_mark_value_def)
qed

lemma retention_value_inject [simp]: "retention_value a = retention_value b \<longleftrightarrow> a = b"
  by (cases a; cases b) (simp_all add: retention_value_def)

lemma over_ask_value_inject [simp]: "over_ask_value a = over_ask_value b \<longleftrightarrow> a = b"
  by (cases a; cases b) (simp_all add: over_ask_value_def)

lemma nfc_state_value_inject [simp]: "nfc_state_value a = nfc_state_value b \<longleftrightarrow> a = b"
  by (cases a; cases b) (simp_all add: nfc_state_value_def)

lemma attribute_values_inject [simp]: "map attribute_value a = map attribute_value b \<longleftrightarrow> a = b"
proof -
  have "inj attribute_value"
  proof (rule injI)
    fix x y assume "attribute_value x = attribute_value y"
    then show "x = y" by (cases x; cases y) (simp add: attribute_value_def)
  qed
  then show ?thesis by (simp add: inj_map_eq_map)
qed

lemma optional_activechain_inject [simp]:
  "optional_value activechain_consent_value a = optional_value activechain_consent_value b \<longleftrightarrow> a = b"
  by (cases a; cases b) (simp_all add: optional_value_def, simp_all add: activechain_consent_value_def)

lemma optional_attempts_inject [simp]:
  "optional_value (\<lambda>n :: u8. Uint (ucast n)) a = optional_value (\<lambda>n. Uint (ucast n)) b \<longleftrightarrow> a = b"
  by (cases a; cases b) (simp_all add: optional_value_def)

lemma consent_fields_inject [simp]: "consent_fields a = consent_fields b \<longleftrightarrow> a = b"
  by (cases a; cases b) (auto simp: consent_fields_def)

lemma screen_records_eq:
  "(p :: payment_screen) = p' \<longleftrightarrow> psc_creditor_name p = psc_creditor_name p' \<and> psc_creditor_account p = psc_creditor_account p'
     \<and> psc_amount_minor p = psc_amount_minor p' \<and> psc_currency p = psc_currency p'"
  "(s :: sign_screen) = s' \<longleftrightarrow> ss_document_name s = ss_document_name s' \<and> ss_qtsp_id s = ss_qtsp_id s'
     \<and> ss_document_hash_hex s = ss_document_hash_hex s'"
  "(l :: credential_list_screen) = l' \<longleftrightarrow> cls_documents l = cls_documents l'"
  "(d :: credential_detail_screen) = d' \<longleftrightarrow> cds_document d = cds_document d' \<and> cds_attributes d = cds_attributes d'"
  "(i :: issuance_offer_screen) = i' \<longleftrightarrow> ios_issuer_name i = ios_issuer_name i' \<and> ios_document_name i = ios_document_name i'
     \<and> ios_format i = ios_format i' \<and> ios_attributes i = ios_attributes i' \<and> ios_portrait_required i = ios_portrait_required i'"
  "(r :: issuance_recovery_screen) = r' \<longleftrightarrow> irs_reason r = irs_reason r' \<and> irs_document_name r = irs_document_name r'
     \<and> irs_attempts_remaining r = irs_attempts_remaining r' \<and> irs_can_resume r = irs_can_resume r'"
  by (auto intro: payment_screen.equality sign_screen.equality credential_list_screen.equality
      credential_detail_screen.equality issuance_offer_screen.equality issuance_recovery_screen.equality)

lemma screen_value_inject: "screen_value a = screen_value b \<longleftrightarrow> a = b"
  by (cases a; cases b) (simp_all add: screen_records_eq)

text \<open>A screen whose texts are well-formed UTF-8 and whose texts and lists are shorter than \<open>2 ^ 64\<close>, as
  the types of the source guarantee.\<close>

definition representable :: "screen_description \<Rightarrow> bool" where
  "representable s \<longleftrightarrow> canonical (screen_value s)"

lemmas value_defs = texts_value_def activechain_consent_value_def credential_format_value_def document_status_value_def
  document_summary_value_def document_summaries_value_def issuance_recovery_value_def registration_value_def
  trust_mark_value_def retention_value_def over_ask_value_def optional_value_def nfc_state_value_def attribute_value_def

lemma field_depths [simp]:
  "d + 2 \<le> MAX_DEPTH \<Longrightarrow> within_depth d (texts_value ts)"
  "d + 2 \<le> MAX_DEPTH \<Longrightarrow> within_depth d (activechain_consent_value c)"
  "d \<le> MAX_DEPTH \<Longrightarrow> within_depth d (credential_format_value f)"
  "d \<le> MAX_DEPTH \<Longrightarrow> within_depth d (document_status_value st)"
  "d + 2 \<le> MAX_DEPTH \<Longrightarrow> within_depth d (document_summary_value ds)"
  "d \<le> MAX_DEPTH \<Longrightarrow> within_depth d (issuance_recovery_value r)"
  "d \<le> MAX_DEPTH \<Longrightarrow> within_depth d (registration_value vr)"
  "d + 2 \<le> MAX_DEPTH \<Longrightarrow> within_depth d (retention_value rd)"
  "d + 3 \<le> MAX_DEPTH \<Longrightarrow> within_depth d (over_ask_value oa)"
  "d \<le> MAX_DEPTH \<Longrightarrow> within_depth d (nfc_state_value n)"
  "d + 2 \<le> MAX_DEPTH \<Longrightarrow> within_depth d (attribute_value av)"
  by (auto simp: value_defs list_all_iff split: retention_disclosure.splits over_ask_result.splits)

lemma trust_mark_depth [simp]: "d \<le> MAX_DEPTH \<Longrightarrow> within_depth d (trust_mark_value t)"
  by (auto simp: trust_mark_value_def split: option.splits verifier_trust_mark.splits)

lemma screen_within_depth: "within_depth 0 (screen_value s)"
proof -
  have d: "n \<le> MAX_DEPTH" if "n \<le> 8" for n using that by (simp add: MAX_DEPTH_def)
  show ?thesis
    by (cases s) (auto simp: d consent_fields_def document_summaries_value_def optional_value_def list_all_iff split: option.splits)
qed

text \<open>C26. What you see is what you sign: the consent hashes of two screens agree exactly when the screens
  are the same, field by field, unless the digest has a collision on their canonical bytes.\<close>

theorem consent_hash_determines_screen:
  assumes "representable a" "representable b"
    and "digest (screen_canonical_bytes a) = digest (screen_canonical_bytes b)
      \<Longrightarrow> screen_canonical_bytes a = screen_canonical_bytes b"
  shows "consent_hash digest a = consent_hash digest b \<longleftrightarrow> a = b"
proof
  assume "consent_hash digest a = consent_hash digest b"
  then have "to_canonical (screen_value a) = to_canonical (screen_value b)"
    using assms(3) by (simp add: consent_hash_def screen_canonical_bytes_def)
  then have "screen_value a = screen_value b"
    using cbor.enc_inject [of "screen_value a" "screen_value b"] assms(1,2) screen_within_depth
    by (simp add: representable_def)
  then show "a = b" by (simp add: screen_value_inject)
qed simp

definition shop_screen :: screen_description where
  "shop_screen = Sc_PaymentConfirmation \<lparr>psc_creditor_name = ''Shop'', psc_creditor_account = ''DE1'', psc_amount_minor = 500,
     psc_currency = ''EUR''\<rparr>"

theorem consent_hash_determines_screen_witness:
  "consent_hash (\<lambda>b. b) shop_screen \<noteq> consent_hash (\<lambda>b. b) (Sc_DcApiConsent ''https://rp'' [''age''])"
  using consent_hash_determines_screen [of shop_screen "Sc_DcApiConsent ''https://rp'' [''age'']" "\<lambda>b. b"]
  by (simp add: representable_def shop_screen_def texts_value_def valid_str_def valid_utf8_def as_bytes_def)

lemma distinct_remdups_adj_sorted: "sorted xs \<Longrightarrow> distinct (remdups_adj xs)"
  by (induction xs rule: remdups_adj.induct) (auto simp: order.antisym)

text \<open>The minimum claim set holds exactly the requested claims that are held, each once, in order.\<close>

lemma minimum_claim_set_exact:
  "set (minimum_claim_set requested held) = set requested \<inter> set held"
  "sorted (minimum_claim_set requested held)" "distinct (minimum_claim_set requested held)"
  by (auto simp: minimum_claim_set_def distinct_remdups_adj_sorted)

end
