(* ===== verification/Payment.thy ===== *)
theory Payment
  imports Cbor "HOL-Library.Monad_Syntax"
begin

text \<open>
  Payment strong customer authentication, \<open>crates/payment/src/lib.rs\<close>: the request, the
  dynamic-linking binding, the production state machine \<open>step\<close>, the \<open>transaction_data\<close> carrier
  and the crate's reference model.

  The JSON parser, base64url and SHA-256 are arguments (\<open>from_slice\<close>, \<open>b64_decode\<close>,
  \<open>b64_encode\<close>, \<open>sha256\<close>).
\<close>

section \<open>Data\<close>

record payment_request =
  creditor_name :: string
  creditor_account :: string
  amount_minor :: u64
  currency :: string
  transaction_id :: string
  pay_nonce :: u64
  pay_response_uri :: string

record pay_pending_authorization =
  pay_request :: payment_request
  pay_binding :: bytes

datatype pay_abort_reason =
    Pay_MalformedRequest
  | Pay_InvalidAmount
  | Pay_PayeeMissing
  | Pay_NonceReplayed
  | Pay_UserDeclined

datatype pay_state =
    Pay_Idle
  | Pay_AwaitingConfirmation payment_request
  | Pay_AwaitingSca pay_pending_authorization
  | Pay_Authorized bytes
  | Pay_Aborted pay_abort_reason

datatype pay_input =
    PaymentAuthorizationRequest bytes
  | Pay_In_UserApproved
  | Pay_In_UserDeclined
  | AuthCodeSignatureProduced bytes

datatype pay_output =
    RenderPaymentConfirmation string string u64 string
  | SignAuthCode string bytes
  | SendAuthorization bytes
  | Pay_Close

record pay_env =
  pay_seen_nonces :: "u64 list"
  pay_device_key_ref :: string

section \<open>Operations\<close>

definition dynamic_linking_value :: "payment_request \<Rightarrow> cbor_value" where
  "dynamic_linking_value req =
     Array
       [Text ''eudi-payment-sca-v1'',
        Text (creditor_name req),
        Text (creditor_account req),
        Uint (amount_minor req),
        Text (currency req),
        Text (transaction_id req),
        Uint (pay_nonce req)]"

definition dynamic_linking_binding :: "payment_request \<Rightarrow> bytes" where
  "dynamic_linking_binding req = to_canonical (dynamic_linking_value req)"

text \<open>The payment fields of a JSON object, shared by the two parsers of the crate.\<close>

definition payment_fields :: "json \<Rightarrow> payment_request option" where
  "payment_fields v = do {
     name \<leftarrow> json_get_str ''creditor_name'' v;
     account \<leftarrow> json_get_str ''creditor_account'' v;
     amount \<leftarrow> json_get_u64 ''amount_minor'' v;
     curr \<leftarrow> json_get_str ''currency'' v;
     n \<leftarrow> json_get_u64 ''nonce'' v;
     Some \<lparr>creditor_name = name, creditor_account = account, amount_minor = amount,
       currency = curr, transaction_id = unwrap_or [] (json_get_str ''transaction_id'' v),
       pay_nonce = n, pay_response_uri = unwrap_or [] (json_get_str ''response_uri'' v)\<rparr>
   }"

definition pay_parse_request :: "(bytes \<Rightarrow> json option) \<Rightarrow> bytes \<Rightarrow> payment_request option" where
  "pay_parse_request from_slice bytes = do { v \<leftarrow> from_slice bytes; payment_fields v }"

definition pay_step ::
    "(bytes \<Rightarrow> json option) \<Rightarrow> pay_env \<Rightarrow> pay_state \<Rightarrow> pay_input \<Rightarrow> pay_state \<times> pay_output list" where
  "pay_step from_slice env state input =
     (case (state, input) of
        (Pay_Idle, PaymentAuthorizationRequest bytes) \<Rightarrow>
          (case pay_parse_request from_slice bytes of
             Some req \<Rightarrow>
               if amount_minor req = 0 then (Pay_Aborted Pay_InvalidAmount, [])
               else if str_is_blank (creditor_name req) \<or> str_is_blank (creditor_account req) then
                 (Pay_Aborted Pay_PayeeMissing, [])
               else if pay_nonce req \<in> set (pay_seen_nonces env) then
                 (Pay_Aborted Pay_NonceReplayed, [])
               else
                 (Pay_AwaitingConfirmation req,
                  [RenderPaymentConfirmation (creditor_name req) (creditor_account req)
                     (amount_minor req) (currency req)])
           | None \<Rightarrow> (Pay_Aborted Pay_MalformedRequest, []))
      | (Pay_AwaitingConfirmation req, Pay_In_UserApproved) \<Rightarrow>
          (let binding = dynamic_linking_binding req in
           (Pay_AwaitingSca \<lparr>pay_request = req, pay_binding = binding\<rparr>,
            [SignAuthCode (pay_device_key_ref env) binding]))
      | (Pay_AwaitingConfirmation _, Pay_In_UserDeclined) \<Rightarrow>
          (Pay_Aborted Pay_UserDeclined, [Pay_Close])
      | (Pay_AwaitingSca _, AuthCodeSignatureProduced sig) \<Rightarrow>
          (Pay_Authorized sig, [SendAuthorization sig, Pay_Close])
      | (s, _) \<Rightarrow> (s, []))"

section \<open>Transaction data\<close>

record payment_transaction_data =
  td_kind :: string
  td_credential_ids :: "string list"
  td_request :: payment_request
  td_raw_b64 :: string

definition transaction_data_parse ::
    "(string \<Rightarrow> bytes option) \<Rightarrow> (bytes \<Rightarrow> json option) \<Rightarrow> string \<Rightarrow> payment_transaction_data option" where
  "transaction_data_parse b64_decode from_slice entry_b64 = do {
     js \<leftarrow> b64_decode entry_b64;
     v \<leftarrow> from_slice js;
     let credential_ids = unwrap_or [] (map_option (List.map_filter json_as_str)
           (Option.bind (json_get ''credential_ids'' v) json_as_array));
     kind \<leftarrow> json_get_str ''type'' v;
     req \<leftarrow> payment_fields v;
     Some \<lparr>td_kind = kind, td_credential_ids = credential_ids, td_request = req,
       td_raw_b64 = entry_b64\<rparr>
   }"

definition transaction_data_hash ::
    "(bytes \<Rightarrow> string) \<Rightarrow> (bytes \<Rightarrow> bytes) \<Rightarrow> string \<Rightarrow> string" where
  "transaction_data_hash b64_encode sha256 entry_b64 = b64_encode (sha256 (as_bytes entry_b64))"

section \<open>The reference model\<close>

record pay_payment =
  payee :: string
  pay_amount :: u64
  pm_nonce :: u64

datatype pay_st =
    PM_Idle
  | PM_AwaitingConfirmation pay_payment
  | PM_AwaitingSca pay_payment
  | PM_Authorized pay_payment
  | PM_Aborted

datatype pay_ev = PM_Request pay_payment | PM_Approve | PM_Decline | PM_Sign

record pay_ctx =
  pm_st :: pay_st
  pm_seen :: "u64 list"
  pm_confirmed :: "pay_payment option"
  pm_approved :: bool

definition pay_model_init :: pay_ctx where
  "pay_model_init = \<lparr>pm_st = PM_Idle, pm_seen = [], pm_confirmed = None, pm_approved = False\<rparr>"

definition pay_model_step :: "pay_ctx \<Rightarrow> pay_ev \<Rightarrow> pay_ctx" where
  "pay_model_step c ev =
     (case ev of
        PM_Request p \<Rightarrow>
          (case pm_st c of
             PM_Idle \<Rightarrow>
               if pay_amount p = 0 then c\<lparr>pm_st := PM_Aborted\<rparr>
               else if pm_nonce p \<in> set (pm_seen c) then c\<lparr>pm_st := PM_Aborted\<rparr>
               else c\<lparr>pm_st := PM_AwaitingConfirmation p, pm_confirmed := Some p,
                      pm_seen := pm_seen c @ [pm_nonce p]\<rparr>
           | _ \<Rightarrow> c)
      | PM_Approve \<Rightarrow>
          (case pm_st c of
             PM_AwaitingConfirmation p \<Rightarrow> c\<lparr>pm_st := PM_AwaitingSca p, pm_approved := True\<rparr>
           | _ \<Rightarrow> c)
      | PM_Decline \<Rightarrow>
          (case pm_st c of PM_AwaitingConfirmation _ \<Rightarrow> c\<lparr>pm_st := PM_Aborted\<rparr> | _ \<Rightarrow> c)
      | PM_Sign \<Rightarrow>
          (case pm_st c of PM_AwaitingSca p \<Rightarrow> c\<lparr>pm_st := PM_Authorized p\<rparr> | _ \<Rightarrow> c))"

definition pay_model_run :: "pay_ev list \<Rightarrow> pay_ctx" where
  "pay_model_run evs = foldl pay_model_step pay_model_init evs"

definition pay_state_name :: "pay_st \<Rightarrow> string" where
  "pay_state_name st =
     (case st of
        PM_Idle \<Rightarrow> ''idle''
      | PM_AwaitingConfirmation _ \<Rightarrow> ''awaitingConfirmation''
      | PM_AwaitingSca _ \<Rightarrow> ''awaitingSca''
      | PM_Authorized _ \<Rightarrow> ''authorized''
      | PM_Aborted \<Rightarrow> ''aborted'')"

definition pay_bound :: "pay_ctx \<Rightarrow> bool" where
  "pay_bound c = (case pm_st c of PM_Authorized p \<Rightarrow> pm_confirmed c = Some p | _ \<Rightarrow> False)"


section \<open>Dynamic linking\<close>

text \<open>What the Rust types guarantee of a request: UTF-8 strings that fit in memory.\<close>

definition valid_request :: "payment_request \<Rightarrow> bool" where
  "valid_request r \<longleftrightarrow>
     list_all (\<lambda>s. valid_str s \<and> length s < 2 ^ 64)
       [creditor_name r, creditor_account r, currency r, transaction_id r]"

lemma dynamic_linking_accepted: "valid_request r \<Longrightarrow> cbor_accepted (dynamic_linking_value r)"
  by (simp add: valid_request_def dynamic_linking_value_def MAX_DEPTH_def valid_str_def valid_utf8_def
      as_bytes_def)

text \<open>
  C27. Dynamic linking (PSD2 RTS Art. 5): two requests have the same signed binding exactly when
  they agree on creditor name, creditor account, amount, currency, transaction id and nonce.
  Changing any of them changes the bytes the device key signs.
\<close>

theorem dynamic_linking_binds:
  assumes "valid_request r" "valid_request r'"
  shows "dynamic_linking_binding r = dynamic_linking_binding r' \<longleftrightarrow>
    creditor_name r = creditor_name r' \<and> creditor_account r = creditor_account r'
    \<and> amount_minor r = amount_minor r' \<and> currency r = currency r'
    \<and> transaction_id r = transaction_id r' \<and> pay_nonce r = pay_nonce r'"
  unfolding dynamic_linking_binding_def
  using cbor.enc_inject [OF dynamic_linking_accepted dynamic_linking_accepted, OF assms]
  by (simp add: dynamic_linking_value_def)

definition sample_request :: payment_request where
  "sample_request = \<lparr>creditor_name = ''Acme'', creditor_account = ''DE89'', amount_minor = 1299,
     currency = ''EUR'', transaction_id = ''t1'', pay_nonce = 7, pay_response_uri = []\<rparr>"

lemma sample_request_valid: "valid_request sample_request" "valid_request (sample_request\<lparr>amount_minor := 9999\<rparr>)"
  by (simp_all add: valid_request_def sample_request_def valid_str_def valid_utf8_def as_bytes_def)

theorem dynamic_linking_binds_witness:
  "dynamic_linking_binding sample_request \<noteq> dynamic_linking_binding (sample_request\<lparr>amount_minor := 9999\<rparr>)"
  using dynamic_linking_binds [OF sample_request_valid] by (simp add: sample_request_def)

section \<open>The consent gate\<close>

definition pay_shown :: "pay_state \<Rightarrow> payment_request option" where
  "pay_shown s = (case s of Pay_AwaitingConfirmation r \<Rightarrow> Some r | _ \<Rightarrow> None)"

definition pay_pending :: "pay_state \<Rightarrow> payment_request option" where
  "pay_pending s = (case s of Pay_AwaitingSca p \<Rightarrow> Some (pay_request p) | _ \<Rightarrow> None)"

definition pay_renders :: "payment_request \<Rightarrow> pay_output \<Rightarrow> bool" where
  "pay_renders r out \<longleftrightarrow>
     out = RenderPaymentConfirmation (creditor_name r) (creditor_account r) (amount_minor r) (currency r)"

definition pay_release :: "pay_output \<Rightarrow> bool" where
  "pay_release out = (case out of SendAuthorization _ \<Rightarrow> True | _ \<Rightarrow> False)"

definition pay_finished :: "pay_state \<Rightarrow> bool" where
  "pay_finished s = (case s of Pay_Authorized _ \<Rightarrow> True | Pay_Aborted _ \<Rightarrow> True | _ \<Rightarrow> False)"

lemmas pay_flow_defs = pay_step_def pay_shown_def pay_pending_def pay_renders_def pay_release_def
  pay_finished_def

lemmas pay_splits = pay_state.splits pay_input.splits pay_output.splits option.splits if_splits

interpretation pay: consent_gate "pay_step from_slice" pay_shown pay_pending pay_renders
  "\<lambda>i. i = Pay_In_UserApproved" pay_release for from_slice
  by unfold_locales (auto simp: pay_flow_defs Let_def split: pay_splits)

interpretation pay: single_release "pay_step from_slice" pay_release pay_finished for from_slice
  by unfold_locales (auto simp: pay_flow_defs Let_def split: pay_splits)


lemma pay_approval_signs_shown:
  assumes "pay_shown s = Some r"
  shows "snd (pay_step from_slice env s Pay_In_UserApproved)
    = [SignAuthCode (pay_device_key_ref env) (dynamic_linking_binding r)]"
  using assms by (auto simp: pay_flow_defs Let_def split: pay_splits)

lemma pay_release_is_signature:
  assumes "SendAuthorization code \<in> set (snd (pay_step from_slice env s i))"
  shows "i = AuthCodeSignatureProduced code"
  using assms by (auto simp: pay_flow_defs Let_def split: pay_splits)

text \<open>
  C28. What you see is what you sign: whenever a run from \<open>Idle\<close> sends an authentication code at
  step \<open>k\<close>, the code is the device signature delivered at that step; at an earlier step \<open>j\<close> the
  user approved and the wallet asked the device to sign exactly the dynamic-linking binding of a
  request \<open>r\<close>; and at a still earlier step \<open>m\<close> the payment confirmation screen showed that same
  \<open>r\<close> (creditor name, account, amount, currency).
\<close>

theorem payment_sends_only_what_was_approved:
  assumes "k < length xs"
    and "SendAuthorization code \<in> set (flow_outputs (pay_step from_slice) Pay_Idle xs ! k)"
  shows "\<exists>r j m. m < j \<and> j < k
    \<and> snd (xs ! k) = AuthCodeSignatureProduced code
    \<and> snd (xs ! j) = Pay_In_UserApproved
    \<and> flow_outputs (pay_step from_slice) Pay_Idle xs ! j
        = [SignAuthCode (pay_device_key_ref (fst (xs ! j))) (dynamic_linking_binding r)]
    \<and> RenderPaymentConfirmation (creditor_name r) (creditor_account r) (amount_minor r) (currency r)
        \<in> set (flow_outputs (pay_step from_slice) Pay_Idle xs ! m)"
proof -
  have code: "snd (xs ! k) = AuthCodeSignatureProduced code"
    using assms(2) by (intro pay_release_is_signature) (simp add: flow_outputs_nth [OF assms(1)])
  obtain r j m where mj: "m < j" and jk: "j < k" and ok: "snd (xs ! j) = Pay_In_UserApproved"
    and shown: "pay_shown (flow_state (pay_step from_slice) Pay_Idle (take j xs)) = Some r"
    and ren: "\<exists>out \<in> set (flow_outputs (pay_step from_slice) Pay_Idle xs ! m). pay_renders r out"
    using pay.release_after_approval [OF _ _ assms]
    by (auto simp: pay_shown_def pay_pending_def pay_release_def)
  have "flow_outputs (pay_step from_slice) Pay_Idle xs ! j
      = [SignAuthCode (pay_device_key_ref (fst (xs ! j))) (dynamic_linking_binding r)]"
    using jk assms(1) ok pay_approval_signs_shown [OF shown] by (simp add: flow_outputs_nth)
  with code mj jk ok ren show ?thesis by (auto simp: pay_renders_def)
qed

definition sample_payment_json :: json where
  "sample_payment_json = JObject
     [(''amount_minor'', JNumber (PosInt 1299)), (''creditor_account'', JString ''DE89''),
      (''creditor_name'', JString ''Acme''), (''currency'', JString ''EUR''),
      (''nonce'', JNumber (PosInt 7)), (''transaction_id'', JString ''t1'')]"

abbreviation sample_pay_run :: "(pay_env \<times> pay_input) list" where
  "sample_pay_run \<equiv> map (Pair \<lparr>pay_seen_nonces = [1], pay_device_key_ref = ''k''\<rparr>)
     [PaymentAuthorizationRequest [0], Pay_In_UserApproved, AuthCodeSignatureProduced [9]]"

lemma sample_payment_parses: "payment_fields sample_payment_json = Some sample_request"
  by (simp add: payment_fields_def sample_payment_json_def sample_request_def json_defs)

lemma sample_request_not_blank:
  "\<not> str_is_blank (creditor_name sample_request)" "\<not> str_is_blank (creditor_account sample_request)"
  by (simp_all add: sample_request_def str_is_blank_def as_bytes_def is_whitespace_def)

lemma sample_request_fields:
  "amount_minor sample_request = 1299" "pay_nonce sample_request = 7"
  "creditor_name sample_request = ''Acme''" "creditor_account sample_request = ''DE89''"
  "currency sample_request = ''EUR''"
  by (simp_all add: sample_request_def)

lemma sample_pay_outputs:
  "flow_outputs (pay_step (\<lambda>_. Some sample_payment_json)) Pay_Idle sample_pay_run
    = [[RenderPaymentConfirmation ''Acme'' ''DE89'' 1299 ''EUR''],
       [SignAuthCode ''k'' (dynamic_linking_binding sample_request)], [SendAuthorization [9], Pay_Close]]"
  using sample_request_not_blank
  by (simp add: pay_step_def pay_parse_request_def sample_payment_parses sample_request_fields Let_def)

theorem payment_sends_only_what_was_approved_witness:
  "\<exists>r j m. m < j \<and> j < 2 \<and> snd (sample_pay_run ! j) = Pay_In_UserApproved
    \<and> flow_outputs (pay_step (\<lambda>_. Some sample_payment_json)) Pay_Idle sample_pay_run ! j
        = [SignAuthCode ''k'' (dynamic_linking_binding r)]"
proof -
  have "SendAuthorization [9] \<in>
      set (flow_outputs (pay_step (\<lambda>_. Some sample_payment_json)) Pay_Idle sample_pay_run ! 2)"
    unfolding sample_pay_outputs by simp
  from payment_sends_only_what_was_approved [OF _ this] obtain r j m where
    w: "m < j" "j < 2" "snd (sample_pay_run ! j) = Pay_In_UserApproved"
      "flow_outputs (pay_step (\<lambda>_. Some sample_payment_json)) Pay_Idle sample_pay_run ! j
        = [SignAuthCode (pay_device_key_ref (fst (sample_pay_run ! j))) (dynamic_linking_binding r)]"
    by auto
  then have "pay_device_key_ref (fst (sample_pay_run ! j)) = ''k''"
    by (simp add: nth_map del: list.map)
  with w show ?thesis by metis
qed

text \<open>
  At most one authentication code leaves the wallet in a session, whatever the shell feeds it.
\<close>

theorem payment_authorizes_once:
  "length (filter pay_release (concat (flow_outputs (pay_step from_slice) s xs))) \<le> 1"
  by (rule pay.at_most_one_release)


section \<open>Refinement of the reference model\<close>

definition abs_payment :: "payment_request \<Rightarrow> pay_payment" where
  "abs_payment r = \<lparr>payee = creditor_name r, pay_amount = amount_minor r, pm_nonce = pay_nonce r\<rparr>"

text \<open>
  The model events a production step stands for. A request the production machine refuses before
  the amount check (unparseable) or for its payee has no model counterpart of its own; both abort,
  so they are the model's refused request, one with amount zero.
\<close>

definition refused_payment :: pay_payment where
  "refused_payment = \<lparr>payee = [], pay_amount = 0, pm_nonce = 0\<rparr>"

definition pay_events :: "(bytes \<Rightarrow> json option) \<Rightarrow> pay_env \<Rightarrow> pay_state \<Rightarrow> pay_input \<Rightarrow> pay_ev list" where
  "pay_events from_slice env s i =
     (case i of
        PaymentAuthorizationRequest b \<Rightarrow>
          [PM_Request
            (case pay_parse_request from_slice b of
               None \<Rightarrow> refused_payment
             | Some r \<Rightarrow>
                 if str_is_blank (creditor_name r) \<or> str_is_blank (creditor_account r)
                 then refused_payment else abs_payment r)]
      | Pay_In_UserApproved \<Rightarrow> [PM_Approve]
      | Pay_In_UserDeclined \<Rightarrow> [PM_Decline]
      | AuthCodeSignatureProduced _ \<Rightarrow> [PM_Sign])"

definition pay_related :: "pay_state \<Rightarrow> pay_ctx \<Rightarrow> bool" where
  "pay_related s c =
     (case s of
        Pay_Idle \<Rightarrow> pm_st c = PM_Idle
      | Pay_AwaitingConfirmation r \<Rightarrow>
          pm_st c = PM_AwaitingConfirmation (abs_payment r) \<and> pm_confirmed c = Some (abs_payment r)
      | Pay_AwaitingSca p \<Rightarrow>
          pm_st c = PM_AwaitingSca (abs_payment (pay_request p))
          \<and> pm_confirmed c = Some (abs_payment (pay_request p)) \<and> pm_approved c
          \<and> pay_binding p = dynamic_linking_binding (pay_request p)
      | Pay_Authorized _ \<Rightarrow> pay_bound c \<and> pm_approved c
      | Pay_Aborted _ \<Rightarrow> pm_st c = PM_Aborted)"

definition pay_admissible :: "pay_state \<Rightarrow> pay_ctx \<Rightarrow> pay_env \<Rightarrow> bool" where
  "pay_admissible s c env \<longleftrightarrow> set (pay_seen_nonces env) = set (pm_seen c) \<or> s \<noteq> Pay_Idle"

lemma pay_step_simulates:
  assumes "pay_related s c" "pay_admissible s c env"
  shows "pay_related (fst (pay_step from_slice env s i))
    (foldl pay_model_step c (pay_events from_slice env s i))"
  using assms
  by (cases s; cases i)
    (auto simp: pay_related_def pay_admissible_def pay_step_def pay_events_def pay_model_step_def
      pay_bound_def abs_payment_def refused_payment_def Let_def split: option.splits pay_st.splits)

interpretation pay: flow_simulation "pay_step from_slice" pay_model_step pay_related
  "pay_events from_slice" pay_admissible for from_slice
  by unfold_locales (rule pay_step_simulates)

definition pay_model_inv :: "pay_ctx \<Rightarrow> bool" where
  "pay_model_inv c =
     (case pm_st c of
        PM_AwaitingConfirmation p \<Rightarrow> pm_confirmed c = Some p \<and> pay_amount p \<noteq> 0 \<and> pm_nonce p \<in> set (pm_seen c)
      | PM_AwaitingSca p \<Rightarrow>
          pm_confirmed c = Some p \<and> pm_approved c \<and> pay_amount p \<noteq> 0 \<and> pm_nonce p \<in> set (pm_seen c)
      | PM_Authorized p \<Rightarrow>
          pm_confirmed c = Some p \<and> pm_approved c \<and> pay_amount p \<noteq> 0 \<and> pm_nonce p \<in> set (pm_seen c)
      | _ \<Rightarrow> True)"

lemma pay_model_step_inv: "pay_model_inv c \<Longrightarrow> pay_model_inv (pay_model_step c ev)"
  by (cases ev; cases "pm_st c") (auto simp: pay_model_inv_def pay_model_step_def)

lemma pay_model_foldl_inv: "pay_model_inv c \<Longrightarrow> pay_model_inv (foldl pay_model_step c evs)"
  by (induction evs arbitrary: c) (auto intro: pay_model_step_inv)

text \<open>
  The reference model keeps its invariants on every trace: an authorised payment is the
  confirmed one, was approved, has a positive amount, and its nonce is in the replay set.
\<close>

theorem payment_model_authorizes_confirmed:
  assumes "pm_st (pay_model_run evs) = PM_Authorized p"
  shows "pay_bound (pay_model_run evs) \<and> pm_confirmed (pay_model_run evs) = Some p
    \<and> pm_approved (pay_model_run evs) \<and> pay_amount p \<noteq> 0 \<and> pm_nonce p \<in> set (pm_seen (pay_model_run evs))"
proof -
  have "pay_model_inv (pay_model_run evs)"
    unfolding pay_model_run_def
    by (rule pay_model_foldl_inv) (simp add: pay_model_inv_def pay_model_init_def)
  with assms show ?thesis by (simp add: pay_model_inv_def pay_bound_def)
qed

theorem payment_model_authorizes_confirmed_witness:
  "pay_bound (pay_model_run [PM_Request \<lparr>payee = ''A'', pay_amount = 5, pm_nonce = 1\<rparr>, PM_Approve, PM_Sign])"
  by (rule payment_model_authorizes_confirmed [where p = "\<lparr>payee = ''A'', pay_amount = 5, pm_nonce = 1\<rparr>",
        THEN conjunct1])
    (simp add: pay_model_run_def pay_model_init_def pay_model_step_def)

text \<open>
  The production machine refines the reference model: a run from \<open>Idle\<close>, with the replay set
  taken from the model, ends in a state related to the model's, and if it ended \<open>Authorized\<close> then
  in the model the authentication code is bound to the confirmed payment and was approved.
\<close>

theorem payment_refines_model:
  assumes "admissible_run (pay_step from_slice) pay_model_step (pay_events from_slice) pay_admissible
      Pay_Idle (pay_model_init\<lparr>pm_seen := seen\<rparr>) xs"
  shows "pay_related (flow_state (pay_step from_slice) Pay_Idle xs)
      (model_run (pay_step from_slice) pay_model_step (pay_events from_slice)
         Pay_Idle (pay_model_init\<lparr>pm_seen := seen\<rparr>) xs)
    \<and> (flow_state (pay_step from_slice) Pay_Idle xs = Pay_Authorized code \<longrightarrow>
         pay_bound (model_run (pay_step from_slice) pay_model_step (pay_events from_slice)
           Pay_Idle (pay_model_init\<lparr>pm_seen := seen\<rparr>) xs))"
  using pay.run_simulates [OF _ assms] by (auto simp: pay_related_def pay_model_init_def)

theorem payment_refines_model_witness:
  "pay_bound (model_run (pay_step (\<lambda>_. Some sample_payment_json)) pay_model_step
     (pay_events (\<lambda>_. Some sample_payment_json)) Pay_Idle (pay_model_init\<lparr>pm_seen := [1]\<rparr>) sample_pay_run)"
proof -
  note eval = pay_step_def pay_parse_request_def sample_payment_parses sample_request_fields
    pay_admissible_def pay_model_init_def Let_def
  have "admissible_run (pay_step (\<lambda>_. Some sample_payment_json)) pay_model_step
      (pay_events (\<lambda>_. Some sample_payment_json)) pay_admissible Pay_Idle
      (pay_model_init\<lparr>pm_seen := [1]\<rparr>) sample_pay_run"
    using sample_request_not_blank by (simp add: eval)
  moreover have "flow_state (pay_step (\<lambda>_. Some sample_payment_json)) Pay_Idle sample_pay_run = Pay_Authorized [9]"
    using sample_request_not_blank by (simp add: eval)
  ultimately show ?thesis using payment_refines_model by blast
qed

end
