(* ===== verification/Qes.thy ===== *)
theory Qes
  imports Cbor "HOL-Library.Monad_Syntax"
begin

text \<open>
  Qualified electronic signature authorization, \<open>crates/qes/src/lib.rs\<close>: the sign request and its
  hex decoding, the DTBS/R authorization binding, the production state machine and the crate's
  reference model. The JSON parser is the argument \<open>from_slice\<close>.
\<close>

section \<open>Data\<close>

record sign_request =
  document_name :: string
  document_hash :: bytes
  qtsp_id :: string
  qes_nonce :: u64

record qes_pending_authorization =
  qes_request :: sign_request
  qes_pending_consent_hash :: bytes

datatype qes_abort_reason =
    Qes_MalformedRequest
  | Qes_DocumentHashMissing
  | Qes_NonceReplayed
  | Qes_UserDeclined

datatype qes_state =
    Qes_Idle
  | Qes_AwaitingAuthorization sign_request
  | Qes_AwaitingSca qes_pending_authorization
  | Qes_Signed bytes
  | Qes_Aborted qes_abort_reason

datatype qes_input =
    SignatureRequest bytes
  | Qes_In_UserAuthorized
  | Qes_In_UserDeclined
  | AuthorizationSignatureProduced bytes

datatype qes_output =
    RenderSignConfirmation string string bytes
  | SignAuthorization string bytes
  | SendToQtsp bytes
  | Qes_Close

record qes_env =
  qes_seen_nonces :: "u64 list"
  qes_device_key_ref :: string
  qes_consent_hash :: bytes

section \<open>Operations\<close>

definition qes_binding_value :: "sign_request \<Rightarrow> bytes \<Rightarrow> cbor_value" where
  "qes_binding_value req consent_hash =
     Array
       [Text ''eudi-qes-authorization-v1'',
        Bytes (document_hash req),
        Bytes consent_hash,
        Text (qtsp_id req),
        Uint (qes_nonce req)]"

definition qes_authorization_binding :: "sign_request \<Rightarrow> bytes \<Rightarrow> bytes" where
  "qes_authorization_binding req consent_hash = to_canonical (qes_binding_value req consent_hash)"

definition hex_nibble :: "u8 \<Rightarrow> u8 option" where
  "hex_nibble c =
     (if 0x30 \<le> c \<and> c \<le> 0x39 then Some (c - 0x30)
      else if 0x61 \<le> c \<and> c \<le> 0x66 then Some (c - 0x61 + 10)
      else if 0x41 \<le> c \<and> c \<le> 0x46 then Some (c - 0x41 + 10)
      else None)"

fun hex_pairs :: "bytes \<Rightarrow> bytes option" where
  "hex_pairs (a # b # rest) = do {
     hi \<leftarrow> hex_nibble a;
     lo \<leftarrow> hex_nibble b;
     out \<leftarrow> hex_pairs rest;
     Some ((push_bit 4 hi OR lo) # out)
   }"
| "hex_pairs _ = Some []"

definition hex_decode :: "string \<Rightarrow> bytes option" where
  "hex_decode s = (if length s mod 2 \<noteq> 0 then None else hex_pairs (as_bytes s))"

definition qes_parse_request :: "(bytes \<Rightarrow> json option) \<Rightarrow> bytes \<Rightarrow> sign_request option" where
  "qes_parse_request from_slice bytes = do {
     v \<leftarrow> from_slice bytes;
     h \<leftarrow> hex_decode (unwrap_or [] (json_get_str ''document_hash_hex'' v));
     q \<leftarrow> json_get_str ''qtsp_id'' v;
     n \<leftarrow> json_get_u64 ''nonce'' v;
     Some \<lparr>document_name = unwrap_or [] (json_get_str ''document_name'' v), document_hash = h,
       qtsp_id = q, qes_nonce = n\<rparr>
   }"

definition qes_step ::
    "(bytes \<Rightarrow> json option) \<Rightarrow> qes_env \<Rightarrow> qes_state \<Rightarrow> qes_input \<Rightarrow> qes_state \<times> qes_output list" where
  "qes_step from_slice env state input =
     (case (state, input) of
        (Qes_Idle, SignatureRequest bytes) \<Rightarrow>
          (case qes_parse_request from_slice bytes of
             Some req \<Rightarrow>
               if document_hash req = [] then (Qes_Aborted Qes_DocumentHashMissing, [])
               else if qes_nonce req \<in> set (qes_seen_nonces env) then
                 (Qes_Aborted Qes_NonceReplayed, [])
               else
                 (Qes_AwaitingAuthorization req,
                  [RenderSignConfirmation (document_name req) (qtsp_id req) (document_hash req)])
           | None \<Rightarrow> (Qes_Aborted Qes_MalformedRequest, []))
      | (Qes_AwaitingAuthorization req, Qes_In_UserAuthorized) \<Rightarrow>
          (let signing_input = qes_authorization_binding req (qes_consent_hash env) in
           (Qes_AwaitingSca \<lparr>qes_request = req, qes_pending_consent_hash = qes_consent_hash env\<rparr>,
            [SignAuthorization (qes_device_key_ref env) signing_input]))
      | (Qes_AwaitingAuthorization _, Qes_In_UserDeclined) \<Rightarrow> (Qes_Aborted Qes_UserDeclined, [])
      | (Qes_AwaitingSca _, AuthorizationSignatureProduced sig) \<Rightarrow>
          (Qes_Signed sig, [SendToQtsp sig, Qes_Close])
      | (s, _) \<Rightarrow> (s, []))"

section \<open>The reference model\<close>

record qes_doc =
  doc_id :: u64
  doc_nonce :: u64

datatype qes_st =
    QM_Idle
  | QM_AwaitingAuthorization qes_doc
  | QM_AwaitingSca qes_doc
  | QM_Signed qes_doc
  | QM_Aborted

datatype qes_ev = QM_Request qes_doc | QM_Authorize | QM_Decline | QM_Sign

record qes_ctx =
  qm_st :: qes_st
  qm_seen :: "u64 list"
  qm_confirmed :: "qes_doc option"
  qm_authorized :: bool

definition qes_model_init :: qes_ctx where
  "qes_model_init = \<lparr>qm_st = QM_Idle, qm_seen = [], qm_confirmed = None, qm_authorized = False\<rparr>"

definition qes_model_step :: "qes_ctx \<Rightarrow> qes_ev \<Rightarrow> qes_ctx" where
  "qes_model_step c ev =
     (case ev of
        QM_Request d \<Rightarrow>
          (case qm_st c of
             QM_Idle \<Rightarrow>
               if doc_id d = 0 then c\<lparr>qm_st := QM_Aborted\<rparr>
               else if doc_nonce d \<in> set (qm_seen c) then c\<lparr>qm_st := QM_Aborted\<rparr>
               else c\<lparr>qm_st := QM_AwaitingAuthorization d, qm_confirmed := Some d,
                      qm_seen := qm_seen c @ [doc_nonce d]\<rparr>
           | _ \<Rightarrow> c)
      | QM_Authorize \<Rightarrow>
          (case qm_st c of
             QM_AwaitingAuthorization d \<Rightarrow> c\<lparr>qm_st := QM_AwaitingSca d, qm_authorized := True\<rparr>
           | _ \<Rightarrow> c)
      | QM_Decline \<Rightarrow>
          (case qm_st c of QM_AwaitingAuthorization _ \<Rightarrow> c\<lparr>qm_st := QM_Aborted\<rparr> | _ \<Rightarrow> c)
      | QM_Sign \<Rightarrow>
          (case qm_st c of QM_AwaitingSca d \<Rightarrow> c\<lparr>qm_st := QM_Signed d\<rparr> | _ \<Rightarrow> c))"

definition qes_model_run :: "qes_ev list \<Rightarrow> qes_ctx" where
  "qes_model_run evs = foldl qes_model_step qes_model_init evs"

definition qes_state_name :: "qes_st \<Rightarrow> string" where
  "qes_state_name st =
     (case st of
        QM_Idle \<Rightarrow> ''idle''
      | QM_AwaitingAuthorization _ \<Rightarrow> ''awaitingAuthorization''
      | QM_AwaitingSca _ \<Rightarrow> ''awaitingSca''
      | QM_Signed _ \<Rightarrow> ''signed''
      | QM_Aborted \<Rightarrow> ''aborted'')"

definition qes_bound :: "qes_ctx \<Rightarrow> bool" where
  "qes_bound c = (case qm_st c of QM_Signed d \<Rightarrow> qm_confirmed c = Some d | _ \<Rightarrow> False)"

section \<open>The authorization binding\<close>

definition valid_sign_request :: "sign_request \<Rightarrow> bool" where
  "valid_sign_request r \<longleftrightarrow>
     valid_str (qtsp_id r) \<and> length (qtsp_id r) < 2 ^ 64 \<and> length (document_hash r) < 2 ^ 64"

lemma qes_binding_accepted:
  "valid_sign_request r \<Longrightarrow> length ch = 32 \<Longrightarrow> cbor_accepted (qes_binding_value r ch)"
  by (simp add: valid_sign_request_def qes_binding_value_def MAX_DEPTH_def valid_str_def valid_utf8_def
      as_bytes_def)

text \<open>
  The QES authorization is specific to what was signed: two authorization bindings coincide
  exactly when document hash, consent hash, trust service provider and nonce all coincide.
\<close>

theorem qes_authorization_binds:
  assumes "valid_sign_request r" "valid_sign_request r'" "length ch = 32" "length ch' = 32"
  shows "qes_authorization_binding r ch = qes_authorization_binding r' ch' \<longleftrightarrow>
    document_hash r = document_hash r' \<and> ch = ch' \<and> qtsp_id r = qtsp_id r' \<and> qes_nonce r = qes_nonce r'"
  unfolding qes_authorization_binding_def
  using cbor.enc_inject [OF qes_binding_accepted [OF assms(1,3)] qes_binding_accepted [OF assms(2,4)]]
  by (simp add: qes_binding_value_def)

definition sample_sign_request :: sign_request where
  "sample_sign_request = \<lparr>document_name = ''c.pdf'', document_hash = [0xDE, 0xAD], qtsp_id = ''q'', qes_nonce = 1\<rparr>"

theorem qes_authorization_binds_witness:
  "qes_authorization_binding sample_sign_request (replicate 32 0)
    \<noteq> qes_authorization_binding sample_sign_request (replicate 32 1)"
proof -
  have v: "valid_sign_request sample_sign_request"
    by (simp add: valid_sign_request_def sample_sign_request_def valid_str_def valid_utf8_def as_bytes_def)
  have "replicate 32 (0 :: u8) \<noteq> replicate 32 1"
    by (simp add: replicate_eq_replicate)
  then show ?thesis
    using qes_authorization_binds [OF v v, of "replicate 32 0" "replicate 32 1"] by simp
qed

section \<open>Hex decoding\<close>

lemma hex_pairs_length: "even (length b) \<Longrightarrow> hex_pairs b = Some out \<Longrightarrow> length b = 2 * length out"
  by (induction b arbitrary: out rule: hex_pairs.induct) (auto split: bind_splits)

lemma hex_decode_length: "hex_decode s = Some out \<Longrightarrow> length s = 2 * length out"
  using hex_pairs_length [of "as_bytes s" out] by (auto simp: hex_decode_def split: if_splits)

section \<open>The consent gate\<close>

definition qes_shown :: "qes_state \<Rightarrow> sign_request option" where
  "qes_shown s = (case s of Qes_AwaitingAuthorization r \<Rightarrow> Some r | _ \<Rightarrow> None)"

definition qes_pending :: "qes_state \<Rightarrow> sign_request option" where
  "qes_pending s = (case s of Qes_AwaitingSca p \<Rightarrow> Some (qes_request p) | _ \<Rightarrow> None)"

definition qes_renders :: "sign_request \<Rightarrow> qes_output \<Rightarrow> bool" where
  "qes_renders r out \<longleftrightarrow> out = RenderSignConfirmation (document_name r) (qtsp_id r) (document_hash r)"

definition qes_release :: "qes_output \<Rightarrow> bool" where
  "qes_release out = (case out of SendToQtsp _ \<Rightarrow> True | _ \<Rightarrow> False)"

definition qes_finished :: "qes_state \<Rightarrow> bool" where
  "qes_finished s = (case s of Qes_Signed _ \<Rightarrow> True | Qes_Aborted _ \<Rightarrow> True | _ \<Rightarrow> False)"

lemmas qes_flow_defs = qes_step_def qes_shown_def qes_pending_def qes_renders_def qes_release_def
  qes_finished_def

lemmas qes_splits = qes_state.splits qes_input.splits qes_output.splits option.splits if_splits

interpretation qes: consent_gate "qes_step from_slice" qes_shown qes_pending qes_renders
  "\<lambda>i. i = Qes_In_UserAuthorized" qes_release for from_slice
  by unfold_locales (auto simp: qes_flow_defs Let_def split: qes_splits)

interpretation qes: single_release "qes_step from_slice" qes_release qes_finished for from_slice
  by unfold_locales (auto simp: qes_flow_defs Let_def split: qes_splits)

lemma qes_approval_signs_shown:
  assumes "qes_shown s = Some r"
  shows "snd (qes_step from_slice env s Qes_In_UserAuthorized)
    = [SignAuthorization (qes_device_key_ref env) (qes_authorization_binding r (qes_consent_hash env))]"
  using assms by (auto simp: qes_flow_defs Let_def split: qes_splits)

lemma qes_release_is_signature:
  assumes "SendToQtsp sig \<in> set (snd (qes_step from_slice env s i))"
  shows "i = AuthorizationSignatureProduced sig"
  using assms by (auto simp: qes_flow_defs Let_def split: qes_splits)

text \<open>
  C29. What you see is what you sign, for qualified signatures: an authorization goes to the QTSP
  only as the device signature delivered at that step; at an earlier step the user authorized and
  the wallet asked the device to sign the DTBS/R binding of a request together with the consent
  hash of the screen at that moment; and a still earlier step rendered the document name, the QTSP
  and the document hash of that same request. At most one authorization leaves the session.
\<close>

theorem qes_sends_only_what_was_authorized:
  assumes "k < length xs"
    and "SendToQtsp sig \<in> set (flow_outputs (qes_step from_slice) Qes_Idle xs ! k)"
  shows "(\<exists>r j m. m < j \<and> j < k
      \<and> snd (xs ! k) = AuthorizationSignatureProduced sig
      \<and> snd (xs ! j) = Qes_In_UserAuthorized
      \<and> flow_outputs (qes_step from_slice) Qes_Idle xs ! j
          = [SignAuthorization (qes_device_key_ref (fst (xs ! j)))
              (qes_authorization_binding r (qes_consent_hash (fst (xs ! j))))]
      \<and> RenderSignConfirmation (document_name r) (qtsp_id r) (document_hash r)
          \<in> set (flow_outputs (qes_step from_slice) Qes_Idle xs ! m))
    \<and> length (filter qes_release (concat (flow_outputs (qes_step from_slice) Qes_Idle xs))) \<le> 1"
proof -
  have sig: "snd (xs ! k) = AuthorizationSignatureProduced sig"
    using assms(2) by (intro qes_release_is_signature) (simp add: flow_outputs_nth [OF assms(1)])
  obtain r j m where mj: "m < j" and jk: "j < k" and ok: "snd (xs ! j) = Qes_In_UserAuthorized"
    and shown: "qes_shown (flow_state (qes_step from_slice) Qes_Idle (take j xs)) = Some r"
    and ren: "\<exists>out \<in> set (flow_outputs (qes_step from_slice) Qes_Idle xs ! m). qes_renders r out"
    using qes.release_after_approval [OF _ _ assms]
    by (auto simp: qes_shown_def qes_pending_def qes_release_def)
  have "flow_outputs (qes_step from_slice) Qes_Idle xs ! j
      = [SignAuthorization (qes_device_key_ref (fst (xs ! j)))
          (qes_authorization_binding r (qes_consent_hash (fst (xs ! j))))]"
    using jk assms(1) ok qes_approval_signs_shown [OF shown] by (simp add: flow_outputs_nth)
  with sig mj jk ok ren show ?thesis
    using qes.at_most_one_release by (auto simp: qes_renders_def)
qed

definition sample_sign_json :: json where
  "sample_sign_json = JObject
     [(''document_hash_hex'', JString ''dEAd''), (''document_name'', JString ''c.pdf''),
      (''nonce'', JNumber (PosInt 1)), (''qtsp_id'', JString ''q'')]"

abbreviation sample_qes_env :: qes_env where
  "sample_qes_env \<equiv> \<lparr>qes_seen_nonces = [7], qes_device_key_ref = ''k'', qes_consent_hash = replicate 32 5\<rparr>"

abbreviation sample_qes_run :: "(qes_env \<times> qes_input) list" where
  "sample_qes_run \<equiv> map (Pair sample_qes_env)
     [SignatureRequest [0], Qes_In_UserAuthorized, AuthorizationSignatureProduced [9]]"

lemma sample_hex: "hex_decode ''dEAd'' = Some [0xDE, 0xAD]"
  by (simp add: hex_decode_def as_bytes_def hex_nibble_def)

lemma sample_sign_parses: "qes_parse_request (\<lambda>_. Some sample_sign_json) b = Some sample_sign_request"
  using sample_hex
  by (simp add: qes_parse_request_def sample_sign_json_def sample_sign_request_def json_defs)

lemma sample_sign_fields:
  "document_hash sample_sign_request = [0xDE, 0xAD]" "qes_nonce sample_sign_request = 1"
  by (simp_all add: sample_sign_request_def)

lemma sample_qes_length: "2 < length sample_qes_run"
  by simp

theorem qes_sends_only_what_was_authorized_witness:
  "\<exists>(r :: sign_request) j m. m < j \<and> j < 2 \<and> snd (sample_qes_run ! j) = Qes_In_UserAuthorized
    \<and> RenderSignConfirmation (document_name r) (qtsp_id r) (document_hash r)
        \<in> set (flow_outputs (qes_step (\<lambda>_. Some sample_sign_json)) Qes_Idle sample_qes_run ! m)"
proof -
  have "SendToQtsp [9] \<in>
      set (flow_outputs (qes_step (\<lambda>_. Some sample_sign_json)) Qes_Idle sample_qes_run ! 2)"
    by (simp add: qes_step_def sample_sign_parses sample_sign_fields Let_def)
  from qes_sends_only_what_was_authorized [OF sample_qes_length this, THEN conjunct1]
  show ?thesis
  proof (elim exE conjE)
    fix r :: sign_request and j m assume "m < j" "j < 2" "snd (sample_qes_run ! j) = Qes_In_UserAuthorized"
      and "RenderSignConfirmation (document_name r) (qtsp_id r) (document_hash r)
        \<in> set (flow_outputs (qes_step (\<lambda>_. Some sample_sign_json)) Qes_Idle sample_qes_run ! m)"
    then show ?thesis by (intro exI [of _ r] exI [of _ j] exI [of _ m] conjI)
  qed
qed

section \<open>Refinement of the reference model\<close>

text \<open>
  The model's document id is abstract except that zero means a missing document hash. The
  abstraction keeps exactly that.
\<close>

definition abs_sign_request :: "sign_request \<Rightarrow> qes_doc" where
  "abs_sign_request r = \<lparr>doc_id = of_bool (document_hash r \<noteq> []), doc_nonce = qes_nonce r\<rparr>"

definition refused_doc :: qes_doc where
  "refused_doc = \<lparr>doc_id = 0, doc_nonce = 0\<rparr>"

definition qes_events ::
    "(bytes \<Rightarrow> json option) \<Rightarrow> qes_env \<Rightarrow> qes_state \<Rightarrow> qes_input \<Rightarrow> qes_ev list" where
  "qes_events from_slice env s i =
     (case i of
        SignatureRequest b \<Rightarrow>
          [QM_Request (case qes_parse_request from_slice b of None \<Rightarrow> refused_doc | Some r \<Rightarrow> abs_sign_request r)]
      | Qes_In_UserAuthorized \<Rightarrow> [QM_Authorize]
      | Qes_In_UserDeclined \<Rightarrow> [QM_Decline]
      | AuthorizationSignatureProduced _ \<Rightarrow> [QM_Sign])"

definition qes_related :: "qes_state \<Rightarrow> qes_ctx \<Rightarrow> bool" where
  "qes_related s c =
     (case s of
        Qes_Idle \<Rightarrow> qm_st c = QM_Idle
      | Qes_AwaitingAuthorization r \<Rightarrow>
          qm_st c = QM_AwaitingAuthorization (abs_sign_request r) \<and> qm_confirmed c = Some (abs_sign_request r)
          \<and> document_hash r \<noteq> [] \<and> qes_nonce r \<in> set (qm_seen c)
      | Qes_AwaitingSca p \<Rightarrow>
          qm_st c = QM_AwaitingSca (abs_sign_request (qes_request p))
          \<and> qm_confirmed c = Some (abs_sign_request (qes_request p)) \<and> qm_authorized c
          \<and> document_hash (qes_request p) \<noteq> [] \<and> qes_nonce (qes_request p) \<in> set (qm_seen c)
      | Qes_Signed _ \<Rightarrow> qes_bound c \<and> qm_authorized c
      | Qes_Aborted _ \<Rightarrow> qm_st c = QM_Aborted)"

definition qes_admissible :: "qes_state \<Rightarrow> qes_ctx \<Rightarrow> qes_env \<Rightarrow> bool" where
  "qes_admissible s c env \<longleftrightarrow> set (qes_seen_nonces env) = set (qm_seen c) \<or> s \<noteq> Qes_Idle"

lemma qes_step_simulates:
  assumes "qes_related s c" "qes_admissible s c env"
  shows "qes_related (fst (qes_step from_slice env s i))
    (foldl qes_model_step c (qes_events from_slice env s i))"
  using assms
  by (cases s; cases i)
    (auto simp: qes_related_def qes_admissible_def qes_step_def qes_events_def qes_model_step_def
      qes_bound_def abs_sign_request_def refused_doc_def Let_def split: option.splits qes_st.splits)

interpretation qes: flow_simulation "qes_step from_slice" qes_model_step qes_related
  "qes_events from_slice" qes_admissible for from_slice
  by unfold_locales (rule qes_step_simulates)

text \<open>
  The production signing machine refines the crate's reference model: a run from \<open>Idle\<close> whose
  replay set is the model's ends related to the model's run, and if it ended \<open>Signed\<close> then the
  model's signature is bound to the confirmed document and was authorized by the user.
\<close>

theorem qes_refines_model:
  assumes "admissible_run (qes_step from_slice) qes_model_step (qes_events from_slice) qes_admissible
      Qes_Idle (qes_model_init\<lparr>qm_seen := seen\<rparr>) xs"
    and "c = model_run (qes_step from_slice) qes_model_step (qes_events from_slice)
      Qes_Idle (qes_model_init\<lparr>qm_seen := seen\<rparr>) xs"
  shows "qes_related (flow_state (qes_step from_slice) Qes_Idle xs) c
    \<and> (flow_state (qes_step from_slice) Qes_Idle xs = Qes_Signed a \<longrightarrow> qes_bound c \<and> qm_authorized c)"
  unfolding assms(2) using qes.run_simulates [OF _ assms(1)]
  by (auto simp: qes_related_def qes_model_init_def)

theorem qes_refines_model_witness:
  "qes_bound (model_run (qes_step (\<lambda>_. Some sample_sign_json)) qes_model_step
     (qes_events (\<lambda>_. Some sample_sign_json)) Qes_Idle (qes_model_init\<lparr>qm_seen := [7]\<rparr>) sample_qes_run)"
proof -
  note eval = qes_step_def sample_sign_parses sample_sign_fields qes_admissible_def qes_model_init_def Let_def
  have adm: "admissible_run (qes_step (\<lambda>_. Some sample_sign_json)) qes_model_step
      (qes_events (\<lambda>_. Some sample_sign_json)) qes_admissible Qes_Idle
      (qes_model_init\<lparr>qm_seen := [7]\<rparr>) sample_qes_run"
    by (simp add: eval)
  have "flow_state (qes_step (\<lambda>_. Some sample_sign_json)) Qes_Idle sample_qes_run = Qes_Signed [9]"
    by (simp add: eval)
  with qes_refines_model [OF adm refl, THEN conjunct2] show ?thesis by iprover
qed

end
