(* ===== verification/W2w.thy ===== *)
theory W2w
  imports Cbor
begin

text \<open>
  Wallet-to-wallet transfer, \<open>crates/w2w/src/lib.rs\<close>: the receiver's accept-after-validate machine,
  the sender's transfer-authorization binding, and the crate's reference model. The machine reads
  no environment, so its flow takes a unit one.
\<close>

section \<open>Data\<close>

datatype w2w_reject_reason = W2w_IssuerInvalid | W2w_PeerMismatch | W2w_OutOfOrder

datatype w2w_state =
    W2w_Idle
  | W2w_AwaitingTransfer
  | W2w_Accepted bytes
  | W2w_Rejected w2w_reject_reason

datatype w2w_input =
    CreateOffer
  | TransferReceived (w2w_issuer_valid: bool) (w2w_peer_bound: bool) (w2w_credential: bytes)

datatype w2w_output = PublishOffer | W2w_StoreCredential bytes | W2w_Close

section \<open>Operations\<close>

definition w2w_step :: "w2w_state \<Rightarrow> w2w_input \<Rightarrow> w2w_state \<times> w2w_output list" where
  "w2w_step state input =
     (case (state, input) of
        (W2w_Idle, CreateOffer) \<Rightarrow> (W2w_AwaitingTransfer, [PublishOffer])
      | (W2w_AwaitingTransfer, TransferReceived issuer_valid peer_bound credential) \<Rightarrow>
          if \<not> issuer_valid then (W2w_Rejected W2w_IssuerInvalid, [])
          else if \<not> peer_bound then (W2w_Rejected W2w_PeerMismatch, [])
          else (W2w_Accepted credential, [W2w_StoreCredential credential, W2w_Close])
      | (W2w_Idle, TransferReceived _ _ _) \<Rightarrow> (W2w_Rejected W2w_OutOfOrder, [])
      | (s, _) \<Rightarrow> (s, []))"

definition transfer_binding_value :: "string \<Rightarrow> bytes \<Rightarrow> bytes \<Rightarrow> bytes \<Rightarrow> u64 \<Rightarrow> cbor_value" where
  "transfer_binding_value receiver_id receiver_key credential consent_hash nonce =
     Array
       [Text ''eudi-w2w-transfer-v1'',
        Text receiver_id,
        Bytes receiver_key,
        Bytes credential,
        Bytes consent_hash,
        Uint nonce]"

definition transfer_authorization_binding :: "string \<Rightarrow> bytes \<Rightarrow> bytes \<Rightarrow> bytes \<Rightarrow> u64 \<Rightarrow> bytes" where
  "transfer_authorization_binding receiver_id receiver_key credential consent_hash nonce =
     to_canonical (transfer_binding_value receiver_id receiver_key credential consent_hash nonce)"

section \<open>The reference model\<close>

datatype w2w_st = WM_Idle | WM_AwaitingTransfer | WM_Accepted | WM_Rejected

datatype w2w_ev = WM_CreateOffer | WM_TransferReceived bool bool

record w2w_ctx =
  wm_st :: w2w_st
  wm_issuer_valid :: bool
  wm_peer_bound :: bool

definition w2w_model_init :: w2w_ctx where
  "w2w_model_init = \<lparr>wm_st = WM_Idle, wm_issuer_valid = False, wm_peer_bound = False\<rparr>"

definition w2w_model_step :: "w2w_ctx \<Rightarrow> w2w_ev \<Rightarrow> w2w_ctx" where
  "w2w_model_step c ev =
     (case ev of
        WM_CreateOffer \<Rightarrow> if wm_st c = WM_Idle then c\<lparr>wm_st := WM_AwaitingTransfer\<rparr> else c
      | WM_TransferReceived issuer_valid peer_bound \<Rightarrow>
          (case wm_st c of
             WM_AwaitingTransfer \<Rightarrow>
               if \<not> issuer_valid then c\<lparr>wm_st := WM_Rejected\<rparr>
               else if \<not> peer_bound then c\<lparr>wm_st := WM_Rejected\<rparr>
               else c\<lparr>wm_st := WM_Accepted, wm_issuer_valid := True, wm_peer_bound := True\<rparr>
           | WM_Idle \<Rightarrow> c\<lparr>wm_st := WM_Rejected\<rparr>
           | _ \<Rightarrow> c))"

definition w2w_model_run :: "w2w_ev list \<Rightarrow> w2w_ctx" where
  "w2w_model_run evs = foldl w2w_model_step w2w_model_init evs"

definition w2w_state_name :: "w2w_st \<Rightarrow> string" where
  "w2w_state_name st =
     (case st of
        WM_Idle \<Rightarrow> ''idle''
      | WM_AwaitingTransfer \<Rightarrow> ''awaitingTransfer''
      | WM_Accepted \<Rightarrow> ''accepted''
      | WM_Rejected \<Rightarrow> ''rejected'')"

section \<open>The transfer binding\<close>

definition transfer_encodable :: "string \<Rightarrow> bytes \<Rightarrow> bytes \<Rightarrow> bytes \<Rightarrow> bool" where
  "transfer_encodable receiver_id receiver_key credential consent_hash \<longleftrightarrow>
     valid_str receiver_id \<and> length receiver_id < 2 ^ 64 \<and> length receiver_key < 2 ^ 64
     \<and> length credential < 2 ^ 64 \<and> length consent_hash = 32"

lemma transfer_binding_accepted:
  "transfer_encodable i k c h \<Longrightarrow> cbor_accepted (transfer_binding_value i k c h n)"
  by (simp add: transfer_encodable_def transfer_binding_value_def MAX_DEPTH_def valid_str_def
      valid_utf8_def as_bytes_def)

text \<open>
  The transfer authorization is bound to receiver and credential: two transfer bindings
  coincide exactly when receiver identity, receiver key, credential, consent hash and nonce all
  coincide, so a signature cannot be redirected to another party nor moved to another credential.
\<close>

theorem transfer_authorization_binds:
  assumes "transfer_encodable i k c h" "transfer_encodable i' k' c' h'"
  shows "transfer_authorization_binding i k c h n = transfer_authorization_binding i' k' c' h' n' \<longleftrightarrow>
    i = i' \<and> k = k' \<and> c = c' \<and> h = h' \<and> n = n'"
  unfolding transfer_authorization_binding_def
  using cbor.enc_inject [OF transfer_binding_accepted [OF assms(1)] transfer_binding_accepted [OF assms(2)]]
  by (simp add: transfer_binding_value_def)

theorem transfer_authorization_binds_witness:
  "transfer_authorization_binding ''bob'' [1] [2] (replicate 32 0) 3
    \<noteq> transfer_authorization_binding ''eve'' [1] [2] (replicate 32 0) 3"
  using transfer_authorization_binds [of "''bob''" "[1]" "[2]" "replicate 32 0" "''eve''" "[1]" "[2]"
      "replicate 32 0" 3 3]
  by (simp add: transfer_encodable_def valid_str_def valid_utf8_def as_bytes_def)

section \<open>The receiver\<close>

abbreviation w2w_flow :: "(unit, w2w_state, w2w_input, w2w_output) flow" where
  "w2w_flow \<equiv> \<lambda>_. w2w_step"

definition w2w_release :: "w2w_output \<Rightarrow> bool" where
  "w2w_release out = (case out of W2w_StoreCredential _ \<Rightarrow> True | _ \<Rightarrow> False)"

definition w2w_finished :: "w2w_state \<Rightarrow> bool" where
  "w2w_finished s = (case s of W2w_Accepted _ \<Rightarrow> True | W2w_Rejected _ \<Rightarrow> True | _ \<Rightarrow> False)"

lemmas w2w_splits = w2w_state.splits w2w_input.splits w2w_output.splits if_splits

interpretation w2w: single_release w2w_flow w2w_release w2w_finished
  by unfold_locales (auto simp: w2w_step_def w2w_release_def w2w_finished_def split: w2w_splits)

lemma w2w_awaiting_trace:
  assumes "flow_state w2w_flow W2w_Idle (take k xs) = W2w_AwaitingTransfer" "k \<le> length xs"
  shows "0 < k \<and> flow_outputs w2w_flow W2w_Idle xs ! 0 = [PublishOffer]
    \<and> (\<forall>i < k. snd (xs ! i) = CreateOffer)"
  using assms
proof (induction k)
  case 0
  then show ?case by simp
next
  case (Suc k)
  from Suc.prems(2) have k: "k < length xs" by simp
  let ?s = "flow_state w2w_flow W2w_Idle (take k xs)"
  from Suc.prems(1) have step: "fst (w2w_step ?s (snd (xs ! k))) = W2w_AwaitingTransfer"
    by (simp add: flow_state_take_Suc [OF k])
  then consider "?s = W2w_Idle" "snd (xs ! k) = CreateOffer"
    | "?s = W2w_AwaitingTransfer" "snd (xs ! k) = CreateOffer"
    by (auto simp: w2w_step_def split: w2w_splits)
  then show ?case
  proof cases
    case 1
    have "k = 0"
    proof (rule ccontr)
      assume "k \<noteq> 0"
      then obtain k' where k': "k = Suc k'" by (cases k) auto
      with k have "k' < length xs" by simp
      then have "?s \<noteq> W2w_Idle"
        unfolding k' flow_state_take_Suc [OF \<open>k' < length xs\<close>]
        by (auto simp: w2w_step_def split: w2w_splits)
      with 1 show False by simp
    qed
    with 1 k show ?thesis by (auto simp: flow_outputs_nth w2w_step_def)
  next
    case 2
    with Suc k show ?thesis by (auto simp: less_Suc_eq)
  qed
qed

text \<open>
  The receiver stores a credential only when the step that delivers it found its issuer
  signature valid and the transfer bound to this receiver, the very first step of the run published
  the receiver's offer, and nothing but repeated offers came in between. At most one credential is
  stored.
\<close>

theorem w2w_stores_only_validated:
  assumes "k < length xs"
    and "W2w_StoreCredential c \<in> set (flow_outputs w2w_flow W2w_Idle xs ! k)"
  shows "0 < k \<and> snd (xs ! k) = TransferReceived True True c
    \<and> flow_outputs w2w_flow W2w_Idle xs ! 0 = [PublishOffer]
    \<and> (\<forall>i < k. snd (xs ! i) = CreateOffer)
    \<and> length (filter w2w_release (concat (flow_outputs w2w_flow W2w_Idle xs))) = 1"
proof -
  let ?s = "flow_state w2w_flow W2w_Idle (take k xs)"
  have s: "?s = W2w_AwaitingTransfer" and i: "snd (xs ! k) = TransferReceived True True c"
    using assms(2)
    by (auto simp: flow_outputs_nth [OF assms(1)] w2w_step_def split: w2w_splits)
  have "W2w_StoreCredential c \<in> set (filter w2w_release (concat (flow_outputs w2w_flow W2w_Idle xs)))"
    using assms nth_mem [of k "flow_outputs w2w_flow W2w_Idle xs"] by (auto simp: w2w_release_def)
  then have "1 \<le> length (filter w2w_release (concat (flow_outputs w2w_flow W2w_Idle xs)))"
    by (metis One_nat_def Suc_leI length_pos_if_in_set)
  with w2w.at_most_one_release [of W2w_Idle xs] w2w_awaiting_trace [OF s] assms(1) i show ?thesis
    by simp
qed

theorem w2w_stores_only_validated_witness:
  "length (filter w2w_release (concat (flow_outputs w2w_flow W2w_Idle
     [((), CreateOffer), ((), CreateOffer), ((), TransferReceived True True [7])]))) = 1"
  using w2w_stores_only_validated
    [of 2 "[((), CreateOffer), ((), CreateOffer), ((), TransferReceived True True [7])]" "[7]"]
  by (simp add: w2w_step_def)

section \<open>Refinement of the reference model\<close>

definition w2w_events :: "w2w_state \<Rightarrow> w2w_input \<Rightarrow> w2w_ev list" where
  "w2w_events s i =
     (case i of CreateOffer \<Rightarrow> [WM_CreateOffer] | TransferReceived v b _ \<Rightarrow> [WM_TransferReceived v b])"

definition w2w_related :: "w2w_state \<Rightarrow> w2w_ctx \<Rightarrow> bool" where
  "w2w_related s c =
     (case s of
        W2w_Idle \<Rightarrow> wm_st c = WM_Idle
      | W2w_AwaitingTransfer \<Rightarrow> wm_st c = WM_AwaitingTransfer
      | W2w_Accepted _ \<Rightarrow> wm_st c = WM_Accepted \<and> wm_issuer_valid c \<and> wm_peer_bound c
      | W2w_Rejected _ \<Rightarrow> wm_st c = WM_Rejected)"

interpretation w2w: flow_simulation w2w_flow w2w_model_step w2w_related "\<lambda>_. w2w_events" "\<lambda>_ _ _. True"
  by unfold_locales
    (auto simp: w2w_related_def w2w_step_def w2w_events_def w2w_model_step_def split: w2w_splits w2w_st.splits)

lemma w2w_admissible: "admissible_run w2w_flow w2w_model_step (\<lambda>_. w2w_events) (\<lambda>_ _ _. True) s c xs"
  by (induction xs arbitrary: s c) auto

lemma w2w_model_run_foldl:
  "model_run w2w_flow w2w_model_step (\<lambda>_. w2w_events) s c xs
    = foldl w2w_model_step c (concat (map (\<lambda>x. w2w_events s (snd x)) xs))"
proof (induction xs arbitrary: s c)
  case (Cons x xs)
  then show ?case by (cases x) (simp add: w2w_events_def)
qed simp

text \<open>
  The receiver refines the crate's reference model on every input sequence: the states
  correspond, and an accepted credential is accepted in the model with both validation flags set.
\<close>

theorem w2w_refines_model:
  "w2w_related (flow_state w2w_flow W2w_Idle xs)
    (w2w_model_run (concat (map (\<lambda>x. w2w_events W2w_Idle (snd x)) xs)))"
  using w2w.run_simulates [OF _ w2w_admissible, of W2w_Idle w2w_model_init xs]
  by (simp add: w2w_model_run_foldl w2w_model_run_def w2w_related_def w2w_model_init_def)

end
