(* ===== verification/Proximity.thy ===== *)
theory Proximity
  imports Cbor
begin

text \<open>
  ISO/IEC 18013-5 proximity presentation, \<open>crates/iso18013-5/src/lib.rs\<close>: device engagement,
  session transcript, device authentication, the production state machine with its guards, and
  the crate's reference model.
\<close>

section \<open>Data\<close>

definition CIPHER_SUITE :: u64 where
  "CIPHER_SUITE = 1"

definition RETRIEVAL_METHOD_BLE :: u64 where
  "RETRIEVAL_METHOD_BLE = 2"

definition DOC_TYPE_MDL :: string where
  "DOC_TYPE_MDL = ''org.iso.18013.5.1.mDL''"

datatype prox_abort_reason =
    SessionTranscriptUnbound
  | ReaderKeyInvalid
  | RequestOutOfOrder
  | NoConsent
  | ReaderAuthInvalid

datatype prox_state =
    Prox_Idle
  | Prox_Engaged bytes
  | Prox_SessionEstablished bytes
  | Prox_SigningResponse bytes
  | Prox_Responded
  | Prox_Terminated
  | Prox_Aborted prox_abort_reason

datatype prox_input =
    StartEngagement bytes bytes
  | ReaderEstablishment bytes
  | Prox_ConsentGranted
  | Prox_ConsentDeclined
  | Prox_DeviceSignatureProduced bytes
  | ReaderTermination

datatype prox_output =
    EmitDeviceEngagement bytes
  | Prox_RenderConsent
  | SignDeviceAuth string bytes
  | EmitDeviceResponse bytes
  | EmitTermination

record prox_env =
  reader_key_on_curve :: bool
  transcript_bound :: bool
  reader_auth_present :: bool
  env_reader_auth_valid :: bool
  prox_device_key_ref :: string

section \<open>Guards\<close>

definition session_transcript_is_bound :: "prox_env \<Rightarrow> bool" where
  "session_transcript_is_bound env = transcript_bound env"

definition reader_ephemeral_key_valid :: "prox_env \<Rightarrow> bool" where
  "reader_ephemeral_key_valid env = reader_key_on_curve env"

definition reader_auth_valid :: "prox_env \<Rightarrow> bool" where
  "reader_auth_valid env \<longleftrightarrow> \<not> reader_auth_present env \<or> env_reader_auth_valid env"

section \<open>The byte strings of the exchange\<close>

definition device_engagement_value :: "bytes \<Rightarrow> bytes \<Rightarrow> cbor_value" where
  "device_engagement_value device_key_cose ble_uuid =
     (let device_key_bytes = Tag 24 (Bytes device_key_cose);
          security = Array [Uint CIPHER_SUITE, device_key_bytes];
          ble_options = Map [(Uint 0, Bool True), (Uint 11, Bytes ble_uuid)];
          ble_method = Array [Uint RETRIEVAL_METHOD_BLE, Uint 1, ble_options]
      in Map
           [(Uint 0, Text ''1.0''),
            (Uint 1, security),
            (Uint 2, Array [ble_method])])"

definition build_device_engagement :: "bytes \<Rightarrow> bytes \<Rightarrow> bytes" where
  "build_device_engagement device_key_cose ble_uuid =
     to_canonical (device_engagement_value device_key_cose ble_uuid)"

definition session_transcript_value :: "bytes \<Rightarrow> bytes \<Rightarrow> cbor_value" where
  "session_transcript_value device_engagement e_reader_key_cose =
     Array [Tag 24 (Bytes device_engagement), Tag 24 (Bytes e_reader_key_cose), Null]"

definition session_transcript :: "bytes \<Rightarrow> bytes \<Rightarrow> bytes" where
  "session_transcript device_engagement e_reader_key_cose =
     to_canonical (session_transcript_value device_engagement e_reader_key_cose)"

definition session_transcript_bytes :: "bytes \<Rightarrow> bytes" where
  "session_transcript_bytes st = to_canonical (Tag 24 (Bytes st))"

definition device_authentication_value :: "cbor_value \<Rightarrow> cbor_value" where
  "device_authentication_value transcript =
     (let device_namespaces_bytes = Tag 24 (Bytes (to_canonical (Map [])))
      in Array
           [Text ''DeviceAuthentication'',
            transcript,
            Text DOC_TYPE_MDL,
            device_namespaces_bytes])"

definition device_auth_signing_input :: "bytes \<Rightarrow> bytes" where
  "device_auth_signing_input st =
     (let transcript = (case decode_value st 0 of Inr (v, _) \<Rightarrow> v | Inl _ \<Rightarrow> Null)
      in to_canonical (Tag 24 (Bytes (to_canonical (device_authentication_value transcript)))))"

definition assemble_device_response :: "bytes \<Rightarrow> bytes \<Rightarrow> bytes" where
  "assemble_device_response st signature =
     to_canonical (Array [Text ''DeviceResponse'', Bytes st, Bytes signature])"

section \<open>The machine\<close>

definition prox_step :: "prox_env \<Rightarrow> prox_state \<Rightarrow> prox_input \<Rightarrow> prox_state \<times> prox_output list" where
  "prox_step env state input =
     (case (state, input) of
        (Prox_Idle, StartEngagement device_key_cose ble_uuid) \<Rightarrow>
          (let de = build_device_engagement device_key_cose ble_uuid
           in (Prox_Engaged de, [EmitDeviceEngagement de]))
      | (Prox_Engaged device_engagement, ReaderEstablishment e_reader_key_cose) \<Rightarrow>
          if \<not> reader_ephemeral_key_valid env then (Prox_Aborted ReaderKeyInvalid, [])
          else if \<not> session_transcript_is_bound env then (Prox_Aborted SessionTranscriptUnbound, [])
          else if \<not> reader_auth_valid env then (Prox_Aborted ReaderAuthInvalid, [])
          else (Prox_SessionEstablished (session_transcript device_engagement e_reader_key_cose),
                [Prox_RenderConsent])
      | (Prox_SessionEstablished st, Prox_ConsentGranted) \<Rightarrow>
          (Prox_SigningResponse st, [SignDeviceAuth (prox_device_key_ref env) (device_auth_signing_input st)])
      | (Prox_SessionEstablished _, Prox_ConsentDeclined) \<Rightarrow> (Prox_Aborted NoConsent, [EmitTermination])
      | (Prox_SigningResponse st, Prox_DeviceSignatureProduced sig) \<Rightarrow>
          (Prox_Responded, [EmitDeviceResponse (assemble_device_response st sig)])
      | (Prox_Engaged _, Prox_ConsentGranted) \<Rightarrow> (Prox_Aborted RequestOutOfOrder, [])
      | (_, ReaderTermination) \<Rightarrow> (Prox_Terminated, [EmitTermination])
      | (s, _) \<Rightarrow> (s, []))"

section \<open>The reference model\<close>

datatype prox_st =
  XM_Idle | XM_Engaged | XM_SessionEstablished | XM_SigningResponse | XM_Responded | XM_Aborted | XM_Terminated

datatype prox_ev =
    XM_StartEngagement
  | XM_ReaderEstablish bool
  | XM_ConsentGrant
  | XM_ConsentDecline
  | XM_DeviceSign
  | XM_Terminate

record prox_ctx =
  xm_st :: prox_st
  xm_session_bound :: bool
  xm_consented :: bool

definition prox_model_init :: prox_ctx where
  "prox_model_init = \<lparr>xm_st = XM_Idle, xm_session_bound = False, xm_consented = False\<rparr>"

definition prox_model_step :: "prox_ctx \<Rightarrow> prox_ev \<Rightarrow> prox_ctx" where
  "prox_model_step c ev =
     (case ev of
        XM_StartEngagement \<Rightarrow> if xm_st c = XM_Idle then c\<lparr>xm_st := XM_Engaged\<rparr> else c
      | XM_ReaderEstablish ok \<Rightarrow>
          if xm_st c = XM_Engaged then
            if ok then c\<lparr>xm_st := XM_SessionEstablished, xm_session_bound := True\<rparr>
            else c\<lparr>xm_st := XM_Aborted\<rparr>
          else c
      | XM_ConsentGrant \<Rightarrow>
          (case xm_st c of
             XM_SessionEstablished \<Rightarrow> c\<lparr>xm_st := XM_SigningResponse, xm_consented := True\<rparr>
           | XM_Engaged \<Rightarrow> c\<lparr>xm_st := XM_Aborted\<rparr>
           | _ \<Rightarrow> c)
      | XM_ConsentDecline \<Rightarrow> if xm_st c = XM_SessionEstablished then c\<lparr>xm_st := XM_Aborted\<rparr> else c
      | XM_DeviceSign \<Rightarrow> if xm_st c = XM_SigningResponse then c\<lparr>xm_st := XM_Responded\<rparr> else c
      | XM_Terminate \<Rightarrow> c\<lparr>xm_st := XM_Terminated\<rparr>)"

definition prox_model_run :: "prox_ev list \<Rightarrow> prox_ctx" where
  "prox_model_run evs = foldl prox_model_step prox_model_init evs"

definition prox_state_name :: "prox_st \<Rightarrow> string" where
  "prox_state_name st =
     (case st of
        XM_Idle \<Rightarrow> ''idle''
      | XM_Engaged \<Rightarrow> ''engaged''
      | XM_SessionEstablished \<Rightarrow> ''sessionEstablished''
      | XM_SigningResponse \<Rightarrow> ''signingResponse''
      | XM_Responded \<Rightarrow> ''responded''
      | XM_Aborted \<Rightarrow> ''aborted''
      | XM_Terminated \<Rightarrow> ''terminated'')"

section \<open>The anti-relay binding\<close>

lemma engagement_accepted:
  "length dk < 2 ^ 64 \<Longrightarrow> length u = 16 \<Longrightarrow> cbor_accepted (device_engagement_value dk u)"
  by (simp add: device_engagement_value_def MAX_DEPTH_def valid_str_def valid_utf8_def as_bytes_def
      write_head_def)

lemma transcript_accepted:
  "length de < 2 ^ 64 \<Longrightarrow> length rk < 2 ^ 64 \<Longrightarrow> cbor_accepted (session_transcript_value de rk)"
  by (simp add: session_transcript_value_def MAX_DEPTH_def)

lemma transcript_decodes:
  "length de < 2 ^ 64 \<Longrightarrow> length rk < 2 ^ 64 \<Longrightarrow>
     decode_value (session_transcript de rk) 0 = Inr (session_transcript_value de rk, [])"
  using decode_encoded [where rest = "[]" and d = 0 and v = "session_transcript_value de rk"]
    transcript_accepted by (simp add: session_transcript_def)

lemma device_authentication_accepted:
  "length de < 2 ^ 64 \<Longrightarrow> length rk < 2 ^ 64 \<Longrightarrow>
     cbor_accepted (device_authentication_value (session_transcript_value de rk))"
  by (simp add: device_authentication_value_def session_transcript_value_def DOC_TYPE_MDL_def
      MAX_DEPTH_def valid_str_def valid_utf8_def as_bytes_def canonical_pairs_def flatten_pairs_def
      write_head_def Let_def)

lemma engagement_length:
  "length u = 16 \<Longrightarrow> length (build_device_engagement dk u) \<le> length dk + 100"
  using length_write_head [of 2 "of_nat (length dk)"] length_write_head [of 2 16]
  by (simp add: build_device_engagement_def device_engagement_value_def canonical_pairs_def
      flatten_pairs_def write_head_def [of 0] write_head_def [of 3] write_head_def [of 4]
      write_head_def [of 5] write_head_def [of 6] as_bytes_def CIPHER_SUITE_def RETRIEVAL_METHOD_BLE_def)

lemma transcript_length: "length (to_canonical (session_transcript_value de rk)) \<le> length de + length rk + 100"
  using length_to_canonical_Bytes [of de] length_to_canonical_Bytes [of rk]
    length_to_canonical_Tag [of 24 "Bytes de"] length_to_canonical_Tag [of 24 "Bytes rk"]
    length_to_canonical_Array [of "[Tag 24 (Bytes de), Tag 24 (Bytes rk), Null]"]
  by (simp add: session_transcript_value_def del: to_canonical.simps) simp

lemma device_authentication_length:
  "length (to_canonical (device_authentication_value v)) \<le> length (to_canonical v) + 200"
  by (simp add: device_authentication_value_def Let_def DOC_TYPE_MDL_def as_bytes_def canonical_pairs_def
      flatten_pairs_def write_head_def)

definition relay_bounds :: "bytes \<Rightarrow> bytes \<Rightarrow> bytes \<Rightarrow> bool" where
  "relay_bounds dk u rk \<longleftrightarrow> length dk < 2 ^ 32 \<and> length u = 16 \<and> length rk < 2 ^ 32"

lemma relay_bounds_lengths:
  assumes "relay_bounds dk u rk"
  shows "length (build_device_engagement dk u) < 2 ^ 33" "length rk < 2 ^ 64" "length dk < 2 ^ 64"
  using assms engagement_length [of u dk] by (auto simp: relay_bounds_def)

lemma signing_input_accepted:
  assumes "relay_bounds dk u rk"
  shows "cbor_accepted (Tag 24 (Bytes (to_canonical (device_authentication_value
    (session_transcript_value (build_device_engagement dk u) rk)))))"
proof -
  have "length (to_canonical (device_authentication_value
      (session_transcript_value (build_device_engagement dk u) rk))) < 2 ^ 64"
    using relay_bounds_lengths [OF assms] assms
      device_authentication_length [of "session_transcript_value (build_device_engagement dk u) rk"]
      transcript_length [of "build_device_engagement dk u" rk]
    by (simp add: relay_bounds_def)
  then show ?thesis by (simp add: MAX_DEPTH_def)
qed

text \<open>
  C30. The anti-relay binding: the bytes the device key signs in two sessions coincide exactly when
  the engagement's device key, its BLE service UUID and the reader's ephemeral key all coincide, so
  a device signature made for one reader's session never verifies in another's. Keys of up to four
  gigabytes are covered; a COSE_Key for P-256 has under a hundred bytes.
\<close>

theorem proximity_signature_binds_session:
  assumes "relay_bounds dk u rk" "relay_bounds dk' u' rk'"
  shows "device_auth_signing_input (session_transcript (build_device_engagement dk u) rk)
      = device_auth_signing_input (session_transcript (build_device_engagement dk' u') rk')
    \<longleftrightarrow> dk = dk' \<and> u = u' \<and> rk = rk'"
proof
  note b = relay_bounds_lengths [OF assms(1)] relay_bounds_lengths [OF assms(2)]
  let ?t = "session_transcript_value (build_device_engagement dk u) rk"
  let ?t' = "session_transcript_value (build_device_engagement dk' u') rk'"
  assume "device_auth_signing_input (session_transcript (build_device_engagement dk u) rk)
      = device_auth_signing_input (session_transcript (build_device_engagement dk' u') rk')"
  with b have "to_canonical (Tag 24 (Bytes (to_canonical (device_authentication_value ?t))))
      = to_canonical (Tag 24 (Bytes (to_canonical (device_authentication_value ?t'))))"
    by (simp add: device_auth_signing_input_def transcript_decodes Let_def)
  then have "to_canonical (device_authentication_value ?t) = to_canonical (device_authentication_value ?t')"
    using cbor.enc_inject [OF signing_input_accepted [OF assms(1)] signing_input_accepted [OF assms(2)]]
    by simp
  then have "device_authentication_value ?t = device_authentication_value ?t'"
    using b by (subst (asm) cbor.enc_inject) (auto intro!: device_authentication_accepted [THEN conjunct1]
        device_authentication_accepted [THEN conjunct2])
  then have "build_device_engagement dk u = build_device_engagement dk' u'" and rk: "rk = rk'"
    by (simp_all add: device_authentication_value_def session_transcript_value_def Let_def)
  then have "device_engagement_value dk u = device_engagement_value dk' u'"
    using assms b unfolding build_device_engagement_def
    by (subst (asm) cbor.enc_inject)
      (auto intro!: engagement_accepted [THEN conjunct1] engagement_accepted [THEN conjunct2]
        simp: relay_bounds_def)
  with rk show "dk = dk' \<and> u = u' \<and> rk = rk'"
    by (simp add: device_engagement_value_def)
qed simp

theorem proximity_signature_binds_session_witness:
  "device_auth_signing_input (session_transcript (build_device_engagement [1] (replicate 16 0)) [2])
    \<noteq> device_auth_signing_input (session_transcript (build_device_engagement [1] (replicate 16 0)) [3])"
  using proximity_signature_binds_session [of "[1]" "replicate 16 0" "[2]" "[1]" "replicate 16 0" "[3]"]
  by (simp add: relay_bounds_def)

section \<open>The consent gate\<close>

definition prox_shown :: "prox_state \<Rightarrow> bytes option" where
  "prox_shown s = (case s of Prox_SessionEstablished st \<Rightarrow> Some st | _ \<Rightarrow> None)"

definition prox_pending :: "prox_state \<Rightarrow> bytes option" where
  "prox_pending s = (case s of Prox_SigningResponse st \<Rightarrow> Some st | _ \<Rightarrow> None)"

definition prox_release :: "prox_output \<Rightarrow> bool" where
  "prox_release out = (case out of EmitDeviceResponse _ \<Rightarrow> True | _ \<Rightarrow> False)"

definition prox_finished :: "prox_state \<Rightarrow> bool" where
  "prox_finished s = (case s of Prox_Responded \<Rightarrow> True | Prox_Terminated \<Rightarrow> True | Prox_Aborted _ \<Rightarrow> True | _ \<Rightarrow> False)"

lemmas prox_flow_defs = prox_step_def prox_shown_def prox_pending_def prox_release_def prox_finished_def

lemmas prox_splits = prox_state.splits prox_input.splits prox_output.splits if_splits

interpretation prox: consent_gate prox_step prox_shown prox_pending "\<lambda>_ out. out = Prox_RenderConsent"
  "\<lambda>i. i = Prox_ConsentGranted" prox_release
  by unfold_locales (auto simp: prox_flow_defs Let_def split: prox_splits)

interpretation prox: single_release prox_step prox_release prox_finished
  by unfold_locales (auto simp: prox_flow_defs Let_def split: prox_splits)

lemma prox_establishes:
  assumes "prox_step env s i = (s', outs)" "prox_shown s' = Some st" "prox_shown s \<noteq> Some st"
  obtains de rk where "s = Prox_Engaged de" "i = ReaderEstablishment rk" "st = session_transcript de rk"
    "reader_key_on_curve env" "transcript_bound env" "reader_auth_present env \<longrightarrow> env_reader_auth_valid env"
    "outs = [Prox_RenderConsent]"
  using assms
  by (auto simp: prox_flow_defs Let_def reader_ephemeral_key_valid_def session_transcript_is_bound_def
      reader_auth_valid_def split: prox_splits)

lemma prox_engages:
  assumes "prox_step env s i = (s', outs)" "s' = Prox_Engaged de" "s \<noteq> Prox_Engaged de"
  obtains dk u where "s = Prox_Idle" "i = StartEngagement dk u" "de = build_device_engagement dk u"
    "outs = [EmitDeviceEngagement de]"
  using assms by (auto simp: prox_step_def Let_def split: prox_splits)

lemma prox_releases:
  assumes "EmitDeviceResponse r \<in> set (snd (prox_step env s i))"
  obtains st sig where "s = Prox_SigningResponse st" "i = Prox_DeviceSignatureProduced sig"
    "r = assemble_device_response st sig"
  using assms by (auto simp: prox_step_def Let_def split: prox_splits)

lemma prox_approval_signs_shown:
  assumes "prox_shown s = Some st"
  shows "snd (prox_step env s Prox_ConsentGranted)
    = [SignDeviceAuth (prox_device_key_ref env) (device_auth_signing_input st)]"
  using assms by (auto simp: prox_flow_defs split: prox_splits)

lemma prox_established_trace:
  assumes "prox_shown (flow_state prox_step Prox_Idle (take j xs)) = Some st" "j \<le> length xs"
  shows "\<exists>l m dk u rk. l < m \<and> m < j
    \<and> snd (xs ! l) = StartEngagement dk u
    \<and> flow_outputs prox_step Prox_Idle xs ! l = [EmitDeviceEngagement (build_device_engagement dk u)]
    \<and> snd (xs ! m) = ReaderEstablishment rk
    \<and> reader_key_on_curve (fst (xs ! m)) \<and> transcript_bound (fst (xs ! m))
    \<and> (reader_auth_present (fst (xs ! m)) \<longrightarrow> env_reader_auth_valid (fst (xs ! m)))
    \<and> flow_outputs prox_step Prox_Idle xs ! m = [Prox_RenderConsent]
    \<and> st = session_transcript (build_device_engagement dk u) rk"
proof -
  let ?S = "\<lambda>n. flow_state prox_step Prox_Idle (take n xs)"
  have step: "prox_step (fst (xs ! n)) (?S n) (snd (xs ! n)) =
      (?S (Suc n), flow_outputs prox_step Prox_Idle xs ! n)" if "n < length xs" for n
    using that by (simp add: flow_state_take_Suc flow_outputs_nth)
  from flow_entered [where P = "\<lambda>s. prox_shown s = Some st", OF assms(1) _ assms(2)]
  obtain m where m: "m < j" "prox_shown (?S m) \<noteq> Some st" "prox_shown (?S (Suc m)) = Some st"
    by (auto simp: prox_shown_def)
  with assms(2) have mlen: "m < length xs" by simp
  from prox_establishes [OF step [OF mlen] m(3,2)] obtain de rk where
    e: "?S m = Prox_Engaged de" "snd (xs ! m) = ReaderEstablishment rk" "st = session_transcript de rk"
    "reader_key_on_curve (fst (xs ! m))" "transcript_bound (fst (xs ! m))"
    "reader_auth_present (fst (xs ! m)) \<longrightarrow> env_reader_auth_valid (fst (xs ! m))"
    "flow_outputs prox_step Prox_Idle xs ! m = [Prox_RenderConsent]" .
  from flow_entered [where P = "\<lambda>s. s = Prox_Engaged de", OF e(1)] mlen
  obtain l where l: "l < m" "?S l \<noteq> Prox_Engaged de" "?S (Suc l) = Prox_Engaged de" by auto
  with mlen have llen: "l < length xs" by simp
  from prox_engages [OF step [OF llen] l(3,2)] obtain dk u where
    "snd (xs ! l) = StartEngagement dk u" "de = build_device_engagement dk u"
    "flow_outputs prox_step Prox_Idle xs ! l = [EmitDeviceEngagement de]" .
  with e l m show ?thesis by blast
qed

text \<open>
  C31. A device response leaves the wallet only at the end of the whole protocol, in order: an
  engagement was emitted; a reader answered it with a valid ephemeral key, a bound transcript and a
  reader authentication that is absent or valid, and consent was rendered; the user granted consent
  and the device was asked to sign the device authentication of exactly this engagement and reader
  key; and the response carries the signature delivered at that step. At most one response leaves
  a session.
\<close>

theorem proximity_response_only_after_consent:
  assumes "k < length xs"
    and "EmitDeviceResponse r \<in> set (flow_outputs prox_step Prox_Idle xs ! k)"
  shows "(\<exists>l m j dk u rk sig st. l < m \<and> m < j \<and> j < k
      \<and> st = session_transcript (build_device_engagement dk u) rk
      \<and> snd (xs ! l) = StartEngagement dk u
      \<and> flow_outputs prox_step Prox_Idle xs ! l = [EmitDeviceEngagement (build_device_engagement dk u)]
      \<and> snd (xs ! m) = ReaderEstablishment rk
      \<and> reader_key_on_curve (fst (xs ! m)) \<and> transcript_bound (fst (xs ! m))
      \<and> (reader_auth_present (fst (xs ! m)) \<longrightarrow> env_reader_auth_valid (fst (xs ! m)))
      \<and> flow_outputs prox_step Prox_Idle xs ! m = [Prox_RenderConsent]
      \<and> snd (xs ! j) = Prox_ConsentGranted
      \<and> flow_outputs prox_step Prox_Idle xs ! j
          = [SignDeviceAuth (prox_device_key_ref (fst (xs ! j))) (device_auth_signing_input st)]
      \<and> snd (xs ! k) = Prox_DeviceSignatureProduced sig
      \<and> r = assemble_device_response st sig)
    \<and> length (filter prox_release (concat (flow_outputs prox_step Prox_Idle xs))) \<le> 1"
proof -
  let ?S = "\<lambda>n. flow_state prox_step Prox_Idle (take n xs)"
  from assms(2) have "EmitDeviceResponse r \<in> set (snd (prox_step (fst (xs ! k)) (?S k) (snd (xs ! k))))"
    by (simp add: flow_outputs_nth [OF assms(1)])
  from prox_releases [OF this] obtain st sig where
    s: "?S k = Prox_SigningResponse st" and sig: "snd (xs ! k) = Prox_DeviceSignatureProduced sig"
    and r: "r = assemble_device_response st sig" .
  from s have "prox_pending (?S k) = Some st" by (simp add: prox_pending_def)
  from prox.pending_trace [OF this] assms(1) obtain j where
    j: "j < k" "snd (xs ! j) = Prox_ConsentGranted" "prox_shown (?S j) = Some st"
    by (auto simp: prox_pending_def)
  have sign: "flow_outputs prox_step Prox_Idle xs ! j
      = [SignDeviceAuth (prox_device_key_ref (fst (xs ! j))) (device_auth_signing_input st)]"
    using j assms(1) prox_approval_signs_shown [OF j(3)] by (simp add: flow_outputs_nth)
  have "j \<le> length xs" using j(1) assms(1) by simp
  from prox_established_trace [OF j(3) this] j(1,2) sign sig r show ?thesis
    by (intro conjI prox.at_most_one_release) blast
qed

abbreviation sample_prox_run :: "(prox_env \<times> prox_input) list" where
  "sample_prox_run \<equiv> map (Pair \<lparr>reader_key_on_curve = True, transcript_bound = True,
       reader_auth_present = False, env_reader_auth_valid = False, prox_device_key_ref = ''k''\<rparr>)
     [StartEngagement [1] (replicate 16 0), ReaderEstablishment [2], Prox_ConsentGranted,
      Prox_DeviceSignatureProduced [9]]"

theorem proximity_response_only_after_consent_witness:
  "length (filter prox_release (concat (flow_outputs prox_step Prox_Idle sample_prox_run))) \<le> 1
    \<and> EmitDeviceResponse (assemble_device_response
        (session_transcript (build_device_engagement [1] (replicate 16 0)) [2]) [9])
      \<in> set (flow_outputs prox_step Prox_Idle sample_prox_run ! 3)"
proof -
  have out: "EmitDeviceResponse (assemble_device_response
        (session_transcript (build_device_engagement [1] (replicate 16 0)) [2]) [9])
      \<in> set (flow_outputs prox_step Prox_Idle sample_prox_run ! 3)"
    by (simp add: prox_step_def Let_def reader_ephemeral_key_valid_def session_transcript_is_bound_def
        reader_auth_valid_def)
  have "3 < length sample_prox_run" by simp
  from proximity_response_only_after_consent [OF this out, THEN conjunct2] out show ?thesis by (rule conjI)
qed

section \<open>Refinement of the reference model\<close>

definition prox_events :: "prox_env \<Rightarrow> prox_state \<Rightarrow> prox_input \<Rightarrow> prox_ev list" where
  "prox_events env s i =
     (case i of
        StartEngagement _ _ \<Rightarrow> [XM_StartEngagement]
      | ReaderEstablishment _ \<Rightarrow>
          [XM_ReaderEstablish
            (reader_ephemeral_key_valid env \<and> session_transcript_is_bound env \<and> reader_auth_valid env)]
      | Prox_ConsentGranted \<Rightarrow> [XM_ConsentGrant]
      | Prox_ConsentDeclined \<Rightarrow> [XM_ConsentDecline]
      | Prox_DeviceSignatureProduced _ \<Rightarrow> [XM_DeviceSign]
      | ReaderTermination \<Rightarrow> [XM_Terminate])"

definition prox_related :: "prox_state \<Rightarrow> prox_ctx \<Rightarrow> bool" where
  "prox_related s c =
     (case s of
        Prox_Idle \<Rightarrow> xm_st c = XM_Idle
      | Prox_Engaged _ \<Rightarrow> xm_st c = XM_Engaged
      | Prox_SessionEstablished _ \<Rightarrow> xm_st c = XM_SessionEstablished \<and> xm_session_bound c
      | Prox_SigningResponse _ \<Rightarrow> xm_st c = XM_SigningResponse \<and> xm_session_bound c \<and> xm_consented c
      | Prox_Responded \<Rightarrow> xm_st c = XM_Responded \<and> xm_session_bound c \<and> xm_consented c
      | Prox_Terminated \<Rightarrow> xm_st c = XM_Terminated
      | Prox_Aborted _ \<Rightarrow> xm_st c = XM_Aborted)"

interpretation prox: flow_simulation prox_step prox_model_step prox_related prox_events "\<lambda>_ _ _. True"
  by unfold_locales
    (auto simp: prox_related_def prox_step_def prox_events_def prox_model_step_def Let_def
      split: prox_splits prox_st.splits)

lemma prox_admissible: "admissible_run prox_step prox_model_step prox_events (\<lambda>_ _ _. True) s c xs"
  by (induction xs arbitrary: s c) auto

lemma prox_model_run_foldl:
  "model_run prox_step prox_model_step prox_events s c xs
    = foldl prox_model_step c (concat (map (\<lambda>(e, i). prox_events e Prox_Idle i) xs))"
proof (induction xs arbitrary: s c)
  case (Cons x xs)
  then show ?case by (cases x) (simp add: prox_events_def)
qed simp

text \<open>
  The production machine refines the crate's reference model on every input sequence and every
  environment: states correspond, and a machine that responded did so with the session bound and
  consent given in the model.
\<close>

theorem proximity_refines_model:
  "prox_related (flow_state prox_step Prox_Idle xs)
    (prox_model_run (concat (map (\<lambda>(e, i). prox_events e Prox_Idle i) xs)))"
  using prox.run_simulates [OF _ prox_admissible, of Prox_Idle prox_model_init xs]
  by (simp add: prox_model_run_foldl prox_model_run_def prox_related_def prox_model_init_def)

end
