(* ===== verification/Dcql.thy ===== *)
theory Dcql
  imports Wallet_Std "HOL-Library.Product_Lexorder"
begin

text \<open>
  The credential query language, \<open>crates/oid4vp/src/dcql.rs\<close>: the bounds an untrusted query must
  meet, the claim alternatives, and the plan that picks which credential queries to answer. Serde's
  derived deserialiser of the query structs is an argument, as is the printing of JSON numbers.
\<close>

section \<open>Limits and data\<close>

definition MAX_DCQL_BYTES :: nat where
  "MAX_DCQL_BYTES = 128 * 1024"

definition MAX_CREDENTIAL_QUERIES :: nat where
  "MAX_CREDENTIAL_QUERIES = 16"

definition MAX_CREDENTIAL_SET_QUERIES :: nat where
  "MAX_CREDENTIAL_SET_QUERIES = 16"

definition MAX_CREDENTIAL_SET_OPTIONS :: nat where
  "MAX_CREDENTIAL_SET_OPTIONS = 16"

definition MAX_CREDENTIAL_IDS_PER_OPTION :: nat where
  "MAX_CREDENTIAL_IDS_PER_OPTION = MAX_CREDENTIAL_QUERIES"

definition MAX_CLAIMS_PER_QUERY :: nat where
  "MAX_CLAIMS_PER_QUERY = 64"

definition MAX_CLAIM_SET_OPTIONS :: nat where
  "MAX_CLAIM_SET_OPTIONS = 32"

definition MAX_CLAIM_IDS_PER_OPTION :: nat where
  "MAX_CLAIM_IDS_PER_OPTION = MAX_CLAIMS_PER_QUERY"

definition MAX_PATH_DEPTH :: nat where
  "MAX_PATH_DEPTH = 16"

definition MAX_VALUES_PER_CLAIM :: nat where
  "MAX_VALUES_PER_CLAIM = 64"

definition MAX_META_VALUES :: nat where
  "MAX_META_VALUES = 32"

definition MAX_IDENTIFIER_BYTES :: nat where
  "MAX_IDENTIFIER_BYTES = 128"

definition MAX_CLAIM_NAME_BYTES :: nat where
  "MAX_CLAIM_NAME_BYTES = 256"

definition MAX_JSON_STRING_OR_KEY_BYTES :: nat where
  "MAX_JSON_STRING_OR_KEY_BYTES = 512"

definition MAX_JSON_VALUE_DEPTH :: nat where
  "MAX_JSON_VALUE_DEPTH = 16"

definition MAX_JSON_CONTAINER_ITEMS :: nat where
  "MAX_JSON_CONTAINER_ITEMS = 128"

record credential_set_query =
  cs_options :: "string list list"
  cs_required :: bool

record dcql_meta =
  vct_values :: "string list"
  doctype_value :: "string option"

record claim_query =
  cl_id :: "string option"
  cl_path :: "json list"
  cl_values :: "json list option"
  intent_to_retain :: "bool option"

record credential_query =
  cq_id :: string
  cq_format :: string
  cq_meta :: "dcql_meta option"
  cq_claims :: "claim_query list"
  cq_claim_sets :: "string list list option"
  trusted_authorities :: "json option"
  require_cryptographic_holder_binding :: "bool option"
  cq_multiple :: "bool option"

record dcql_query =
  dq_credentials :: "credential_query list"
  dq_credential_sets :: "credential_set_query list option"

section \<open>Paths and claim alternatives\<close>

definition path_element :: "(json_number \<Rightarrow> string) \<Rightarrow> string \<Rightarrow> json \<Rightarrow> string" where
  "path_element number_to_string out element =
     (case element of
        JString s \<Rightarrow> (if out = [] then s else out @ ''.'' @ s)
      | JNumber n \<Rightarrow> out @ ''['' @ number_to_string n @ '']''
      | JNull \<Rightarrow> out @ ''[]''
      | _ \<Rightarrow> out)"

definition path_string :: "(json_number \<Rightarrow> string) \<Rightarrow> claim_query \<Rightarrow> string" where
  "path_string number_to_string c = foldl (path_element number_to_string) [] (cl_path c)"

text \<open>\<open>collect\<close> of options: all values, or \<open>None\<close> at the first missing one.\<close>

fun collect_options :: "'a option list \<Rightarrow> 'a list option" where
  "collect_options [] = Some []"
| "collect_options (x # xs) =
     (case x of None \<Rightarrow> None | Some v \<Rightarrow> map_option (Cons v) (collect_options xs))"

definition claim_selection_options :: "credential_query \<Rightarrow> nat list list option" where
  "claim_selection_options c =
     (case cq_claim_sets c of
        None \<Rightarrow> Some [[0..<length (cq_claims c)]]
      | Some claim_sets \<Rightarrow>
          collect_options (map (\<lambda>claim_set.
            collect_options (map (\<lambda>ident. position (\<lambda>claim. cl_id claim = Some ident) (cq_claims c)) claim_set)) claim_sets))"

section \<open>Bounds\<close>

definition valid_dcql_id :: "string \<Rightarrow> bool" where
  "valid_dcql_id ident \<longleftrightarrow>
     ident \<noteq> [] \<and> length ident \<le> MAX_IDENTIFIER_BYTES
     \<and> list_all (\<lambda>byte. is_ascii_alphanumeric byte \<or> byte = 0x5F \<or> byte = 0x2D) (as_bytes ident)"

definition same_identifier_set :: "string list \<Rightarrow> string list \<Rightarrow> bool" where
  "same_identifier_set left right \<longleftrightarrow> length left = length right \<and> list_all (\<lambda>ident. ident \<in> set right) left"

text \<open>\<open>iter().enumerate().all(|(i, x)| ...)\<close>, the earlier elements in place of the index.\<close>

fun all_with_earlier :: "('a list \<Rightarrow> 'a \<Rightarrow> bool) \<Rightarrow> 'a list \<Rightarrow> 'a list \<Rightarrow> bool" where
  "all_with_earlier P earlier [] \<longleftrightarrow> True"
| "all_with_earlier P earlier (x # xs) \<longleftrightarrow> P earlier x \<and> all_with_earlier P (earlier @ [x]) xs"

definition meta_within_budget :: "dcql_meta \<Rightarrow> bool" where
  "meta_within_budget meta \<longleftrightarrow>
     length (vct_values meta) \<le> MAX_META_VALUES
     \<and> list_all (\<lambda>v. v \<noteq> [] \<and> length v \<le> MAX_JSON_STRING_OR_KEY_BYTES) (vct_values meta)
     \<and> (case doctype_value meta of None \<Rightarrow> True | Some v \<Rightarrow> v \<noteq> [] \<and> length v \<le> MAX_JSON_STRING_OR_KEY_BYTES)"

definition meta_matches_format :: "string \<Rightarrow> dcql_meta option \<Rightarrow> bool" where
  "meta_matches_format format meta \<longleftrightarrow>
     (if format = ''dc+sd-jwt'' then (case meta of None \<Rightarrow> False | Some m \<Rightarrow> vct_values m \<noteq> [])
      else if format = ''mso_mdoc'' then
        (case meta of None \<Rightarrow> False
         | Some m \<Rightarrow> (case doctype_value m of None \<Rightarrow> False | Some dt \<Rightarrow> dt \<noteq> []))
      else True)"

definition path_element_ok :: "json \<Rightarrow> bool" where
  "path_element_ok element \<longleftrightarrow>
     (case element of
        JString name \<Rightarrow> name \<noteq> [] \<and> length name \<le> MAX_CLAIM_NAME_BYTES
      | JNumber n \<Rightarrow> json_as_u64 element \<noteq> None
      | JNull \<Rightarrow> True
      | _ \<Rightarrow> False)"

definition claim_value_ok :: "json \<Rightarrow> bool" where
  "claim_value_ok v \<longleftrightarrow>
     (case v of
        JString _ \<Rightarrow> True
      | JBool _ \<Rightarrow> True
      | JNumber _ \<Rightarrow> json_as_i64 v \<noteq> None \<or> json_as_u64 v \<noteq> None
      | _ \<Rightarrow> False)"

definition claim_within_budget :: "credential_query \<Rightarrow> claim_query list \<Rightarrow> claim_query \<Rightarrow> bool" where
  "claim_within_budget credential earlier claim \<longleftrightarrow>
     (case cl_id claim of
        None \<Rightarrow> True
      | Some ident \<Rightarrow> valid_dcql_id ident \<and> ident \<notin> set (List.map_filter cl_id earlier))
     \<and> (cq_claim_sets credential = None \<or> cl_id claim \<noteq> None)
     \<and> cl_path claim \<noteq> [] \<and> length (cl_path claim) \<le> MAX_PATH_DEPTH
     \<and> list_all path_element_ok (cl_path claim)
     \<and> (case cl_values claim of
          None \<Rightarrow> True
        | Some values \<Rightarrow> values \<noteq> [] \<and> length values \<le> MAX_VALUES_PER_CLAIM \<and> list_all claim_value_ok values)
     \<and> \<not> list_ex (\<lambda>e. cl_path e = cl_path claim) earlier"

definition claim_set_within_budget :: "credential_query \<Rightarrow> string list list \<Rightarrow> string list \<Rightarrow> bool" where
  "claim_set_within_budget credential earlier_sets claim_set \<longleftrightarrow>
     claim_set \<noteq> [] \<and> length claim_set \<le> MAX_CLAIM_IDS_PER_OPTION
     \<and> all_with_earlier (\<lambda>earlier ident. valid_dcql_id ident \<and> ident \<notin> set earlier
          \<and> list_ex (\<lambda>claim. cl_id claim = Some ident) (cq_claims credential)) [] claim_set
     \<and> \<not> list_ex (\<lambda>e. same_identifier_set e claim_set) earlier_sets"

definition credential_within_budget :: "credential_query list \<Rightarrow> credential_query \<Rightarrow> bool" where
  "credential_within_budget earlier credential \<longleftrightarrow>
     valid_dcql_id (cq_id credential) \<and> \<not> list_ex (\<lambda>e. cq_id e = cq_id credential) earlier
     \<and> cq_format credential \<noteq> [] \<and> length (cq_format credential) \<le> MAX_IDENTIFIER_BYTES
     \<and> length (cq_claims credential) \<le> MAX_CLAIMS_PER_QUERY
     \<and> trusted_authorities credential = None
     \<and> cq_meta credential \<noteq> None
     \<and> (case cq_meta credential of None \<Rightarrow> True | Some meta \<Rightarrow> meta_within_budget meta)
     \<and> meta_matches_format (cq_format credential) (cq_meta credential)
     \<and> all_with_earlier (claim_within_budget credential) [] (cq_claims credential)
     \<and> (case cq_claim_sets credential of
          None \<Rightarrow> True
        | Some claim_sets \<Rightarrow>
            claim_sets \<noteq> [] \<and> length claim_sets \<le> MAX_CLAIM_SET_OPTIONS
            \<and> all_with_earlier (claim_set_within_budget credential) [] claim_sets)"

definition set_option_within_budget :: "credential_query list \<Rightarrow> string list list \<Rightarrow> string list \<Rightarrow> bool" where
  "set_option_within_budget credentials earlier_options ids \<longleftrightarrow>
     ids \<noteq> [] \<and> length ids \<le> MAX_CREDENTIAL_IDS_PER_OPTION
     \<and> all_with_earlier (\<lambda>earlier ident. valid_dcql_id ident \<and> ident \<notin> set earlier
          \<and> list_ex (\<lambda>credential. cq_id credential = ident) credentials) [] ids
     \<and> \<not> list_ex (\<lambda>e. same_identifier_set e ids) earlier_options"

definition credential_set_within_budget :: "credential_query list \<Rightarrow> credential_set_query \<Rightarrow> bool" where
  "credential_set_within_budget credentials s \<longleftrightarrow>
     cs_options s \<noteq> [] \<and> length (cs_options s) \<le> MAX_CREDENTIAL_SET_OPTIONS
     \<and> all_with_earlier (set_option_within_budget credentials) [] (cs_options s)"

definition within_budget :: "dcql_query \<Rightarrow> bool" where
  "within_budget q \<longleftrightarrow>
     dq_credentials q \<noteq> [] \<and> length (dq_credentials q) \<le> MAX_CREDENTIAL_QUERIES
     \<and> all_with_earlier credential_within_budget [] (dq_credentials q)
     \<and> (case dq_credential_sets q of
          None \<Rightarrow> True
        | Some sets \<Rightarrow>
            sets \<noteq> [] \<and> length sets \<le> MAX_CREDENTIAL_SET_QUERIES
            \<and> list_all (credential_set_within_budget (dq_credentials q)) sets)"

section \<open>The selection plan\<close>

fun option_mask :: "credential_query list \<Rightarrow> bool list \<Rightarrow> u16 \<Rightarrow> string list \<Rightarrow> u16 option option" where
  "option_mask credentials satisfiable m [] = Some (Some m)"
| "option_mask credentials satisfiable m (ident # ids) =
     (case position (\<lambda>c. cq_id c = ident) credentials of
        None \<Rightarrow> None
      | Some index \<Rightarrow>
          if \<not> satisfiable ! index then Some None
          else option_mask credentials satisfiable (m OR push_bit index 1) ids)"

fun option_masks :: "credential_query list \<Rightarrow> bool list \<Rightarrow> u16 list \<Rightarrow> string list list \<Rightarrow> u16 list option" where
  "option_masks credentials satisfiable masks [] = Some masks"
| "option_masks credentials satisfiable masks (ids # options) =
     (case option_mask credentials satisfiable 0 ids of
        None \<Rightarrow> None
      | Some None \<Rightarrow> option_masks credentials satisfiable masks options
      | Some (Some m) \<Rightarrow>
          option_masks credentials satisfiable (if m \<in> set masks then masks else masks @ [m]) options)"

fun combine_options :: "u16 \<Rightarrow> u16 list \<Rightarrow> bool list \<times> u16 list \<Rightarrow> bool list \<times> u16 list" where
  "combine_options plan [] acc = acc"
| "combine_options plan (m # masks) (seen, plans) =
     (let combined = plan OR m; index = unat combined in
      combine_options plan masks
        (if seen ! index then (seen, plans) else (seen[index := True], plans @ [combined])))"

fun combine_plans :: "u16 list \<Rightarrow> u16 list \<Rightarrow> bool list \<times> u16 list \<Rightarrow> bool list \<times> u16 list" where
  "combine_plans [] masks acc = acc"
| "combine_plans (plan # plans) masks acc = combine_plans plans masks (combine_options plan masks acc)"

fun required_plans ::
    "credential_query list \<Rightarrow> bool list \<Rightarrow> credential_set_query list \<Rightarrow> u16 list \<Rightarrow> u16 list option" where
  "required_plans credentials satisfiable [] plans = Some plans"
| "required_plans credentials satisfiable (s # sets) plans =
     (if \<not> cs_required s then required_plans credentials satisfiable sets plans
      else
        case option_masks credentials satisfiable [] (cs_options s) of
          None \<Rightarrow> None
        | Some masks \<Rightarrow>
            if masks = [] then None
            else
              required_plans credentials satisfiable sets
                (snd (combine_plans plans masks (replicate (2 ^ length credentials) False, []))))"

definition count_ones :: "u16 \<Rightarrow> nat" where
  "count_ones w = length (filter (bit w) [0..<16])"

fun compare_plan_bits :: "u16 \<Rightarrow> u16 \<Rightarrow> nat list \<Rightarrow> ordering" where
  "compare_plan_bits left right [] = Equal"
| "compare_plan_bits left right (index # indices) =
     (if left AND push_bit index 1 \<noteq> 0 \<and> \<not> right AND push_bit index 1 \<noteq> 0 then Less
      else if \<not> left AND push_bit index 1 \<noteq> 0 \<and> right AND push_bit index 1 \<noteq> 0 then Greater
      else compare_plan_bits left right indices)"

definition compare_credential_plan_masks :: "nat \<Rightarrow> u16 \<Rightarrow> u16 \<Rightarrow> ordering" where
  "compare_credential_plan_masks credential_count left right =
     (case cmp (count_ones left) (count_ones right) of
        Equal \<Rightarrow> compare_plan_bits left right [0..<credential_count]
      | ord \<Rightarrow> ord)"

definition credential_selection_plan :: "dcql_query \<Rightarrow> bool list \<Rightarrow> nat list option" where
  "credential_selection_plan q satisfiable =
     (let credentials = dq_credentials q in
      if length satisfiable \<noteq> length credentials \<or> credentials = []
         \<or> length credentials > MAX_CREDENTIAL_QUERIES then None
      else
        case dq_credential_sets q of
          None \<Rightarrow> if list_all (\<lambda>available. available) satisfiable then Some [0..<length credentials] else None
        | Some sets \<Rightarrow>
            (case required_plans credentials satisfiable sets [0] of
               None \<Rightarrow> None
             | Some plans \<Rightarrow>
                 map_option (\<lambda>selected. filter (\<lambda>index. selected AND push_bit index 1 \<noteq> 0) [0..<length credentials])
                   (min_by (compare_credential_plan_masks (length credentials)) plans)))"

section \<open>Views of a query\<close>

definition push_new :: "string list \<Rightarrow> string \<Rightarrow> string list" where
  "push_new out v = (if v \<in> set out then out else out @ [v])"

definition requested_claim_paths :: "(json_number \<Rightarrow> string) \<Rightarrow> dcql_query \<Rightarrow> string list" where
  "requested_claim_paths number_to_string q =
     foldl (\<lambda>paths c.
       foldl (\<lambda>paths claim.
         let p = path_string number_to_string claim in
         if p \<noteq> [] \<and> p \<notin> set paths then paths @ [p] else paths) paths (cq_claims c)) [] (dq_credentials q)"

definition first_credential_id :: "dcql_query \<Rightarrow> string option" where
  "first_credential_id q = (case dq_credentials q of [] \<Rightarrow> None | c # _ \<Rightarrow> Some (cq_id c))"

definition requested_vcts :: "dcql_query \<Rightarrow> string list" where
  "requested_vcts q =
     foldl (\<lambda>out c. case cq_meta c of None \<Rightarrow> out | Some meta \<Rightarrow> foldl push_new out (vct_values meta)) [] (dq_credentials q)"

definition requested_doctypes :: "dcql_query \<Rightarrow> string list" where
  "requested_doctypes q =
     foldl (\<lambda>out c. case cq_meta c of None \<Rightarrow> out
       | Some meta \<Rightarrow> (case doctype_value meta of None \<Rightarrow> out | Some dt \<Rightarrow> push_new out dt)) [] (dq_credentials q)"

definition formats :: "dcql_query \<Rightarrow> string list" where
  "formats q = foldl (\<lambda>fs c. push_new fs (cq_format c)) [] (dq_credentials q)"

section \<open>Parsing\<close>

fun json_value_within_budget :: "json \<Rightarrow> nat \<Rightarrow> bool" where
  "json_value_within_budget (JString s) depth \<longleftrightarrow>
     depth \<le> MAX_JSON_VALUE_DEPTH \<and> length s \<le> MAX_JSON_STRING_OR_KEY_BYTES"
| "json_value_within_budget (JArray xs) depth \<longleftrightarrow>
     depth \<le> MAX_JSON_VALUE_DEPTH \<and> length xs \<le> MAX_JSON_CONTAINER_ITEMS
     \<and> list_all (\<lambda>x. json_value_within_budget x (depth + 1)) xs"
| "json_value_within_budget (JObject m) depth \<longleftrightarrow>
     depth \<le> MAX_JSON_VALUE_DEPTH \<and> length m \<le> MAX_JSON_CONTAINER_ITEMS
     \<and> list_all (\<lambda>(k, v). length k \<le> MAX_JSON_STRING_OR_KEY_BYTES \<and> json_value_within_budget v (depth + 1)) m"
| "json_value_within_budget _ depth \<longleftrightarrow> depth \<le> MAX_JSON_VALUE_DEPTH"

definition empty_or_not_array :: "json option \<Rightarrow> bool" where
  "empty_or_not_array sets \<longleftrightarrow>
     (case sets of
        None \<Rightarrow> False
      | Some s \<Rightarrow> \<not> (case json_as_array s of None \<Rightarrow> False | Some xs \<Rightarrow> xs \<noteq> []))"

definition known_optional_arrays_are_non_empty :: "json \<Rightarrow> bool" where
  "known_optional_arrays_are_non_empty v \<longleftrightarrow>
     (case json_as_object v of
        None \<Rightarrow> False
      | Some query \<Rightarrow>
          \<not> empty_or_not_array (map_of query ''credential_sets'')
          \<and> (case Option.bind (map_of query ''credentials'') json_as_array of
               None \<Rightarrow> True
             | Some credentials \<Rightarrow>
                 list_all (\<lambda>credential.
                   case json_as_object credential of
                     None \<Rightarrow> True
                   | Some credential \<Rightarrow> \<not> empty_or_not_array (map_of credential ''claim_sets'')) credentials))"

definition not_boolean :: "json option \<Rightarrow> bool" where
  "not_boolean v \<longleftrightarrow> (case v of None \<Rightarrow> False | Some v \<Rightarrow> json_as_bool v = None)"

definition claim_retention_unsupported :: "(string \<times> json) list \<Rightarrow> json \<Rightarrow> bool" where
  "claim_retention_unsupported credential claim \<longleftrightarrow>
     (case json_as_object claim of
        None \<Rightarrow> False
      | Some claim \<Rightarrow>
          (case map_of claim ''intent_to_retain'' of
             None \<Rightarrow> False
           | Some intent \<Rightarrow>
               Option.bind (map_of credential ''format'') json_as_str \<noteq> Some ''mso_mdoc'' \<or> json_as_bool intent = None))"

definition credential_modifier_unsupported :: "(string \<times> json) list \<Rightarrow> bool" where
  "credential_modifier_unsupported credential \<longleftrightarrow>
     has_key ''trusted_authorities'' credential
     \<or> not_boolean (map_of credential ''require_cryptographic_holder_binding'')
     \<or> not_boolean (map_of credential ''multiple'')
     \<or> (case Option.bind (map_of credential ''claims'') json_as_array of
          None \<Rightarrow> False | Some claims \<Rightarrow> list_ex (claim_retention_unsupported credential) claims)"

definition contains_unsupported_selection_modifier :: "json \<Rightarrow> bool" where
  "contains_unsupported_selection_modifier v \<longleftrightarrow>
     (case json_as_object v of
        None \<Rightarrow> False
      | Some query \<Rightarrow>
          (case Option.bind (map_of query ''credentials'') json_as_array of
             None \<Rightarrow> False
           | Some credentials \<Rightarrow>
               list_ex (\<lambda>credential.
                 case json_as_object credential of
                   None \<Rightarrow> False | Some credential \<Rightarrow> credential_modifier_unsupported credential) credentials))"

definition dcql_from_value :: "(json \<Rightarrow> dcql_query option) \<Rightarrow> json \<Rightarrow> dcql_query option" where
  "dcql_from_value deserialize v =
     (if \<not> json_value_within_budget v 0 \<or> \<not> known_optional_arrays_are_non_empty v
         \<or> contains_unsupported_selection_modifier v then None
      else
        case deserialize v of
          None \<Rightarrow> None
        | Some query \<Rightarrow> if within_budget query then Some query else None)"

definition dcql_parse ::
    "(bytes \<Rightarrow> json option) \<Rightarrow> (json \<Rightarrow> dcql_query option) \<Rightarrow> bytes \<Rightarrow> dcql_query option" where
  "dcql_parse from_slice deserialize bytes =
     (if length bytes > MAX_DCQL_BYTES then None
      else Option.bind (from_slice bytes) (dcql_from_value deserialize))"

section \<open>Masks as sets of indices\<close>

definition bits :: "u16 \<Rightarrow> nat set" where
  "bits w = {i. bit w i}"

lemma bits_below: "i \<in> bits w \<Longrightarrow> i < 16"
  by (auto simp: bits_def dest: bit_imp_le_length)

lemma finite_bits [simp]: "finite (bits w)"
  by (rule finite_subset [of _ "{..<16}"]) (auto dest: bits_below)

lemma test_bit: "w AND push_bit i 1 \<noteq> 0 \<longleftrightarrow> i \<in> bits w" for w :: u16
  by (simp add: bits_def bit_iff_and_push_bit_not_eq_0)

lemma bits_simps [simp]:
  "bits 0 = {}" "bits (v OR w) = bits v \<union> bits w"
  by (auto simp: bits_def bit_or_iff)

lemma bits_single: "i < 16 \<Longrightarrow> bits (2 ^ i) = {i}"
  by (auto simp: bits_def bit_exp_iff)

lemma bits_inject: "bits v = bits w \<longleftrightarrow> v = w"
  by (auto simp: bits_def intro: bit_eqI)

lemma count_ones_card: "count_ones w = card (bits w)"
proof -
  have "set (filter (bit w) [0..<16]) = bits w" using bits_below by (auto simp: bits_def)
  moreover have "distinct (filter (bit w) [0..<16])" by simp
  ultimately show ?thesis unfolding count_ones_def by (metis distinct_card)
qed

lemma unat_bound:
  assumes "bits w \<subseteq> {..<n}"
  shows "unat w < 2 ^ n"
proof -
  have "take_bit n w = w" using assms by (auto simp: bits_def bit_take_bit_iff intro!: bit_eqI)
  then have "unat w = take_bit n (unat w)" by (metis unsigned_take_bit_eq)
  then show ?thesis by (metis take_bit_nat_less_exp)
qed

section \<open>The options of one set\<close>

abbreviation idx :: "credential_query list \<Rightarrow> string \<Rightarrow> nat option" where
  "idx cs x \<equiv> position (\<lambda>c. cq_id c = x) cs"

definition within :: "credential_query list \<Rightarrow> string list \<Rightarrow> nat set \<Rightarrow> bool" where
  "within cs ids S \<longleftrightarrow> (\<forall>x \<in> set ids. \<exists>i \<in> S. idx cs x = Some i)"

abbreviation available :: "bool list \<Rightarrow> nat set" where
  "available sat \<equiv> {i. i < length sat \<and> sat ! i}"

lemma idx_below: "idx cs x = Some i \<Longrightarrow> i < length cs"
  by (auto dest: position_Some)

lemma option_mask_known: "\<forall>x \<in> set ids. idx cs x \<noteq> None \<Longrightarrow> option_mask cs sat m ids \<noteq> None"
  by (induction ids arbitrary: m) auto

lemma option_mask_Some:
  assumes "length cs \<le> 16" "length sat = length cs" "option_mask cs sat m ids = Some (Some m')"
  shows "within cs ids (available sat) \<and> bits m' = bits m \<union> {i. \<exists>x \<in> set ids. idx cs x = Some i}"
  using assms(3)
proof (induction ids arbitrary: m)
  case (Cons x ids)
  then obtain i where i: "idx cs x = Some i" "sat ! i" "option_mask cs sat (m OR push_bit i 1) ids = Some (Some m')"
    by (auto split: option.splits if_splits)
  have "i < 16" "i < length sat" using idx_below [OF i(1)] assms(1,2) by simp_all
  with Cons.IH [OF i(3)] i(1,2) show ?case by (auto simp: within_def bits_single)
qed (simp add: within_def)

lemma option_mask_complete:
  "length sat = length cs \<Longrightarrow> within cs ids (available sat) \<Longrightarrow> \<exists>m'. option_mask cs sat m ids = Some (Some m')"
proof (induction ids arbitrary: m)
  case (Cons x ids)
  then obtain i where "idx cs x = Some i" "sat ! i" by (auto simp: within_def)
  with Cons show ?case by (simp add: within_def)
qed simp

lemma option_masks_Some:
  "option_masks cs sat ms options = Some ms' \<Longrightarrow>
     set ms' = set ms \<union> {m. \<exists>ids \<in> set options. option_mask cs sat 0 ids = Some (Some m)}"
  by (induction options arbitrary: ms) (auto split: option.splits)

lemma option_masks_known:
  "\<forall>ids \<in> set options. \<forall>x \<in> set ids. idx cs x \<noteq> None \<Longrightarrow> option_masks cs sat ms options \<noteq> None"
proof (induction options arbitrary: ms)
  case (Cons ids options)
  then show ?case using option_mask_known [of ids cs sat 0] by (auto split: option.splits)
qed simp

section \<open>Combining plans\<close>

definition seen_ok :: "nat \<Rightarrow> bool list \<times> u16 list \<Rightarrow> bool" where
  "seen_ok n acc \<longleftrightarrow> length (fst acc) = 2 ^ n
     \<and> (\<forall>w. bits w \<subseteq> {..<n} \<longrightarrow> (fst acc ! unat w \<longleftrightarrow> w \<in> set (snd acc)))"

lemma combine_options_set:
  assumes "seen_ok n acc" "bits p \<subseteq> {..<n}" "\<forall>m \<in> set ms. bits m \<subseteq> {..<n}"
  shows "seen_ok n (combine_options p ms acc)
    \<and> set (snd (combine_options p ms acc)) = set (snd acc) \<union> (\<lambda>m. p OR m) ` set ms"
  using assms(1,3)
proof (induction ms arbitrary: acc)
  case (Cons m ms)
  obtain seen plans where acc: "acc = (seen, plans)" by (cases acc)
  let ?c = "p OR m"
  have c: "bits ?c \<subseteq> {..<n}" using Cons.prems(2) assms(2) by simp
  let ?acc = "if seen ! unat ?c then (seen, plans) else (seen[unat ?c := True], plans @ [?c])"
  have same: "unat ?c = unat w \<longleftrightarrow> ?c = w" for w by (auto intro: word_eqI_unat)
  have ok: "seen_ok n ?acc"
    using Cons.prems(1) unat_bound [OF c] by (auto simp: acc seen_ok_def nth_list_update same)
  have set: "set (snd ?acc) = insert ?c (set plans)"
    using Cons.prems(1) c by (auto simp: acc seen_ok_def)
  show ?case
    using Cons.IH [OF ok] Cons.prems(2) set by (auto simp: acc Let_def)
qed simp

lemma combine_plans_set:
  assumes "seen_ok n acc" "\<forall>p \<in> set ps. bits p \<subseteq> {..<n}" "\<forall>m \<in> set ms. bits m \<subseteq> {..<n}"
  shows "set (snd (combine_plans ps ms acc)) = set (snd acc) \<union> {p OR m |p m. p \<in> set ps \<and> m \<in> set ms}"
  using assms(1,2)
proof (induction ps arbitrary: acc)
  case (Cons p ps)
  have *: "seen_ok n (combine_options p ms acc)"
      "set (snd (combine_options p ms acc)) = set (snd acc) \<union> (\<lambda>m. p OR m) ` set ms"
    using combine_options_set [OF Cons.prems(1) _ assms(3), of p] Cons.prems(2) by simp_all
  show ?case using Cons.IH [OF *(1)] Cons.prems(2) *(2) by auto
qed simp

lemma seen_ok_start: "seen_ok n (replicate (2 ^ n) False, [])"
  by (auto simp: seen_ok_def dest!: unat_bound)

section \<open>All required sets\<close>

definition met :: "credential_query list \<Rightarrow> credential_set_query \<Rightarrow> nat set \<Rightarrow> bool" where
  "met cs s S \<longleftrightarrow> (cs_required s \<longrightarrow> (\<exists>ids \<in> set (cs_options s). within cs ids S))"

lemma within_mono: "within cs ids S \<Longrightarrow> S \<subseteq> T \<Longrightarrow> within cs ids T"
  unfolding within_def by blast

lemma met_mono: "met cs s S \<Longrightarrow> S \<subseteq> T \<Longrightarrow> met cs s T"
  unfolding met_def using within_mono by blast

lemma within_bits: "within cs ids S \<Longrightarrow> {i. \<exists>x \<in> set ids. idx cs x = Some i} \<subseteq> S"
  by (auto simp: within_def)

lemma required_plans_Some:
  assumes "length cs \<le> 16" "length sat = length cs" "required_plans cs sat sets ps = Some qs"
    and "ps \<noteq> []" "\<forall>p \<in> set ps. bits p \<subseteq> available sat"
  shows "qs \<noteq> []
    \<and> (\<forall>q \<in> set qs. bits q \<subseteq> available sat \<and> (\<exists>p \<in> set ps. bits p \<subseteq> bits q) \<and> (\<forall>s \<in> set sets. met cs s (bits q)))
    \<and> (\<forall>S p. p \<in> set ps \<longrightarrow> bits p \<subseteq> S \<longrightarrow> S \<subseteq> available sat \<longrightarrow> (\<forall>s \<in> set sets. met cs s S) \<longrightarrow>
         (\<exists>q \<in> set qs. bits q \<subseteq> S))"
  using assms(3-5)
proof (induction sets arbitrary: ps)
  case (Cons s sets)
  show ?case
  proof (cases "cs_required s")
    case False
    then have "required_plans cs sat sets ps = Some qs" using Cons.prems(1) by simp
    from Cons.IH [OF this Cons.prems(2,3)] False show ?thesis by (auto simp: met_def)
  next
    case True
    with Cons.prems(1) obtain ms where ms: "option_masks cs sat [] (cs_options s) = Some ms" "ms \<noteq> []"
      and rest: "required_plans cs sat sets (snd (combine_plans ps ms (replicate (2 ^ length cs) False, []))) = Some qs"
      by (auto split: option.splits if_splits)
    let ?next = "snd (combine_plans ps ms (replicate (2 ^ length cs) False, []))"
    have masks: "m \<in> set ms \<longleftrightarrow> (\<exists>ids \<in> set (cs_options s). option_mask cs sat 0 ids = Some (Some m))" for m
      using option_masks_Some [OF ms(1)] by auto
    have mask: "\<exists>ids \<in> set (cs_options s). within cs ids (bits m) \<and> bits m \<subseteq> available sat" if "m \<in> set ms" for m
    proof -
      from that masks obtain ids where ids: "ids \<in> set (cs_options s)" "option_mask cs sat 0 ids = Some (Some m)" by auto
      note m = option_mask_Some [OF assms(1,2) ids(2)]
      have "within cs ids (bits m)"
        unfolding within_def
      proof
        fix x assume "x \<in> set ids"
        moreover from this m obtain i where "idx cs x = Some i" unfolding within_def by blast
        ultimately show "\<exists>i \<in> bits m. idx cs x = Some i" using m by auto
      qed
      moreover have "bits m \<subseteq> available sat" using m within_bits by auto
      ultimately show ?thesis using ids(1) by blast
    qed
    have below: "available sat \<subseteq> {..<length cs}" using assms(2) by auto
    have in_range: "\<forall>p \<in> set ps. bits p \<subseteq> {..<length cs}" "\<forall>m \<in> set ms. bits m \<subseteq> {..<length cs}"
      using Cons.prems(3) mask below by blast+
    have nxt: "set ?next = {p OR m |p m. p \<in> set ps \<and> m \<in> set ms}"
      using combine_plans_set [OF seen_ok_start in_range] by simp
    have "hd ps \<in> set ps" "hd ms \<in> set ms" using Cons.prems(2) ms(2) by simp_all
    then have "hd ps OR hd ms \<in> set ?next" unfolding nxt by blast
    then have "?next \<noteq> []" by auto
    moreover have "\<forall>p \<in> set ?next. bits p \<subseteq> available sat" using nxt Cons.prems(3) mask by fastforce
    ultimately have IH: "qs \<noteq> []"
      "\<forall>q \<in> set qs. bits q \<subseteq> available sat \<and> (\<exists>p \<in> set ?next. bits p \<subseteq> bits q) \<and> (\<forall>s \<in> set sets. met cs s (bits q))"
      "\<forall>S p. p \<in> set ?next \<longrightarrow> bits p \<subseteq> S \<longrightarrow> S \<subseteq> available sat \<longrightarrow> (\<forall>s \<in> set sets. met cs s S) \<longrightarrow>
         (\<exists>q \<in> set qs. bits q \<subseteq> S)"
      using Cons.IH [OF rest] by simp_all
    have "(\<exists>p \<in> set ps. bits p \<subseteq> bits q) \<and> met cs s (bits q)" if "q \<in> set qs" for q
    proof -
      from IH(2) that obtain r where r: "r \<in> set ?next" "bits r \<subseteq> bits q" by blast
      then obtain p m where pm: "p \<in> set ps" "m \<in> set ms" "bits (p OR m) \<subseteq> bits q" unfolding nxt by blast
      with mask [OF pm(2)] show ?thesis by (auto simp: met_def intro: within_mono)
    qed
    moreover have "\<exists>q \<in> set qs. bits q \<subseteq> S"
      if S: "p \<in> set ps" "bits p \<subseteq> S" "S \<subseteq> available sat" "\<forall>s' \<in> set (s # sets). met cs s' S" for S p
    proof -
      from S(4) True obtain ids where ids: "ids \<in> set (cs_options s)" "within cs ids S" by (auto simp: met_def)
      then obtain m where m: "option_mask cs sat 0 ids = Some (Some m)"
        using option_mask_complete [OF assms(2) within_mono [OF ids(2) S(3)]] by blast
      have "bits m \<subseteq> S" using option_mask_Some [OF assms(1,2) m] within_bits [OF ids(2)] by simp
      moreover have "p OR m \<in> set ?next" using nxt masks ids(1) m S(1) by blast
      moreover have "bits (p OR m) \<subseteq> S" using \<open>bits m \<subseteq> S\<close> S(2) by simp
      ultimately show ?thesis using IH(3) [rule_format, of "p OR m" S] S(3,4) by simp
    qed
    ultimately show ?thesis using IH(1,2) by auto
  qed
qed auto

lemma required_plans_None:
  assumes "length cs \<le> 16" "length sat = length cs" "required_plans cs sat sets ps = None"
    and "\<forall>s \<in> set sets. \<forall>ids \<in> set (cs_options s). \<forall>x \<in> set ids. idx cs x \<noteq> None"
  shows "\<exists>s \<in> set sets. \<not> met cs s (available sat)"
  using assms(3,4)
proof (induction sets arbitrary: ps)
  case (Cons s sets)
  show ?case
  proof (cases "met cs s (available sat)")
    case True
    have known: "option_masks cs sat [] (cs_options s) \<noteq> None"
      using Cons.prems(2) by (intro option_masks_known) auto
    then obtain ms where ms: "option_masks cs sat [] (cs_options s) = Some ms" by blast
    have "ms \<noteq> []" if "cs_required s"
    proof -
      from True that obtain ids where "ids \<in> set (cs_options s)" "within cs ids (available sat)" by (auto simp: met_def)
      with option_mask_complete [OF assms(2), of ids 0] option_masks_Some [OF ms] show ?thesis by fastforce
    qed
    then obtain ps' where "required_plans cs sat sets ps' = None"
      using Cons.prems(1) ms by (auto split: if_splits)
    with Cons.IH [of ps'] Cons.prems(2) show ?thesis by auto
  qed auto
qed simp

section \<open>The order on plans\<close>

abbreviation plan_key :: "nat \<Rightarrow> u16 \<Rightarrow> nat \<times> bool list" where
  "plan_key n w \<equiv> (card (bits w), map (\<lambda>i. i \<notin> bits w) [0..<n])"

lemma compare_plan_bits_cmp:
  "compare_plan_bits l r is = cmp (map (\<lambda>i. i \<notin> bits l) is) (map (\<lambda>i. i \<notin> bits r) is)"
  by (induction "is") (auto simp: test_bit [symmetric] cmp_def)

lemma compare_masks_cmp: "compare_credential_plan_masks n l r = cmp (plan_key n l) (plan_key n r)"
  unfolding compare_credential_plan_masks_def count_ones_card compare_plan_bits_cmp
  by (auto simp: cmp_def split: ordering.splits if_splits)

lemma first_differing_index:
  assumes "map (\<lambda>i. i \<notin> P) [0..<n] \<le> map (\<lambda>i. i \<notin> S) [0..<n]" "P \<subseteq> {..<n}" "S \<subseteq> {..<n}"
  shows "P = S \<or> Min ((P - S) \<union> (S - P)) \<in> P"
proof (cases "map (\<lambda>i. i \<notin> P) [0..<n] = map (\<lambda>i. i \<notin> S) [0..<n]")
  case True
  then have "i \<in> P \<longleftrightarrow> i \<in> S" if "i < n" for i using that by (simp add: list_eq_iff_nth_eq)
  with assms(2,3) show ?thesis by auto
next
  case False
  have "map (\<lambda>i. i \<notin> P) [0..<n] < map (\<lambda>i. i \<notin> S) [0..<n]"
    using le_neq_trans [OF assms(1) False] .
  then obtain k where k: "k < n" "take k (map (\<lambda>i. i \<notin> P) [0..<n]) = take k (map (\<lambda>i. i \<notin> S) [0..<n])"
      "(k \<notin> P) < (k \<notin> S)"
    unfolding list_less_def lexord_take_index_conv by auto
  have "(i \<in> P) = (i \<in> S)" if "i < k" for i
    using arg_cong [OF k(2), of "\<lambda>xs. xs ! i"] that k(1) by simp
  moreover have "k \<in> P" "k \<notin> S" using k(3) by auto
  moreover have "finite ((P - S) \<union> (S - P))" using assms(2,3) by (auto intro: finite_subset [of _ "{..<n}"])
  ultimately have "Min ((P - S) \<union> (S - P)) = k" by (intro Min_eqI) (auto simp: not_less [symmetric])
  with \<open>k \<in> P\<close> show ?thesis by simp
qed

section \<open>What a bounded query guarantees\<close>

lemma all_with_earlier_member: "all_with_earlier P e xs \<Longrightarrow> x \<in> set xs \<Longrightarrow> \<exists>e'. P e' x"
  by (induction P e xs rule: all_with_earlier.induct) auto

lemma budget_ids_distinct:
  "all_with_earlier credential_within_budget e cs \<Longrightarrow> distinct (map cq_id e) \<Longrightarrow> distinct (map cq_id (e @ cs))"
proof (induction cs arbitrary: e)
  case (Cons c cs)
  then have "distinct (map cq_id (e @ [c]))"
    by (auto simp: credential_within_budget_def list_ex_iff)
  with Cons.IH [of "e @ [c]"] Cons.prems show ?case by simp
qed simp

lemma idx_iff: "distinct (map cq_id cs) \<Longrightarrow> idx cs x = Some i \<longleftrightarrow> i < length cs \<and> cq_id (cs ! i) = x"
proof
  assume d: "distinct (map cq_id cs)" and i: "i < length cs \<and> cq_id (cs ! i) = x"
  show "idx cs x = Some i"
  proof (rule position_distinct)
    fix j assume "j < length cs" "cq_id (cs ! j) = x"
    then show "j = i" using d i by (metis length_map nth_eq_iff_index_eq nth_map)
  qed (use i in auto)
qed (auto dest: position_Some)

lemma budget_sets_known:
  assumes "within_budget q" "dq_credential_sets q = Some sets" "s \<in> set sets" "ids \<in> set (cs_options s)" "x \<in> set ids"
  shows "idx (dq_credentials q) x \<noteq> None"
proof -
  have "credential_set_within_budget (dq_credentials q) s"
    using assms(1-3) by (auto simp: within_budget_def list_all_iff)
  then obtain e where "set_option_within_budget (dq_credentials q) e ids"
    using assms(4) by (auto simp: credential_set_within_budget_def dest: all_with_earlier_member)
  then have "list_ex (\<lambda>c. cq_id c = x) (dq_credentials q)"
    using assms(5) by (auto simp: set_option_within_budget_def dest: all_with_earlier_member)
  then show ?thesis by (auto simp: position_None list_ex_iff)
qed

section \<open>Properties\<close>

definition answers :: "dcql_query \<Rightarrow> nat set \<Rightarrow> bool" where
  "answers q S \<longleftrightarrow>
     (case dq_credential_sets q of
        None \<Rightarrow> {..<length (dq_credentials q)} \<subseteq> S
      | Some sets \<Rightarrow>
          \<forall>s \<in> set sets. cs_required s \<longrightarrow>
            (\<exists>ids \<in> set (cs_options s). \<forall>x \<in> set ids. \<exists>i \<in> S. i < length (dq_credentials q) \<and> cq_id (dq_credentials q ! i) = x))"

lemma answers_met:
  assumes "within_budget q" "dq_credential_sets q = Some sets"
  shows "answers q S \<longleftrightarrow> (\<forall>s \<in> set sets. met (dq_credentials q) s S)"
proof -
  have "distinct (map cq_id (dq_credentials q))"
    using budget_ids_distinct [of "[]"] assms(1) by (simp add: within_budget_def)
  then show ?thesis using assms(2) by (simp add: answers_def met_def within_def idx_iff)
qed

lemma bits_filter: "bits w \<subseteq> {..<n} \<Longrightarrow> set (filter (\<lambda>i. w AND push_bit i 1 \<noteq> 0) [0..<n]) = bits w"
  unfolding test_bit by auto

text \<open>
  C32. The selection plan is optimal. For a query within its bounds, there is no plan exactly when no
  choice of available credentials answers the query. Otherwise the plan lists available credential
  queries in order and answers the query; every other choice that answers it is larger, or of the same
  size and differs from the plan first at a credential query that the plan has.
\<close>

theorem dcql_plan_optimal:
  assumes "within_budget q" "length sat = length (dq_credentials q)"
  shows "case credential_selection_plan q sat of
      None \<Rightarrow> \<not> (\<exists>S \<subseteq> available sat. answers q S)
    | Some plan \<Rightarrow>
        sorted_wrt (<) plan \<and> set plan \<subseteq> available sat \<and> answers q (set plan)
        \<and> (\<forall>S \<subseteq> available sat. answers q S \<longrightarrow>
             length plan < card S \<or> length plan = card S \<and> (set plan = S \<or> Min ((set plan - S) \<union> (S - set plan)) \<in> set plan))"
proof (cases "dq_credential_sets q")
  case None
  have all: "answers q S \<longleftrightarrow> {..<length sat} \<subseteq> S" for S using None assms(2) by (simp add: answers_def)
  have shape: "length (dq_credentials q) \<le> MAX_CREDENTIAL_QUERIES" "dq_credentials q \<noteq> []"
    using assms(1) by (auto simp: within_budget_def)
  show ?thesis
  proof (cases "list_all (\<lambda>b. b) sat")
    case True
    then have "available sat = {..<length sat}" by (auto simp: list_all_length)
    with True None shape assms(2) show ?thesis
      by (auto simp: credential_selection_plan_def Let_def all atLeast0LessThan)
  next
    case False
    then obtain i where "i < length sat" "\<not> sat ! i" by (auto simp: list_all_length)
    with False None shape assms(2) show ?thesis
      by (auto simp: credential_selection_plan_def Let_def all)
  qed
next
  case (Some sets)
  let ?cs = "dq_credentials q" and ?n = "length (dq_credentials q)"
  have shape: "?n \<le> 16" "?cs \<noteq> []" using assms(1) by (auto simp: within_budget_def MAX_CREDENTIAL_QUERIES_def)
  note ans = answers_met [OF assms(1) Some]
  have below: "available sat \<subseteq> {..<?n}" using assms(2) by auto
  show ?thesis
  proof (cases "required_plans ?cs sat sets [0]")
    case None
    obtain s where "s \<in> set sets" "\<not> met ?cs s (available sat)"
      using required_plans_None [OF shape(1) assms(2) None] budget_sets_known [OF assms(1) Some] by blast
    then have "\<not> (\<exists>S \<subseteq> available sat. answers q S)" using ans met_mono by blast
    then show ?thesis
      using Some None shape assms(2) by (simp add: credential_selection_plan_def Let_def MAX_CREDENTIAL_QUERIES_def)
  next
    case plans: (Some plans)
    have P: "plans \<noteq> []" "\<forall>p \<in> set plans. bits p \<subseteq> available sat \<and> (\<forall>s \<in> set sets. met ?cs s (bits p))"
      "\<forall>S \<subseteq> available sat. answers q S \<longrightarrow> (\<exists>p \<in> set plans. bits p \<subseteq> S)"
      using required_plans_Some [OF shape(1) assms(2) plans] by (auto simp: ans)
    then obtain w where w: "min_by (compare_credential_plan_masks ?n) plans = Some w"
      by (cases plans) (auto simp: min_by_def)
    from min_by_key [OF compare_masks_cmp w] have wmin: "w \<in> set plans" "\<And>p. p \<in> set plans \<Longrightarrow> plan_key ?n w \<le> plan_key ?n p"
      by auto
    let ?plan = "filter (\<lambda>i. w AND push_bit i 1 \<noteq> 0) [0..<?n]"
    have wb: "bits w \<subseteq> available sat" "answers q (bits w)" using P(2) wmin(1) by (auto simp: ans)
    have set: "set ?plan = bits w" using wb(1) below by (intro bits_filter) auto
    have len: "length ?plan = card (bits w)" unfolding set [symmetric] by (rule distinct_card [symmetric]) simp
    have "card (bits w) < card S \<or> card (bits w) = card S \<and> (bits w = S \<or> Min ((bits w - S) \<union> (S - bits w)) \<in> bits w)"
      if S: "S \<subseteq> available sat" "answers q S" for S
    proof -
      from P(3) S obtain p where p: "p \<in> set plans" "bits p \<subseteq> S" by blast
      have fin: "finite S" using S(1) by (rule finite_subset) simp
      have "card (bits p) \<le> card S" using p(2) fin by (rule card_mono [rotated])
      moreover have key: "plan_key ?n w \<le> plan_key ?n p" using wmin(2) p(1) .
      then have "card (bits w) \<le> card (bits p)" by (simp add: less_eq_prod_def) auto
      moreover have "bits w = S \<or> Min ((bits w - S) \<union> (S - bits w)) \<in> bits w" if "card (bits w) = card S"
      proof -
        have "bits p = S" using calculation that p(2) fin by (intro card_subset_eq) auto
        moreover have "card (bits w) = card (bits p)" using that \<open>bits p = S\<close> by simp
        with key have "map (\<lambda>i. i \<notin> bits w) [0..<?n] \<le> map (\<lambda>i. i \<notin> bits p) [0..<?n]" by (simp add: less_eq_prod_def)
        ultimately show ?thesis using first_differing_index [of "bits w" ?n S] wb(1) S(1) below by blast
      qed
      ultimately show ?thesis by linarith
    qed
    moreover have "sorted_wrt (<) ?plan" by (simp add: sorted_wrt_filter)
    ultimately show ?thesis
      using Some plans w shape assms(2) wb set len
      by (simp add: credential_selection_plan_def Let_def MAX_CREDENTIAL_QUERIES_def)
  qed
qed

section \<open>A concrete query\<close>

abbreviation dc_credential :: "string \<Rightarrow> credential_query" where
  "dc_credential x \<equiv> \<lparr>cq_id = x, cq_format = ''dc+sd-jwt'',
     cq_meta = Some \<lparr>vct_values = [''pid''], doctype_value = None\<rparr>, cq_claims = [], cq_claim_sets = None,
     trusted_authorities = None, require_cryptographic_holder_binding = None, cq_multiple = None\<rparr>"

definition dc_query :: dcql_query where
  "dc_query = \<lparr>dq_credentials = [dc_credential ''a'', dc_credential ''b'', dc_credential ''c''],
     dq_credential_sets = Some
       [\<lparr>cs_options = [[''b''], [''a'']], cs_required = True\<rparr>,
        \<lparr>cs_options = [[''a'', ''b''], [''c'']], cs_required = True\<rparr>,
        \<lparr>cs_options = [[''b'']], cs_required = False\<rparr>]\<rparr>"

lemma dc_within_budget: "within_budget dc_query"
  by (simp add: within_budget_def dc_query_def MAX_CREDENTIAL_QUERIES_def MAX_CREDENTIAL_SET_QUERIES_def
      credential_within_budget_def valid_dcql_id_def as_bytes_def is_ascii_alphanumeric_def is_ascii_digit_def
      is_ascii_uppercase_def is_ascii_lowercase_def MAX_IDENTIFIER_BYTES_def MAX_CLAIMS_PER_QUERY_def
      meta_within_budget_def MAX_META_VALUES_def MAX_JSON_STRING_OR_KEY_BYTES_def meta_matches_format_def
      credential_set_within_budget_def MAX_CREDENTIAL_SET_OPTIONS_def set_option_within_budget_def
      MAX_CREDENTIAL_IDS_PER_OPTION_def same_identifier_set_def)

lemma dc_plan: "credential_selection_plan dc_query [True, False, True] = Some [0, 2]"
  by (simp add: credential_selection_plan_def dc_query_def MAX_CREDENTIAL_QUERIES_def min_by_def upt_rec)

theorem dcql_plan_optimal_witness:
  "credential_selection_plan dc_query [True, False, True] = Some [0, 2] \<and> answers dc_query {0, 2}"
  using dcql_plan_optimal [OF dc_within_budget, of "[True, False, True]"] dc_plan
  by (simp add: dc_query_def)

end
