(* ===== verification/Oid4vp.thy ===== *)
theory Oid4vp
  imports Dcql Uri Mdoc Wallet_Interfaces
begin

text \<open>
  The OpenID4VP presentation machine, \<open>crates/oid4vp/src/lib.rs\<close>: parsing of the signed request,
  the guards, the transition function, the response body and the crate's reference model. The
  verifier and the digest come with the environment; base64url, JSON, serde's derived deserialiser
  and the printing of JSON numbers are arguments.
\<close>

section \<open>Requests, states, inputs and outputs\<close>

definition MAX_NONCE_BYTES :: nat where
  "MAX_NONCE_BYTES = 256"

definition MAX_REQUEST_OBJECT_BYTES :: nat where
  "MAX_REQUEST_OBJECT_BYTES = 256 * 1024"

definition MAX_LEGACY_CLAIMS :: nat where
  "MAX_LEGACY_CLAIMS = 64"

definition MAX_LEGACY_CLAIM_BYTES :: nat where
  "MAX_LEGACY_CLAIM_BYTES = 256"

record auth_request =
  ar_client_id :: string
  ar_nonce :: string
  ar_audience :: string
  ar_response_uri :: string
  ar_redirect_uri :: "string option"
  ar_purpose :: "string option"
  ar_requested_claims :: "string list"
  ar_state :: "string option"
  ar_response_mode :: string
  ar_dcql_id :: "string option"
  ar_requested_vcts :: "string list"
  ar_requested_doctypes :: "string list"
  ar_dcql :: "dcql_query option"
  ar_response_encryption_key :: "bytes option"
  ar_signed_payload :: bytes
  ar_signature :: bytes
  ar_request_alg :: alg

record resolved_trust =
  rt_registered :: bool
  rt_rp_public_key :: bytes
  rt_registered_redirect_uris :: "string list"
  rt_leaf_dns_sans :: "string list"

datatype selected_credential =
    Sel_SdJwt string "string list" "string option"
  | Sel_Mdoc string issuer_signed bytes bytes string "string option"

datatype sub_presentation =
    Sub_SdJwt string string "string option"
  | Sub_Mdoc string issuer_signed bytes bytes bytes string "string option"

fun sub_signing_input :: "sub_presentation \<Rightarrow> bytes" where
  "sub_signing_input (Sub_SdJwt presentation kb_signing_input dcql_id) = as_bytes kb_signing_input"
| "sub_signing_input (Sub_Mdoc doctype issuer_signed device_namespaces protected_header signing_input nonce dcql_id)
    = signing_input"

record completed_presentation =
  cp_dcql_id :: "string option"
  cp_vp_token :: string
  cp_mdoc_generated_nonce :: "string option"

record pending_presentation =
  pp_queue :: "sub_presentation list"
  pp_done :: "completed_presentation list"
  pp_state :: "string option"

datatype vp_abort_reason =
    RequestNotSignedOrBound
  | RelyingPartyNotRegistered
  | ClientIdBindingInvalid
  | Vp_NonceReplayed
  | PurposeUndeclared
  | AudienceMismatch
  | RedirectUriNotRegistered
  | ResponseModeUnsupported
  | ResponseUriInvalid
  | ResponseUriNotRegistered
  | ResponseEncryptionMetadataInvalid
  | ResponseEncryptionFailed
  | ClockRollback
  | CredentialExpired
  | CredentialNotYetValid
  | CredentialProvenanceInvalid
  | PresentationTrustInvalid
  | CredentialStatusInvalid
  | CredentialStatusUnavailable
  | Vp_MalformedRequest
  | Vp_UserDeclined
  | NoCredential

datatype vp_state =
    Vp_Idle
  | ResolvingTrust auth_request
  | RequestValidated auth_request
  | AwaitingDeviceSignature pending_presentation
  | Vp_Presenting
  | Vp_Done
  | Vp_Aborted vp_abort_reason

datatype vp_input =
    AuthorizationRequest bytes
  | RpTrustResolved resolved_trust
  | Vp_ConsentGranted
  | Vp_ConsentDeclined
  | DeviceSignatureProduced bytes
  | PresentationDelivered

datatype vp_output =
    ResolveRpTrust string
  | PersistNonce string
  | Vp_RenderConsent string string
  | SignKeyBinding string bytes
  | SendVpToken bytes
  | Vp_Close

record vp_env =
  ve_wallet_client_id :: string
  ve_seen_nonces :: "string list"
  ve_verifier :: verifier
  ve_digest :: digest
  ve_now_epoch :: int
  ve_selected_credentials :: "selected_credential list"
  ve_device_key_ref :: string

text \<open>The external functions of this crate.\<close>

record vp_codec =
  vc_text :: text_codec
  vc_dcql_deserialize :: "json \<Rightarrow> dcql_query option"
  vc_number_to_string :: "json_number \<Rightarrow> string"

section \<open>Guards\<close>

definition request_object_is_signed_and_bound :: "auth_request \<Rightarrow> resolved_trust \<Rightarrow> verifier \<Rightarrow> bool" where
  "request_object_is_signed_and_bound req trust verifier \<longleftrightarrow>
     ar_signature req \<noteq> []
     \<and> verified (verifier (ar_request_alg req) (rt_rp_public_key trust) (ar_signed_payload req) (ar_signature req))"

definition rp_is_registered :: "auth_request \<Rightarrow> resolved_trust \<Rightarrow> bool" where
  "rp_is_registered req trust = rt_registered trust"

definition client_id_binds_to_leaf :: "auth_request \<Rightarrow> resolved_trust \<Rightarrow> bool" where
  "client_id_binds_to_leaf req trust =
     (case split_once_str (CHR '':'') (ar_client_id req) of
        Some (scheme, host) \<Rightarrow>
          if scheme = ''x509_san_dns''
          then host \<noteq> [] \<and> list_ex (\<lambda>san. eq_ignore_ascii_case san host) (rt_leaf_dns_sans trust)
          else True
      | None \<Rightarrow> True)"

definition nonce_is_fresh :: "string \<Rightarrow> string list \<Rightarrow> bool" where
  "nonce_is_fresh nonce seen \<longleftrightarrow> nonce \<notin> set seen"

definition audience_matches :: "auth_request \<Rightarrow> string \<Rightarrow> bool" where
  "audience_matches req wallet_client_id \<longleftrightarrow> ar_audience req = wallet_client_id"

definition redirect_uri_is_registered :: "auth_request \<Rightarrow> resolved_trust \<Rightarrow> bool" where
  "redirect_uri_is_registered req trust =
     (case ar_redirect_uri req of None \<Rightarrow> True | Some uri \<Rightarrow> uri \<in> set (rt_registered_redirect_uris trust))"

definition response_mode_is_supported :: "auth_request \<Rightarrow> bool" where
  "response_mode_is_supported req \<longleftrightarrow> ar_response_mode req \<in> {''direct_post'', ''direct_post.jwt''}"

definition response_uri_is_https :: "auth_request \<Rightarrow> bool" where
  "response_uri_is_https req = is_valid_https_uri (ar_response_uri req)"

definition response_uri_is_registered :: "auth_request \<Rightarrow> resolved_trust \<Rightarrow> bool" where
  "response_uri_is_registered req trust \<longleftrightarrow> ar_response_uri req \<in> set (rt_registered_redirect_uris trust)"

definition response_encryption_metadata_is_valid :: "auth_request \<Rightarrow> bool" where
  "response_encryption_metadata_is_valid req =
     (if ar_response_mode req = ''direct_post'' then True
      else if ar_response_mode req = ''direct_post.jwt'' then
        (case ar_response_encryption_key req of None \<Rightarrow> False | Some key \<Rightarrow> length key = 65 \<and> hd key = 0x04)
      else False)"

section \<open>Parsing the request\<close>

fun collect_legacy_claims :: "json list \<Rightarrow> string list \<Rightarrow> string list option" where
  "collect_legacy_claims [] claims = Some claims"
| "collect_legacy_claims (v # vs) claims =
     (case json_as_str v of
        None \<Rightarrow> None
      | Some claim \<Rightarrow>
          if claim = [] \<or> length claim > MAX_LEGACY_CLAIM_BYTES \<or> claim \<in> set claims then None
          else collect_legacy_claims vs (claims @ [claim]))"

definition parse_legacy_claims :: "json option \<Rightarrow> string list option" where
  "parse_legacy_claims v =
     (case v of
        None \<Rightarrow> Some []
      | Some v \<Rightarrow>
          (case json_as_array v of
             None \<Rightarrow> None
           | Some vs \<Rightarrow> if length vs > MAX_LEGACY_CLAIMS then None else collect_legacy_claims vs []))"

definition enc_key_usable :: "json \<Rightarrow> bool" where
  "enc_key_usable k =
     (let key_alg = json_get_str ''alg'' k; key_use = json_get_str ''use'' k;
          is_enc = (key_use = Some ''enc'' \<or> key_alg = Some ''ECDH-ES'');
          use_is_compatible = (key_use = None \<or> key_use = Some ''enc'');
          alg_is_compatible = (key_alg = None \<or> key_alg = Some ''ECDH-ES'')
      in is_enc \<and> use_is_compatible \<and> alg_is_compatible \<and> json_get_str ''kty'' k = Some ''EC''
         \<and> json_get_str ''crv'' k = Some ''P-256'')"

fun find_enc_key :: "text_codec \<Rightarrow> json list \<Rightarrow> bytes option" where
  "find_enc_key C [] = None"
| "find_enc_key C (k # ks) =
     (if \<not> enc_key_usable k then find_enc_key C ks
      else
        case (json_get_str ''x'' k, json_get_str ''y'' k) of
          (Some x, Some y) \<Rightarrow>
            (case (b64_decode C x, b64_decode C y) of
               (Some x, Some y) \<Rightarrow>
                 if length x = 32 \<and> length y = 32 then Some ([0x04] @ x @ y) else find_enc_key C ks
             | _ \<Rightarrow> None)
        | _ \<Rightarrow> None)"

definition parse_enc_jwk :: "text_codec \<Rightarrow> json \<Rightarrow> bytes option" where
  "parse_enc_jwk C md =
     (if json_get_str ''authorization_encrypted_response_alg'' md \<noteq> Some ''ECDH-ES''
         \<or> json_get_str ''authorization_encrypted_response_enc'' md \<noteq> Some ''A256GCM'' then None
      else
        case Option.bind (Option.bind (json_get ''jwks'' md) (json_get ''keys'')) json_as_array of
          None \<Rightarrow> None
        | Some keys \<Rightarrow> find_enc_key C keys)"

definition request_alg_of :: "json \<Rightarrow> alg option" where
  "request_alg_of header =
     (let name = json_get_str ''alg'' header in
      if name = Some ''ES256'' then Some Es256
      else if name = Some ''ES384'' then Some Es384
      else if name = Some ''EdDSA'' then Some EdDsa
      else None)"

definition nonce_well_formed :: "string \<Rightarrow> bool" where
  "nonce_well_formed nonce \<longleftrightarrow>
     nonce \<noteq> [] \<and> length nonce \<le> MAX_NONCE_BYTES
     \<and> list_all (\<lambda>b. is_ascii_alphanumeric b \<or> b = 0x2D \<or> b = 0x2E \<or> b = 0x5F \<or> b = 0x7E) (as_bytes nonce)"

text \<open>The selection fields: from the DCQL query when there is one, else from the legacy claim list.\<close>

definition requested_selection ::
    "vp_codec \<Rightarrow> json \<Rightarrow> (dcql_query option \<times> string list \<times> string option \<times> string list \<times> string list) option" where
  "requested_selection V p =
     (case json_get ''dcql_query'' p of
        Some v \<Rightarrow>
          map_option (\<lambda>dq. (Some dq, requested_claim_paths (vc_number_to_string V) dq, first_credential_id dq,
              requested_vcts dq, requested_doctypes dq))
            (dcql_from_value (vc_dcql_deserialize V) v)
      | None \<Rightarrow> map_option (\<lambda>claims. (None, claims, None, [], [])) (parse_legacy_claims (json_get ''claims'' p)))"

definition parse_request :: "vp_codec \<Rightarrow> bytes \<Rightarrow> auth_request option" where
  "parse_request V bytes =
     (let C = vc_text V in
      if length bytes > MAX_REQUEST_OBJECT_BYTES then None
      else
        Option.bind (from_utf8 bytes) (\<lambda>s.
        case split_str (CHR ''.'') s of
          [h, b, sg] \<Rightarrow>
            Option.bind (b64_decode C h) (\<lambda>header_bytes.
            Option.bind (json_from_slice C header_bytes) (\<lambda>header.
            Option.bind (request_alg_of header) (\<lambda>request_alg.
            Option.bind (b64_decode C b) (\<lambda>payload_bytes.
            Option.bind (json_from_slice C payload_bytes) (\<lambda>p.
            if json_get ''transaction_data'' p \<noteq> None then None
            else
              Option.bind (json_get_str ''client_id'' p) (\<lambda>client_id.
              Option.bind (json_get_str ''nonce'' p) (\<lambda>nonce.
              if \<not> nonce_well_formed nonce then None
              else
                Option.bind (json_get_str ''aud'' p) (\<lambda>audience.
                Option.bind (requested_selection V p) (\<lambda>(dcql, claims, dcql_id, vcts, doctypes).
                Option.bind (b64_decode C sg) (\<lambda>signature.
                  Some \<lparr>ar_client_id = client_id, ar_nonce = nonce, ar_audience = audience,
                    ar_response_uri = unwrap_or [] (json_get_str ''response_uri'' p),
                    ar_redirect_uri = json_get_str ''redirect_uri'' p,
                    ar_purpose = json_get_str ''purpose'' p, ar_requested_claims = claims,
                    ar_state = json_get_str ''state'' p,
                    ar_response_mode = unwrap_or [] (json_get_str ''response_mode'' p),
                    ar_dcql_id = dcql_id, ar_requested_vcts = vcts, ar_requested_doctypes = doctypes,
                    ar_dcql = dcql,
                    ar_response_encryption_key = Option.bind (json_get ''client_metadata'' p) (parse_enc_jwk C),
                    ar_signed_payload = as_bytes (h @ ''.'' @ b), ar_signature = signature,
                    ar_request_alg = request_alg\<rparr>))))))))))
        | _ \<Rightarrow> None))"

section \<open>The response\<close>

definition hex_upper :: "nat \<Rightarrow> char" where
  "hex_upper n = (if n < 10 then char_of (48 + n) else char_of (55 + n))"

definition form_unreserved :: "u8 \<Rightarrow> bool" where
  "form_unreserved b \<longleftrightarrow> is_ascii_alphanumeric b \<or> b = 0x2D \<or> b = 0x5F \<or> b = 0x2E \<or> b = 0x7E"

definition form_urlencode :: "string \<Rightarrow> string" where
  "form_urlencode s =
     concat (map (\<lambda>b. if form_unreserved b then [char_of_byte b]
       else [CHR ''%'', hex_upper (unat b div 16), hex_upper (unat b mod 16)]) (as_bytes s))"

definition build_presentation :: "string \<Rightarrow> string list \<Rightarrow> string" where
  "build_presentation issuer_jwt disclosures = foldl (\<lambda>s d. s @ ''~'' @ d) issuer_jwt disclosures @ ''~''"

definition kb_header_text :: string where
  "kb_header_text = ''{'' @ [CHR 0x22] @ ''alg'' @ [CHR 0x22] @ '':'' @ [CHR 0x22] @ ''ES256''
     @ [CHR 0x22] @ '','' @ [CHR 0x22] @ ''typ'' @ [CHR 0x22] @ '':''
     @ [CHR 0x22] @ ''kb+jwt'' @ [CHR 0x22] @ ''}''"

definition kb_payload :: "string \<Rightarrow> string \<Rightarrow> int \<Rightarrow> string \<Rightarrow> json" where
  "kb_payload nonce aud iat sd_hash =
     JObject [(''aud'', JString aud), (''iat'', json_of_i64 iat), (''nonce'', JString nonce), (''sd_hash'', JString sd_hash)]"

definition kb_jwt_signing_input :: "text_codec \<Rightarrow> string \<Rightarrow> string \<Rightarrow> int \<Rightarrow> string \<Rightarrow> string" where
  "kb_jwt_signing_input C nonce aud iat sd_hash =
     (let header = b64_encode C (as_bytes kb_header_text);
          payload_b64 = b64_encode C (unwrap_or [] (json_to_vec C (kb_payload nonce aud iat sd_hash)))
      in header @ ''.'' @ payload_b64)"

definition vp_entry_push :: "(string \<times> json) list \<Rightarrow> completed_presentation \<Rightarrow> (string \<times> json) list" where
  "vp_entry_push obj c =
     (let key = unwrap_or [] (cp_dcql_id c);
          values = unwrap_or (JArray []) (map_of obj key)
      in btree_insert key
           (case values of JArray vs \<Rightarrow> JArray (vs @ [JString (cp_vp_token c)]) | v \<Rightarrow> v) obj)"

definition vp_token_value :: "text_codec \<Rightarrow> completed_presentation list \<Rightarrow> string" where
  "vp_token_value C presented =
     (case presented of
        [c] \<Rightarrow>
          if cp_dcql_id c = None then cp_vp_token c
          else map char_of_byte (unwrap_or [] (json_to_vec C (JObject (foldl vp_entry_push [] presented))))
      | _ \<Rightarrow> map char_of_byte (unwrap_or [] (json_to_vec C (JObject (foldl vp_entry_push [] presented)))))"

definition assemble_direct_post_body :: "text_codec \<Rightarrow> completed_presentation list \<Rightarrow> string option \<Rightarrow> string" where
  "assemble_direct_post_body C presented st =
     ''vp_token='' @ form_urlencode (vp_token_value C presented)
     @ (case st of None \<Rightarrow> [] | Some s \<Rightarrow> ''&state='' @ form_urlencode s)
     @ (case List.map_filter cp_mdoc_generated_nonce presented of
          [] \<Rightarrow> [] | mgn # _ \<Rightarrow> ''&mdoc_generated_nonce='' @ form_urlencode mgn)"

section \<open>The transition function\<close>

definition build_sub :: "text_codec \<Rightarrow> vp_env \<Rightarrow> auth_request \<Rightarrow> selected_credential \<Rightarrow> sub_presentation option" where
  "build_sub C env req cred =
     (case cred of
        Sel_SdJwt issuer_jwt disclosures dcql_id \<Rightarrow>
          (let presentation = build_presentation issuer_jwt disclosures;
               sd_hash = b64_encode C (ve_digest env (as_bytes presentation))
           in Some (Sub_SdJwt presentation
                (kb_jwt_signing_input C (ar_nonce req) (ar_client_id req) (ve_now_epoch env) sd_hash) dcql_id))
      | Sel_Mdoc doctype is transcript device_namespaces mdoc_generated_nonce dcql_id \<Rightarrow>
          (case device_authentication_bytes transcript doctype device_namespaces of
             Inl _ \<Rightarrow> None
           | Inr device_auth \<Rightarrow>
               (let protected_header = encode_protected_header Es256 in
                Some (Sub_Mdoc doctype is device_namespaces protected_header
                  (sig_structure protected_header [] device_auth) mdoc_generated_nonce dcql_id))))"

fun build_queue :: "text_codec \<Rightarrow> vp_env \<Rightarrow> auth_request \<Rightarrow> selected_credential list \<Rightarrow> sub_presentation list option" where
  "build_queue C env req [] = Some []"
| "build_queue C env req (cred # creds) =
     (case build_sub C env req cred of
        None \<Rightarrow> None
      | Some sub \<Rightarrow> map_option (Cons sub) (build_queue C env req creds))"

definition complete_presentation :: "text_codec \<Rightarrow> sub_presentation \<Rightarrow> bytes \<Rightarrow> completed_presentation" where
  "complete_presentation C sub sig =
     (case sub of
        Sub_SdJwt presentation kb_signing_input dcql_id \<Rightarrow>
          \<lparr>cp_dcql_id = dcql_id, cp_vp_token = presentation @ (kb_signing_input @ ''.'' @ b64_encode C sig),
            cp_mdoc_generated_nonce = None\<rparr>
      | Sub_Mdoc doctype is device_namespaces protected_header _ mdoc_generated_nonce dcql_id \<Rightarrow>
          (let device_auth = \<lparr>cs_protected = protected_header,
                 cs_unprotected = \<lparr>up_kid = None, up_x5chain = None, private_labels = []\<rparr>,
                 cs_payload = None, cs_signature = sig\<rparr>
           in \<lparr>cp_dcql_id = dcql_id,
                cp_vp_token = b64_encode C (device_response doctype is device_namespaces device_auth),
                cp_mdoc_generated_nonce = Some mdoc_generated_nonce\<rparr>))"

definition check_guards :: "vp_env \<Rightarrow> auth_request \<Rightarrow> resolved_trust \<Rightarrow> vp_abort_reason option" where
  "check_guards env req trust =
     (if \<not> rp_is_registered req trust then Some RelyingPartyNotRegistered
      else if \<not> response_mode_is_supported req then Some ResponseModeUnsupported
      else if \<not> response_uri_is_https req then Some ResponseUriInvalid
      else if \<not> response_uri_is_registered req trust then Some ResponseUriNotRegistered
      else if \<not> response_encryption_metadata_is_valid req then Some ResponseEncryptionMetadataInvalid
      else if \<not> redirect_uri_is_registered req trust then Some RedirectUriNotRegistered
      else if \<not> audience_matches req (ve_wallet_client_id env) then Some AudienceMismatch
      else if \<not> nonce_is_fresh (ar_nonce req) (ve_seen_nonces env) then Some Vp_NonceReplayed
      else if \<not> request_object_is_signed_and_bound req trust (ve_verifier env) then Some RequestNotSignedOrBound
      else if \<not> client_id_binds_to_leaf req trust then Some ClientIdBindingInvalid
      else None)"

definition vp_step :: "vp_codec \<Rightarrow> vp_env \<Rightarrow> vp_state \<Rightarrow> vp_input \<Rightarrow> vp_state \<times> vp_output list" where
  "vp_step V env state input =
     (case (state, input) of
        (Vp_Idle, AuthorizationRequest bytes) \<Rightarrow>
          (case parse_request V bytes of
             Some req \<Rightarrow> (ResolvingTrust req, [ResolveRpTrust (ar_client_id req)])
           | None \<Rightarrow> (Vp_Aborted Vp_MalformedRequest, []))
      | (ResolvingTrust req, RpTrustResolved trust) \<Rightarrow>
          (case check_guards env req trust of
             Some reason \<Rightarrow> (Vp_Aborted reason, [])
           | None \<Rightarrow>
               (RequestValidated req,
                [PersistNonce (ar_nonce req), Vp_RenderConsent (ar_client_id req) (unwrap_or [] (ar_purpose req))]))
      | (RequestValidated req, Vp_ConsentGranted) \<Rightarrow>
          if ve_selected_credentials env = [] then (Vp_Aborted NoCredential, [])
          else
            (case build_queue (vc_text V) env req (ve_selected_credentials env) of
               None \<Rightarrow> (Vp_Aborted NoCredential, [])
             | Some queue \<Rightarrow>
                 (AwaitingDeviceSignature \<lparr>pp_queue = queue, pp_done = [], pp_state = ar_state req\<rparr>,
                  [SignKeyBinding (ve_device_key_ref env) (sub_signing_input (hd queue))]))
      | (RequestValidated _, Vp_ConsentDeclined) \<Rightarrow> (Vp_Aborted Vp_UserDeclined, [Vp_Close])
      | (AwaitingDeviceSignature p, DeviceSignatureProduced sig) \<Rightarrow>
          (case pp_queue p of
             [] \<Rightarrow> (Vp_Aborted NoCredential, [])
           | sub # queue \<Rightarrow>
               (let completed = complete_presentation (vc_text V) sub sig;
                    pending = p\<lparr>pp_queue := queue, pp_done := pp_done p @ [completed]\<rparr>
                in (case queue of
                      nxt # _ \<Rightarrow>
                        (AwaitingDeviceSignature pending,
                         [SignKeyBinding (ve_device_key_ref env) (sub_signing_input nxt)])
                    | [] \<Rightarrow>
                        (Vp_Presenting,
                         [SendVpToken (as_bytes (assemble_direct_post_body (vc_text V) (pp_done pending) (pp_state pending)))]))))
      | (Vp_Presenting, PresentationDelivered) \<Rightarrow> (Vp_Done, [Vp_Close])
      | (s, _) \<Rightarrow> (s, []))"

section \<open>The reference model\<close>

datatype vpm_st = VM_Idle | VM_Requested | VM_Validated | VM_AwaitingConsent | VM_Presenting | VM_Aborted

datatype vpm_ev = VM_Request u64 | VM_ValidateSig | VM_Consent | VM_Disclose

record vpm_ctx =
  vm_st :: vpm_st
  vm_sig_validated :: bool
  vm_consented :: bool
  vm_used_nonces :: "u64 list"
  vm_disclosed :: bool

definition vp_model_init :: vpm_ctx where
  "vp_model_init = \<lparr>vm_st = VM_Idle, vm_sig_validated = False, vm_consented = False, vm_used_nonces = [],
     vm_disclosed = False\<rparr>"

fun vp_model_step :: "vpm_ctx \<Rightarrow> vpm_ev \<Rightarrow> vpm_ctx" where
  "vp_model_step c (VM_Request n) =
     (if n \<in> set (vm_used_nonces c) then c\<lparr>vm_st := VM_Aborted\<rparr>
      else c\<lparr>vm_st := VM_Requested, vm_used_nonces := vm_used_nonces c @ [n]\<rparr>)"
| "vp_model_step c VM_ValidateSig =
     (if vm_st c = VM_Requested then c\<lparr>vm_st := VM_Validated, vm_sig_validated := True\<rparr> else c)"
| "vp_model_step c VM_Consent =
     (if vm_st c = VM_Validated then c\<lparr>vm_st := VM_AwaitingConsent, vm_consented := True\<rparr> else c)"
| "vp_model_step c VM_Disclose =
     (if vm_consented c \<and> vm_sig_validated c then c\<lparr>vm_st := VM_Presenting, vm_disclosed := True\<rparr>
      else c\<lparr>vm_st := VM_Aborted\<rparr>)"

definition vp_model_run :: "vpm_ev list \<Rightarrow> vpm_ctx" where
  "vp_model_run evs = foldl vp_model_step vp_model_init evs"

fun vp_state_name :: "vpm_st \<Rightarrow> string" where
  "vp_state_name VM_Idle = ''idle''"
| "vp_state_name VM_Requested = ''requested''"
| "vp_state_name VM_Validated = ''validated''"
| "vp_state_name VM_AwaitingConsent = ''awaitingConsent''"
| "vp_state_name VM_Presenting = ''presenting''"
| "vp_state_name VM_Aborted = ''aborted''"

section \<open>Only consented presentations leave the wallet\<close>

lemma check_guards_None:
  "check_guards env req trust = None \<longleftrightarrow>
     rp_is_registered req trust \<and> response_mode_is_supported req \<and> response_uri_is_https req
     \<and> response_uri_is_registered req trust \<and> response_encryption_metadata_is_valid req
     \<and> redirect_uri_is_registered req trust \<and> audience_matches req (ve_wallet_client_id env)
     \<and> nonce_is_fresh (ar_nonce req) (ve_seen_nonces env)
     \<and> request_object_is_signed_and_bound req trust (ve_verifier env) \<and> client_id_binds_to_leaf req trust"
  by (simp add: check_guards_def)

lemma build_queue_length: "build_queue C env req creds = Some q \<Longrightarrow> length q = length creds"
  by (induction creds arbitrary: q) (auto split: option.splits)

lemma build_queue_nth:
  "build_queue C env req creds = Some q \<Longrightarrow> i < length creds \<Longrightarrow> build_sub C env req (creds ! i) = Some (q ! i)"
proof (induction creds arbitrary: q i)
  case (Cons c cs)
  then show ?case by (cases i) (auto split: option.splits)
qed simp

fun device_signature :: "vp_input \<Rightarrow> bytes option" where
  "device_signature (DeviceSignatureProduced sig) = Some sig"
| "device_signature _ = None"

text \<open>The signatures that arrive in the steps after step \<open>c\<close> and before step \<open>k\<close>.\<close>

definition signatures_between :: "nat \<Rightarrow> nat \<Rightarrow> (vp_env \<times> vp_input) list \<Rightarrow> bytes list" where
  "signatures_between c k xs = List.map_filter (\<lambda>x. device_signature (snd x)) (drop (Suc c) (take k xs))"

lemma signatures_between_step:
  "c < k \<Longrightarrow> k < length xs \<Longrightarrow> signatures_between c (Suc k) xs
    = signatures_between c k xs @ (case device_signature (snd (xs ! k)) of None \<Rightarrow> [] | Some sig \<Rightarrow> [sig])"
  by (simp add: signatures_between_def take_Suc_conv_app_nth List.map_filter_def split: option.splits)

lemma signatures_between_start: "signatures_between c (Suc c) xs = []"
  by (simp add: signatures_between_def List.map_filter_def)

definition vp_validated :: "vp_codec \<Rightarrow> (vp_env \<times> vp_input) list \<Rightarrow> nat \<Rightarrow> auth_request \<Rightarrow> bool" where
  "vp_validated V xs t req \<longleftrightarrow>
     (\<exists>a bytes trust. a < t \<and> snd (xs ! a) = AuthorizationRequest bytes \<and> parse_request V bytes = Some req
       \<and> snd (xs ! t) = RpTrustResolved trust \<and> check_guards (fst (xs ! t)) req trust = None)"

definition vp_history :: "vp_codec \<Rightarrow> (vp_env \<times> vp_input) list \<Rightarrow> nat \<Rightarrow> vp_state \<Rightarrow> bool" where
  "vp_history V xs k s =
     (case s of
        ResolvingTrust req \<Rightarrow>
          (\<exists>a bytes. a < k \<and> snd (xs ! a) = AuthorizationRequest bytes \<and> parse_request V bytes = Some req)
      | RequestValidated req \<Rightarrow> (\<exists>t < k. vp_validated V xs t req)
      | AwaitingDeviceSignature p \<Rightarrow>
          (\<exists>req t c queue. t < c \<and> c < k \<and> vp_validated V xs t req \<and> snd (xs ! c) = Vp_ConsentGranted
            \<and> build_queue (vc_text V) (fst (xs ! c)) req (ve_selected_credentials (fst (xs ! c))) = Some queue
            \<and> length (signatures_between c k xs) < length queue
            \<and> pp_queue p = drop (length (signatures_between c k xs)) queue
            \<and> pp_done p = map2 (complete_presentation (vc_text V)) queue (signatures_between c k xs)
            \<and> pp_state p = ar_state req)
      | _ \<Rightarrow> True)"

lemmas vp_splits = vp_state.splits vp_input.splits option.splits list.splits if_splits

lemma map2_snoc:
  "length ys < length xs \<Longrightarrow> map2 f xs (ys @ [y]) = map2 f xs ys @ [f (xs ! length ys) y]"
proof (induction ys arbitrary: xs)
  case Nil
  then show ?case by (cases xs) auto
next
  case (Cons z ys)
  then show ?case by (cases xs) auto
qed

lemma vp_history_step:
  assumes k: "k < length xs" and H: "vp_history V xs k s"
  shows "vp_history V xs (Suc k) (fst (vp_step V (fst (xs ! k)) s (snd (xs ! k))))"
proof (cases s)
  case Vp_Idle
  then show ?thesis by (cases "snd (xs ! k)") (auto simp: vp_step_def vp_history_def split: option.splits)
next
  case (ResolvingTrust req)
  then show ?thesis
    using H by (cases "snd (xs ! k)") (auto simp: vp_step_def vp_history_def vp_validated_def less_Suc_eq split: option.splits)
next
  case (RequestValidated req)
  show ?thesis
  proof (cases "snd (xs ! k)")
    case Vp_ConsentGranted
    from H RequestValidated obtain t where t: "t < k" "vp_validated V xs t req" by (auto simp: vp_history_def)
    show ?thesis
    proof (cases "build_queue (vc_text V) (fst (xs ! k)) req (ve_selected_credentials (fst (xs ! k)))")
      case None
      then show ?thesis using RequestValidated Vp_ConsentGranted by (simp add: vp_step_def vp_history_def)
    next
      case (Some q)
      then have "q = [] \<longleftrightarrow> ve_selected_credentials (fst (xs ! k)) = []"
        using build_queue_length [OF Some] by (metis length_0_conv)
      then show ?thesis using RequestValidated Vp_ConsentGranted Some t
        by (auto simp: vp_step_def vp_history_def signatures_between_start)
          (rule_tac x = req in exI, rule_tac x = t in exI, rule_tac x = k in exI, simp add: signatures_between_start)
    qed
  qed (use RequestValidated H in \<open>auto simp: vp_step_def vp_history_def less_Suc_eq\<close>)
next
  case (AwaitingDeviceSignature p)
  from H AwaitingDeviceSignature obtain req t c queue where h: "t < c" "c < k" "vp_validated V xs t req"
      "snd (xs ! c) = Vp_ConsentGranted"
      "build_queue (vc_text V) (fst (xs ! c)) req (ve_selected_credentials (fst (xs ! c))) = Some queue"
    and n: "length (signatures_between c k xs) < length queue"
    and p: "pp_queue p = drop (length (signatures_between c k xs)) queue"
      "pp_done p = map2 (complete_presentation (vc_text V)) queue (signatures_between c k xs)"
      "pp_state p = ar_state req"
    by (auto simp: vp_history_def)
  note step = signatures_between_step [OF h(2) k]
  show ?thesis
  proof (cases "device_signature (snd (xs ! k))")
    case None
    then have "fst (vp_step V (fst (xs ! k)) s (snd (xs ! k))) = s"
      using AwaitingDeviceSignature by (cases "snd (xs ! k)") (auto simp: vp_step_def)
    with AwaitingDeviceSignature h n p None show ?thesis
      unfolding vp_history_def
      by simp (rule_tac x = req in exI, rule_tac x = t in exI, rule_tac x = c in exI, simp add: step)
  next
    case (Some sig)
    then have i: "snd (xs ! k) = DeviceSignatureProduced sig" by (cases "snd (xs ! k)") auto
    let ?n = "length (signatures_between c k xs)"
    have q: "pp_queue p = queue ! ?n # drop (Suc ?n) queue" using p(1) n by (simp add: Cons_nth_drop_Suc)
    show ?thesis
    proof (cases "drop (Suc ?n) queue = []")
      case True
      then show ?thesis using AwaitingDeviceSignature i q by (simp add: vp_step_def Let_def vp_history_def)
    next
      case False
      then have "Suc ?n < length queue" by simp
      moreover obtain y ys where "drop (Suc ?n) queue = y # ys" using False by (cases "drop (Suc ?n) queue") auto
      ultimately show ?thesis using AwaitingDeviceSignature i q h n p Some
        unfolding vp_history_def
        by (simp add: vp_step_def Let_def)
          (rule_tac x = req in exI, rule_tac x = t in exI, rule_tac x = c in exI, simp add: step map2_snoc)
    qed
  qed
qed (auto simp: vp_step_def vp_history_def split: vp_splits)

lemma vp_history_run:
  "k \<le> length xs \<Longrightarrow> vp_history V xs k (flow_state (vp_step V) Vp_Idle (take k xs))"
proof (induction k)
  case 0
  then show ?case by (simp add: vp_history_def)
next
  case (Suc k)
  then show ?case using vp_history_step [of k xs V] by (simp add: flow_state_take_Suc)
qed

lemma vp_send_step:
  assumes "SendVpToken body \<in> set (snd (vp_step V env s i))"
  obtains p sub sig where "s = AwaitingDeviceSignature p" "i = DeviceSignatureProduced sig" "pp_queue p = [sub]"
    "body = as_bytes (assemble_direct_post_body (vc_text V) (pp_done p @ [complete_presentation (vc_text V) sub sig]) (pp_state p))"
  using assms by (auto simp: vp_step_def Let_def split: vp_splits)

text \<open>
  C22. A presentation leaves the wallet only after the full exchange. When step \<open>k\<close> of a run emits a
  response body, earlier steps received a request that parses, resolved the trust of its relying
  party with every guard passing (registration, response mode, response URI, encryption key, redirect
  URI, audience, fresh nonce, signature over the exact request bytes, client-id binding), and
  then got the user's consent, in this order. The body is the assembly of one presentation per
  credential selected at consent, in that order, each completed with the device signature produced
  for it, and it echoes the state of that request.
\<close>

theorem vp_sends_only_consented:
  assumes "k < length xs" and "SendVpToken body \<in> set (flow_outputs (vp_step V) Vp_Idle xs ! k)"
  shows "\<exists>a t c bytes req trust queue. a < t \<and> t < c \<and> c < k
    \<and> snd (xs ! a) = AuthorizationRequest bytes \<and> parse_request V bytes = Some req
    \<and> snd (xs ! t) = RpTrustResolved trust
    \<and> rp_is_registered req trust \<and> response_mode_is_supported req \<and> response_uri_is_https req
    \<and> response_uri_is_registered req trust \<and> response_encryption_metadata_is_valid req
    \<and> redirect_uri_is_registered req trust \<and> audience_matches req (ve_wallet_client_id (fst (xs ! t)))
    \<and> nonce_is_fresh (ar_nonce req) (ve_seen_nonces (fst (xs ! t)))
    \<and> request_object_is_signed_and_bound req trust (ve_verifier (fst (xs ! t))) \<and> client_id_binds_to_leaf req trust
    \<and> snd (xs ! c) = Vp_ConsentGranted
    \<and> build_queue (vc_text V) (fst (xs ! c)) req (ve_selected_credentials (fst (xs ! c))) = Some queue
    \<and> length (signatures_between c (Suc k) xs) = length (ve_selected_credentials (fst (xs ! c)))
    \<and> body = as_bytes (assemble_direct_post_body (vc_text V)
        (map2 (complete_presentation (vc_text V)) queue (signatures_between c (Suc k) xs)) (ar_state req))"
proof -
  let ?s = "flow_state (vp_step V) Vp_Idle (take k xs)"
  from assms(2) obtain p sub sig where s: "?s = AwaitingDeviceSignature p"
    and i: "snd (xs ! k) = DeviceSignatureProduced sig" and q: "pp_queue p = [sub]"
    and body: "body = as_bytes (assemble_direct_post_body (vc_text V)
        (pp_done p @ [complete_presentation (vc_text V) sub sig]) (pp_state p))"
    unfolding flow_outputs_nth [OF assms(1)] by (rule vp_send_step)
  have "vp_history V xs k (AwaitingDeviceSignature p)" using vp_history_run [of k xs V] assms(1) s by simp
  then obtain req t c queue where h: "t < c" "c < k" "vp_validated V xs t req" "snd (xs ! c) = Vp_ConsentGranted"
      "build_queue (vc_text V) (fst (xs ! c)) req (ve_selected_credentials (fst (xs ! c))) = Some queue"
    and n: "length (signatures_between c k xs) < length queue"
    and p: "pp_queue p = drop (length (signatures_between c k xs)) queue"
      "pp_done p = map2 (complete_presentation (vc_text V)) queue (signatures_between c k xs)"
      "pp_state p = ar_state req"
    by (auto simp: vp_history_def)
  let ?n = "length (signatures_between c k xs)"
  have qn: "queue ! ?n = sub" "length queue = Suc ?n"
    using arg_cong [OF p(1), of hd] arg_cong [OF p(1), of length] q n by (simp_all add: hd_drop_conv_nth)
  have sg: "signatures_between c (Suc k) xs = signatures_between c k xs @ [sig]"
    using signatures_between_step [OF h(2) assms(1)] i by simp
  have "body = as_bytes (assemble_direct_post_body (vc_text V)
      (map2 (complete_presentation (vc_text V)) queue (signatures_between c (Suc k) xs)) (ar_state req))"
    using body p n qn by (simp add: sg map2_snoc)
  moreover have "length (signatures_between c (Suc k) xs) = length (ve_selected_credentials (fst (xs ! c)))"
    using build_queue_length [OF h(5)] qn(2) sg by simp
  moreover obtain a bytes trust where "a < t" "snd (xs ! a) = AuthorizationRequest bytes" "parse_request V bytes = Some req"
      "snd (xs ! t) = RpTrustResolved trust" "check_guards (fst (xs ! t)) req trust = None"
    using h(3) by (auto simp: vp_validated_def)
  ultimately show ?thesis using h unfolding check_guards_None
    by (rule_tac x = a in exI, rule_tac x = t in exI, rule_tac x = c in exI, rule_tac x = bytes in exI, rule_tac x = req in exI,
        rule_tac x = trust in exI, rule_tac x = queue in exI, simp)
qed

section \<open>A concrete exchange\<close>

definition vp_json :: "bytes \<Rightarrow> json option" where
  "vp_json b = map_of
     [(as_bytes ''H'', JObject [(''alg'', JString ''ES256'')]),
      (as_bytes ''P'', JObject [(''aud'', JString ''wallet''), (''claims'', JArray [JString ''age'']),
         (''client_id'', JString ''x509_san_dns:rp''), (''nonce'', JString ''n-1''),
         (''response_mode'', JString ''direct_post''), (''response_uri'', JString ''https://rp''),
         (''state'', JString ''s'')])] b"

definition vp_codec0 :: vp_codec where
  "vp_codec0 = \<lparr>vc_text = \<lparr>b64_decode = (\<lambda>s. Some (as_bytes s)), b64_encode = map char_of_byte,
       json_from_slice = vp_json, json_to_vec = (\<lambda>_. Some (as_bytes ''J''))\<rparr>,
     vc_dcql_deserialize = (\<lambda>_. None), vc_number_to_string = (\<lambda>_. [])\<rparr>"

definition vp_req0 :: auth_request where
  "vp_req0 = \<lparr>ar_client_id = ''x509_san_dns:rp'', ar_nonce = ''n-1'', ar_audience = ''wallet'',
     ar_response_uri = ''https://rp'', ar_redirect_uri = None, ar_purpose = None, ar_requested_claims = [''age''],
     ar_state = Some ''s'', ar_response_mode = ''direct_post'', ar_dcql_id = None, ar_requested_vcts = [],
     ar_requested_doctypes = [], ar_dcql = None, ar_response_encryption_key = None,
     ar_signed_payload = as_bytes ''H.P'', ar_signature = as_bytes ''S'', ar_request_alg = Es256\<rparr>"

definition vp_env0 :: vp_env where
  "vp_env0 = \<lparr>ve_wallet_client_id = ''wallet'', ve_seen_nonces = [''n-0''], ve_verifier = (\<lambda>_ _ _ _. Inr ()),
     ve_digest = (\<lambda>b. b), ve_now_epoch = 7,
     ve_selected_credentials = [Sel_SdJwt ''I'' [''d''] None, Sel_SdJwt ''I2'' [] (Some ''q'')], ve_device_key_ref = ''k''\<rparr>"

definition vp_trust0 :: resolved_trust where
  "vp_trust0 = \<lparr>rt_registered = True, rt_rp_public_key = [1], rt_registered_redirect_uris = [''https://rp''],
     rt_leaf_dns_sans = [''RP'']\<rparr>"

definition vp_run0 :: "(vp_env \<times> vp_input) list" where
  "vp_run0 = map (Pair vp_env0) [AuthorizationRequest (as_bytes ''H.P.S''), RpTrustResolved vp_trust0, Vp_ConsentGranted,
     DeviceSignatureProduced (as_bytes ''a''), DeviceSignatureProduced (as_bytes ''b''), PresentationDelivered]"

lemma vp_parse0: "parse_request vp_codec0 (as_bytes ''H.P.S'') = Some vp_req0"
proof -
  have "from_utf8 (as_bytes ''H.P.S'') = Some ''H.P.S''"
    by (intro from_utf8_as_bytes) (simp add: valid_str_def valid_utf8_def as_bytes_def)
  moreover have "nonce_well_formed ''n-1''"
    by (simp add: nonce_well_formed_def MAX_NONCE_BYTES_def as_bytes_def is_ascii_alphanumeric_def is_ascii_uppercase_def
        is_ascii_lowercase_def is_ascii_digit_def)
  moreover have "vp_json (as_bytes ''H'') = Some (JObject [(''alg'', JString ''ES256'')])"
    by (simp add: vp_json_def)
  moreover have "vp_json (as_bytes ''P'') = Some (JObject [(''aud'', JString ''wallet''), (''claims'', JArray [JString ''age'']),
         (''client_id'', JString ''x509_san_dns:rp''), (''nonce'', JString ''n-1''),
         (''response_mode'', JString ''direct_post''), (''response_uri'', JString ''https://rp''),
         (''state'', JString ''s'')])"
    by (simp add: vp_json_def)
  ultimately show ?thesis
    by (simp add: parse_request_def vp_codec0_def MAX_REQUEST_OBJECT_BYTES_def request_alg_of_def json_defs
        requested_selection_def parse_legacy_claims_def MAX_LEGACY_CLAIMS_def MAX_LEGACY_CLAIM_BYTES_def vp_req0_def)
qed

lemma vp_guards0: "check_guards vp_env0 vp_req0 vp_trust0 = None"
proof -
  have "is_valid_https_uri ''https://rp''" by code_simp
  moreover have "eq_ignore_ascii_case ''RP'' ''rp''" by code_simp
  ultimately show ?thesis
    by (simp add: check_guards_None rp_is_registered_def response_mode_is_supported_def response_uri_is_https_def
        response_uri_is_registered_def response_encryption_metadata_is_valid_def redirect_uri_is_registered_def
        audience_matches_def nonce_is_fresh_def request_object_is_signed_and_bound_def client_id_binds_to_leaf_def
        vp_env0_def vp_req0_def vp_trust0_def verified_def as_bytes_def)
qed

lemma vp_queue0: "\<exists>a b. build_queue (vc_text vp_codec0) vp_env0 vp_req0 (ve_selected_credentials vp_env0) = Some [a, b]"
  by (simp add: vp_env0_def build_sub_def Let_def)

lemma vp_outputs0: "\<exists>body. SendVpToken body \<in> set (flow_outputs (vp_step vp_codec0) Vp_Idle vp_run0 ! 4)"
proof -
  obtain a b where q: "build_queue (vc_text vp_codec0) vp_env0 vp_req0 (ve_selected_credentials vp_env0) = Some [a, b]"
    using vp_queue0 by blast
  have "ve_selected_credentials vp_env0 \<noteq> []" by (simp add: vp_env0_def)
  then show ?thesis
    by (simp add: vp_run0_def vp_step_def vp_parse0 vp_guards0 q Let_def)
qed

theorem vp_sends_only_consented_witness:
  "nonce_is_fresh ''n-1'' (ve_seen_nonces vp_env0) \<and> (\<exists>body queue.
     SendVpToken body \<in> set (flow_outputs (vp_step vp_codec0) Vp_Idle vp_run0 ! 4)
     \<and> body = as_bytes (assemble_direct_post_body (vc_text vp_codec0)
        (map2 (complete_presentation (vc_text vp_codec0)) queue [as_bytes ''a'', as_bytes ''b'']) (Some ''s'')))"
proof -
  obtain body where body: "SendVpToken body \<in> set (flow_outputs (vp_step vp_codec0) Vp_Idle vp_run0 ! 4)"
    using vp_outputs0 by blast
  have len: "4 < length vp_run0" by (simp add: vp_run0_def)
  from vp_sends_only_consented [OF len body] obtain a t c bytes req queue where
    h: "a < t" "t < c" "c < 4" "snd (vp_run0 ! a) = AuthorizationRequest bytes" "parse_request vp_codec0 bytes = Some req"
      "nonce_is_fresh (ar_nonce req) (ve_seen_nonces (fst (vp_run0 ! t)))" "snd (vp_run0 ! c) = Vp_ConsentGranted"
    and b: "body = as_bytes (assemble_direct_post_body (vc_text vp_codec0)
        (map2 (complete_presentation (vc_text vp_codec0)) queue (signatures_between c (Suc 4) vp_run0)) (ar_state req))"
    by blast
  have "c = 2" using h(1-3,7) by (auto simp: vp_run0_def numeral_eq_Suc less_Suc_eq)
  then have "a = 0" "t = 1" using h(1,2) by auto
  then have "bytes = as_bytes ''H.P.S''" using h(4) by (simp add: vp_run0_def)
  with h(5) have "req = vp_req0" by (simp add: vp_parse0)
  moreover have "signatures_between 2 5 vp_run0 = [as_bytes ''a'', as_bytes ''b'']"
    by (simp add: signatures_between_def vp_run0_def List.map_filter_def numeral_eq_Suc)
  ultimately show ?thesis using body b h(6) \<open>c = 2\<close> \<open>t = 1\<close>
    by (auto simp: vp_req0_def vp_run0_def)
qed

section \<open>Refinement of the reference model\<close>

text \<open>
  The model's nonce is an abstract token, so the correspondence is taken under a token map. The
  model has no request to refuse: it aborts on a replayed token and on a disclosure without consent
  and validation, and the machine's other refusals stand for the latter.
\<close>

definition vp_events :: "vp_codec \<Rightarrow> (string \<Rightarrow> u64) \<Rightarrow> vp_env \<Rightarrow> vp_state \<Rightarrow> vp_input \<Rightarrow> vpm_ev list" where
  "vp_events V tok env s i =
     (case (s, i) of
        (Vp_Idle, AuthorizationRequest bytes) \<Rightarrow> if parse_request V bytes = None then [VM_Disclose] else []
      | (ResolvingTrust req, RpTrustResolved trust) \<Rightarrow>
          (case check_guards env req trust of
             None \<Rightarrow> [VM_Request (tok (ar_nonce req)), VM_ValidateSig]
           | Some Vp_NonceReplayed \<Rightarrow> [VM_Request (tok (ar_nonce req))]
           | Some _ \<Rightarrow> [VM_Disclose])
      | (RequestValidated req, Vp_ConsentGranted) \<Rightarrow>
          if ve_selected_credentials env = []
              \<or> build_queue (vc_text V) env req (ve_selected_credentials env) = None then [VM_Disclose]
          else [VM_Consent]
      | (RequestValidated _, Vp_ConsentDeclined) \<Rightarrow> [VM_Disclose]
      | (AwaitingDeviceSignature p, DeviceSignatureProduced _) \<Rightarrow>
          if length (pp_queue p) = 1 then [VM_Disclose] else []
      | _ \<Rightarrow> [])"

definition vp_related :: "vp_state \<Rightarrow> vpm_ctx \<Rightarrow> bool" where
  "vp_related s c =
     (case s of
        Vp_Idle \<Rightarrow> vm_st c = VM_Idle \<and> \<not> vm_sig_validated c \<and> \<not> vm_consented c \<and> \<not> vm_disclosed c
      | ResolvingTrust _ \<Rightarrow> vm_st c = VM_Idle \<and> \<not> vm_sig_validated c \<and> \<not> vm_consented c \<and> \<not> vm_disclosed c
      | RequestValidated _ \<Rightarrow> vm_st c = VM_Validated \<and> vm_sig_validated c \<and> \<not> vm_consented c \<and> \<not> vm_disclosed c
      | AwaitingDeviceSignature p \<Rightarrow>
          vm_st c = VM_AwaitingConsent \<and> vm_sig_validated c \<and> vm_consented c \<and> \<not> vm_disclosed c \<and> pp_queue p \<noteq> []
      | Vp_Presenting \<Rightarrow> vm_st c = VM_Presenting \<and> vm_sig_validated c \<and> vm_consented c \<and> vm_disclosed c
      | Vp_Done \<Rightarrow> vm_st c = VM_Presenting \<and> vm_sig_validated c \<and> vm_consented c \<and> vm_disclosed c
      | Vp_Aborted _ \<Rightarrow> vm_st c = VM_Aborted \<and> \<not> vm_disclosed c)"

text \<open>The shell passes the replay set the model keeps, and the token map does not confuse the new nonce with an old one.\<close>

definition vp_admissible :: "(string \<Rightarrow> u64) \<Rightarrow> vp_state \<Rightarrow> vpm_ctx \<Rightarrow> vp_env \<Rightarrow> bool" where
  "vp_admissible tok s c env =
     (case s of
        ResolvingTrust req \<Rightarrow>
          vm_used_nonces c = map tok (ve_seen_nonces env) \<and> inj_on tok (insert (ar_nonce req) (set (ve_seen_nonces env)))
      | _ \<Rightarrow> True)"

lemma check_guards_nonce:
  "check_guards env req trust = None \<Longrightarrow> ar_nonce req \<notin> set (ve_seen_nonces env)"
  "check_guards env req trust = Some Vp_NonceReplayed \<Longrightarrow> ar_nonce req \<in> set (ve_seen_nonces env)"
  by (auto simp: check_guards_def nonce_is_fresh_def split: if_splits)

lemma tok_seen: "inj_on tok (insert n (set ns)) \<Longrightarrow> tok n \<in> set (map tok ns) \<longleftrightarrow> n \<in> set ns"
  by (auto simp: inj_on_def)

lemma vp_step_simulates:
  assumes R: "vp_related s c" and A: "vp_admissible tok s c env"
  shows "vp_related (fst (vp_step V env s i)) (foldl vp_model_step c (vp_events V tok env s i))"
proof (cases s)
  case (ResolvingTrust req)
  then have tok: "tok (ar_nonce req) \<in> set (vm_used_nonces c) \<longleftrightarrow> ar_nonce req \<in> set (ve_seen_nonces env)"
    using A tok_seen [of tok "ar_nonce req" "ve_seen_nonces env"] by (auto simp: vp_admissible_def)
  show ?thesis
  proof (cases i)
    case (RpTrustResolved trust)
    show ?thesis
    proof (cases "check_guards env req trust")
      case None
      then show ?thesis
        using ResolvingTrust RpTrustResolved R tok check_guards_nonce(1) by (simp add: vp_related_def vp_step_def vp_events_def)
    next
      case (Some r)
      show ?thesis
      proof (cases "r = Vp_NonceReplayed")
        case True
        then show ?thesis
          using Some ResolvingTrust RpTrustResolved R tok check_guards_nonce(2)
          by (simp add: vp_related_def vp_step_def vp_events_def)
      next
        case False
        then have "vp_events V tok env s i = [VM_Disclose]"
          using Some ResolvingTrust RpTrustResolved by (cases r) (simp_all add: vp_events_def)
        then show ?thesis using Some ResolvingTrust RpTrustResolved R by (simp add: vp_related_def vp_step_def)
      qed
    qed
  qed (use ResolvingTrust R in \<open>simp_all add: vp_related_def vp_step_def vp_events_def\<close>)
next
  case Vp_Idle
  then show ?thesis using R
    by (cases i) (auto simp: vp_related_def vp_step_def vp_events_def split: option.splits)
next
  case (RequestValidated req)
  show ?thesis
  proof (cases i)
    case Vp_ConsentGranted
    show ?thesis
    proof (cases "build_queue (vc_text V) env req (ve_selected_credentials env)")
      case None
      then show ?thesis using RequestValidated Vp_ConsentGranted R by (simp add: vp_related_def vp_step_def vp_events_def)
    next
      case (Some q)
      then have "q = [] \<longleftrightarrow> ve_selected_credentials env = []"
        using build_queue_length [OF Some] by (metis length_0_conv)
      then show ?thesis using Some RequestValidated Vp_ConsentGranted R
        by (simp add: vp_related_def vp_step_def vp_events_def)
    qed
  qed (use RequestValidated R in \<open>simp_all add: vp_related_def vp_step_def vp_events_def\<close>)
next
  case (AwaitingDeviceSignature p)
  then obtain sub q where "pp_queue p = sub # q" using R by (cases "pp_queue p") (auto simp: vp_related_def)
  then show ?thesis using AwaitingDeviceSignature R
    by (cases i; cases q) (simp_all add: vp_related_def vp_step_def vp_events_def Let_def)
next
  case Vp_Presenting
  then show ?thesis using R by (cases i) (simp_all add: vp_related_def vp_step_def vp_events_def)
qed (use R in \<open>simp_all add: vp_related_def vp_step_def vp_events_def\<close>)

interpretation vp: flow_simulation "vp_step V" vp_model_step vp_related "vp_events V tok" "vp_admissible tok" for V tok
  by unfold_locales (rule vp_step_simulates)



text \<open>
  The model keeps its flags across requests: a second request that was neither validated nor
  consented to is disclosed on the strength of the first one's flags.
\<close>

theorem vp_model_flags_survive_request:
  "vm_disclosed (vp_model_run [VM_Request 1, VM_ValidateSig, VM_Consent, VM_Request 2, VM_Disclose])
   \<and> vm_st (vp_model_run [VM_Request 1, VM_ValidateSig, VM_Consent, VM_Request 2]) = VM_Requested
   \<and> \<not> vm_disclosed (vp_model_run [VM_Request 2, VM_Disclose])"
  by (simp add: vp_model_run_def vp_model_init_def)

end
