(* ===== verification/Txnlog.thy ===== *)
theory Txnlog
  imports Wallet_Std Wallet_Interfaces Crypto_Traits "HOL-Library.Monad_Syntax" "HOL-Library.Multiset"
begin

text \<open>
  The transaction log, \<open>crates/txnlog/src/lib.rs\<close>: bounded, hash-chained audit entries that name
  counterparties and claim paths but no values. The model has the whole file: field validation,
  size accounting, append, redaction, wiping, the activity report and checked restoration. The
  digest is an argument. \<open>[u8; 32]\<close> is a byte list; the statements that need its length ask for it.
\<close>

section \<open>Limits, errors and entries\<close>

definition MAX_ENTRIES :: nat where
  "MAX_ENTRIES = 4096"

definition MAX_COUNTERPARTY_BYTES :: nat where
  "MAX_COUNTERPARTY_BYTES = 4096"

definition MAX_CLAIM_PATHS_PER_ENTRY :: nat where
  "MAX_CLAIM_PATHS_PER_ENTRY = 128"

definition MAX_CLAIM_PATH_BYTES :: nat where
  "MAX_CLAIM_PATH_BYTES = 1024"

definition MAX_PAYMENT_PAYEE_BYTES :: nat where
  "MAX_PAYMENT_PAYEE_BYTES = 4096"

definition MAX_ENTRY_BYTES :: nat where
  "MAX_ENTRY_BYTES = 64 * 1024"

definition MAX_AGGREGATE_BYTES :: nat where
  "MAX_AGGREGATE_BYTES = 4 * 1024 * 1024"

definition HASH_DOMAIN :: bytes where
  "HASH_DOMAIN = as_bytes ''eudi-txnlog-v1''"

definition ZERO_HASH :: bytes where
  "ZERO_HASH = replicate 32 0"

datatype text_field = F_Counterparty | F_ClaimPath | F_PaymentPayee | F_PaymentCurrency

datatype txn_error =
    EntryLimitExceeded nat
  | FieldEmpty text_field
  | FieldTooLong text_field nat nat
  | NonCanonicalText text_field
  | TooManyClaimPaths nat nat
  | DuplicateClaimPath
  | ClaimPathsNotCanonical
  | InvalidEpoch u64
  | PaymentKindMismatch u64
  | PaymentCounterpartyMismatch u64
  | InvalidPaymentAmount u64
  | InvalidPaymentCurrency u64
  | EntryByteLimitExceeded nat nat
  | AggregateByteLimitExceeded nat nat
  | SizeOverflow
  | SequenceMismatch u64 u64
  | PreviousHashMismatch u64
  | ZeroEntryHash u64
  | EntryHashMismatch u64
  | RedactedEntryNotCanonical u64
  | AnchoredHeadMismatch bytes bytes

datatype txn_kind = K_Presentation | K_Issuance | K_Payment | K_Transfer

fun kind_tag :: "txn_kind \<Rightarrow> u8" where
  "kind_tag K_Presentation = 1"
| "kind_tag K_Issuance = 2"
| "kind_tag K_Payment = 3"
| "kind_tag K_Transfer = 4"

fun kind_name :: "txn_kind \<Rightarrow> string" where
  "kind_name K_Presentation = ''presentation''"
| "kind_name K_Issuance = ''issuance''"
| "kind_name K_Payment = ''payment''"
| "kind_name K_Transfer = ''transfer''"

datatype txn_outcome = O_Completed | O_Declined | O_Aborted

fun outcome_tag :: "txn_outcome \<Rightarrow> u8" where
  "outcome_tag O_Completed = 1"
| "outcome_tag O_Declined = 2"
| "outcome_tag O_Aborted = 3"

fun outcome_name :: "txn_outcome \<Rightarrow> string" where
  "outcome_name O_Completed = ''completed''"
| "outcome_name O_Declined = ''declined''"
| "outcome_name O_Aborted = ''aborted''"

record payment_summary =
  ps_payee :: string
  ps_amount_minor :: u64
  ps_currency :: string

record new_entry =
  ne_epoch :: int
  ne_kind :: txn_kind
  ne_counterparty :: string
  ne_consent_hash :: bytes
  ne_claim_paths :: "string list"
  ne_outcome :: txn_outcome
  ne_payment :: "payment_summary option"

record log_entry =
  en_seq :: u64
  en_epoch :: int
  en_kind :: txn_kind
  en_counterparty :: string
  en_consent_hash :: bytes
  en_claim_paths :: "string list"
  en_outcome :: txn_outcome
  en_payment :: "payment_summary option"
  en_prev_hash :: bytes
  en_entry_hash :: bytes
  en_redacted :: bool

record transaction_log =
  tl_entries :: "log_entry list"
  tl_accounted_bytes :: nat

definition txn_new :: transaction_log where
  "txn_new = \<lparr>tl_entries = [], tl_accounted_bytes = 0\<rparr>"

section \<open>Validation and accounting\<close>

definition ACCOUNTED_ENTRY_FIXED_BYTES :: nat where
  "ACCOUNTED_ENTRY_FIXED_BYTES = 8 + 8 + 1 + 1 + 32 + 32 + 32 + 1 + 8 + 8 + 1"

definition validate_text :: "string \<Rightarrow> text_field \<Rightarrow> nat \<Rightarrow> bool \<Rightarrow> txn_error + unit" where
  "validate_text v field max_len allow_empty =
     (if v = [] \<and> \<not> allow_empty then Inl (FieldEmpty field)
      else if length v > max_len then Inl (FieldTooLong field max_len (length v))
      else if \<not> str_is_trimmed v \<or> str_has_control v then Inl (NonCanonicalText field)
      else Inr ())"

fun validate_path_texts :: "string list \<Rightarrow> txn_error + unit" where
  "validate_path_texts [] = Inr ()"
| "validate_path_texts (path # paths) =
     bind_result (validate_text path F_ClaimPath MAX_CLAIM_PATH_BYTES False)
       (\<lambda>_. validate_path_texts paths)"

fun repeats_later :: "string list \<Rightarrow> bool" where
  "repeats_later [] = False"
| "repeats_later (path # paths) = (path \<in> set paths \<or> repeats_later paths)"

fun check_path_windows :: "string list \<Rightarrow> txn_error + unit" where
  "check_path_windows (a # b # paths) =
     (if a < b then check_path_windows (b # paths)
      else if a = b then Inl DuplicateClaimPath
      else Inl ClaimPathsNotCanonical)"
| "check_path_windows _ = Inr ()"

definition validate_claim_paths :: "string list \<Rightarrow> bool \<Rightarrow> txn_error + unit" where
  "validate_claim_paths paths require_canonical_order =
     (if length paths > MAX_CLAIM_PATHS_PER_ENTRY
      then Inl (TooManyClaimPaths MAX_CLAIM_PATHS_PER_ENTRY (length paths))
      else bind_result (validate_path_texts paths) (\<lambda>_.
        if repeats_later paths then Inl DuplicateClaimPath
        else if \<not> require_canonical_order then Inr ()
        else check_path_windows paths))"

fun account_paths :: "nat \<Rightarrow> string list \<Rightarrow> txn_error + nat" where
  "account_paths bytes [] = Inr bytes"
| "account_paths bytes (path # paths) =
     bind_result
       (ok_or (checked_add_usize bytes 8 \<bind> (\<lambda>total_len. checked_add_usize total_len (length path))) SizeOverflow)
       (\<lambda>bytes. account_paths bytes paths)"

definition account_payment :: "nat \<Rightarrow> payment_summary option \<Rightarrow> txn_error + nat" where
  "account_payment bytes payment =
     (case payment of
        None \<Rightarrow> Inr bytes
      | Some p \<Rightarrow>
          ok_or
            (checked_add_usize bytes 8
              \<bind> (\<lambda>n. checked_add_usize n (length (ps_payee p)))
              \<bind> (\<lambda>n. checked_add_usize n 8)
              \<bind> (\<lambda>n. checked_add_usize n 8)
              \<bind> (\<lambda>n. checked_add_usize n (length (ps_currency p))))
            SizeOverflow)"

definition accounted_fields_bytes :: "string \<Rightarrow> string list \<Rightarrow> payment_summary option \<Rightarrow> txn_error + nat" where
  "accounted_fields_bytes counterparty claim_paths payment =
     bind_result (ok_or (checked_add_usize ACCOUNTED_ENTRY_FIXED_BYTES (length counterparty)) SizeOverflow) (\<lambda>bytes.
     bind_result (account_paths bytes claim_paths) (\<lambda>bytes.
     bind_result (account_payment bytes payment) (\<lambda>bytes.
       if bytes > MAX_ENTRY_BYTES then Inl (EntryByteLimitExceeded MAX_ENTRY_BYTES bytes)
       else Inr bytes)))"

definition accounted_new_entry_bytes :: "new_entry \<Rightarrow> txn_error + nat" where
  "accounted_new_entry_bytes e =
     accounted_fields_bytes (ne_counterparty e) (ne_claim_paths e) (ne_payment e)"

definition accounted_entry_bytes :: "log_entry \<Rightarrow> txn_error + nat" where
  "accounted_entry_bytes e =
     accounted_fields_bytes (en_counterparty e) (en_claim_paths e) (en_payment e)"

definition accounted_tombstone_bytes :: "txn_error + nat" where
  "accounted_tombstone_bytes =
     accounted_new_entry_bytes
       \<lparr>ne_epoch = 0, ne_kind = K_Presentation, ne_counterparty = [], ne_consent_hash = ZERO_HASH,
         ne_claim_paths = [], ne_outcome = O_Aborted, ne_payment = None\<rparr>"

definition validate_payment :: "txn_kind \<Rightarrow> payment_summary option \<Rightarrow> string \<Rightarrow> string list \<Rightarrow> u64 \<Rightarrow> txn_error + unit" where
  "validate_payment kind payment counterparty claim_paths seq =
     (case (kind, payment) of
        (K_Payment, Some p) \<Rightarrow>
          if claim_paths \<noteq> [] then Inl (PaymentKindMismatch seq)
          else bind_result (validate_text (ps_payee p) F_PaymentPayee MAX_PAYMENT_PAYEE_BYTES False) (\<lambda>_.
            if ps_payee p \<noteq> counterparty then Inl (PaymentCounterpartyMismatch seq)
            else if ps_amount_minor p = 0 then Inl (InvalidPaymentAmount seq)
            else bind_result (validate_text (ps_currency p) F_PaymentCurrency 3 False) (\<lambda>_.
              if length (ps_currency p) \<noteq> 3 \<or> \<not> list_all is_ascii_uppercase (as_bytes (ps_currency p))
              then Inl (InvalidPaymentCurrency seq)
              else Inr ()))
      | (K_Payment, None) \<Rightarrow> Inl (PaymentKindMismatch seq)
      | (_, Some _) \<Rightarrow> Inl (PaymentKindMismatch seq)
      | (_, None) \<Rightarrow> Inr ())"

definition validate_entry_fields ::
    "int \<Rightarrow> txn_kind \<Rightarrow> string \<Rightarrow> string list \<Rightarrow> payment_summary option \<Rightarrow> u64 \<Rightarrow> bool \<Rightarrow> txn_error + nat" where
  "validate_entry_fields epoch kind counterparty claim_paths payment seq paths_are_canonical =
     (if epoch < 0 then Inl (InvalidEpoch seq)
      else bind_result (validate_text counterparty F_Counterparty MAX_COUNTERPARTY_BYTES False) (\<lambda>_.
        bind_result (validate_claim_paths claim_paths paths_are_canonical) (\<lambda>_.
        bind_result (validate_payment kind payment counterparty claim_paths seq) (\<lambda>_.
          accounted_fields_bytes counterparty claim_paths payment))))"

definition validate_new_entry :: "new_entry \<Rightarrow> u64 \<Rightarrow> bool \<Rightarrow> txn_error + nat" where
  "validate_new_entry e seq paths_are_canonical =
     validate_entry_fields (ne_epoch e) (ne_kind e) (ne_counterparty e) (ne_claim_paths e) (ne_payment e)
       seq paths_are_canonical"

definition redacted_entry_is_canonical :: "log_entry \<Rightarrow> bool" where
  "redacted_entry_is_canonical e \<longleftrightarrow>
     en_epoch e = 0 \<and> en_kind e = K_Presentation \<and> en_counterparty e = [] \<and> en_consent_hash e = ZERO_HASH
     \<and> en_claim_paths e = [] \<and> en_outcome e = O_Aborted \<and> en_payment e = None"

section \<open>Hashing\<close>

definition hash_payment :: "payment_summary option \<Rightarrow> bytes" where
  "hash_payment payment =
     (case payment of
        None \<Rightarrow> [0]
      | Some p \<Rightarrow> put_bytes (put_bytes [1] (as_bytes (ps_payee p)) @ u64_le (ps_amount_minor p)) (as_bytes (ps_currency p)))"

definition hash_entry_input :: "u64 \<Rightarrow> bytes \<Rightarrow> new_entry \<Rightarrow> bytes" where
  "hash_entry_input seq prev_hash e =
     (let buf = HASH_DOMAIN @ prev_hash @ u64_le seq @ i64_le (ne_epoch e)
            @ [kind_tag (ne_kind e)] @ [outcome_tag (ne_outcome e)];
          buf = put_bytes buf (as_bytes (ne_counterparty e));
          buf = buf @ ne_consent_hash e @ u64_le (of_nat (length (ne_claim_paths e)));
          buf = foldl (\<lambda>buf p. put_bytes buf (as_bytes p)) buf (ne_claim_paths e)
      in buf @ hash_payment (ne_payment e))"

definition hash_entry :: "digest \<Rightarrow> u64 \<Rightarrow> bytes \<Rightarrow> new_entry \<Rightarrow> bytes" where
  "hash_entry digest seq prev_hash e = digest (hash_entry_input seq prev_hash e)"

section \<open>The log\<close>

definition is_exhausted :: "transaction_log \<Rightarrow> bool" where
  "is_exhausted log \<longleftrightarrow>
     length (tl_entries log) \<ge> MAX_ENTRIES \<or> tl_accounted_bytes log \<ge> MAX_AGGREGATE_BYTES"

definition can_guarantee_max_entry :: "transaction_log \<Rightarrow> bool" where
  "can_guarantee_max_entry log \<longleftrightarrow>
     length (tl_entries log) < MAX_ENTRIES
     \<and> (case checked_add_usize (tl_accounted_bytes log) MAX_ENTRY_BYTES of
          None \<Rightarrow> False | Some bytes \<Rightarrow> bytes \<le> MAX_AGGREGATE_BYTES)"

definition check_append :: "transaction_log \<Rightarrow> new_entry \<Rightarrow> txn_error + unit" where
  "check_append log e =
     (if length (tl_entries log) \<ge> MAX_ENTRIES then Inl (EntryLimitExceeded MAX_ENTRIES)
      else
        bind_result (ok_or (u64_try_from (length (tl_entries log))) SizeOverflow) (\<lambda>seq.
        bind_result (validate_new_entry e seq False) (\<lambda>entry_bytes.
        bind_result (ok_or (checked_add_usize (tl_accounted_bytes log) entry_bytes) SizeOverflow) (\<lambda>aggregate_bytes.
          if aggregate_bytes > MAX_AGGREGATE_BYTES
          then Inl (AggregateByteLimitExceeded MAX_AGGREGATE_BYTES aggregate_bytes)
          else Inr ()))))"

definition head_hash :: "transaction_log \<Rightarrow> bytes" where
  "head_hash log = chain_head en_entry_hash ZERO_HASH (tl_entries log)"

definition txn_append :: "digest \<Rightarrow> transaction_log \<Rightarrow> new_entry \<Rightarrow> txn_error + transaction_log \<times> log_entry" where
  "txn_append digest log e =
     bind_result (check_append log e) (\<lambda>_.
     let e = e\<lparr>ne_claim_paths := sort (ne_claim_paths e)\<rparr> in
     bind_result (ok_or (u64_try_from (length (tl_entries log))) SizeOverflow) (\<lambda>seq.
     bind_result (validate_new_entry e seq True) (\<lambda>entry_bytes.
     bind_result (ok_or (checked_add_usize (tl_accounted_bytes log) entry_bytes) SizeOverflow) (\<lambda>aggregate_bytes.
     if aggregate_bytes > MAX_AGGREGATE_BYTES
     then Inl (AggregateByteLimitExceeded MAX_AGGREGATE_BYTES aggregate_bytes)
     else
       let prev_hash = head_hash log;
           entry_hash = hash_entry digest seq prev_hash e
       in if entry_hash = ZERO_HASH then Inl (ZeroEntryHash seq)
          else
            let entry = \<lparr>en_seq = seq, en_epoch = ne_epoch e, en_kind = ne_kind e,
                  en_counterparty = ne_counterparty e, en_consent_hash = ne_consent_hash e,
                  en_claim_paths = ne_claim_paths e, en_outcome = ne_outcome e,
                  en_payment = ne_payment e, en_prev_hash = prev_hash, en_entry_hash = entry_hash,
                  en_redacted = False\<rparr>
            in Inr (\<lparr>tl_entries = tl_entries log @ [entry], tl_accounted_bytes = aggregate_bytes\<rparr>, entry)))))"

definition tombstone :: "log_entry \<Rightarrow> log_entry" where
  "tombstone e =
     e\<lparr>en_epoch := 0, en_kind := K_Presentation, en_redacted := True, en_counterparty := [],
       en_claim_paths := [], en_consent_hash := ZERO_HASH, en_outcome := O_Aborted, en_payment := None\<rparr>"

definition redact :: "transaction_log \<Rightarrow> u64 \<Rightarrow> transaction_log \<times> bool" where
  "redact log seq =
     (let index = unat seq in
      if index \<ge> length (tl_entries log) then (log, False)
      else
        let entry = tl_entries log ! index in
        if en_redacted entry then (log, True)
        else
          case (accounted_entry_bytes entry, accounted_tombstone_bytes) of
            (Inr old_bytes, Inr tombstone_bytes) \<Rightarrow>
              (case checked_sub_usize (tl_accounted_bytes log) old_bytes
                      \<bind> (\<lambda>bytes. checked_add_usize bytes tombstone_bytes) of
                 None \<Rightarrow> (log, False)
               | Some next_accounted_bytes \<Rightarrow>
                   (\<lparr>tl_entries = (tl_entries log)[index := tombstone entry],
                      tl_accounted_bytes = next_accounted_bytes\<rparr>, True))
          | _ \<Rightarrow> (log, False))"

definition wipe :: "transaction_log \<Rightarrow> transaction_log" where
  "wipe log = \<lparr>tl_entries = [], tl_accounted_bytes = 0\<rparr>"

record txn_report =
  rp_total :: nat
  rp_presentations :: nat
  rp_issuances :: nat
  rp_payments :: nat
  rp_transfers :: nat
  rp_redacted :: nat
  rp_counterparties :: "string list"

definition report_entry :: "txn_report \<Rightarrow> log_entry \<Rightarrow> txn_report" where
  "report_entry r e =
     (if en_redacted e then r\<lparr>rp_redacted := rp_redacted r + 1\<rparr>
      else
        let r = (case en_kind e of
                   K_Presentation \<Rightarrow> r\<lparr>rp_presentations := rp_presentations r + 1\<rparr>
                 | K_Issuance \<Rightarrow> r\<lparr>rp_issuances := rp_issuances r + 1\<rparr>
                 | K_Payment \<Rightarrow> r\<lparr>rp_payments := rp_payments r + 1\<rparr>
                 | K_Transfer \<Rightarrow> r\<lparr>rp_transfers := rp_transfers r + 1\<rparr>)
        in if en_counterparty e \<in> set (rp_counterparties r) then r
           else r\<lparr>rp_counterparties := rp_counterparties r @ [en_counterparty e]\<rparr>)"

definition report :: "transaction_log \<Rightarrow> txn_report" where
  "report log =
     (let r = foldl report_entry
            \<lparr>rp_total = 0, rp_presentations = 0, rp_issuances = 0, rp_payments = 0, rp_transfers = 0,
              rp_redacted = 0, rp_counterparties = []\<rparr> (tl_entries log)
      in r\<lparr>rp_total := length (tl_entries log), rp_counterparties := sort (rp_counterparties r)\<rparr>)"

definition entry_content :: "log_entry \<Rightarrow> new_entry" where
  "entry_content e =
     \<lparr>ne_epoch = en_epoch e, ne_kind = en_kind e, ne_counterparty = en_counterparty e,
       ne_consent_hash = en_consent_hash e, ne_claim_paths = en_claim_paths e,
       ne_outcome = en_outcome e, ne_payment = en_payment e\<rparr>"

definition validate_entry :: "digest \<Rightarrow> u64 \<Rightarrow> bytes \<Rightarrow> log_entry \<Rightarrow> txn_error + nat" where
  "validate_entry digest expected_seq previous_hash entry =
     (if en_seq entry \<noteq> expected_seq then Inl (SequenceMismatch expected_seq (en_seq entry))
      else if en_prev_hash entry \<noteq> previous_hash then Inl (PreviousHashMismatch (en_seq entry))
      else if en_entry_hash entry = ZERO_HASH then Inl (ZeroEntryHash (en_seq entry))
      else if en_redacted entry then
        (if \<not> redacted_entry_is_canonical entry then Inl (RedactedEntryNotCanonical (en_seq entry))
         else accounted_entry_bytes entry)
      else
        bind_result
          (validate_entry_fields (en_epoch entry) (en_kind entry) (en_counterparty entry) (en_claim_paths entry)
             (en_payment entry) (en_seq entry) True)
          (\<lambda>bytes.
            if hash_entry digest (en_seq entry) (en_prev_hash entry) (entry_content entry) \<noteq> en_entry_hash entry
            then Inl (EntryHashMismatch (en_seq entry))
            else Inr bytes))"

fun validate_entries_from ::
    "digest \<Rightarrow> nat \<Rightarrow> bytes \<Rightarrow> nat \<Rightarrow> log_entry list \<Rightarrow> txn_error + bytes \<times> nat" where
  "validate_entries_from digest index previous_hash aggregate_bytes [] = Inr (previous_hash, aggregate_bytes)"
| "validate_entries_from digest index previous_hash aggregate_bytes (entry # entries) =
     bind_result (ok_or (u64_try_from index) SizeOverflow) (\<lambda>expected_seq.
     bind_result (validate_entry digest expected_seq previous_hash entry) (\<lambda>entry_bytes.
     bind_result (ok_or (checked_add_usize aggregate_bytes entry_bytes) SizeOverflow) (\<lambda>aggregate_bytes.
       if aggregate_bytes > MAX_AGGREGATE_BYTES
       then Inl (AggregateByteLimitExceeded MAX_AGGREGATE_BYTES aggregate_bytes)
       else validate_entries_from digest (index + 1) (en_entry_hash entry) aggregate_bytes entries)))"

definition validate_entries :: "digest \<Rightarrow> log_entry list \<Rightarrow> bytes \<Rightarrow> txn_error + nat" where
  "validate_entries digest entries expected_anchored_head =
     (if length entries > MAX_ENTRIES then Inl (EntryLimitExceeded MAX_ENTRIES)
      else bind_result (validate_entries_from digest 0 ZERO_HASH 0 entries) (\<lambda>(previous_hash, aggregate_bytes).
        if previous_hash \<noteq> expected_anchored_head
        then Inl (AnchoredHeadMismatch expected_anchored_head previous_hash)
        else Inr aggregate_bytes))"

definition verify_integrity :: "digest \<Rightarrow> transaction_log \<Rightarrow> bool" where
  "verify_integrity digest log \<longleftrightarrow>
     (case validate_entries digest (tl_entries log) (head_hash log) of
        Inl _ \<Rightarrow> False | Inr bytes \<Rightarrow> bytes = tl_accounted_bytes log)"

definition restore_checked :: "digest \<Rightarrow> log_entry list \<Rightarrow> bytes \<Rightarrow> txn_error + transaction_log" where
  "restore_checked digest entries expected_anchored_head =
     bind_result (validate_entries digest entries expected_anchored_head) (\<lambda>accounted_bytes.
       Inr \<lparr>tl_entries = entries, tl_accounted_bytes = accounted_bytes\<rparr>)"

definition replace_checked ::
    "digest \<Rightarrow> transaction_log \<Rightarrow> log_entry list \<Rightarrow> bytes \<Rightarrow> transaction_log \<times> (txn_error + unit)" where
  "replace_checked digest log entries expected_anchored_head =
     (case restore_checked digest entries expected_anchored_head of
        Inl e \<Rightarrow> (log, Inl e)
      | Inr restored \<Rightarrow> (restored, Inr ()))"

section \<open>The pre-image determines the entry\<close>

definition entry_input :: "log_entry \<Rightarrow> bytes" where
  "entry_input e = hash_entry_input (en_seq e) (en_prev_hash e) (entry_content e)"

text \<open>What the Rust types of the fields guarantee: fixed array lengths, \<open>i64\<close>, and sizes in \<open>usize\<close>.\<close>

definition content_typed :: "new_entry \<Rightarrow> bool" where
  "content_typed e \<longleftrightarrow>
     length (ne_consent_hash e) = 32 \<and> in_i64 (ne_epoch e) \<and> length (ne_counterparty e) < 2 ^ 64
     \<and> length (ne_claim_paths e) < 2 ^ 64 \<and> list_all (\<lambda>p. length p < 2 ^ 64) (ne_claim_paths e)
     \<and> (case ne_payment e of None \<Rightarrow> True
        | Some p \<Rightarrow> length (ps_payee p) < 2 ^ 64 \<and> length (ps_currency p) < 2 ^ 64)"

definition entry_typed :: "log_entry \<Rightarrow> bool" where
  "entry_typed e \<longleftrightarrow> length (en_prev_hash e) = 32 \<and> content_typed (entry_content e)"

lemma kind_tag_inject [simp]: "kind_tag k = kind_tag l \<longleftrightarrow> k = l"
  by (cases k; cases l) simp_all

lemma outcome_tag_inject [simp]: "outcome_tag k = outcome_tag l \<longleftrightarrow> k = l"
  by (cases k; cases l) simp_all

lemma foldl_put_bytes:
  "foldl (\<lambda>buf p. put_bytes buf (as_bytes p)) buf ps = buf @ concat (map (\<lambda>p. put_bytes [] (as_bytes p)) ps)"
proof (induction ps arbitrary: buf)
  case (Cons p ps)
  then show ?case by (simp add: put_bytes_append [of buf])
qed simp

lemma paths_input_binds:
  assumes "length ps = length qs" "list_all (\<lambda>p. length p < 2 ^ 64) ps" "list_all (\<lambda>p. length p < 2 ^ 64) qs"
    and "concat (map (\<lambda>p. put_bytes [] (as_bytes p)) ps) @ r = concat (map (\<lambda>p. put_bytes [] (as_bytes p)) qs) @ s"
  shows "ps = qs \<and> r = s"
  using assms by (induction ps qs rule: list_induct2) (auto simp: put_bytes_eq_iff)

lemma hash_payment_inject:
  assumes "case p of None \<Rightarrow> True | Some p \<Rightarrow> length (ps_payee p) < 2 ^ 64 \<and> length (ps_currency p) < 2 ^ 64"
    and "case q of None \<Rightarrow> True | Some p \<Rightarrow> length (ps_payee p) < 2 ^ 64 \<and> length (ps_currency p) < 2 ^ 64"
    and "hash_payment p = hash_payment q"
  shows "p = q"
  using assms
  by (auto simp: hash_payment_def put_bytes_append [of "[1]"] put_bytes_append [of "put_bytes _ _ @ _"]
      put_bytes_append [of "_ # _"] put_bytes_eq_iff
      put_bytes_eq_iff [where r = "[]" and s = "[]", simplified] split: option.splits)

lemma length_nat_u64: "m < 2 ^ 64 \<Longrightarrow> n < 2 ^ 64 \<Longrightarrow> (of_nat m :: u64) = of_nat n \<longleftrightarrow> m = n"
  by (auto dest!: arg_cong [of _ _ unat] simp: unat_of_nat take_bit_eq_mod)

lemma hash_entry_input_inject:
  assumes "length p = 32" "length q = 32" "content_typed e" "content_typed f"
    and eq: "hash_entry_input s p e = hash_entry_input t q f"
  shows "s = t \<and> p = q \<and> e = f"
proof -
  let ?paths = "\<lambda>e. concat (map (\<lambda>p. put_bytes [] (as_bytes p)) (ne_claim_paths e))"
  have form: "hash_entry_input s p e = HASH_DOMAIN @ p @ u64_le s @ i64_le (ne_epoch e) @ [kind_tag (ne_kind e)]
      @ [outcome_tag (ne_outcome e)] @ put_bytes [] (as_bytes (ne_counterparty e)) @ ne_consent_hash e
      @ u64_le (of_nat (length (ne_claim_paths e))) @ ?paths e @ hash_payment (ne_payment e)" for s p e
    by (simp add: hash_entry_input_def foldl_put_bytes put_bytes_append [of "_ @ _"] Let_def)
  from eq assms(1,2) have "p = q" "s = t" "i64_le (ne_epoch e) = i64_le (ne_epoch f)" "ne_kind e = ne_kind f"
    "ne_outcome e = ne_outcome f"
    and rest: "put_bytes [] (as_bytes (ne_counterparty e)) @ ne_consent_hash e
      @ u64_le (of_nat (length (ne_claim_paths e))) @ ?paths e @ hash_payment (ne_payment e)
      = put_bytes [] (as_bytes (ne_counterparty f)) @ ne_consent_hash f
      @ u64_le (of_nat (length (ne_claim_paths f))) @ ?paths f @ hash_payment (ne_payment f)"
    unfolding form by simp_all
  moreover from rest assms(3,4) have "ne_counterparty e = ne_counterparty f"
    and rest: "ne_consent_hash e @ u64_le (of_nat (length (ne_claim_paths e))) @ ?paths e @ hash_payment (ne_payment e)
      = ne_consent_hash f @ u64_le (of_nat (length (ne_claim_paths f))) @ ?paths f @ hash_payment (ne_payment f)"
    by (simp_all add: put_bytes_eq_iff content_typed_def)
  moreover from rest assms(3,4) have "ne_consent_hash e = ne_consent_hash f"
    and len: "length (ne_claim_paths e) = length (ne_claim_paths f)"
    and rest: "?paths e @ hash_payment (ne_payment e) = ?paths f @ hash_payment (ne_payment f)"
    by (simp_all add: content_typed_def length_nat_u64)
  moreover from paths_input_binds [OF len _ _ rest] assms(3,4)
  have "ne_claim_paths e = ne_claim_paths f" "hash_payment (ne_payment e) = hash_payment (ne_payment f)"
    by (simp_all add: content_typed_def)
  ultimately show ?thesis
    using assms(3,4) hash_payment_inject by (auto simp: content_typed_def i64_le_inject)
qed

interpretation txn: hash_chain en_prev_hash en_entry_hash "\<lambda>e. \<not> en_redacted e" entry_input entry_typed
proof
  fix r q :: log_entry
  assume "entry_typed r" "entry_typed q" "\<not> en_redacted r" "\<not> en_redacted q"
    "en_entry_hash r = en_entry_hash q" "entry_input r = entry_input q"
  moreover from this have "en_seq r = en_seq q \<and> en_prev_hash r = en_prev_hash q \<and> entry_content r = entry_content q"
    unfolding entry_input_def by (intro hash_entry_input_inject) (simp_all add: entry_typed_def)
  ultimately show "r = q" by (simp add: entry_content_def)
qed

section \<open>Sizes\<close>

abbreviation paths_size :: "string list \<Rightarrow> nat" where
  "paths_size ps \<equiv> sum_list (map (\<lambda>p. 8 + length p) ps)"

lemma account_paths_Inr: "account_paths a ps = Inr b \<longleftrightarrow> b = a + paths_size ps \<and> (ps = [] \<or> b < 2 ^ 64)"
proof (induction ps arbitrary: a)
  case (Cons p ps)
  show ?case
    unfolding account_paths.simps bind_result_Inr_iff ok_or_Inr_iff bind_eq_Some_conv checked_add_usize_Some Cons.IH
    by (simp del: sum_list_addf) auto
qed auto

lemma accounted_fields_Inr:
  "accounted_fields_bytes c ps pay = Inr n \<longleftrightarrow>
     n = ACCOUNTED_ENTRY_FIXED_BYTES + length c + paths_size ps
       + (case pay of None \<Rightarrow> 0 | Some p \<Rightarrow> 24 + length (ps_payee p) + length (ps_currency p))
     \<and> n \<le> MAX_ENTRY_BYTES"
  unfolding accounted_fields_bytes_def bind_result_Inr_iff account_paths_Inr account_payment_def ok_or_Inr_iff
    checked_add_usize_Some
  by (cases pay) (auto simp: MAX_ENTRY_BYTES_def bind_eq_Some_conv simp del: sum_list_addf)

lemma tombstone_bytes: "accounted_tombstone_bytes = Inr ACCOUNTED_ENTRY_FIXED_BYTES"
  by (simp add: accounted_tombstone_bytes_def accounted_new_entry_bytes_def accounted_fields_Inr MAX_ENTRY_BYTES_def
      ACCOUNTED_ENTRY_FIXED_BYTES_def)

lemma accounted_tombstone_entry [simp]: "accounted_entry_bytes (tombstone e) = Inr ACCOUNTED_ENTRY_FIXED_BYTES"
  by (simp add: accounted_entry_bytes_def tombstone_def accounted_fields_Inr MAX_ENTRY_BYTES_def
      ACCOUNTED_ENTRY_FIXED_BYTES_def)

lemma validated_size:
  "validate_entry d i p e = Inr n \<Longrightarrow>
     accounted_entry_bytes e = Inr n \<and> ACCOUNTED_ENTRY_FIXED_BYTES \<le> n \<and> n \<le> MAX_ENTRY_BYTES"
  by (auto simp: validate_entry_def validate_entry_fields_def accounted_entry_bytes_def bind_result_Inr_iff
      accounted_fields_Inr split: if_splits)

section \<open>Validated chains\<close>

lemmas validate_from_Inr = bind_result_Inr_iff u64_try_from_def

lemma validate_from_append:
  "validate_entries_from d i p a (es @ fs) =
     bind_result (validate_entries_from d i p a es) (\<lambda>(h, b). validate_entries_from d (i + length es) h b fs)"
  by (induction es arbitrary: i p a) (simp_all add: bind_result_assoc bind_result_if cong: if_cong)

lemma validate_from_chain:
  assumes "validate_entries_from d i p a es = Inr (h, b)"
  shows "linked en_prev_hash en_entry_hash p es \<and> chain_head en_entry_hash p es = h
    \<and> (\<forall>e \<in> set es. en_entry_hash e \<noteq> ZERO_HASH \<and> (\<not> en_redacted e \<longrightarrow> en_entry_hash e = d (entry_input e)))"
  using assms
  by (induction es arbitrary: i p a)
    (auto simp: validate_from_Inr validate_entry_def hash_entry_def entry_input_def split: if_splits)

lemma validate_from_shift:
  assumes "validate_entries_from d i p a es = Inr (h, b)" "a' \<le> a"
  shows "a \<le> b \<and> validate_entries_from d i p a' es = Inr (h, b - (a - a'))"
  using assms
proof (induction es arbitrary: i p a a')
  case (Cons e es)
  from Cons.prems(1) obtain n where n: "i < 2 ^ 64" "validate_entry d (of_nat i) p e = Inr n" "a + n < 2 ^ 64"
    "\<not> MAX_AGGREGATE_BYTES < a + n" "validate_entries_from d (i + 1) (en_entry_hash e) (a + n) es = Inr (h, b)"
    by (auto simp: validate_from_Inr split: if_splits)
  have "a + n \<le> b \<and> validate_entries_from d (i + 1) (en_entry_hash e) (a' + n) es = Inr (h, b - (a + n - (a' + n)))"
    using Cons.prems(2) by (intro Cons.IH [OF n(5)]) simp
  with n Cons.prems(2) show ?case by (auto simp: validate_from_Inr)
qed simp

lemma validate_from_bound:
  "validate_entries_from d i p a es = Inr (h, b) \<Longrightarrow> a \<le> MAX_AGGREGATE_BYTES \<Longrightarrow> b \<le> MAX_AGGREGATE_BYTES"
  by (induction es arbitrary: i p a) (auto simp: validate_from_Inr split: if_splits)

definition log_valid :: "digest \<Rightarrow> transaction_log \<Rightarrow> bool" where
  "log_valid d log \<longleftrightarrow>
     length (tl_entries log) \<le> MAX_ENTRIES
     \<and> validate_entries_from d 0 ZERO_HASH 0 (tl_entries log) = Inr (head_hash log, tl_accounted_bytes log)"

lemma restore_checked_Inr:
  "restore_checked d es h = Inr log \<longleftrightarrow> tl_entries log = es \<and> head_hash log = h \<and> log_valid d log"
proof -
  have "chain_head en_entry_hash ZERO_HASH es = h'" if "validate_entries_from d 0 ZERO_HASH 0 es = Inr (h', n)" for h' n
    using validate_from_chain [OF that] by simp
  then show ?thesis
    by (cases log) (auto simp: restore_checked_def validate_entries_def log_valid_def head_hash_def bind_result_Inr_iff
        split: if_splits)
qed

lemma log_valid_restores: "log_valid d log \<Longrightarrow> restore_checked d (tl_entries log) (head_hash log) = Inr log"
  by (simp add: restore_checked_Inr)

lemma log_valid_new [simp]: "log_valid d \<lparr>tl_entries = [], tl_accounted_bytes = 0\<rparr>"
  by (simp add: log_valid_def head_hash_def)

lemma log_valid_append:
  assumes "log_valid d log" "txn_append d log e = Inr (log', entry)"
  shows "log_valid d log'"
proof -
  let ?e = "e\<lparr>ne_claim_paths := sort (ne_claim_paths e)\<rparr>"
  from assms(2) obtain n where n: "length (tl_entries log) < MAX_ENTRIES"
      "validate_new_entry ?e (of_nat (length (tl_entries log))) True = Inr n"
      "hash_entry d (of_nat (length (tl_entries log))) (head_hash log) ?e \<noteq> ZERO_HASH"
      "tl_accounted_bytes log + n < 2 ^ 64" "tl_accounted_bytes log + n \<le> MAX_AGGREGATE_BYTES"
      and entry: "entry = \<lparr>en_seq = of_nat (length (tl_entries log)), en_epoch = ne_epoch e, en_kind = ne_kind e,
                  en_counterparty = ne_counterparty e, en_consent_hash = ne_consent_hash e,
                  en_claim_paths = sort (ne_claim_paths e), en_outcome = ne_outcome e,
                  en_payment = ne_payment e, en_prev_hash = head_hash log,
                  en_entry_hash = hash_entry d (of_nat (length (tl_entries log))) (head_hash log) ?e,
                  en_redacted = False\<rparr>"
      and log': "log' = \<lparr>tl_entries = tl_entries log @ [entry], tl_accounted_bytes = tl_accounted_bytes log + n\<rparr>"
    by (auto simp: txn_append_def bind_result_Inr_iff u64_try_from_def check_append_def Let_def split: if_splits)
  have "entry_content entry = ?e" by (simp add: entry entry_content_def)
  then have "validate_entry d (of_nat (length (tl_entries log))) (head_hash log) entry = Inr n"
    using n(2,3) by (simp add: validate_entry_def entry validate_new_entry_def)
  moreover have "length (tl_entries log) < 2 ^ 64" using n(1) by (simp add: MAX_ENTRIES_def)
  ultimately show ?thesis
    using assms(1) n unfolding log'
    by (simp add: log_valid_def validate_from_append head_hash_def u64_try_from_def bind_result_Inr_iff)
qed

lemma validate_tombstone:
  "validate_entry d i p e = Inr n \<Longrightarrow> validate_entry d i p (tombstone e) = Inr ACCOUNTED_ENTRY_FIXED_BYTES"
  by (auto simp: validate_entry_def bind_result_Inr_iff redacted_entry_is_canonical_def split: if_splits)
    (auto simp: tombstone_def)

lemma tombstone_hash [simp]: "en_entry_hash (tombstone e) = en_entry_hash e"
  by (simp add: tombstone_def)

lemma validate_from_tombstone:
  assumes "validate_entries_from d i p a (xs @ e # ys) = Inr (h, b)"
  shows "\<exists>n s q. validate_entry d s q e = Inr n \<and> n \<le> b
    \<and> validate_entries_from d i p a (xs @ tombstone e # ys) = Inr (h, b - n + ACCOUNTED_ENTRY_FIXED_BYTES)"
proof -
  let ?m = "ACCOUNTED_ENTRY_FIXED_BYTES"
  from assms obtain q c n where v: "validate_entries_from d i p a xs = Inr (q, c)" "i + length xs < 2 ^ 64"
      "validate_entry d (of_nat (i + length xs)) q e = Inr n" "c + n < 2 ^ 64" "c + n \<le> MAX_AGGREGATE_BYTES"
      "validate_entries_from d (i + length xs + 1) (en_entry_hash e) (c + n) ys = Inr (h, b)"
    by (auto simp: validate_from_append validate_from_Inr split: if_splits)
  have m: "?m \<le> n" using validated_size [OF v(3)] by simp
  have "c + n \<le> b \<and> validate_entries_from d (i + length xs + 1) (en_entry_hash e) (c + ?m) ys = Inr (h, b - (c + n - (c + ?m)))"
    by (rule validate_from_shift [OF v(6)]) (use m in simp)
  then have "n \<le> b \<and> validate_entries_from d i p a (xs @ tombstone e # ys) = Inr (h, b - n + ?m)"
    using v(1,2,4,5) m validate_tombstone [OF v(3)]
    by (simp add: validate_from_append bind_result_Inr_iff)
  with v(3) show ?thesis by blast
qed

lemma log_valid_redact:
  assumes valid: "log_valid d log" and i: "unat seq < length (tl_entries log)"
  shows "tl_entries (fst (redact log seq)) = (tl_entries log)[unat seq := tombstone (tl_entries log ! unat seq)]
    \<and> snd (redact log seq) \<and> head_hash (fst (redact log seq)) = head_hash log \<and> log_valid d (fst (redact log seq))"
proof -
  let ?i = "unat seq" and ?e = "tl_entries log ! unat seq" and ?es = "tl_entries log"
  define xs ys where "xs = take ?i ?es" and "ys = drop (Suc ?i) ?es"
  have es: "?es = xs @ ?e # ys" using id_take_nth_drop [OF i] by (simp add: xs_def ys_def)
  have upd: "?es[?i := tombstone ?e] = xs @ tombstone ?e # ys"
    using upd_conv_take_nth_drop [OF i] by (simp add: xs_def ys_def)
  have run: "validate_entries_from d 0 ZERO_HASH 0 (xs @ ?e # ys) = Inr (head_hash log, tl_accounted_bytes log)"
    using valid es by (simp add: log_valid_def)
  from validate_from_tombstone [OF this] obtain n s q where n: "validate_entry d s q ?e = Inr n" "n \<le> tl_accounted_bytes log"
      and new: "validate_entries_from d 0 ZERO_HASH 0 (xs @ tombstone ?e # ys)
        = Inr (head_hash log, tl_accounted_bytes log - n + ACCOUNTED_ENTRY_FIXED_BYTES)" by blast
  show ?thesis
  proof (cases "en_redacted ?e")
    case True
    then have "tombstone ?e = ?e"
      using n(1) by (auto simp: validate_entry_def redacted_entry_is_canonical_def tombstone_def split: if_splits)
    with True valid i show ?thesis by (simp add: redact_def Let_def)
  next
    case False
    have "tl_accounted_bytes log \<le> MAX_AGGREGATE_BYTES" by (rule validate_from_bound [OF run]) simp
    then have "tl_accounted_bytes log - n + ACCOUNTED_ENTRY_FIXED_BYTES < 2 ^ 64"
      by (simp add: MAX_AGGREGATE_BYTES_def ACCOUNTED_ENTRY_FIXED_BYTES_def)
    then have "redact log seq = (\<lparr>tl_entries = xs @ tombstone ?e # ys,
        tl_accounted_bytes = tl_accounted_bytes log - n + ACCOUNTED_ENTRY_FIXED_BYTES\<rparr>, True)"
      using False i n(2) validated_size [OF n(1)] upd
      by (simp add: redact_def Let_def tombstone_bytes checked_add_usize_def checked_sub_usize_def)
    moreover have "chain_head en_entry_hash ZERO_HASH (xs @ tombstone ?e # ys) = head_hash log"
      using validate_from_chain [OF new] by simp
    moreover have "length (xs @ tombstone ?e # ys) \<le> MAX_ENTRIES"
      using valid upd [symmetric] by (simp add: log_valid_def)
    ultimately show ?thesis using upd new by (simp add: log_valid_def head_hash_def)
  qed
qed

section \<open>Admission\<close>

lemma validate_path_texts_Inr:
  "validate_path_texts ps = Inr () \<longleftrightarrow> (\<forall>p \<in> set ps. validate_text p F_ClaimPath MAX_CLAIM_PATH_BYTES False = Inr ())"
  by (induction ps) (auto simp: bind_result_Inr_iff)

lemma repeats_later_distinct: "repeats_later ps \<longleftrightarrow> \<not> distinct ps"
  by (induction ps) auto

lemma check_path_windows_sorted: "check_path_windows ps = Inr () \<longleftrightarrow> sorted_wrt (<) ps"
  by (induction ps rule: check_path_windows.induct) auto

lemma validate_claim_paths_Inr:
  "validate_claim_paths ps c = Inr () \<longleftrightarrow>
     length ps \<le> MAX_CLAIM_PATHS_PER_ENTRY \<and> distinct ps \<and> (c \<longrightarrow> sorted ps)
     \<and> (\<forall>p \<in> set ps. validate_text p F_ClaimPath MAX_CLAIM_PATH_BYTES False = Inr ())"
  by (auto simp: validate_claim_paths_def bind_result_Inr_iff validate_path_texts_Inr repeats_later_distinct
      check_path_windows_sorted strict_sorted_iff)

lemma paths_size_sort: "paths_size (sort ps) = paths_size ps"
  by (simp del: sum_list_addf flip: sum_mset_sum_list)

lemma validate_sorted_entry:
  assumes "validate_new_entry e seq False = Inr n"
  shows "validate_new_entry (e\<lparr>ne_claim_paths := sort (ne_claim_paths e)\<rparr>) seq True = Inr n"
proof -
  have nil: "sort ps = [] \<longleftrightarrow> ps = []" for ps :: "string list" by (metis length_0_conv length_sort)
  from assms have v: "\<not> ne_epoch e < 0" "validate_text (ne_counterparty e) F_Counterparty MAX_COUNTERPARTY_BYTES False = Inr ()"
      "validate_claim_paths (ne_claim_paths e) False = Inr ()"
      "validate_payment (ne_kind e) (ne_payment e) (ne_counterparty e) (ne_claim_paths e) seq = Inr ()"
      "accounted_fields_bytes (ne_counterparty e) (ne_claim_paths e) (ne_payment e) = Inr n"
    by (auto simp: validate_new_entry_def validate_entry_fields_def bind_result_Inr_iff split: if_splits)
  have "validate_claim_paths (sort (ne_claim_paths e)) True = Inr ()"
    using v(3) by (simp add: validate_claim_paths_Inr)
  moreover have "validate_payment (ne_kind e) (ne_payment e) (ne_counterparty e) (sort (ne_claim_paths e)) seq = Inr ()"
    using v(4) unfolding validate_payment_def nil .
  moreover have "accounted_fields_bytes (ne_counterparty e) (sort (ne_claim_paths e)) (ne_payment e) = Inr n"
    using v(5) unfolding accounted_fields_Inr paths_size_sort .
  ultimately show ?thesis using v(1,2) by (simp add: validate_new_entry_def validate_entry_fields_def)
qed

lemma validate_new_entry_size: "validate_new_entry e seq c = Inr n \<Longrightarrow> n \<le> MAX_ENTRY_BYTES"
  by (auto simp: validate_new_entry_def validate_entry_fields_def bind_result_Inr_iff accounted_fields_Inr
      split: if_splits)

lemma check_append_Inr:
  "check_append log e = Inr () \<longleftrightarrow>
     length (tl_entries log) < MAX_ENTRIES
     \<and> (\<exists>n. validate_new_entry e (of_nat (length (tl_entries log))) False = Inr n
          \<and> tl_accounted_bytes log + n \<le> MAX_AGGREGATE_BYTES)"
  by (cases "validate_new_entry e (of_nat (length (tl_entries log))) False")
    (auto simp: check_append_def bind_result_Inr_iff u64_try_from_def MAX_ENTRIES_def MAX_AGGREGATE_BYTES_def)

lemma append_after_check:
  assumes "check_append log e = Inr ()"
    and "hash_entry d (of_nat (length (tl_entries log))) (head_hash log) (e\<lparr>ne_claim_paths := sort (ne_claim_paths e)\<rparr>)
      \<noteq> ZERO_HASH"
  shows "\<exists>log' entry. txn_append d log e = Inr (log', entry) \<and> tl_entries log' = tl_entries log @ [entry]
    \<and> entry_content entry = e\<lparr>ne_claim_paths := sort (ne_claim_paths e)\<rparr> \<and> \<not> en_redacted entry"
proof -
  from assms(1) obtain n where n: "length (tl_entries log) < MAX_ENTRIES"
      "validate_new_entry e (of_nat (length (tl_entries log))) False = Inr n"
      "tl_accounted_bytes log + n \<le> MAX_AGGREGATE_BYTES"
    by (auto simp: check_append_Inr)
  have sizes: "length (tl_entries log) < 2 ^ 64" "tl_accounted_bytes log + n < 2 ^ 64"
    using n(1,3) by (simp_all add: MAX_ENTRIES_def MAX_AGGREGATE_BYTES_def)
  show ?thesis
    using assms n(3) sizes validate_sorted_entry [OF n(2)]
    by (simp add: txn_append_def u64_try_from_def checked_add_usize_def Let_def entry_content_def)
qed

section \<open>Properties\<close>

text \<open>The operations of the log, in any order, from the empty log.\<close>

inductive txn_reachable :: "digest \<Rightarrow> transaction_log \<Rightarrow> bool" for d where
  reach_new: "txn_reachable d txn_new"
| reach_append: "txn_reachable d log \<Longrightarrow> txn_append d log e = Inr (log', entry) \<Longrightarrow> txn_reachable d log'"
| reach_redact: "txn_reachable d log \<Longrightarrow> txn_reachable d (fst (redact log seq))"
| reach_wipe: "txn_reachable d log \<Longrightarrow> txn_reachable d (wipe log)"
| reach_replace: "txn_reachable d log \<Longrightarrow> txn_reachable d (fst (replace_checked d log es h))"

lemma reachable_valid: "txn_reachable d log \<Longrightarrow> log_valid d log"
proof (induction rule: txn_reachable.induct)
  case (reach_redact log seq)
  show ?case
  proof (cases "unat seq < length (tl_entries log)")
    case True
    then show ?thesis using log_valid_redact [OF reach_redact.IH] by simp
  next
    case False
    then show ?thesis using reach_redact.IH by (simp add: redact_def)
  qed
next
  case (reach_replace log es h)
  then show ?case
    using restore_checked_Inr [of d es h] by (auto simp: replace_checked_def split: sum.split)
qed (auto simp: txn_new_def wipe_def intro: log_valid_append)

text \<open>
  C34. Whatever sequence of appends, redactions, wipes and checked replacements produced a log, it
  passes its own integrity check, checked restoration of its entries under its head gives the same
  log back, and it stays within the entry and byte limits.
\<close>

theorem txnlog_always_restores:
  assumes "txn_reachable d log"
  shows "verify_integrity d log \<and> restore_checked d (tl_entries log) (head_hash log) = Inr log
    \<and> length (tl_entries log) \<le> MAX_ENTRIES \<and> tl_accounted_bytes log \<le> MAX_AGGREGATE_BYTES"
proof -
  have valid: "log_valid d log" using assms by (rule reachable_valid)
  moreover from this have "tl_accounted_bytes log \<le> MAX_AGGREGATE_BYTES"
    using validate_from_bound by (fastforce simp: log_valid_def)
  ultimately show ?thesis
    using log_valid_restores [OF valid]
    by (auto simp: verify_integrity_def restore_checked_def log_valid_def bind_result_def validate_entries_def
        split: sum.splits if_splits)
qed

text \<open>
  C33. Tamper evidence: let two entry lists restore under one anchored head, with a digest that has
  no collision between their live entries. Then one's entries after its last redaction are the last
  entries of the other, and if nothing is redacted the two logs are equal.
\<close>

theorem txnlog_tamper_evident:
  assumes "restore_checked d es head = Inr log" "restore_checked d fs head = Inr log'"
    and "\<forall>e \<in> set es \<union> set fs. entry_typed e"
    and "inj_on d (entry_input ` {e \<in> set es \<union> set fs. \<not> en_redacted e})"
  shows "(suffix (sealed_tail (\<lambda>e. \<not> en_redacted e) es) fs \<or> suffix (sealed_tail (\<lambda>e. \<not> en_redacted e) fs) es)
    \<and> ((\<forall>e \<in> set es \<union> set fs. \<not> en_redacted e) \<longrightarrow> log = log')"
proof -
  have chain: "linked en_prev_hash en_entry_hash ZERO_HASH (tl_entries l)
      \<and> (\<forall>e \<in> set (tl_entries l). en_entry_hash e \<noteq> ZERO_HASH \<and> (\<not> en_redacted e \<longrightarrow> en_entry_hash e = d (entry_input e)))"
    if "log_valid d l" for l using that validate_from_chain by (fastforce simp: log_valid_def)
  from assms(1,2) have logs: "tl_entries log = es" "tl_entries log' = fs" "log_valid d log" "log_valid d log'"
    and heads: "chain_head en_entry_hash ZERO_HASH es = chain_head en_entry_hash ZERO_HASH fs"
    by (auto simp: restore_checked_Inr head_hash_def)
  note es = chain [OF logs(3), unfolded logs] and fs = chain [OF logs(4), unfolded logs]
  have "suffix (sealed_tail (\<lambda>e. \<not> en_redacted e) es) fs \<or> suffix (sealed_tail (\<lambda>e. \<not> en_redacted e) fs) es"
    using es fs assms(3,4) by (intro txn.sealed_tails_agree [OF _ _ heads, where d = d]) auto
  moreover have "log = log'" if live: "\<forall>e \<in> set es \<union> set fs. \<not> en_redacted e"
  proof -
    have "{e \<in> set es \<union> set fs. \<not> en_redacted e} = set es \<union> set fs" using live by blast
    then have "es = fs"
      using es fs assms(3,4) live by (intro txn.sealed_chains_equal [OF _ _ heads, where d = d]) auto
    then show ?thesis using assms(1,2) by simp
  qed
  ultimately show ?thesis by blast
qed

text \<open>
  Erasure: redacting an existing entry of a log that operations produced always succeeds, blanks
  exactly that entry, keeps the head, and the result restores under the anchored head of before.
\<close>

theorem txnlog_erasure:
  assumes "txn_reachable d log" "unat seq < length (tl_entries log)" "redact log seq = (log', ok)"
  shows "ok \<and> tl_entries log' = (tl_entries log)[unat seq := tombstone (tl_entries log ! unat seq)]
    \<and> restore_checked d (tl_entries log') (head_hash log) = Inr log'"
  using log_valid_redact [OF reachable_valid [OF assms(1)] assms(2)] assms(3)
  by (simp add: restore_checked_Inr)

text \<open>
  C37. Admission: when the log reports that it can guarantee a maximal entry, every entry that is
  valid on its own is appended, with its claim paths in canonical order, unless the digest of the
  entry is the all-zero hash.
\<close>

theorem txnlog_admission:
  assumes "can_guarantee_max_entry log"
    and "validate_new_entry e (of_nat (length (tl_entries log))) False = Inr n"
    and "hash_entry d (of_nat (length (tl_entries log))) (head_hash log) (e\<lparr>ne_claim_paths := sort (ne_claim_paths e)\<rparr>)
      \<noteq> ZERO_HASH"
  shows "\<exists>log' entry. txn_append d log e = Inr (log', entry) \<and> tl_entries log' = tl_entries log @ [entry]
    \<and> entry_content entry = e\<lparr>ne_claim_paths := sort (ne_claim_paths e)\<rparr> \<and> \<not> en_redacted entry"
proof -
  have "check_append log e = Inr ()"
    using assms(1,2) validate_new_entry_size [OF assms(2)]
    by (auto simp: check_append_Inr can_guarantee_max_entry_def split: option.splits)
  then show ?thesis using assms(3) by (rule append_after_check)
qed

text \<open>
  The limit of the tamper evidence: the link of a tombstone to its predecessor is not covered by
  any hash, so every valid history can stand before a final tombstone under the same anchored head.
\<close>

theorem txnlog_tombstone_hides_history:
  assumes "restore_checked d es h = Inr log" "length es < MAX_ENTRIES"
    and "tl_accounted_bytes log + ACCOUNTED_ENTRY_FIXED_BYTES \<le> MAX_AGGREGATE_BYTES" "anchor \<noteq> ZERO_HASH"
  shows "\<exists>log' t. restore_checked d (es @ [t]) anchor = Inr log' \<and> en_redacted t \<and> en_entry_hash t = anchor"
proof -
  define e where "e = \<lparr>en_seq = of_nat (length es), en_epoch = 0, en_kind = K_Presentation, en_counterparty = [],
    en_consent_hash = [], en_claim_paths = [], en_outcome = O_Aborted, en_payment = None, en_prev_hash = h,
    en_entry_hash = anchor, en_redacted = True\<rparr>"
  let ?log = "\<lparr>tl_entries = es @ [tombstone e], tl_accounted_bytes = tl_accounted_bytes log + ACCOUNTED_ENTRY_FIXED_BYTES\<rparr>"
  have "validate_entry d (of_nat (length es)) h (tombstone e) = Inr ACCOUNTED_ENTRY_FIXED_BYTES"
    using assms(4) by (simp add: validate_entry_def redacted_entry_is_canonical_def)
      (simp add: e_def tombstone_def)
  moreover have run: "validate_entries_from d 0 ZERO_HASH 0 es = Inr (h, tl_accounted_bytes log)"
    using assms(1) by (auto simp: restore_checked_Inr log_valid_def)
  moreover have "en_entry_hash e = anchor" by (simp add: e_def)
  moreover have "length es < 2 ^ 64" "tl_accounted_bytes log + ACCOUNTED_ENTRY_FIXED_BYTES < 2 ^ 64"
    using assms(2,3) by (simp_all add: MAX_ENTRIES_def MAX_AGGREGATE_BYTES_def)
  ultimately have "restore_checked d (es @ [tombstone e]) anchor = Inr ?log"
    using assms(2,3) run
    by (simp add: restore_checked_Inr log_valid_def head_hash_def validate_from_append checked_add_usize_def)
  moreover have "en_redacted (tombstone e)" "en_entry_hash (tombstone e) = anchor" by (simp_all add: tombstone_def e_def)
  ultimately show ?thesis by blast
qed

section \<open>A concrete log\<close>

text \<open>Two appended presentations, then the first one erased.\<close>

definition tx_digest :: digest where
  "tx_digest b = replicate 31 0 @ [of_nat (length b)]"

definition tx_content :: "string \<Rightarrow> new_entry" where
  "tx_content c = \<lparr>ne_epoch = 5, ne_kind = K_Presentation, ne_counterparty = c, ne_consent_hash = replicate 32 7,
     ne_claim_paths = [''b'', ''a''], ne_outcome = O_Completed, ne_payment = None\<rparr>"

abbreviation tx_entry :: "u64 \<Rightarrow> string \<Rightarrow> bytes \<Rightarrow> bytes \<Rightarrow> log_entry" where
  "tx_entry seq c prev h \<equiv> \<lparr>en_seq = seq, en_epoch = 5, en_kind = K_Presentation, en_counterparty = c,
     en_consent_hash = replicate 32 7, en_claim_paths = [''a'', ''b''], en_outcome = O_Completed, en_payment = None,
     en_prev_hash = prev, en_entry_hash = h, en_redacted = False\<rparr>"

abbreviation tx_log1 :: transaction_log where
  "tx_log1 \<equiv> \<lparr>tl_entries = [tx_entry 0 ''rp'' ZERO_HASH (replicate 31 0 @ [133])], tl_accounted_bytes = 152\<rparr>"

abbreviation tx_log2 :: transaction_log where
  "tx_log2 \<equiv> \<lparr>tl_entries = [tx_entry 0 ''rp'' ZERO_HASH (replicate 31 0 @ [133]),
     tx_entry 1 ''bank'' (replicate 31 0 @ [133]) (replicate 31 0 @ [135])], tl_accounted_bytes = 306\<rparr>"

lemmas tx_eval = txn_append_def check_append_def validate_new_entry_def validate_entry_fields_def validate_text_def
  str_is_trimmed_def str_has_control_def str_chars_def as_bytes_def is_whitespace_def is_control_def
  validate_claim_paths_def validate_payment_def accounted_fields_bytes_def account_payment_def
  ACCOUNTED_ENTRY_FIXED_BYTES_def MAX_ENTRIES_def MAX_COUNTERPARTY_BYTES_def MAX_CLAIM_PATHS_PER_ENTRY_def
  MAX_CLAIM_PATH_BYTES_def MAX_ENTRY_BYTES_def MAX_AGGREGATE_BYTES_def checked_add_usize_def
  u64_try_from_def Let_def head_hash_def

lemma tx_hash: "length p = 32 \<Longrightarrow> hash_entry tx_digest s p \<lparr>ne_epoch = 5, ne_kind = K_Presentation, ne_counterparty = c,
    ne_consent_hash = replicate 32 7, ne_claim_paths = [''a'', ''b''], ne_outcome = O_Completed, ne_payment = None\<rparr>
   = replicate 31 0 @ [of_nat (131 + length c)]"
  by (simp add: hash_entry_def tx_digest_def hash_entry_input_def HASH_DOMAIN_def put_bytes_def hash_payment_def Let_def)

lemma ZERO_HASH_snoc: "ZERO_HASH = replicate 31 0 @ [0]"
  by (simp add: ZERO_HASH_def numeral_eq_Suc)

lemma tx_append1: "txn_append tx_digest txn_new (tx_content ''rp'') = Inr (tx_log1, hd (tl_entries tx_log1))"
  by (simp add: tx_eval txn_new_def tx_content_def tx_hash ZERO_HASH_snoc)

lemma tx_append2: "txn_append tx_digest tx_log1 (tx_content ''bank'') = Inr (tx_log2, last (tl_entries tx_log2))"
  by (simp add: tx_eval tx_content_def tx_hash ZERO_HASH_snoc)

lemma tx_reachable: "txn_reachable tx_digest tx_log2"
  by (rule reach_append [OF reach_append [OF reach_new tx_append1] tx_append2])

theorem txnlog_always_restores_witness:
  "verify_integrity tx_digest tx_log2 \<and> restore_checked tx_digest (tl_entries tx_log2) (replicate 31 0 @ [135]) = Inr tx_log2"
  using txnlog_always_restores [OF tx_reachable] by (simp add: head_hash_def)

abbreviation tx_erased :: transaction_log where
  "tx_erased \<equiv> \<lparr>tl_entries = [tombstone (hd (tl_entries tx_log2)), last (tl_entries tx_log2)], tl_accounted_bytes = 286\<rparr>"

lemma tx_redact: "redact tx_log2 0 = (tx_erased, True)"
  by (simp add: redact_def tombstone_bytes accounted_entry_bytes_def tx_eval checked_sub_usize_def)

theorem txnlog_erasure_witness:
  "restore_checked tx_digest (tl_entries tx_erased) (replicate 31 0 @ [135]) = Inr tx_erased"
  using txnlog_erasure [OF tx_reachable _ tx_redact] by (simp add: head_hash_def)

theorem txnlog_tamper_evident_witness:
  "suffix (sealed_tail (\<lambda>e. \<not> en_redacted e) (tl_entries tx_log2)) (tl_entries tx_erased)
   \<or> suffix (sealed_tail (\<lambda>e. \<not> en_redacted e) (tl_entries tx_erased)) (tl_entries tx_log2)"
proof -
  have valid: "log_valid tx_digest tx_log2" by (rule reachable_valid [OF tx_reachable])
  have typed: "entry_typed e" if "e \<in> set (tl_entries tx_log2) \<union> set (tl_entries tx_erased)" for e
    using that by (auto simp: entry_typed_def content_typed_def entry_content_def tombstone_def ZERO_HASH_def i64_defs)
  have erased: "log_valid tx_digest tx_erased"
    using log_valid_redact [OF valid, of 0] by (simp add: tx_redact)
  have "restore_checked tx_digest (tl_entries tx_log2) (replicate 31 0 @ [135]) = Inr tx_log2"
    "restore_checked tx_digest (tl_entries tx_erased) (replicate 31 0 @ [135]) = Inr tx_erased"
    using valid erased by (simp_all add: restore_checked_Inr head_hash_def)
  moreover have "inj_on tx_digest (entry_input ` {e \<in> set (tl_entries tx_log2) \<union> set (tl_entries tx_erased). \<not> en_redacted e})"
  proof (rule inj_onI)
    fix x y
    assume "x \<in> entry_input ` {e \<in> set (tl_entries tx_log2) \<union> set (tl_entries tx_erased). \<not> en_redacted e}"
      "y \<in> entry_input ` {e \<in> set (tl_entries tx_log2) \<union> set (tl_entries tx_erased). \<not> en_redacted e}"
    then have "x = entry_input (hd (tl_entries tx_log2)) \<or> x = entry_input (last (tl_entries tx_log2))"
      "y = entry_input (hd (tl_entries tx_log2)) \<or> y = entry_input (last (tl_entries tx_log2))"
      by (auto simp: tombstone_def)
    moreover have "length (entry_input (hd (tl_entries tx_log2))) = 133" "length (entry_input (last (tl_entries tx_log2))) = 135"
      by (simp_all add: entry_input_def hash_entry_input_def entry_content_def HASH_DOMAIN_def put_bytes_def
          hash_payment_def ZERO_HASH_def)
    moreover assume "tx_digest x = tx_digest y"
    ultimately show "x = y" by (auto simp: tx_digest_def)
  qed
  ultimately show ?thesis using txnlog_tamper_evident typed by blast
qed

theorem txnlog_admission_witness:
  "\<exists>log' entry. txn_append tx_digest tx_log2 (tx_content ''shop'') = Inr (log', entry)
    \<and> tl_entries log' = tl_entries tx_log2 @ [entry]"
proof -
  have "can_guarantee_max_entry tx_log2" by (simp add: can_guarantee_max_entry_def tx_eval)
  moreover have "validate_new_entry (tx_content ''shop'') (of_nat (length (tl_entries tx_log2))) False = Inr 154"
    by (simp add: tx_eval tx_content_def)
  ultimately show ?thesis
    using txnlog_admission [of tx_log2 "tx_content ''shop''" 154 tx_digest]
    by (force simp: head_hash_def tx_hash ZERO_HASH_snoc tx_content_def)
qed

end
