(* ===== verification/Wallet_State.thy ===== *)
theory Wallet_State
  imports Ingestion Presenter Payment Qes W2w Proximity Oid4vp Oid4vci Txnlog
begin

text \<open>
  The state of the wallet facade, \<open>crates/wallet-core/src/lib.rs\<close> (\<open>struct Core\<close>), and the life cycle of its flows:
  beginning, resetting and finishing a flow, the audit latch and the effects of a failed operation. The credential
  store, trust list, clock, device key, attestation, status cache and catalogue are the fields of \<open>core\<close>; \<open>wallet\<close>
  adds the protocol machines and what belongs to a session.
\<close>

section \<open>Data\<close>

datatype active_flow =
    Flow_None
  | Flow_Presentation
  | Flow_Payment
  | Flow_Issuance
  | Flow_Qes
  | Flow_WalletTransfer
  | Flow_Proximity
  | Flow_DcApi

datatype operation_failure =
    Op_Trust
  | Op_Storage
  | Op_Signing
  | Op_Transport
  | Op_HttpStatus
  | Op_Issuer
  | Op_Status
  | Op_Rendering
  | Op_MissingDependency
  | Op_Unsupported

datatype hybrid_signature_profile = Es256MlDsa65V1

datatype hybrid_sign_purpose = Hp_CredentialBinding | Hp_Presentation | Hp_WalletAuthentication | Hp_WalletExport

datatype operation_result_kind =
    Or_RpCertChain
  | Or_Persisted
  | Or_Signature
  | Or_HybridSignature hybrid_signature_profile
  | Or_PresentationDelivery
  | Or_PaymentDelivery
  | Or_QesDelivery
  | Or_Par
  | Or_AuthorizationCode
  | Or_TransactionCode
  | Or_Token
  | Or_Credential
  | Or_StatusList string
  | Or_TransferOfferPublished
  | Or_PresentationDecision
  | Or_PaymentDecision
  | Or_QesDecision
  | Or_IssuanceDecision
  | Or_ProximityDecision
  | Or_DcApiDecision

fun result_type :: "operation_result_kind \<Rightarrow> string" where
  "result_type Or_RpCertChain = ''rpCertChainResolved''"
| "result_type Or_Persisted = ''operationSucceeded''"
| "result_type Or_TransferOfferPublished = ''operationSucceeded''"
| "result_type Or_Signature = ''deviceSignatureProduced''"
| "result_type (Or_HybridSignature _) = ''hybridSignatureProduced''"
| "result_type Or_PresentationDelivery = ''presentationDelivered''"
| "result_type Or_PaymentDelivery = ''paymentAuthorizationDelivered''"
| "result_type Or_QesDelivery = ''qesAuthorizationDelivered''"
| "result_type Or_Par = ''parPushed''"
| "result_type Or_AuthorizationCode = ''authorizationCodeReturned''"
| "result_type Or_TransactionCode = ''transactionCodeEntered''"
| "result_type Or_Token = ''tokenReceived''"
| "result_type Or_Credential = ''credentialReceived''"
| "result_type (Or_StatusList _) = ''statusListReceived''"
| "result_type Or_PresentationDecision = ''presentationDecision''"
| "result_type Or_PaymentDecision = ''paymentDecision''"
| "result_type Or_QesDecision = ''qesDecision''"
| "result_type Or_IssuanceDecision = ''issuanceDecision''"
| "result_type Or_ProximityDecision = ''proximityDecision''"
| "result_type Or_DcApiDecision = ''dcApiDecision''"

fun accepts_event :: "operation_result_kind \<Rightarrow> string \<Rightarrow> bool" where
  "accepts_event Or_PresentationDecision t \<longleftrightarrow> t = ''userConsented'' \<or> t = ''userDeclined''"
| "accepts_event Or_ProximityDecision t \<longleftrightarrow> t = ''userConsented'' \<or> t = ''userDeclined''"
| "accepts_event Or_DcApiDecision t \<longleftrightarrow> t = ''userConsented'' \<or> t = ''userDeclined''"
| "accepts_event Or_PaymentDecision t \<longleftrightarrow> t = ''paymentApproved'' \<or> t = ''paymentDeclined''"
| "accepts_event Or_QesDecision t \<longleftrightarrow> t = ''qesAuthorized'' \<or> t = ''qesDeclined''"
| "accepts_event Or_IssuanceDecision t \<longleftrightarrow> t = ''credentialOfferAccepted'' \<or> t = ''credentialOfferDeclined''"
| "accepts_event k t \<longleftrightarrow> result_type k = t"

record pending_operation =
  po_flow :: active_flow
  po_result :: operation_result_kind
  po_authorization_hash :: "bytes option"

record proximity_presentation =
  prp_doctype :: string
  prp_issuer_signed :: issuer_signed
  prp_device_namespaces_bytes :: bytes
  prp_protected_header :: bytes
  prp_signing_input :: bytes
  prp_disclosed :: "string list"

record session_cipher =
  sc_sk_device :: bytes
  sc_sk_reader :: bytes
  sc_device_counter :: u32
  sc_reader_counter :: u32

record proximity_flow =
  pf_state :: prox_state
  pf_device_key :: "bytes option"
  pf_cipher :: "session_cipher option"
  pf_pending_request :: "bytes option"
  pf_presentation :: "proximity_presentation option"
  pf_last_signature :: "bytes option"
  pf_consent_hash :: bytes

definition proximity_idle :: proximity_flow where
  "proximity_idle =
     \<lparr>pf_state = Prox_Idle, pf_device_key = None, pf_cipher = None, pf_pending_request = None, pf_presentation = None,
       pf_last_signature = None, pf_consent_hash = ZERO_HASH\<rparr>"

record dcapi_presentation =
  dap_dcql_id :: string
  dap_doctype :: string
  dap_issuer_signed :: issuer_signed
  dap_device_namespaces_bytes :: bytes
  dap_protected_header :: bytes
  dap_signing_input :: bytes
  dap_disclosed :: "string list"

record dcapi_flow =
  da_presentation :: "dcapi_presentation option"
  da_consent_hash :: bytes

definition dcapi_default :: dcapi_flow where
  "dcapi_default = \<lparr>da_presentation = None, da_consent_hash = ZERO_HASH\<rparr>"

record relying_party_provenance =
  rpp_certificate_chain :: "bytes list"
  rpp_public_key :: bytes

record session_info =
  si_rp_client_id :: string
  si_rp_registration :: "relying_party_registration option"
  si_purpose :: string
  si_requested_claims :: "string list"
  si_nonce :: string
  si_response_uri :: string
  si_response_mode :: string
  si_response_encryption_key :: "bytes option"
  si_dcql :: "dcql_query option"
  si_selected_credentials :: "selected_credential list"
  si_selected_sources :: "presentation_credential_reference list"
  si_selected_revealed_claims :: "string list"
  si_rp_provenance :: "relying_party_provenance option"
  si_consent_hash :: bytes
  si_shared_claims :: "string list"

record wallet =
  w_core :: core
  w_wallet_client_id :: string
  w_device_key_ref :: string
  w_vp :: vp_state
  w_seen_nonces :: "string list"
  w_session :: "session_info option"
  w_pending_rp_provenance :: "relying_party_provenance option"
  w_payment :: pay_state
  w_pay_seen_nonces :: "u64 list"
  w_pay_pending :: "(string \<times> u64) option"
  w_active :: active_flow
  w_next_operation_id :: u64
  w_pending_operations :: "(u64 \<times> pending_operation) list"
  w_issuance :: vci_state
  w_durable_issuance_interrupted :: bool
  w_iss_seen_c_nonces :: "u64 list"
  w_issuer_trusted_current :: bool
  w_issuer_id_current :: string
  w_issuer_cert_chain_current :: "bytes list"
  w_issuer_id_assertion_current :: string
  w_issuer_candidates_current :: "credential_issuer_evidence list"
  w_pending_verified_credential :: "authenticated_credential option"
  w_issuance_consent_hash :: bytes
  w_pending_status_references :: "status_reference list"
  w_log :: transaction_log
  w_audit_log_available :: bool
  w_pay_summary :: "payment_summary option"
  w_pay_consent_hash :: bytes
  w_qes :: qes_state
  w_qes_seen_nonces :: "u64 list"
  w_qes_consent_hash :: bytes
  w_w2w :: w2w_state
  w_w2w_credential :: "bytes option"
  w_proximity :: proximity_flow
  w_dcapi :: dcapi_flow

text \<open>\<open>operation_id_seed\<close> on eight bytes of randomness: a value in \<open>1..2^62\<close>.\<close>

definition operation_id_seed :: "bytes \<Rightarrow> u64" where
  "operation_id_seed random = (of_nat (be_value random) AND (push_bit 62 1 - 1)) + 1"

definition wallet_new :: "string \<Rightarrow> string \<Rightarrow> bytes \<Rightarrow> wallet" where
  "wallet_new wallet_client_id device_key_ref random =
     \<lparr>w_core = core_new, w_wallet_client_id = wallet_client_id, w_device_key_ref = device_key_ref,
       w_vp = Vp_Idle, w_seen_nonces = [], w_session = None, w_pending_rp_provenance = None,
       w_payment = Pay_Idle, w_pay_seen_nonces = [], w_pay_pending = None, w_active = Flow_None,
       w_next_operation_id = operation_id_seed random, w_pending_operations = [],
       w_issuance = Vci_Idle, w_durable_issuance_interrupted = False, w_iss_seen_c_nonces = [],
       w_issuer_trusted_current = False, w_issuer_id_current = [], w_issuer_cert_chain_current = [],
       w_issuer_id_assertion_current = [], w_issuer_candidates_current = [], w_pending_verified_credential = None,
       w_issuance_consent_hash = ZERO_HASH, w_pending_status_references = [],
       w_log = txn_new, w_audit_log_available = True, w_pay_summary = None, w_pay_consent_hash = ZERO_HASH,
       w_qes = Qes_Idle, w_qes_seen_nonces = [], w_qes_consent_hash = ZERO_HASH,
       w_w2w = W2w_Idle, w_w2w_credential = None, w_proximity = proximity_idle, w_dcapi = dcapi_default\<rparr>"

section \<open>Effects\<close>

datatype http_delivery_profile = Http_Openid4vpDirectPost | Http_PaymentAuthorization | Http_QesAuthorization

datatype effect =
    Eff_ResolveRpTrust string
  | Eff_PersistNonce string
  | Eff_Render screen_description
  | Eff_Sign string bytes
  | Eff_HybridSign hybrid_signature_profile string hybrid_sign_purpose bytes
  | Eff_Http http_delivery_profile string bytes
  | Eff_PushPar
  | Eff_OpenAuthBrowser
  | Eff_PromptTxCode
  | Eff_RequestToken
  | Eff_RequestCredential bytes
  | Eff_FetchStatusList string
  | Eff_PublishTransferOffer bytes
  | Eff_EmitDeviceEngagement bytes
  | Eff_EmitDeviceResponse bytes
  | Eff_EmitDcApiResponse bytes
  | Eff_Close

definition error_effects :: "string \<Rightarrow> string \<Rightarrow> effect list" where
  "error_effects code message = [Eff_Render (Sc_Error code message), Eff_Close]"

section \<open>Flows\<close>

definition clear_pending_operations :: "active_flow \<Rightarrow> wallet \<Rightarrow> wallet" where
  "clear_pending_operations flow w =
     w\<lparr>w_pending_operations := filter (\<lambda>(_, pending). po_flow pending \<noteq> flow) (w_pending_operations w)\<rparr>"

definition leave_flow :: "active_flow \<Rightarrow> wallet \<Rightarrow> wallet" where
  "leave_flow flow w = (if w_active w = flow then w\<lparr>w_active := Flow_None\<rparr> else w)"

definition reset_flow :: "active_flow \<Rightarrow> wallet \<Rightarrow> wallet" where
  "reset_flow flow w =
     (let w = clear_pending_operations flow w in
      leave_flow flow
        (case flow of
           Flow_Presentation \<Rightarrow>
             w\<lparr>w_vp := Vp_Idle, w_session := None, w_pending_rp_provenance := None, w_pending_status_references := []\<rparr>
         | Flow_Payment \<Rightarrow>
             w\<lparr>w_payment := Pay_Idle, w_pay_pending := None, w_pay_summary := None, w_pay_consent_hash := ZERO_HASH\<rparr>
         | Flow_Issuance \<Rightarrow>
             w\<lparr>w_issuance := Vci_Idle, w_issuer_trusted_current := False, w_issuer_id_current := [],
               w_issuer_cert_chain_current := [], w_issuer_candidates_current := [],
               w_pending_verified_credential := None, w_issuance_consent_hash := ZERO_HASH\<rparr>
         | Flow_Qes \<Rightarrow> w\<lparr>w_qes := Qes_Idle, w_qes_consent_hash := ZERO_HASH\<rparr>
         | Flow_WalletTransfer \<Rightarrow> w\<lparr>w_w2w := W2w_Idle\<rparr>
         | Flow_Proximity \<Rightarrow> w\<lparr>w_proximity := proximity_idle\<rparr>
         | Flow_DcApi \<Rightarrow> w\<lparr>w_dcapi := dcapi_default\<rparr>
         | Flow_None \<Rightarrow> w))"

definition begin_flow :: "active_flow \<Rightarrow> wallet \<Rightarrow> wallet" where
  "begin_flow flow w =
     (let w = (if w_active w \<noteq> Flow_None then reset_flow (w_active w) w else w) in
      (reset_flow flow w)\<lparr>w_active := flow\<rparr>)"

definition finish_flow :: "active_flow \<Rightarrow> wallet \<Rightarrow> wallet" where
  "finish_flow flow w =
     (let w = clear_pending_operations flow w in
      leave_flow flow
        (case flow of
           Flow_Presentation \<Rightarrow>
             w\<lparr>w_session := None, w_pending_rp_provenance := None, w_pending_status_references := []\<rparr>
         | Flow_Payment \<Rightarrow> w\<lparr>w_pay_pending := None, w_pay_summary := None, w_pay_consent_hash := ZERO_HASH\<rparr>
         | Flow_Issuance \<Rightarrow>
             w\<lparr>w_issuer_trusted_current := False, w_issuer_id_current := [], w_issuer_cert_chain_current := [],
               w_issuer_candidates_current := [], w_pending_verified_credential := None,
               w_issuance_consent_hash := ZERO_HASH\<rparr>
         | Flow_Qes \<Rightarrow> w\<lparr>w_qes_consent_hash := ZERO_HASH\<rparr>
         | Flow_Proximity \<Rightarrow>
             w\<lparr>w_proximity := (w_proximity w)\<lparr>pf_device_key := None, pf_cipher := None, pf_pending_request := None,
               pf_presentation := None, pf_last_signature := None\<rparr>\<rparr>
         | Flow_DcApi \<Rightarrow> w\<lparr>w_dcapi := \<lparr>da_presentation = None, da_consent_hash = ZERO_HASH\<rparr>\<rparr>
         | Flow_WalletTransfer \<Rightarrow> w
         | Flow_None \<Rightarrow> w))"

section \<open>The document of an issuance session\<close>

definition hex_lower :: "nat \<Rightarrow> char" where
  "hex_lower n = (if n < 10 then char_of (48 + n) else char_of (87 + n))"

definition hex_bytes :: "bytes \<Rightarrow> string" where
  "hex_bytes bs = concat (map (\<lambda>b. [hex_lower (unat b div 16), hex_lower (unat b mod 16)]) bs)"

definition issuance_format :: "vci_state \<Rightarrow> credential_format option" where
  "issuance_format s =
     (case s of
        ReviewingOffer _ f \<Rightarrow> Some f
      | OfferParsed _ f \<Rightarrow> Some f
      | Authorizing f \<Rightarrow> Some f
      | AwaitingTxCode f \<Rightarrow> Some f
      | RequestingToken f \<Rightarrow> Some f
      | ProvingPossession f _ \<Rightarrow> Some f
      | RequestingCredential f \<Rightarrow> Some f
      | CredentialIssued f _ \<Rightarrow> Some f
      | Vci_Idle \<Rightarrow> None
      | Vci_Aborted _ \<Rightarrow> None)"

definition issuance_document_summary :: "core_env \<Rightarrow> document_status \<Rightarrow> wallet \<Rightarrow> document_summary option" where
  "issuance_document_summary E status w =
     (case issuance_format (w_issuance w) of
        None \<Rightarrow> None
      | Some format \<Rightarrow>
          (let issuer_name =
             (case credential_issuer_at (co_trust_store (w_core w)) (w_issuer_id_current w) (co_now_epoch (w_core w)) of
                Some registration \<Rightarrow> ir_display_name registration
              | None \<Rightarrow> ''Verified credential issuer'');
             portrait_required =
             (case w_issuer_candidates_current w of [] \<Rightarrow> False | issuer # _ \<Rightarrow> ev_service issuer = Dom_Pid);
             (document_name, display_format) =
             (case format of
                DcSdJwt \<Rightarrow> (''Digital identity document'', Sf_DcSdJwt)
              | MsoMdoc \<Rightarrow> (''Mobile document'', Sf_MsoMdoc));
             id_binding = as_bytes (w_issuer_id_current w) @ as_bytes (format_name format) in
           Some \<lparr>dsu_document_id = hex_bytes (ce_sha256 E id_binding), dsu_document_name = document_name,
             dsu_issuer_name = issuer_name, dsu_format = display_format, dsu_status = status,
             dsu_portrait_required = portrait_required\<rparr>))"

section \<open>Failed operations and the audit latch\<close>

definition recovery_reason :: "operation_failure option \<Rightarrow> issuance_recovery" where
  "recovery_reason failure =
     (case failure of
        Some Op_Issuer \<Rightarrow> IssuerRejected
      | Some Op_Trust \<Rightarrow> IssuerRejected
      | Some Op_MissingDependency \<Rightarrow> NfcUnavailable
      | Some Op_Unsupported \<Rightarrow> NfcUnavailable
      | Some Op_Transport \<Rightarrow> NetworkInterrupted
      | Some Op_HttpStatus \<Rightarrow> NetworkInterrupted
      | _ \<Rightarrow> SessionInterrupted)"

definition failure_text :: "operation_failure option \<Rightarrow> string \<times> string" where
  "failure_text failure =
     (case failure of
        None \<Rightarrow> (''operation_cancelled'', ''The wallet operation was cancelled before it completed.'')
      | Some Op_Trust \<Rightarrow>
          (''operation_trust_failed'', ''Current authenticated trust information could not be resolved.'')
      | Some Op_Storage \<Rightarrow> (''operation_storage_failed'', ''Required wallet state could not be stored securely.'')
      | Some Op_Signing \<Rightarrow>
          (''operation_signing_failed'', ''The protected device key could not complete the operation.'')
      | Some Op_Transport \<Rightarrow>
          (''operation_delivery_failed'', ''The remote service did not acknowledge the wallet operation.'')
      | Some Op_HttpStatus \<Rightarrow>
          (''operation_delivery_failed'', ''The remote service did not acknowledge the wallet operation.'')
      | Some Op_Issuer \<Rightarrow> (''operation_issuer_failed'', ''The credential issuer operation failed.'')
      | Some Op_Status \<Rightarrow>
          (''operation_status_failed'', ''Current authenticated credential status could not be obtained.'')
      | Some Op_Rendering \<Rightarrow>
          (''operation_rendering_failed'', ''The wallet could not show the confirmation securely.'')
      | Some Op_MissingDependency \<Rightarrow>
          (''operation_dependency_missing'', ''A required wallet service is not available.'')
      | Some Op_Unsupported \<Rightarrow>
          (''operation_unsupported'', ''This wallet operation is not supported by the native client.''))"

definition operation_terminal_effects ::
    "core_env \<Rightarrow> pending_operation \<Rightarrow> operation_failure option \<Rightarrow> wallet \<Rightarrow> effect list \<times> wallet" where
  "operation_terminal_effects E pending failure w =
     (let issuance_document =
        (if po_flow pending = Flow_Issuance then issuance_document_summary E Ds_NeedsAttention w else None);
        w = reset_flow (po_flow pending) w in
      case issuance_document of
        Some document \<Rightarrow>
          ([Eff_Render (Sc_IssuanceRecovery
              \<lparr>irs_reason = recovery_reason failure, irs_document_name = dsu_document_name document,
                irs_attempts_remaining = None, irs_can_resume = False\<rparr>),
            Eff_Close], w)
      | None \<Rightarrow> (case failure_text failure of (code, message) \<Rightarrow> (error_effects code message, w)))"

definition terminate_audited_flow :: "active_flow \<Rightarrow> string \<Rightarrow> string \<Rightarrow> wallet \<Rightarrow> effect list \<times> wallet" where
  "terminate_audited_flow flow code message w =
     (let w = (if w_active w \<noteq> Flow_None \<and> w_active w \<noteq> flow then reset_flow (w_active w) w else w) in
      (error_effects code message, reset_flow flow w))"

definition audit_log_fault_effects :: "active_flow \<Rightarrow> wallet \<Rightarrow> effect list \<times> wallet" where
  "audit_log_fault_effects flow w =
     terminate_audited_flow flow ''audit_log_unavailable''
       ''The wallet cannot securely record this operation. No further auditable operation is allowed until the wallet history is repaired or reset.''
       (w\<lparr>w_audit_log_available := False\<rparr>)"

definition audit_log_capacity_effects :: "active_flow \<Rightarrow> wallet \<Rightarrow> effect list \<times> wallet" where
  "audit_log_capacity_effects flow w =
     terminate_audited_flow flow ''audit_log_capacity_exhausted''
       ''The wallet history does not have enough capacity for this operation. Review or erase history before trying again.'' w"

definition audit_log_candidate_rejection_effects :: "active_flow \<Rightarrow> wallet \<Rightarrow> effect list \<times> wallet" where
  "audit_log_candidate_rejection_effects flow w =
     terminate_audited_flow flow ''audit_log_entry_invalid''
       ''This operation contains activity details that cannot be recorded safely.'' w"

definition wallet_transfer_in_progress_effects :: "effect list" where
  "wallet_transfer_in_progress_effects =
     [Eff_Render (Sc_Error ''wallet_transfer_in_progress'' ''A credential transfer cannot replace another wallet operation.'')]"

definition append_audit_entry :: "core_env \<Rightarrow> new_entry \<Rightarrow> wallet \<Rightarrow> (txn_error + unit) \<times> wallet" where
  "append_audit_entry E e w =
     (case txn_append (ce_sha256 E) (w_log w) e of
        Inr (l, _) \<Rightarrow> (Inr (), w\<lparr>w_log := l\<rparr>)
      | Inl err \<Rightarrow> (Inl err, w\<lparr>w_audit_log_available := False\<rparr>))"

definition check_audit_entry :: "wallet \<Rightarrow> new_entry \<Rightarrow> txn_error + unit" where
  "check_audit_entry w e = check_append (w_log w) e"

definition audit_log_available :: "wallet \<Rightarrow> bool" where
  "audit_log_available w \<longleftrightarrow> w_audit_log_available w \<and> can_guarantee_max_entry (w_log w)"

definition redact_transaction :: "u64 \<Rightarrow> wallet \<Rightarrow> bool \<times> wallet" where
  "redact_transaction seq w = (case redact (w_log w) seq of (l, existed) \<Rightarrow> (existed, w\<lparr>w_log := l\<rparr>))"

definition wipe_transaction_log :: "wallet \<Rightarrow> wallet" where
  "wipe_transaction_log w = w\<lparr>w_log := wipe (w_log w), w_audit_log_available := True\<rparr>"

section \<open>Presentation errors and the clock\<close>

definition presentation_error_effects :: "vp_abort_reason \<Rightarrow> effect list option" where
  "presentation_error_effects reason =
     (case reason of
        Vp_MalformedRequest \<Rightarrow> Some (error_effects ''presentation_request_malformed''
          ''The relying party sent a malformed presentation request.'')
      | ResponseModeUnsupported \<Rightarrow> Some (error_effects ''presentation_response_mode_unsupported''
          ''The relying party requested an unsupported response mode.'')
      | ResponseUriInvalid \<Rightarrow> Some (error_effects ''presentation_response_uri_invalid''
          ''The relying party did not provide a valid HTTPS response endpoint.'')
      | ResponseUriNotRegistered \<Rightarrow> Some (error_effects ''presentation_response_uri_not_registered''
          ''The response endpoint is not registered for this relying party.'')
      | ResponseEncryptionMetadataInvalid \<Rightarrow> Some (error_effects ''presentation_response_encryption_metadata_invalid''
          ''The relying party did not provide valid response-encryption metadata.'')
      | ResponseEncryptionFailed \<Rightarrow> Some (error_effects ''presentation_response_encryption_failed''
          ''The presentation response could not be encrypted safely.'')
      | ClockRollback \<Rightarrow> Some (error_effects ''clock_rollback_rejected''
          ''The trusted wallet clock cannot move backwards.'')
      | vp_abort_reason.CredentialExpired \<Rightarrow> Some (error_effects ''credential_expired''
          ''A selected credential expired before it could be shared.'')
      | vp_abort_reason.CredentialNotYetValid \<Rightarrow> Some (error_effects ''credential_not_yet_valid''
          ''A selected credential is not currently valid.'')
      | CredentialProvenanceInvalid \<Rightarrow> Some (error_effects ''credential_provenance_invalid''
          ''A selected credential no longer has valid authenticated provenance.'')
      | PresentationTrustInvalid \<Rightarrow> Some (error_effects ''presentation_trust_invalid''
          ''Current trusted relying-party evidence is required before sharing.'')
      | NoCredential \<Rightarrow> Some (error_effects ''no_eligible_credential''
          ''No current credential satisfies the complete presentation request.'')
      | CredentialStatusInvalid \<Rightarrow> Some (error_effects ''credential_revoked''
          ''This credential is revoked or suspended and cannot be shared.'')
      | CredentialStatusUnavailable \<Rightarrow> Some (error_effects ''credential_status_unavailable''
          ''A fresh, trusted status assertion is required before this credential can be shared.'')
      | _ \<Rightarrow> None)"

definition abort_presentation :: "vp_abort_reason \<Rightarrow> wallet \<Rightarrow> effect list \<times> wallet" where
  "abort_presentation reason w =
     (unwrap_or [] (presentation_error_effects reason),
      (clear_pending_operations Flow_Presentation
         (w\<lparr>w_vp := Vp_Aborted reason, w_session := None, w_pending_rp_provenance := None,
            w_pending_status_references := []\<rparr>))\<lparr>w_active := Flow_None\<rparr>)"

definition on_set_clock :: "int \<Rightarrow> wallet \<Rightarrow> effect list \<times> wallet" where
  "on_set_clock epoch w =
     (case set_clock epoch (w_core w) of
        (False, _) \<Rightarrow>
          if w_active w = Flow_Presentation then abort_presentation ClockRollback w
          else (unwrap_or [] (presentation_error_effects ClockRollback), w)
      | (True, core) \<Rightarrow> ([], w\<lparr>w_core := core\<rparr>))"

end
