(* ===== verification/Checkpoint.thy ===== *)
theory Checkpoint
  imports Ingestion Txnlog Cbor
begin

text \<open>
  The checkpoint format, \<open>crates/wallet-core/src/durable.rs\<close>: the bounded encoder, the structural scan that
  runs before any decoding, the cursor and the decoder. A reader threads the cursor that the code updates in place;
  an encoder step appends to the bytes written so far or fails.
\<close>

section \<open>Limits and errors\<close>

definition MAX_CHECKPOINT_BYTES :: nat where "MAX_CHECKPOINT_BYTES = 32 * 1024 * 1024"
definition MAX_CREDENTIALS :: nat where "MAX_CREDENTIALS = 128"
definition MAX_RAW_CREDENTIAL_BYTES :: nat where "MAX_RAW_CREDENTIAL_BYTES = 2 * 1024 * 1024"
definition MAX_ISSUER_ID_BYTES :: nat where "MAX_ISSUER_ID_BYTES = 2 * 1024"
definition MAX_CERTIFICATES_PER_PATH :: nat where "MAX_CERTIFICATES_PER_PATH = 16"
definition MAX_CERTIFICATE_BYTES :: nat where "MAX_CERTIFICATE_BYTES = 256 * 1024"
definition MAX_CREDENTIAL_EVIDENCE_BYTES :: nat where "MAX_CREDENTIAL_EVIDENCE_BYTES = 24 * 1024 * 1024"
definition MAX_REPLAY_VALUES :: nat where "MAX_REPLAY_VALUES = 65536"
definition CHECKPOINT_MAGIC :: bytes where "CHECKPOINT_MAGIC = as_bytes ''EUWALLET-CHECKPOINT''"
definition CHECKPOINT_VERSION :: u64 where "CHECKPOINT_VERSION = 3"
definition MAX_REPLAY_NONCE_BYTES :: nat where "MAX_REPLAY_NONCE_BYTES = 256"
definition MAX_SCHEMA_DEPTH :: nat where "MAX_SCHEMA_DEPTH = 8"
definition MAX_CONTAINER_ITEMS :: nat where "MAX_CONTAINER_ITEMS = MAX_REPLAY_VALUES"
definition MAX_MAP_PAIRS :: nat where "MAX_MAP_PAIRS = 16"
definition MAX_STRUCTURAL_NODES :: nat where "MAX_STRUCTURAL_NODES = 1000000"
definition MAX_DECODED_PAYLOAD_BYTES :: nat where "MAX_DECODED_PAYLOAD_BYTES = MAX_CHECKPOINT_BYTES"

datatype context_field = Ctx_WalletClientId | Ctx_DeviceKeyReference | Ctx_DevicePublicKey

datatype checkpoint_resource =
    CheckpointBytes
  | ContextValue
  | StructuralDepth
  | StructuralNodes
  | ContainerItems
  | DecodedPayloadBytes
  | Credentials
  | RawCredentialBytes
  | IssuerIdentityBytes
  | Certificates
  | CertificateBytes
  | CredentialEvidenceBytes
  | ReplayValues
  | EncodingBytes

datatype durable_error =
    D_ResourceLimit checkpoint_resource nat nat
  | D_SizeOverflow
  | D_Truncated
  | D_NonCanonical
  | D_Malformed
  | D_UnsupportedVersion u64
  | D_InvalidGeneration
  | D_GenerationMismatch u64 u64
  | D_ContextMismatch context_field
  | D_ClockUnavailable
  | D_ClockRollback int int
  | D_DeviceKeyUnavailable
  | D_DeviceKeyInvalid
  | D_TrustListUnavailable
  | D_TrustListExpired
  | D_TrustListRollback u64 u64
  | D_WuaUnavailable
  | D_WuaInvalid
  | D_AuditLogUnavailable
  | D_AuditTimestampAfterClock u64 int int
  | D_CredentialInvalid nat credential_ingestion_error
  | D_CredentialEvidenceMismatch nat
  | D_DuplicateCredential
  | D_TransactionLog txn_error

section \<open>Data\<close>

record context_hashes =
  ch_wallet_client_id :: bytes
  ch_device_key_ref :: bytes
  ch_device_public_key :: bytes

record credential_record =
  cr_format :: u8
  cr_raw :: bytes
  cr_issuer_identity :: string
  cr_certificate_path :: "bytes list"

definition record_format :: "credential_record \<Rightarrow> durable_error + credential_format" where
  "record_format r =
     (if cr_format r = 1 then Inr DcSdJwt else if cr_format r = 2 then Inr MsoMdoc else Inl D_Malformed)"

definition then_with :: "ordering \<Rightarrow> ordering \<Rightarrow> ordering" where
  "then_with a b = (case a of Equal \<Rightarrow> b | _ \<Rightarrow> a)"

definition cmp_canonical :: "credential_record \<Rightarrow> credential_record \<Rightarrow> ordering" where
  "cmp_canonical a b =
     then_with (cmp (cr_format a) (cr_format b))
       (then_with (cmp (cr_raw a) (cr_raw b))
         (then_with (cmp (cr_issuer_identity a) (cr_issuer_identity b))
           (cmp (cr_certificate_path a) (cr_certificate_path b))))"

record replay_sets =
  rs_presentation :: "string list"
  rs_payment :: "u64 list"
  rs_issuance :: "u64 list"
  rs_qes :: "u64 list"

record checkpoint =
  cp_generation :: u64
  cp_context :: context_hashes
  cp_clock_high_water :: int
  cp_trust_sequence_high_water :: u64
  cp_credentials :: "credential_record list"
  cp_replay :: replay_sets
  cp_transaction_entries :: "log_entry list"
  cp_transaction_head :: bytes
  cp_issuance_interrupted :: bool

definition checked_total :: "nat \<Rightarrow> nat \<Rightarrow> durable_error + nat" where
  "checked_total total_bytes add =
     bind_result (ok_or (checked_add_usize total_bytes add) D_SizeOverflow) (\<lambda>t.
       if t > MAX_CREDENTIAL_EVIDENCE_BYTES
       then Inl (D_ResourceLimit CredentialEvidenceBytes MAX_CREDENTIAL_EVIDENCE_BYTES t)
       else Inr t)"

section \<open>Encoding\<close>

type_synonym encoder = "bytes \<Rightarrow> durable_error + bytes"

definition enc_extend :: "bytes \<Rightarrow> encoder" where
  "enc_extend v out =
     bind_result (ok_or (checked_add_usize (length out) (length v)) D_SizeOverflow) (\<lambda>n.
       if n > MAX_CHECKPOINT_BYTES then Inl (D_ResourceLimit EncodingBytes MAX_CHECKPOINT_BYTES n)
       else Inr (out @ v))"

definition enc_head :: "u8 \<Rightarrow> u64 \<Rightarrow> encoder" where
  "enc_head major argument = enc_extend (write_head major argument)"

definition enc_uint :: "u64 \<Rightarrow> encoder" where
  "enc_uint v = enc_head 0 v"

definition enc_int :: "int \<Rightarrow> encoder" where
  "enc_int v = (if v \<ge> 0 then enc_uint (word_of_int v) else enc_head 1 (word_of_int (-1 - v)))"

definition enc_len :: "u8 \<Rightarrow> nat \<Rightarrow> encoder" where
  "enc_len major n out = bind_result (ok_or (u64_try_from n) D_SizeOverflow) (\<lambda>l. enc_head major l out)"

definition enc_bytes :: "bytes \<Rightarrow> encoder" where
  "enc_bytes v out = bind_result (enc_len 2 (length v) out) (enc_extend v)"

definition enc_text :: "string \<Rightarrow> encoder" where
  "enc_text v out = bind_result (enc_len 3 (length v) out) (enc_extend (as_bytes v))"

definition enc_array :: "nat \<Rightarrow> encoder" where
  "enc_array n = enc_len 4 n"

definition enc_map :: "nat \<Rightarrow> encoder" where
  "enc_map n = enc_len 5 n"

definition enc_bool :: "bool \<Rightarrow> encoder" where
  "enc_bool v = enc_extend [if v then 0xf5 else 0xf4]"

definition enc_null :: encoder where
  "enc_null = enc_extend [0xf6]"

text \<open>A sequence of encoder steps, each under the question mark operator.\<close>

fun enc_all :: "encoder list \<Rightarrow> encoder" where
  "enc_all [] out = Inr out"
| "enc_all (op # ops) out = bind_result (op out) (enc_all ops)"

definition encode_payment :: "payment_summary option \<Rightarrow> encoder list" where
  "encode_payment p =
     (case p of
        Some payment \<Rightarrow>
          [enc_map 3, enc_uint 1, enc_text (ps_payee payment), enc_uint 2, enc_uint (ps_amount_minor payment),
           enc_uint 3, enc_text (ps_currency payment)]
      | None \<Rightarrow> [enc_null])"

definition encode_transaction_entry :: "log_entry \<Rightarrow> encoder list" where
  "encode_transaction_entry e =
     [enc_map 11, enc_uint 1, enc_uint (en_seq e), enc_uint 2, enc_int (en_epoch e), enc_uint 3,
      enc_uint (case en_kind e of K_Presentation \<Rightarrow> 1 | K_Issuance \<Rightarrow> 2 | K_Payment \<Rightarrow> 3 | K_Transfer \<Rightarrow> 4),
      enc_uint 4, enc_text (en_counterparty e), enc_uint 5, enc_bytes (en_consent_hash e),
      enc_uint 6, enc_array (length (en_claim_paths e))]
     @ map enc_text (en_claim_paths e)
     @ [enc_uint 7, enc_uint (case en_outcome e of O_Completed \<Rightarrow> 1 | O_Declined \<Rightarrow> 2 | O_Aborted \<Rightarrow> 3), enc_uint 8]
     @ encode_payment (en_payment e)
     @ [enc_uint 9, enc_bytes (en_prev_hash e), enc_uint 10, enc_bytes (en_entry_hash e),
        enc_uint 11, enc_bool (en_redacted e)]"

definition encode_credential :: "credential_record \<Rightarrow> encoder list" where
  "encode_credential c =
     [enc_map 4, enc_uint 1, enc_uint (ucast (cr_format c)), enc_uint 2, enc_bytes (cr_raw c),
      enc_uint 3, enc_text (cr_issuer_identity c), enc_uint 4, enc_array (length (cr_certificate_path c))]
     @ map enc_bytes (cr_certificate_path c)"

definition encode_replay :: "u64 \<Rightarrow> u64 list \<Rightarrow> encoder list" where
  "encode_replay key vs = [enc_uint key, enc_array (length vs)] @ map enc_uint vs"

definition encode_checkpoint :: "checkpoint \<Rightarrow> durable_error + bytes" where
  "encode_checkpoint cp =
     enc_all
       ([enc_map 9, enc_uint 1, enc_bytes CHECKPOINT_MAGIC, enc_uint 2, enc_uint CHECKPOINT_VERSION,
         enc_uint 3, enc_uint (cp_generation cp), enc_uint 4, enc_map 3,
         enc_uint 1, enc_bytes (ch_wallet_client_id (cp_context cp)),
         enc_uint 2, enc_bytes (ch_device_key_ref (cp_context cp)),
         enc_uint 3, enc_bytes (ch_device_public_key (cp_context cp)),
         enc_uint 5, enc_map 2, enc_uint 1, enc_int (cp_clock_high_water cp),
         enc_uint 2, enc_uint (cp_trust_sequence_high_water cp),
         enc_uint 6, enc_array (length (cp_credentials cp))]
        @ concat (map encode_credential (cp_credentials cp))
        @ [enc_uint 7, enc_map 4, enc_uint 1, enc_array (length (rs_presentation (cp_replay cp)))]
        @ map enc_text (rs_presentation (cp_replay cp))
        @ encode_replay 2 (rs_payment (cp_replay cp)) @ encode_replay 3 (rs_issuance (cp_replay cp))
        @ encode_replay 4 (rs_qes (cp_replay cp))
        @ [enc_uint 8, enc_map 2, enc_uint 1, enc_array (length (cp_transaction_entries cp))]
        @ concat (map encode_transaction_entry (cp_transaction_entries cp))
        @ [enc_uint 2, enc_bytes (cp_transaction_head cp), enc_uint 9, enc_bool (cp_issuance_interrupted cp)])
       []"

section \<open>The structural scan\<close>

record scan_budget =
  sb_remaining_nodes :: nat
  sb_payload_bytes :: nat

definition durable_cbor_error :: "cbor_error \<Rightarrow> durable_error" where
  "durable_cbor_error e =
     (case e of
        Truncated \<Rightarrow> D_Truncated
      | NotShortestForm \<Rightarrow> D_NonCanonical
      | IndefiniteLength \<Rightarrow> D_NonCanonical
      | MapKeysNotSorted \<Rightarrow> D_NonCanonical
      | DuplicateMapKey \<Rightarrow> D_NonCanonical
      | _ \<Rightarrow> D_Malformed)"

text \<open>\<open>bytes.get(start..)\<close> and \<open>bytes.get(start..end)\<close>.\<close>

definition get_from :: "bytes \<Rightarrow> nat \<Rightarrow> bytes option" where
  "get_from bytes start = (if start \<le> length bytes then Some (drop start bytes) else None)"

definition get_range :: "bytes \<Rightarrow> nat \<Rightarrow> nat \<Rightarrow> bytes option" where
  "get_range bytes start fin =
     (if start \<le> fin \<and> fin \<le> length bytes then Some (take (fin - start) (drop start bytes)) else None)"

abbreviation node_limit :: durable_error where
  "node_limit \<equiv> D_ResourceLimit StructuralNodes MAX_STRUCTURAL_NODES (MAX_STRUCTURAL_NODES + 1)"

text \<open>A head at \<open>start\<close>: its first byte, major type, argument and the position after it.\<close>

definition scan_head :: "bytes \<Rightarrow> nat \<Rightarrow> durable_error + u8 \<times> u8 \<times> u64 \<times> nat" where
  "scan_head bytes start =
     bind_result (ok_or (get_from bytes start) D_Truncated) (\<lambda>input.
     bind_result (case input of [] \<Rightarrow> Inl D_Truncated | b # _ \<Rightarrow> Inr b) (\<lambda>first.
     bind_result (map_err durable_cbor_error (read_head input)) (\<lambda>(major, argument, rest).
     bind_result (ok_or (checked_sub_usize (length input) (length rest)) D_SizeOverflow) (\<lambda>header_len.
     bind_result (ok_or (checked_add_usize start header_len) D_SizeOverflow) (\<lambda>cursor.
       Inr (first, major, argument, cursor))))))"

definition scan_string :: "bytes \<Rightarrow> u8 \<Rightarrow> nat \<Rightarrow> nat \<Rightarrow> scan_budget \<Rightarrow> durable_error + nat \<times> scan_budget" where
  "scan_string bytes major len cursor budget =
     (if len > MAX_RAW_CREDENTIAL_BYTES
      then Inl (D_ResourceLimit DecodedPayloadBytes MAX_RAW_CREDENTIAL_BYTES len)
      else
        bind_result (ok_or (checked_add_usize (sb_payload_bytes budget) len) D_SizeOverflow) (\<lambda>payload.
        if payload > MAX_DECODED_PAYLOAD_BYTES
        then Inl (D_ResourceLimit DecodedPayloadBytes MAX_DECODED_PAYLOAD_BYTES payload)
        else
          bind_result (ok_or (checked_add_usize cursor len) D_SizeOverflow) (\<lambda>fin.
          bind_result (ok_or (get_range bytes cursor fin) D_Truncated) (\<lambda>body.
          if major = 3 \<and> from_utf8 body = None then Inl D_Malformed
          else Inr (fin, budget\<lparr>sb_payload_bytes := payload\<rparr>)))))"

definition slice_between :: "bytes \<Rightarrow> nat \<times> nat \<Rightarrow> bytes" where
  "slice_between bytes r = take (snd r - fst r) (drop (fst r) bytes)"

function (sequential) scan_item :: "bytes \<Rightarrow> nat \<Rightarrow> nat \<Rightarrow> scan_budget \<Rightarrow> durable_error + nat \<times> scan_budget"
  and scan_items :: "bytes \<Rightarrow> nat \<Rightarrow> nat \<Rightarrow> nat \<Rightarrow> scan_budget \<Rightarrow> durable_error + nat \<times> scan_budget"
  and scan_pairs ::
    "bytes \<Rightarrow> nat \<Rightarrow> (nat \<times> nat) option \<Rightarrow> nat \<Rightarrow> nat \<Rightarrow> scan_budget \<Rightarrow> durable_error + nat \<times> scan_budget" where
  "scan_item bytes start depth budget =
     (if depth > MAX_SCHEMA_DEPTH then Inl (D_ResourceLimit StructuralDepth MAX_SCHEMA_DEPTH depth)
      else if sb_remaining_nodes budget = 0 then Inl node_limit
      else
        (let budget = budget\<lparr>sb_remaining_nodes := sb_remaining_nodes budget - 1\<rparr> in
         bind_result (scan_head bytes start) (\<lambda>(first, major, argument, cursor).
         if major = 0 \<or> major = 1 then Inr (cursor, budget)
         else if major = 2 \<or> major = 3 then scan_string bytes major (unat argument) cursor budget
         else if major = 4 then
           (if unat argument > MAX_CONTAINER_ITEMS
            then Inl (D_ResourceLimit ContainerItems MAX_CONTAINER_ITEMS (unat argument))
            else if unat argument > sb_remaining_nodes budget then Inl node_limit
            else scan_items bytes (unat argument) cursor (depth + 1) budget)
         else if major = 5 then
           (if unat argument > MAX_MAP_PAIRS
            then Inl (D_ResourceLimit ContainerItems MAX_MAP_PAIRS (unat argument))
            else if unat argument * 2 > sb_remaining_nodes budget then Inl node_limit
            else scan_pairs bytes (unat argument) None cursor (depth + 1) budget)
         else if major = 6 then scan_item bytes cursor (depth + 1) budget
         else if major = 7 \<and> 0xf4 \<le> first \<and> first \<le> 0xf6 then Inr (cursor, budget)
         else Inl D_Malformed)))"
| "scan_items bytes 0 cursor depth budget = Inr (cursor, budget)"
| "scan_items bytes (Suc n) cursor depth budget =
     bind_result (scan_item bytes cursor depth budget) (\<lambda>(cursor, budget).
       scan_items bytes n cursor depth budget)"
| "scan_pairs bytes 0 previous_key cursor depth budget = Inr (cursor, budget)"
| "scan_pairs bytes (Suc n) previous_key key_start depth budget =
     bind_result (scan_item bytes key_start depth budget) (\<lambda>(cursor, budget).
     if (case previous_key of
           None \<Rightarrow> False
         | Some r \<Rightarrow> cmp (slice_between bytes r) (slice_between bytes (key_start, cursor)) \<noteq> Less)
     then Inl D_NonCanonical
     else
       bind_result (scan_item bytes cursor depth budget) (\<lambda>(fin, budget).
         scan_pairs bytes n (Some (key_start, cursor)) fin depth budget))"
  by pat_completeness auto
termination
  by (relation "measures
       [case_sum (\<lambda>(_, _, d, _). 10 - d) (case_sum (\<lambda>(_, _, _, d, _). 10 - d) (\<lambda>(_, _, _, _, d, _). 10 - d)),
        case_sum (\<lambda>_. 0) (case_sum (\<lambda>(_, n, _). Suc n) (\<lambda>(_, n, _). Suc n))]")
    (auto simp: MAX_SCHEMA_DEPTH_def)

declare scan_item.simps [simp del]

definition structural_preflight :: "bytes \<Rightarrow> durable_error + unit" where
  "structural_preflight bytes =
     (if length bytes > MAX_CHECKPOINT_BYTES
      then Inl (D_ResourceLimit CheckpointBytes MAX_CHECKPOINT_BYTES (length bytes))
      else
        bind_result (scan_item bytes 0 0 \<lparr>sb_remaining_nodes = MAX_STRUCTURAL_NODES, sb_payload_bytes = 0\<rparr>) (\<lambda>(fin, _).
          ensure (fin = length bytes) D_NonCanonical))"

section \<open>The cursor\<close>

record cursor =
  cu_bytes :: bytes
  cu_position :: nat

type_synonym 'a reader = "cursor \<Rightarrow> durable_error + 'a \<times> cursor"

definition cursor_new :: "bytes \<Rightarrow> cursor" where
  "cursor_new bytes = \<lparr>cu_bytes = bytes, cu_position = 0\<rparr>"

text \<open>Sequencing of readers, a value, and a check.\<close>

definition rd_bind :: "'a reader \<Rightarrow> ('a \<Rightarrow> 'b reader) \<Rightarrow> 'b reader" where
  "rd_bind m f c = bind_result (m c) (\<lambda>(x, c). f x c)"

definition rd_return :: "'a \<Rightarrow> 'a reader" where
  "rd_return x c = Inr (x, c)"

definition rd_lift :: "durable_error + 'a \<Rightarrow> 'a reader" where
  "rd_lift r c = bind_result r (\<lambda>x. Inr (x, c))"

definition cu_any_head :: "(u8 \<times> u64) reader" where
  "cu_any_head c =
     bind_result (ok_or (get_from (cu_bytes c) (cu_position c)) D_Truncated) (\<lambda>input.
     bind_result (map_err durable_cbor_error (read_head input)) (\<lambda>(major, v, rest).
     bind_result (ok_or (checked_add_usize (cu_position c) (length input - length rest)) D_SizeOverflow) (\<lambda>pos.
       Inr ((major, v), c\<lparr>cu_position := pos\<rparr>))))"

definition cu_head :: "u8 \<Rightarrow> u64 reader" where
  "cu_head expected_major c =
     bind_result (ok_or (get_from (cu_bytes c) (cu_position c)) D_Truncated) (\<lambda>input.
     bind_result (map_err durable_cbor_error (read_head input)) (\<lambda>(major, v, rest).
     if major \<noteq> expected_major then Inl D_Malformed
     else
       bind_result (ok_or (checked_add_usize (cu_position c) (length input - length rest)) D_SizeOverflow) (\<lambda>pos.
         Inr (v, c\<lparr>cu_position := pos\<rparr>))))"

definition cu_uint :: "u64 reader" where
  "cu_uint = cu_head 0"

definition cu_int :: "int reader" where
  "cu_int =
     rd_bind cu_any_head (\<lambda>(major, v).
       rd_lift
         (if major = 0 then (if uint v \<le> i64_max then Inr (uint v) else Inl D_Malformed)
          else if major = 1 \<and> uint v \<le> i64_max then Inr (-1 - uint v)
          else Inl D_Malformed))"

definition cu_container :: "u8 \<Rightarrow> nat \<Rightarrow> nat reader" where
  "cu_container major maximum =
     rd_bind (cu_head major) (\<lambda>v.
       rd_lift (if unat v > maximum then Inl (D_ResourceLimit ContainerItems maximum (unat v)) else Inr (unat v)))"

definition cu_exact_map :: "nat \<Rightarrow> unit reader" where
  "cu_exact_map len = rd_bind (cu_container 5 len) (\<lambda>n. rd_lift (ensure (n = len) D_Malformed))"

definition cu_key :: "u64 \<Rightarrow> unit reader" where
  "cu_key expected = rd_bind cu_uint (\<lambda>v. rd_lift (ensure (v = expected) D_Malformed))"

definition cu_body :: "nat \<Rightarrow> nat \<Rightarrow> bytes reader" where
  "cu_body maximum len c =
     (if len > maximum then Inl (D_ResourceLimit DecodedPayloadBytes maximum len)
      else
        bind_result (ok_or (checked_add_usize (cu_position c) len) D_SizeOverflow) (\<lambda>fin.
        bind_result (ok_or (get_range (cu_bytes c) (cu_position c) fin) D_Truncated) (\<lambda>v.
          Inr (v, c\<lparr>cu_position := fin\<rparr>))))"

definition cu_borrowed_bytes :: "nat \<Rightarrow> bytes reader" where
  "cu_borrowed_bytes maximum = rd_bind (cu_head 2) (\<lambda>len. cu_body maximum (unat len))"

definition cu_hash :: "bytes reader" where
  "cu_hash = rd_bind (cu_borrowed_bytes 32) (\<lambda>v. rd_lift (if length v = 32 then Inr v else Inl D_Malformed))"

definition cu_borrowed_text :: "nat \<Rightarrow> string reader" where
  "cu_borrowed_text maximum =
     rd_bind (cu_head 3) (\<lambda>len. rd_bind (cu_body maximum (unat len)) (\<lambda>v. rd_lift (ok_or (from_utf8 v) D_Malformed)))"

definition cu_bool :: "bool reader" where
  "cu_bool c =
     (if cu_position c < length (cu_bytes c) then
        (let v = cu_bytes c ! cu_position c in
         if v = 0xf4 then Inr (False, c\<lparr>cu_position := cu_position c + 1\<rparr>)
         else if v = 0xf5 then Inr (True, c\<lparr>cu_position := cu_position c + 1\<rparr>)
         else Inl D_Malformed)
      else Inl D_Truncated)"

definition charge_transaction_payload :: "nat \<Rightarrow> nat \<Rightarrow> durable_error + nat" where
  "charge_transaction_payload total_bytes add =
     bind_result (ok_or (checked_add_usize total_bytes add) D_SizeOverflow) (\<lambda>t.
       if t > MAX_AGGREGATE_BYTES then Inl (D_ResourceLimit DecodedPayloadBytes MAX_AGGREGATE_BYTES t) else Inr t)"

definition cu_null_or_payment :: "nat \<Rightarrow> (payment_summary option \<times> nat) reader" where
  "cu_null_or_payment payload c =
     (if cu_position c < length (cu_bytes c) \<and> cu_bytes c ! cu_position c = 0xf6
      then Inr ((None, payload), c\<lparr>cu_position := cu_position c + 1\<rparr>)
      else
        rd_bind (cu_exact_map 3) (\<lambda>_.
        rd_bind (cu_key 1) (\<lambda>_.
        rd_bind (cu_borrowed_text MAX_PAYMENT_PAYEE_BYTES) (\<lambda>payee.
        rd_bind (rd_lift (charge_transaction_payload payload (length payee))) (\<lambda>payload.
        rd_bind (cu_key 2) (\<lambda>_.
        rd_bind cu_uint (\<lambda>amount_minor.
        rd_bind (cu_key 3) (\<lambda>_.
        rd_bind (cu_borrowed_text 3) (\<lambda>currency.
        rd_bind (rd_lift (charge_transaction_payload payload (length currency))) (\<lambda>payload.
          rd_return
            (Some \<lparr>ps_payee = payee, ps_amount_minor = amount_minor, ps_currency = currency\<rparr>, payload)))))))))) c)"

section \<open>Decoding\<close>

fun decode_certificates :: "nat \<Rightarrow> bytes list \<Rightarrow> nat \<Rightarrow> (bytes list \<times> nat) reader" where
  "decode_certificates 0 path total_bytes = rd_return (path, total_bytes)"
| "decode_certificates (Suc n) path total_bytes =
     rd_bind (cu_borrowed_bytes MAX_CERTIFICATE_BYTES) (\<lambda>certificate.
     if certificate = [] then rd_lift (Inl (D_ResourceLimit CertificateBytes MAX_CERTIFICATE_BYTES 0))
     else
       rd_bind (rd_lift (checked_total total_bytes (length certificate))) (\<lambda>total_bytes.
         decode_certificates n (path @ [certificate]) total_bytes))"

definition decode_credential :: "nat \<Rightarrow> (credential_record \<times> nat) reader" where
  "decode_credential total_bytes =
     rd_bind (cu_exact_map 4) (\<lambda>_.
     rd_bind (cu_key 1) (\<lambda>_.
     rd_bind cu_uint (\<lambda>v.
     rd_bind (rd_lift (if v \<le> 0xFF then Inr (ucast v :: u8) else Inl D_Malformed)) (\<lambda>format.
     rd_bind (rd_lift (ensure (format = 1 \<or> format = 2) D_Malformed)) (\<lambda>_.
     rd_bind (cu_key 2) (\<lambda>_.
     rd_bind (cu_borrowed_bytes MAX_RAW_CREDENTIAL_BYTES) (\<lambda>raw.
     rd_bind (rd_lift (checked_total total_bytes (length raw))) (\<lambda>total_bytes.
     rd_bind (cu_key 3) (\<lambda>_.
     rd_bind (cu_borrowed_text MAX_ISSUER_ID_BYTES) (\<lambda>issuer_identity.
     rd_bind (rd_lift (ensure (issuer_identity \<noteq> []) (D_ResourceLimit IssuerIdentityBytes MAX_ISSUER_ID_BYTES 0))) (\<lambda>_.
     rd_bind (rd_lift (checked_total total_bytes (length issuer_identity))) (\<lambda>total_bytes.
     rd_bind (cu_key 4) (\<lambda>_.
     rd_bind (cu_container 4 MAX_CERTIFICATES_PER_PATH) (\<lambda>path_len.
     rd_bind (rd_lift (ensure (path_len \<noteq> 0) (D_ResourceLimit Certificates MAX_CERTIFICATES_PER_PATH 0))) (\<lambda>_.
     rd_bind (decode_certificates path_len [] total_bytes) (\<lambda>(certificate_path, total_bytes).
       rd_return
         (\<lparr>cr_format = format, cr_raw = raw, cr_issuer_identity = issuer_identity,
            cr_certificate_path = certificate_path\<rparr>, total_bytes)))))))))))))))))"

fun decode_credentials :: "nat \<Rightarrow> credential_record list \<Rightarrow> nat \<Rightarrow> credential_record list reader" where
  "decode_credentials 0 credentials total_bytes = rd_return credentials"
| "decode_credentials (Suc n) credentials total_bytes =
     rd_bind (decode_credential total_bytes) (\<lambda>(r, total_bytes).
     if credentials \<noteq> [] \<and> cmp_canonical (last credentials) r \<noteq> Less
     then rd_lift (Inl D_DuplicateCredential)
     else decode_credentials n (credentials @ [r]) total_bytes)"

fun decode_values :: "('a :: linorder) reader \<Rightarrow> nat \<Rightarrow> 'a list \<Rightarrow> 'a list reader" where
  "decode_values m 0 vs = rd_return vs"
| "decode_values m (Suc n) vs =
     rd_bind m (\<lambda>v.
     if vs \<noteq> [] \<and> last vs \<ge> v then rd_lift (Inl D_NonCanonical)
     else decode_values m n (vs @ [v]))"

definition decode_replay :: "u64 list reader" where
  "decode_replay = rd_bind (cu_container 4 MAX_REPLAY_VALUES) (\<lambda>len. decode_values cu_uint len [])"

definition decode_replay_str :: "string list reader" where
  "decode_replay_str =
     rd_bind (cu_container 4 MAX_REPLAY_VALUES) (\<lambda>len.
       decode_values (cu_borrowed_text MAX_REPLAY_NONCE_BYTES) len [])"

fun decode_claims :: "nat \<Rightarrow> string list \<Rightarrow> nat \<Rightarrow> (string list \<times> nat) reader" where
  "decode_claims 0 claims payload = rd_return (claims, payload)"
| "decode_claims (Suc n) claims payload =
     rd_bind (cu_borrowed_text MAX_CLAIM_PATH_BYTES) (\<lambda>claim.
     rd_bind (rd_lift (charge_transaction_payload payload (length claim))) (\<lambda>payload.
       decode_claims n (claims @ [claim]) payload))"

definition kind_of_code :: "u64 \<Rightarrow> durable_error + txn_kind" where
  "kind_of_code v =
     (if v = 1 then Inr K_Presentation else if v = 2 then Inr K_Issuance else if v = 3 then Inr K_Payment
      else if v = 4 then Inr K_Transfer else Inl D_Malformed)"

definition outcome_of_code :: "u64 \<Rightarrow> durable_error + txn_outcome" where
  "outcome_of_code v =
     (if v = 1 then Inr O_Completed else if v = 2 then Inr O_Declined else if v = 3 then Inr O_Aborted
      else Inl D_Malformed)"

definition decode_transaction_entry :: "nat \<Rightarrow> (log_entry \<times> nat) reader" where
  "decode_transaction_entry payload =
     rd_bind (cu_exact_map 11) (\<lambda>_.
     rd_bind (cu_key 1) (\<lambda>_.
     rd_bind cu_uint (\<lambda>seq.
     rd_bind (cu_key 2) (\<lambda>_.
     rd_bind cu_int (\<lambda>epoch.
     rd_bind (cu_key 3) (\<lambda>_.
     rd_bind cu_uint (\<lambda>kind_code.
     rd_bind (rd_lift (kind_of_code kind_code)) (\<lambda>kind.
     rd_bind (cu_key 4) (\<lambda>_.
     rd_bind (cu_borrowed_text MAX_COUNTERPARTY_BYTES) (\<lambda>counterparty.
     rd_bind (rd_lift (charge_transaction_payload payload (length counterparty))) (\<lambda>payload.
     rd_bind (cu_key 5) (\<lambda>_.
     rd_bind cu_hash (\<lambda>consent_hash.
     rd_bind (cu_key 6) (\<lambda>_.
     rd_bind (cu_container 4 MAX_CLAIM_PATHS_PER_ENTRY) (\<lambda>claims_len.
     rd_bind (decode_claims claims_len [] payload) (\<lambda>(claim_paths, payload).
     rd_bind (cu_key 7) (\<lambda>_.
     rd_bind cu_uint (\<lambda>outcome_code.
     rd_bind (rd_lift (outcome_of_code outcome_code)) (\<lambda>outcome.
     rd_bind (cu_key 8) (\<lambda>_.
     rd_bind (cu_null_or_payment payload) (\<lambda>(payment, payload).
     rd_bind (cu_key 9) (\<lambda>_.
     rd_bind cu_hash (\<lambda>prev_hash.
     rd_bind (cu_key 10) (\<lambda>_.
     rd_bind cu_hash (\<lambda>entry_hash.
     rd_bind (cu_key 11) (\<lambda>_.
     rd_bind cu_bool (\<lambda>redacted.
       rd_return
         (\<lparr>en_seq = seq, en_epoch = epoch, en_kind = kind, en_counterparty = counterparty,
            en_consent_hash = consent_hash, en_claim_paths = claim_paths, en_outcome = outcome, en_payment = payment,
            en_prev_hash = prev_hash, en_entry_hash = entry_hash, en_redacted = redacted\<rparr>,
          payload))))))))))))))))))))))))))))"

fun decode_entries :: "nat \<Rightarrow> log_entry list \<Rightarrow> nat \<Rightarrow> log_entry list reader" where
  "decode_entries 0 entries payload = rd_return entries"
| "decode_entries (Suc n) entries payload =
     rd_bind (decode_transaction_entry payload) (\<lambda>(e, payload). decode_entries n (entries @ [e]) payload)"

definition decode_header :: "(u64 \<times> context_hashes \<times> int \<times> u64) reader" where
  "decode_header =
     rd_bind (cu_exact_map 9) (\<lambda>_.
     rd_bind (cu_key 1) (\<lambda>_.
     rd_bind (cu_borrowed_bytes (length CHECKPOINT_MAGIC)) (\<lambda>magic.
     rd_bind (rd_lift (ensure (magic = CHECKPOINT_MAGIC) D_Malformed)) (\<lambda>_.
     rd_bind (cu_key 2) (\<lambda>_.
     rd_bind cu_uint (\<lambda>version.
     rd_bind (rd_lift (ensure (version = CHECKPOINT_VERSION) (D_UnsupportedVersion version))) (\<lambda>_.
     rd_bind (cu_key 3) (\<lambda>_.
     rd_bind cu_uint (\<lambda>generation.
     rd_bind (rd_lift (ensure (generation \<noteq> 0) D_InvalidGeneration)) (\<lambda>_.
     rd_bind (cu_key 4) (\<lambda>_.
     rd_bind (cu_exact_map 3) (\<lambda>_.
     rd_bind (cu_key 1) (\<lambda>_.
     rd_bind cu_hash (\<lambda>wallet_client_id.
     rd_bind (cu_key 2) (\<lambda>_.
     rd_bind cu_hash (\<lambda>device_key_ref.
     rd_bind (cu_key 3) (\<lambda>_.
     rd_bind cu_hash (\<lambda>device_public_key.
     rd_bind (cu_key 5) (\<lambda>_.
     rd_bind (cu_exact_map 2) (\<lambda>_.
     rd_bind (cu_key 1) (\<lambda>_.
     rd_bind cu_int (\<lambda>clock_high_water.
     rd_bind (rd_lift (ensure (clock_high_water > 0) D_ClockUnavailable)) (\<lambda>_.
     rd_bind (cu_key 2) (\<lambda>_.
     rd_bind cu_uint (\<lambda>trust_sequence_high_water.
       rd_return
         (generation,
          \<lparr>ch_wallet_client_id = wallet_client_id, ch_device_key_ref = device_key_ref,
            ch_device_public_key = device_public_key\<rparr>,
          clock_high_water, trust_sequence_high_water))))))))))))))))))))))))))"

definition decode_replay_sets :: "replay_sets reader" where
  "decode_replay_sets =
     rd_bind (cu_exact_map 4) (\<lambda>_.
     rd_bind (cu_key 1) (\<lambda>_.
     rd_bind decode_replay_str (\<lambda>presentation.
     rd_bind (cu_key 2) (\<lambda>_.
     rd_bind decode_replay (\<lambda>payment.
     rd_bind (cu_key 3) (\<lambda>_.
     rd_bind decode_replay (\<lambda>issuance.
     rd_bind (cu_key 4) (\<lambda>_.
     rd_bind decode_replay (\<lambda>qes.
       rd_return \<lparr>rs_presentation = presentation, rs_payment = payment, rs_issuance = issuance, rs_qes = qes\<rparr>)))))))))"

definition decode_log :: "(log_entry list \<times> bytes) reader" where
  "decode_log =
     rd_bind (cu_exact_map 2) (\<lambda>_.
     rd_bind (cu_key 1) (\<lambda>_.
     rd_bind (cu_container 4 MAX_ENTRIES) (\<lambda>entry_count.
     rd_bind (decode_entries entry_count [] 0) (\<lambda>transaction_entries.
     rd_bind (cu_key 2) (\<lambda>_.
     rd_bind cu_hash (\<lambda>transaction_head.
       rd_return (transaction_entries, transaction_head)))))))"

definition decode_fields :: "checkpoint reader" where
  "decode_fields =
     rd_bind decode_header (\<lambda>(generation, context_hashes, clock_high_water, trust_sequence_high_water).
     rd_bind (cu_key 6) (\<lambda>_.
     rd_bind (cu_container 4 MAX_CREDENTIALS) (\<lambda>credential_count.
     rd_bind (decode_credentials credential_count [] 0) (\<lambda>credentials.
     rd_bind (cu_key 7) (\<lambda>_.
     rd_bind decode_replay_sets (\<lambda>replay.
     rd_bind (cu_key 8) (\<lambda>_.
     rd_bind decode_log (\<lambda>(transaction_entries, transaction_head).
     rd_bind (cu_key 9) (\<lambda>_.
     rd_bind cu_bool (\<lambda>issuance_interrupted.
       rd_return
         \<lparr>cp_generation = generation, cp_context = context_hashes, cp_clock_high_water = clock_high_water,
           cp_trust_sequence_high_water = trust_sequence_high_water, cp_credentials = credentials, cp_replay = replay,
           cp_transaction_entries = transaction_entries, cp_transaction_head = transaction_head,
           cp_issuance_interrupted = issuance_interrupted\<rparr>))))))))))"

definition decode_checkpoint :: "bytes \<Rightarrow> durable_error + checkpoint" where
  "decode_checkpoint bytes =
     bind_result (structural_preflight bytes) (\<lambda>_.
     bind_result (decode_fields (cursor_new bytes)) (\<lambda>(cp, c).
     bind_result (ensure (cu_position c = length bytes) D_NonCanonical) (\<lambda>_. Inr cp)))"

end
