(* ===== verification/Durable.thy ===== *)
theory Durable
  imports Wallet_State Checkpoint
begin

text \<open>
  Export and restoration of durable state, \<open>crates/wallet-core/src/durable.rs\<close>, and the life cycle of the engine handle
  that the native shell holds (\<open>WalletEngine\<close> of \<open>crates/wallet-core/src/lib.rs\<close>). Randomness of a restoration is an
  argument.
\<close>

section \<open>Context and environment\<close>

definition MAX_CONTEXT_VALUE_BYTES :: nat where "MAX_CONTEXT_VALUE_BYTES = 16 * 1024"
definition CONTEXT_HASH_DOMAIN :: bytes where "CONTEXT_HASH_DOMAIN = as_bytes ''eudi-wallet-checkpoint-context-v1''"

definition context_hash :: "core_env \<Rightarrow> u8 \<Rightarrow> bytes \<Rightarrow> bytes" where
  "context_hash E label v = ce_sha256 E (CONTEXT_HASH_DOMAIN @ [label] @ be_bytes 8 (length v) @ v)"

definition check_context_value :: "bytes \<Rightarrow> durable_error + unit" where
  "check_context_value v =
     ensure (v \<noteq> [] \<and> length v \<le> MAX_CONTEXT_VALUE_BYTES)
       (D_ResourceLimit ContextValue MAX_CONTEXT_VALUE_BYTES (length v))"

definition current_context :: "core_env \<Rightarrow> wallet \<Rightarrow> durable_error + context_hashes" where
  "current_context E w =
     bind_result (check_context_value (as_bytes (w_wallet_client_id w))) (\<lambda>_.
     bind_result (check_context_value (as_bytes (w_device_key_ref w))) (\<lambda>_.
     let key = co_device_public_key (w_core w) in
     if key = [] then Inl D_DeviceKeyUnavailable
     else if length key \<noteq> 65 \<or> hd key \<noteq> 0x04 then Inl D_DeviceKeyInvalid
     else
       Inr \<lparr>ch_wallet_client_id = context_hash E 1 (as_bytes (w_wallet_client_id w)),
         ch_device_key_ref = context_hash E 2 (as_bytes (w_device_key_ref w)),
         ch_device_public_key = context_hash E 3 key\<rparr>))"

definition require_current_environment :: "wallet \<Rightarrow> durable_error + u64" where
  "require_current_environment w =
     (let core = w_core w in
      if co_now_epoch core \<le> 0 then Inl D_ClockUnavailable
      else
        bind_result (ok_or (sequence_number (co_trust_store core)) D_TrustListUnavailable) (\<lambda>sequence.
        if \<not> is_valid_at (co_trust_store core) (co_now_epoch core) then Inl D_TrustListExpired
        else
          bind_result (ok_or (co_wua core) D_WuaUnavailable) (\<lambda>wua.
          if \<not> is_valid_for_at wua (co_device_public_key core) High (co_now_epoch core) then Inl D_WuaInvalid
          else Inr sequence)))"

section \<open>Replay sets, log times and credential records\<close>

definition sorted_replay :: "u64 list \<Rightarrow> durable_error + u64 list" where
  "sorted_replay values =
     (if length values > MAX_REPLAY_VALUES
      then Inl (D_ResourceLimit ReplayValues MAX_REPLAY_VALUES (length values))
      else Inr (remdups_adj (sort values)))"

definition sorted_replay_str :: "string list \<Rightarrow> durable_error + string list" where
  "sorted_replay_str values =
     (if length values > MAX_REPLAY_VALUES
      then Inl (D_ResourceLimit ReplayValues MAX_REPLAY_VALUES (length values))
      else
        case find (\<lambda>v. length v > MAX_REPLAY_NONCE_BYTES) values of
          Some v \<Rightarrow> Inl (D_ResourceLimit ReplayValues MAX_REPLAY_NONCE_BYTES (length v))
        | None \<Rightarrow> Inr (remdups_adj (sort values)))"

definition validate_transaction_clock :: "log_entry list \<Rightarrow> int \<Rightarrow> durable_error + unit" where
  "validate_transaction_clock entries clock_high_water =
     (case find (\<lambda>e. \<not> en_redacted e \<and> en_epoch e > clock_high_water) entries of
        Some e \<Rightarrow> Inl (D_AuditTimestampAfterClock (en_seq e) (en_epoch e) clock_high_water)
      | None \<Rightarrow> Inr ())"

fun validate_certificates :: "bytes list \<Rightarrow> nat \<Rightarrow> durable_error + nat" where
  "validate_certificates [] aggregate = Inr aggregate"
| "validate_certificates (certificate # path) aggregate =
     (if certificate = [] \<or> length certificate > MAX_CERTIFICATE_BYTES
      then Inl (D_ResourceLimit CertificateBytes MAX_CERTIFICATE_BYTES (length certificate))
      else bind_result (checked_total aggregate (length certificate)) (validate_certificates path))"

definition validate_record_parts :: "bytes \<Rightarrow> string \<Rightarrow> bytes list \<Rightarrow> nat \<Rightarrow> durable_error + nat" where
  "validate_record_parts raw issuer_identity certificate_path aggregate =
     (if length raw > MAX_RAW_CREDENTIAL_BYTES
      then Inl (D_ResourceLimit RawCredentialBytes MAX_RAW_CREDENTIAL_BYTES (length raw))
      else
        bind_result (checked_total aggregate (length raw)) (\<lambda>aggregate.
        if issuer_identity = [] \<or> length issuer_identity > MAX_ISSUER_ID_BYTES
        then Inl (D_ResourceLimit IssuerIdentityBytes MAX_ISSUER_ID_BYTES (length issuer_identity))
        else
          bind_result (checked_total aggregate (length issuer_identity)) (\<lambda>aggregate.
          if certificate_path = [] \<or> length certificate_path > MAX_CERTIFICATES_PER_PATH
          then Inl (D_ResourceLimit Certificates MAX_CERTIFICATES_PER_PATH (length certificate_path))
          else validate_certificates certificate_path aggregate)))"

definition authenticated_provenance :: "stored_provenance \<Rightarrow> credential_provenance option" where
  "authenticated_provenance p = (case p of AuthenticatedProvenance pr \<Rightarrow> Some pr | TestFixture \<Rightarrow> None)"

text \<open>Whether an authenticated element has the holding of a later authenticated element.\<close>

fun duplicate_holding :: "('a \<Rightarrow> stored_provenance) \<Rightarrow> ('a \<Rightarrow> 'h) \<Rightarrow> 'a list \<Rightarrow> bool" where
  "duplicate_holding prov holding [] \<longleftrightarrow> False"
| "duplicate_holding prov holding (s # rest) \<longleftrightarrow>
     (authenticated_provenance (prov s) \<noteq> None
      \<and> list_ex (\<lambda>c. authenticated_provenance (prov c) \<noteq> None \<and> holding c = holding s) rest)
     \<or> duplicate_holding prov holding rest"

text \<open>One credential of the export: its parts are bounded, it is authenticated again, and what that gives is compared with
  what is stored.\<close>

definition export_record ::
    "core_env \<Rightarrow> core \<Rightarrow> u8 \<Rightarrow> credential_provenance \<Rightarrow> (verified_credential \<Rightarrow> bool)
      \<Rightarrow> credential_record list \<times> nat \<Rightarrow> durable_error + credential_record list \<times> nat" where
  "export_record E core format provenance matches acc =
     (case acc of (records, aggregate) \<Rightarrow>
      let index = length records; issuer = cp_issuer provenance in
      bind_result (validate_record_parts (cp_raw_credential provenance) (ev_identity issuer) (ev_certificate_path issuer)
        aggregate) (\<lambda>aggregate.
      bind_result (map_err (D_CredentialInvalid index)
        (authenticate_received_credential E core (cp_format provenance) (cp_raw_credential provenance)
          (ev_certificate_path issuer) (ev_identity issuer))) (\<lambda>fresh.
      if \<not> (ac_provenance fresh = provenance \<and> matches (ac_credential fresh))
      then Inl (D_CredentialEvidenceMismatch index)
      else
        Inr (records @ [\<lparr>cr_format = format, cr_raw = cp_raw_credential provenance, cr_issuer_identity = ev_identity issuer,
          cr_certificate_path = ev_certificate_path issuer\<rparr>], aggregate))))"

definition sdjwt_matches :: "stored_sdjwt_credential \<Rightarrow> verified_credential \<Rightarrow> bool" where
  "sdjwt_matches stored v =
     (case v of
        VerifiedSdJwt holding authenticated validity \<Rightarrow>
          holding = ss_holding stored \<and> ss_authenticated stored = Some authenticated \<and> validity = ss_validity stored
      | VerifiedMdoc _ _ \<Rightarrow> False)"

definition mdoc_matches :: "stored_mdoc_credential \<Rightarrow> verified_credential \<Rightarrow> bool" where
  "mdoc_matches stored v =
     (case v of
        VerifiedMdoc holding validity \<Rightarrow> holding = sm_holding stored \<and> validity = sm_validity stored
      | VerifiedSdJwt _ _ _ \<Rightarrow> False)"

fun export_sdjwts ::
    "core_env \<Rightarrow> core \<Rightarrow> stored_sdjwt_credential list \<Rightarrow> credential_record list \<times> nat
      \<Rightarrow> durable_error + credential_record list \<times> nat" where
  "export_sdjwts E core [] acc = Inr acc"
| "export_sdjwts E core (stored # rest) acc =
     (case authenticated_provenance (ss_provenance stored) of
        None \<Rightarrow> export_sdjwts E core rest acc
      | Some provenance \<Rightarrow>
          bind_result (export_record E core 1 provenance (sdjwt_matches stored) acc) (export_sdjwts E core rest))"

fun export_mdocs ::
    "core_env \<Rightarrow> core \<Rightarrow> stored_mdoc_credential list \<Rightarrow> credential_record list \<times> nat
      \<Rightarrow> durable_error + credential_record list \<times> nat" where
  "export_mdocs E core [] acc = Inr acc"
| "export_mdocs E core (stored # rest) acc =
     (case authenticated_provenance (sm_provenance stored) of
        None \<Rightarrow> export_mdocs E core rest acc
      | Some provenance \<Rightarrow>
          bind_result (export_record E core 2 provenance (mdoc_matches stored) acc) (export_mdocs E core rest))"

text \<open>\<open>sort_by\<close> with a comparison: the stable sort of the standard library.\<close>

fun insert_by :: "('a \<Rightarrow> 'a \<Rightarrow> ordering) \<Rightarrow> 'a \<Rightarrow> 'a list \<Rightarrow> 'a list" where
  "insert_by c x [] = [x]"
| "insert_by c x (y # ys) = (if c x y = Greater then y # insert_by c x ys else x # y # ys)"

definition sort_by :: "('a \<Rightarrow> 'a \<Rightarrow> ordering) \<Rightarrow> 'a list \<Rightarrow> 'a list" where
  "sort_by c xs = foldr (insert_by c) xs []"

fun windows_ascending :: "credential_record list \<Rightarrow> bool" where
  "windows_ascending (a # b # rest) \<longleftrightarrow> cmp_canonical a b = Less \<and> windows_ascending (b # rest)"
| "windows_ascending _ \<longleftrightarrow> True"

definition authenticated_records :: "core_env \<Rightarrow> core \<Rightarrow> durable_error + credential_record list" where
  "authenticated_records E core =
     bind_result (ok_or (checked_add_usize
         (length (filter (\<lambda>s. authenticated_provenance (ss_provenance s) \<noteq> None) (co_credentials core)))
         (length (filter (\<lambda>s. authenticated_provenance (sm_provenance s) \<noteq> None) (co_mdoc_holdings core))))
       D_SizeOverflow) (\<lambda>authenticated_count.
     if authenticated_count > MAX_CREDENTIALS
     then Inl (D_ResourceLimit Credentials MAX_CREDENTIALS authenticated_count)
     else if duplicate_holding ss_provenance ss_holding (co_credentials core) then Inl D_DuplicateCredential
     else if duplicate_holding sm_provenance sm_holding (co_mdoc_holdings core) then Inl D_DuplicateCredential
     else
       bind_result (export_sdjwts E core (co_credentials core) ([], 0)) (\<lambda>acc.
       bind_result (export_mdocs E core (co_mdoc_holdings core) acc) (\<lambda>(records, _).
       let records = sort_by cmp_canonical records in
       if \<not> windows_ascending records then Inl D_DuplicateCredential else Inr records)))"

section \<open>Export\<close>

definition export_durable_checkpoint :: "core_env \<Rightarrow> u64 \<Rightarrow> wallet \<Rightarrow> durable_error + bytes" where
  "export_durable_checkpoint E envelope_generation w =
     (if envelope_generation = 0 then Inl D_InvalidGeneration
      else
        bind_result (current_context E w) (\<lambda>ctx.
        bind_result (require_current_environment w) (\<lambda>trust_sequence_high_water.
        if \<not> w_audit_log_available w then Inl D_AuditLogUnavailable
        else
          bind_result (authenticated_records E (w_core w)) (\<lambda>credentials.
          bind_result (sorted_replay_str (w_seen_nonces w)) (\<lambda>presentation.
          bind_result (sorted_replay (w_pay_seen_nonces w)) (\<lambda>payment.
          bind_result (sorted_replay (w_iss_seen_c_nonces w)) (\<lambda>issuance.
          bind_result (sorted_replay (w_qes_seen_nonces w)) (\<lambda>qes.
          if length (tl_entries (w_log w)) > MAX_ENTRIES then Inl (D_TransactionLog (EntryLimitExceeded MAX_ENTRIES))
          else
            bind_result (validate_transaction_clock (tl_entries (w_log w)) (co_now_epoch (w_core w))) (\<lambda>_.
            bind_result (map_err D_TransactionLog
              (restore_checked (ce_sha256 E) (tl_entries (w_log w)) (head_hash (w_log w)))) (\<lambda>_.
            encode_checkpoint
              \<lparr>cp_generation = envelope_generation, cp_context = ctx, cp_clock_high_water = co_now_epoch (w_core w),
                cp_trust_sequence_high_water = trust_sequence_high_water, cp_credentials = credentials,
                cp_replay = \<lparr>rs_presentation = presentation, rs_payment = payment, rs_issuance = issuance, rs_qes = qes\<rparr>,
                cp_transaction_entries = tl_entries (w_log w), cp_transaction_head = head_hash (w_log w),
                cp_issuance_interrupted =
                  (w_active w = Flow_Issuance \<and> issuance_document_summary E Ds_Preparing w \<noteq> None)\<rparr>))))))))))"

section \<open>Restoration\<close>

definition check_context :: "context_hashes \<Rightarrow> context_hashes \<Rightarrow> durable_error + unit" where
  "check_context embedded current =
     (if ch_wallet_client_id embedded \<noteq> ch_wallet_client_id current then Inl (D_ContextMismatch Ctx_WalletClientId)
      else if ch_device_key_ref embedded \<noteq> ch_device_key_ref current then Inl (D_ContextMismatch Ctx_DeviceKeyReference)
      else if ch_device_public_key embedded \<noteq> ch_device_public_key current
      then Inl (D_ContextMismatch Ctx_DevicePublicKey)
      else Inr ())"

type_synonym staged = "stored_sdjwt_credential list \<times> stored_mdoc_credential list"

definition stage_record :: "core_env \<Rightarrow> core \<Rightarrow> nat \<Rightarrow> credential_record \<Rightarrow> staged \<Rightarrow> durable_error + staged" where
  "stage_record E core index r st =
     (case st of (staged_sdjwt, staged_mdoc) \<Rightarrow>
      bind_result (record_format r) (\<lambda>format.
      bind_result (map_err (D_CredentialInvalid index)
        (authenticate_received_credential E core format (cr_raw r) (cr_certificate_path r) (cr_issuer_identity r)))
        (\<lambda>auth.
      let provenance = ac_provenance auth in
      if cp_format provenance \<noteq> format \<or> cp_raw_credential provenance \<noteq> cr_raw r
         \<or> ev_identity (cp_issuer provenance) \<noteq> cr_issuer_identity r
         \<or> ev_certificate_path (cp_issuer provenance) \<noteq> cr_certificate_path r
      then Inl (D_CredentialEvidenceMismatch index)
      else
        case ac_credential auth of
          VerifiedSdJwt holding authenticated validity \<Rightarrow>
            if list_ex (\<lambda>s. ss_holding s = holding) staged_sdjwt then Inl D_DuplicateCredential
            else
              Inr (staged_sdjwt @ [\<lparr>ss_holding = holding, ss_authenticated = Some authenticated, ss_validity = validity,
                ss_provenance = AuthenticatedProvenance provenance\<rparr>], staged_mdoc)
        | VerifiedMdoc holding validity \<Rightarrow>
            if list_ex (\<lambda>s. sm_holding s = holding) staged_mdoc then Inl D_DuplicateCredential
            else
              Inr (staged_sdjwt, staged_mdoc @ [\<lparr>sm_holding = holding, sm_validity = validity,
                sm_provenance = AuthenticatedProvenance provenance\<rparr>]))))"

fun stage_records ::
    "core_env \<Rightarrow> core \<Rightarrow> nat \<Rightarrow> credential_record list \<Rightarrow> staged \<Rightarrow> durable_error + staged" where
  "stage_records E core index [] st = Inr st"
| "stage_records E core index (r # rs) st =
     bind_result (stage_record E core index r st) (stage_records E core (Suc index) rs)"

definition staged_operation_id :: "bytes \<Rightarrow> wallet \<Rightarrow> u64" where
  "staged_operation_id random w =
     (let seed = operation_id_seed random in
      if seed = w_next_operation_id w then (seed mod push_bit 62 1) + 1 else seed)"

text \<open>The assignments of the commit point.\<close>

definition commit_restore :: "checkpoint \<Rightarrow> staged \<Rightarrow> transaction_log \<Rightarrow> u64 \<Rightarrow> wallet \<Rightarrow> wallet" where
  "commit_restore cp st staged_log next_id w =
     w\<lparr>w_core := (w_core w)\<lparr>co_credentials := fst st, co_mdoc_holdings := snd st,
         co_last_credential_ingestion_error := None, co_status_lists := []\<rparr>,
       w_seen_nonces := rs_presentation (cp_replay cp),
       w_pay_seen_nonces := rs_payment (cp_replay cp),
       w_iss_seen_c_nonces := rs_issuance (cp_replay cp),
       w_qes_seen_nonces := rs_qes (cp_replay cp),
       w_log := staged_log,
       w_vp := Vp_Idle, w_session := None, w_pending_rp_provenance := None,
       w_payment := Pay_Idle, w_pay_pending := None, w_active := Flow_None,
       w_next_operation_id := next_id, w_pending_operations := [],
       w_issuance := Vci_Idle, w_durable_issuance_interrupted := cp_issuance_interrupted cp,
       w_issuer_trusted_current := False, w_issuer_id_current := [], w_issuer_cert_chain_current := [],
       w_issuer_id_assertion_current := [], w_issuer_candidates_current := [],
       w_pending_verified_credential := None, w_issuance_consent_hash := ZERO_HASH,
       w_pending_status_references := [], w_pay_summary := None, w_pay_consent_hash := ZERO_HASH,
       w_qes := Qes_Idle, w_qes_consent_hash := ZERO_HASH, w_w2w := W2w_Idle, w_w2w_credential := None\<rparr>"

definition prepare_restore :: "core_env \<Rightarrow> bytes \<Rightarrow> u64 \<Rightarrow> wallet \<Rightarrow> durable_error + checkpoint \<times> staged \<times> transaction_log" where
  "prepare_restore E bytes envelope_generation w =
     (if envelope_generation = 0 then Inl D_InvalidGeneration
      else
        bind_result (decode_checkpoint bytes) (\<lambda>cp.
        if cp_generation cp \<noteq> envelope_generation
        then Inl (D_GenerationMismatch envelope_generation (cp_generation cp))
        else
          bind_result (current_context E w) (\<lambda>current.
          bind_result (check_context (cp_context cp) current) (\<lambda>_.
          bind_result (require_current_environment w) (\<lambda>current_trust_sequence.
          if co_now_epoch (w_core w) < cp_clock_high_water cp
          then Inl (D_ClockRollback (cp_clock_high_water cp) (co_now_epoch (w_core w)))
          else if current_trust_sequence < cp_trust_sequence_high_water cp
          then Inl (D_TrustListRollback (cp_trust_sequence_high_water cp) current_trust_sequence)
          else
            bind_result (stage_records E (w_core w) 0 (cp_credentials cp) ([], [])) (\<lambda>st.
            bind_result (validate_transaction_clock (cp_transaction_entries cp) (cp_clock_high_water cp)) (\<lambda>_.
            bind_result (map_err D_TransactionLog
              (restore_checked (ce_sha256 E) (cp_transaction_entries cp) (cp_transaction_head cp))) (\<lambda>staged_log.
              Inr (cp, st, staged_log)))))))))"

definition restore_durable_checkpoint ::
    "core_env \<Rightarrow> bytes \<Rightarrow> bytes \<Rightarrow> u64 \<Rightarrow> wallet \<Rightarrow> (durable_error + unit) \<times> wallet" where
  "restore_durable_checkpoint E random bytes envelope_generation w =
     (case prepare_restore E bytes envelope_generation w of
        Inl e \<Rightarrow> (Inl e, w)
      | Inr (cp, st, staged_log) \<Rightarrow> (Inr (), commit_restore cp st staged_log (staged_operation_id random w) w))"

section \<open>The engine handle\<close>

datatype durable_ffi_error =
    Ffi_InvalidLifecycleState
  | Ffi_InvalidEnvironment
  | Ffi_TrustEnvironmentRejected
  | Ffi_WuaEnvironmentRejected
  | Ffi_InvalidGeneration
  | Ffi_ResourceLimit
  | Ffi_MalformedCheckpoint
  | Ffi_UnsupportedCheckpointVersion
  | Ffi_ContextRejected
  | Ffi_ClockRejected
  | Ffi_DeviceKeyRejected
  | Ffi_TrustRejected
  | Ffi_WuaRejected
  | Ffi_AuditLogRejected
  | Ffi_CredentialRejected

definition durable_ffi_from :: "durable_error \<Rightarrow> durable_ffi_error" where
  "durable_ffi_from e =
     (case e of
        D_ResourceLimit _ _ _ \<Rightarrow> Ffi_ResourceLimit
      | D_SizeOverflow \<Rightarrow> Ffi_ResourceLimit
      | D_Truncated \<Rightarrow> Ffi_MalformedCheckpoint
      | D_NonCanonical \<Rightarrow> Ffi_MalformedCheckpoint
      | D_Malformed \<Rightarrow> Ffi_MalformedCheckpoint
      | D_UnsupportedVersion _ \<Rightarrow> Ffi_UnsupportedCheckpointVersion
      | D_InvalidGeneration \<Rightarrow> Ffi_InvalidGeneration
      | D_GenerationMismatch _ _ \<Rightarrow> Ffi_InvalidGeneration
      | D_ContextMismatch _ \<Rightarrow> Ffi_ContextRejected
      | D_ClockUnavailable \<Rightarrow> Ffi_ClockRejected
      | D_ClockRollback _ _ \<Rightarrow> Ffi_ClockRejected
      | D_DeviceKeyUnavailable \<Rightarrow> Ffi_DeviceKeyRejected
      | D_DeviceKeyInvalid \<Rightarrow> Ffi_DeviceKeyRejected
      | D_TrustListUnavailable \<Rightarrow> Ffi_TrustRejected
      | D_TrustListExpired \<Rightarrow> Ffi_TrustRejected
      | D_TrustListRollback _ _ \<Rightarrow> Ffi_TrustRejected
      | D_WuaUnavailable \<Rightarrow> Ffi_WuaRejected
      | D_WuaInvalid \<Rightarrow> Ffi_WuaRejected
      | D_AuditLogUnavailable \<Rightarrow> Ffi_AuditLogRejected
      | D_AuditTimestampAfterClock _ _ _ \<Rightarrow> Ffi_AuditLogRejected
      | D_TransactionLog _ \<Rightarrow> Ffi_AuditLogRejected
      | D_CredentialInvalid _ _ \<Rightarrow> Ffi_CredentialRejected
      | D_CredentialEvidenceMismatch _ \<Rightarrow> Ffi_CredentialRejected
      | D_DuplicateCredential \<Rightarrow> Ffi_CredentialRejected)"

datatype engine_phase = Phase_Fresh | Phase_Prepared | Phase_Running | Phase_Legacy

record engine =
  eg_wallet :: wallet
  eg_phase :: engine_phase

definition MAX_DURABLE_TRUST_LIST_BYTES :: nat where "MAX_DURABLE_TRUST_LIST_BYTES = 4 * 1024 * 1024"
definition MAX_DURABLE_WUA_BYTES :: nat where "MAX_DURABLE_WUA_BYTES = 64 * 1024"

definition engine_new :: "string \<Rightarrow> string \<Rightarrow> bytes \<Rightarrow> engine" where
  "engine_new wallet_client_id device_key_ref random =
     \<lparr>eg_wallet = wallet_new wallet_client_id device_key_ref random, eg_phase = Phase_Fresh\<rparr>"

definition mark_legacy_if_fresh :: "engine \<Rightarrow> engine" where
  "mark_legacy_if_fresh g = (if eg_phase g = Phase_Fresh then g\<lparr>eg_phase := Phase_Legacy\<rparr> else g)"

definition environment_well_formed :: "int \<Rightarrow> bytes \<Rightarrow> bytes \<Rightarrow> bytes \<Rightarrow> bytes \<Rightarrow> bytes \<Rightarrow> bool" where
  "environment_well_formed clock_epoch signed_trust_list operator_public_key device_public_key wua_jwt wua_provider_public_key \<longleftrightarrow>
     \<not> (clock_epoch \<le> 0
        \<or> signed_trust_list = [] \<or> length signed_trust_list > MAX_DURABLE_TRUST_LIST_BYTES
        \<or> wua_jwt = [] \<or> length wua_jwt > MAX_DURABLE_WUA_BYTES
        \<or> \<not> uncompressed_point operator_public_key
        \<or> \<not> uncompressed_point device_public_key
        \<or> \<not> uncompressed_point wua_provider_public_key)"

definition prepare_durable_environment ::
    "core_env \<Rightarrow> bytes \<Rightarrow> int \<Rightarrow> bytes \<Rightarrow> bytes \<Rightarrow> bytes \<Rightarrow> bytes \<Rightarrow> bytes \<Rightarrow> engine
      \<Rightarrow> (durable_ffi_error + unit) \<times> engine" where
  "prepare_durable_environment E random clock_epoch signed_trust_list operator_public_key device_public_key wua_jwt
       wua_provider_public_key g =
     (if \<not> environment_well_formed clock_epoch signed_trust_list operator_public_key device_public_key wua_jwt
           wua_provider_public_key
      then (Inl Ffi_InvalidEnvironment, g)
      else if eg_phase g \<noteq> Phase_Fresh then (Inl Ffi_InvalidLifecycleState, g)
      else
        let staged = wallet_new (w_wallet_client_id (eg_wallet g)) (w_device_key_ref (eg_wallet g)) random in
        case on_set_clock clock_epoch staged of (effects, staged) \<Rightarrow>
        if effects \<noteq> [] then (Inl Ffi_InvalidEnvironment, g)
        else
          case load_trust_list E signed_trust_list operator_public_key (w_core staged) of
            (Inl _, _) \<Rightarrow> (Inl Ffi_TrustEnvironmentRejected, g)
          | (Inr _, core) \<Rightarrow>
              (case load_wua E wua_jwt wua_provider_public_key (load_device_key device_public_key core) of
                 (Inl _, _) \<Rightarrow> (Inl Ffi_WuaEnvironmentRejected, g)
               | (Inr _, core) \<Rightarrow> (Inr (), \<lparr>eg_wallet = staged\<lparr>w_core := core\<rparr>, eg_phase = Phase_Prepared\<rparr>)))"

record ffi_durable_checkpoint =
  fdc_generation :: u64
  fdc_bytes :: bytes

definition engine_export :: "core_env \<Rightarrow> u64 \<Rightarrow> engine \<Rightarrow> durable_ffi_error + ffi_durable_checkpoint" where
  "engine_export E generation g =
     (if eg_phase g \<noteq> Phase_Prepared \<and> eg_phase g \<noteq> Phase_Running then Inl Ffi_InvalidLifecycleState
      else
        bind_result (map_err durable_ffi_from (export_durable_checkpoint E generation (eg_wallet g))) (\<lambda>bytes.
          Inr \<lparr>fdc_generation = generation, fdc_bytes = bytes\<rparr>))"

definition engine_restore ::
    "core_env \<Rightarrow> bytes \<Rightarrow> ffi_durable_checkpoint \<Rightarrow> engine \<Rightarrow> (durable_ffi_error + unit) \<times> engine" where
  "engine_restore E random checkpoint g =
     (if eg_phase g \<noteq> Phase_Prepared then (Inl Ffi_InvalidLifecycleState, g)
      else
        case restore_durable_checkpoint E random (fdc_bytes checkpoint) (fdc_generation checkpoint) (eg_wallet g) of
          (Inl e, w) \<Rightarrow> (Inl (durable_ffi_from e), g\<lparr>eg_wallet := w\<rparr>)
        | (Inr _, w) \<Rightarrow> (Inr (), \<lparr>eg_wallet = w, eg_phase = Phase_Running\<rparr>))"

text \<open>The entry points that reach the core without a prepared environment mark a fresh engine as legacy.\<close>

definition engine_with_core :: "(core \<Rightarrow> 'r \<times> core) \<Rightarrow> engine \<Rightarrow> 'r \<times> engine" where
  "engine_with_core f g =
     (let g = mark_legacy_if_fresh g in
      case f (w_core (eg_wallet g)) of (r, core) \<Rightarrow> (r, g\<lparr>eg_wallet := (eg_wallet g)\<lparr>w_core := core\<rparr>\<rparr>))"

definition engine_load_trust_list :: "core_env \<Rightarrow> bytes \<Rightarrow> bytes \<Rightarrow> engine \<Rightarrow> (trust_error + unit) \<times> engine" where
  "engine_load_trust_list E signed_list operator_public_key =
     engine_with_core (load_trust_list E signed_list operator_public_key)"

definition engine_load_device_key :: "bytes \<Rightarrow> engine \<Rightarrow> engine" where
  "engine_load_device_key key g = snd (engine_with_core (\<lambda>core. ((), load_device_key key core)) g)"

definition engine_load_wua :: "core_env \<Rightarrow> bytes \<Rightarrow> bytes \<Rightarrow> engine \<Rightarrow> (wua_error + unit) \<times> engine" where
  "engine_load_wua E wua_jwt provider_public_key = engine_with_core (load_wua E wua_jwt provider_public_key)"

definition engine_load_status_list ::
    "core_env \<Rightarrow> string \<Rightarrow> bytes \<Rightarrow> bytes list \<Rightarrow> engine \<Rightarrow> (status_load_error + unit) \<times> engine" where
  "engine_load_status_list E uri token provider_cert_chain =
     engine_with_core (load_status_list E uri token provider_cert_chain)"

definition engine_ingest_credential ::
    "core_env \<Rightarrow> string \<Rightarrow> bytes \<Rightarrow> bytes list \<Rightarrow> string \<Rightarrow> engine \<Rightarrow> (credential_ingestion_error + unit) \<times> engine" where
  "engine_ingest_credential E format credential issuer_cert_chain issuer_id =
     engine_with_core (ingest_credential E format credential issuer_cert_chain issuer_id)"

definition engine_redact_transaction :: "u64 \<Rightarrow> engine \<Rightarrow> bool \<times> engine" where
  "engine_redact_transaction seq g =
     (let g = (if eg_phase g \<noteq> Phase_Prepared \<and> eg_phase g \<noteq> Phase_Running then mark_legacy_if_fresh g else g) in
      case redact_transaction seq (eg_wallet g) of (r, w) \<Rightarrow> (r, g\<lparr>eg_wallet := w\<rparr>))"

definition engine_wipe_transaction_log :: "engine \<Rightarrow> engine" where
  "engine_wipe_transaction_log g =
     (let g = (if eg_phase g \<noteq> Phase_Prepared \<and> eg_phase g \<noteq> Phase_Running then mark_legacy_if_fresh g else g) in
      g\<lparr>eg_wallet := wipe_transaction_log (eg_wallet g)\<rparr>)"

definition durable_resume_effects :: "engine \<Rightarrow> effect list" where
  "durable_resume_effects g =
     (if eg_phase g \<noteq> Phase_Running \<or> \<not> w_durable_issuance_interrupted (eg_wallet g) then []
      else
        [Eff_Render (Sc_IssuanceRecovery
           \<lparr>irs_reason = SessionInterrupted, irs_document_name = ''Digital identity document'',
             irs_attempts_remaining = None, irs_can_resume = False\<rparr>)])"

end
