(* ===== verification/Checkpoint_Sound.thy ===== *)
theory Checkpoint_Sound
  imports Checkpoint
begin

text \<open>
  What the checkpoint format guarantees: the encoder writes the canonical CBOR of one value, every reader consumes
  exactly the encoding of what it returns, and the structural scan accepts that encoding within its budget.
\<close>

section \<open>The value a checkpoint stands for\<close>

definition int_value :: "int \<Rightarrow> cbor_value" where
  "int_value v = (if v \<ge> 0 then Uint (word_of_int v) else Nint (word_of_int (-1 - v)))"

fun numbered :: "nat \<Rightarrow> cbor_value list \<Rightarrow> (cbor_value \<times> cbor_value) list" where
  "numbered k [] = []"
| "numbered k (v # vs) = (Uint (of_nat k), v) # numbered (Suc k) vs"

definition keyed :: "cbor_value list \<Rightarrow> cbor_value" where
  "keyed vs = Map (numbered 1 vs)"

definition kind_code :: "txn_kind \<Rightarrow> u64" where
  "kind_code k = (case k of K_Presentation \<Rightarrow> 1 | K_Issuance \<Rightarrow> 2 | K_Payment \<Rightarrow> 3 | K_Transfer \<Rightarrow> 4)"

definition outcome_code :: "txn_outcome \<Rightarrow> u64" where
  "outcome_code k = (case k of O_Completed \<Rightarrow> 1 | O_Declined \<Rightarrow> 2 | O_Aborted \<Rightarrow> 3)"

definition payment_value :: "payment_summary option \<Rightarrow> cbor_value" where
  "payment_value p =
     (case p of
        None \<Rightarrow> Null
      | Some p \<Rightarrow> keyed [Text (ps_payee p), Uint (ps_amount_minor p), Text (ps_currency p)])"

definition entry_value :: "log_entry \<Rightarrow> cbor_value" where
  "entry_value e =
     keyed [Uint (en_seq e), int_value (en_epoch e), Uint (kind_code (en_kind e)), Text (en_counterparty e),
       Bytes (en_consent_hash e), Array (map Text (en_claim_paths e)), Uint (outcome_code (en_outcome e)),
       payment_value (en_payment e), Bytes (en_prev_hash e), Bytes (en_entry_hash e), Bool (en_redacted e)]"

definition credential_value :: "credential_record \<Rightarrow> cbor_value" where
  "credential_value c =
     keyed [Uint (ucast (cr_format c)), Bytes (cr_raw c), Text (cr_issuer_identity c),
       Array (map Bytes (cr_certificate_path c))]"

definition checkpoint_value :: "checkpoint \<Rightarrow> cbor_value" where
  "checkpoint_value cp =
     keyed [Bytes CHECKPOINT_MAGIC, Uint CHECKPOINT_VERSION, Uint (cp_generation cp),
       keyed [Bytes (ch_wallet_client_id (cp_context cp)), Bytes (ch_device_key_ref (cp_context cp)),
         Bytes (ch_device_public_key (cp_context cp))],
       keyed [int_value (cp_clock_high_water cp), Uint (cp_trust_sequence_high_water cp)],
       Array (map credential_value (cp_credentials cp)),
       keyed [Array (map Text (rs_presentation (cp_replay cp))), Array (map Uint (rs_payment (cp_replay cp))),
         Array (map Uint (rs_issuance (cp_replay cp))), Array (map Uint (rs_qes (cp_replay cp)))],
       keyed [Array (map entry_value (cp_transaction_entries cp)), Bytes (cp_transaction_head cp)],
       Bool (cp_issuance_interrupted cp)]"

lemma uint_bytes_small: "k \<le> 23 \<Longrightarrow> to_canonical (Uint k) = [ucast k]"
  by (simp add: write_head_def)

lemma length_numbered [simp]: "length (numbered k vs) = length vs"
  by (induction k vs rule: numbered.induct) simp_all

lemma numbered_keys:
  assumes "k + length vs \<le> 24"
  shows "map key_bytes (numbered k vs) = map (\<lambda>i. [of_nat i]) [k..<k + length vs]"
  using assms
proof (induction k vs rule: numbered.induct)
  case (2 k v vs)
  then have "(of_nat k :: u64) \<le> 23" by (simp add: word_le_nat_alt unat_of_nat)
  then have "to_canonical (Uint (of_nat k)) = [of_nat k]"
    using 2(2) by (simp only: uint_bytes_small) (simp add: unsigned_of_nat take_bit_nat_eq_self)
  moreover have "[k..<k + length (v # vs)] = k # [Suc k..<Suc k + length vs]"
    by (simp add: upt_rec [of k] Suc_le_eq)
  ultimately show ?case using 2 by (simp del: to_canonical.simps(1))
qed simp

lemma numbered_keys_sorted:
  assumes "length vs \<le> 16"
  shows "sorted_wrt (<) (map key_bytes (numbered 1 vs))"
proof -
  have "(1 + of_nat i :: u8) < 1 + of_nat j" if "i < j" "j < 16" for i j
  proof -
    have "of_nat (Suc i) < (of_nat (Suc j) :: u8)"
      using that by (simp only: word_less_nat_alt unat_of_nat) simp
    then show ?thesis by simp
  qed
  then show ?thesis
    using assms by (auto simp: numbered_keys sorted_wrt_map sorted_wrt_iff_nth_less simp del: upt_Suc)
qed

lemma to_canonical_keyed:
  assumes "length vs \<le> 16"
  shows "to_canonical (keyed vs) =
    write_head 5 (of_nat (length vs))
    @ concat (map (\<lambda>p. to_canonical (fst p) @ to_canonical (snd p)) (numbered 1 vs))"
  using to_canonical_sorted_map [OF numbered_keys_sorted [OF assms]]
  by (simp add: keyed_def del: to_canonical.simps)

section \<open>What the encoder writes\<close>

definition emits :: "encoder \<Rightarrow> bytes \<Rightarrow> bool" where
  "emits op xs \<longleftrightarrow>
     (\<forall>out b. length out \<le> MAX_CHECKPOINT_BYTES \<longrightarrow>
        (op out = Inr b) = (b = out @ xs \<and> length b \<le> MAX_CHECKPOINT_BYTES))"

lemma max_checkpoint_fits: "n \<le> MAX_CHECKPOINT_BYTES \<Longrightarrow> n < 2 ^ 64"
  by (simp add: MAX_CHECKPOINT_BYTES_def)

lemma emits_extend: "emits (enc_extend xs) xs"
  by (auto simp: emits_def enc_extend_def bind_result_Inr_iff ok_or_Inr_iff not_less dest: max_checkpoint_fits split: if_splits)

lemma emits_then:
  assumes "emits op xs" "emits op' ys"
  shows "emits (\<lambda>out. bind_result (op out) op') (xs @ ys)"
  using assms by (auto simp: emits_def bind_result_Inr_iff)

lemma emits_Nil: "emits (enc_all []) []"
  by (auto simp: emits_def)

lemma emits_Cons: "emits op xs \<Longrightarrow> emits (enc_all ops) ys \<Longrightarrow> emits (enc_all (op # ops)) (xs @ ys)"
  using emits_then [of op xs "enc_all ops" ys] by (simp add: emits_def)

lemma enc_all_append: "enc_all (a @ b) out = bind_result (enc_all a out) (enc_all b)"
  by (induction a arbitrary: out) (simp_all add: bind_result_def split: sum.splits)

lemma emits_append: "emits (enc_all a) xs \<Longrightarrow> emits (enc_all b) ys \<Longrightarrow> emits (enc_all (a @ b)) (xs @ ys)"
  using emits_then [of "enc_all a" xs "enc_all b" ys] by (simp add: emits_def enc_all_append)

lemma emits_concat:
  assumes "\<And>x. x \<in> set xs \<Longrightarrow> emits (enc_all (f x)) (g x)"
  shows "emits (enc_all (concat (map f xs))) (concat (map g xs))"
  using assms by (induction xs) (simp_all add: emits_Nil emits_append)

lemma emits_map:
  assumes "\<And>x. x \<in> set xs \<Longrightarrow> emits (f x) (g x)"
  shows "emits (enc_all (map f xs)) (concat (map g xs))"
  using assms by (induction xs) (simp_all add: emits_Nil emits_Cons del: enc_all.simps)

lemma emits_head: "emits (enc_head m a) (write_head m a)"
  by (simp add: enc_head_def emits_extend)

lemma emits_uint: "emits (enc_uint v) (to_canonical (Uint v))"
  by (simp add: enc_uint_def emits_head)

lemma emits_int: "emits (enc_int v) (to_canonical (int_value v))"
  by (simp add: enc_int_def int_value_def enc_uint_def emits_head)

lemma emits_len: "n < 2 ^ 64 \<Longrightarrow> emits (enc_len m n) (write_head m (of_nat n))"
  using emits_head [of m "of_nat n"] by (simp add: emits_def enc_len_def)

lemma emits_array: "n < 2 ^ 64 \<Longrightarrow> emits (enc_array n) (write_head 4 (of_nat n))"
  by (simp add: enc_array_def emits_len)

lemma emits_map_head: "n < 2 ^ 64 \<Longrightarrow> emits (enc_map n) (write_head 5 (of_nat n))"
  by (simp add: enc_map_def emits_len)

lemma emits_bytes: "length v < 2 ^ 64 \<Longrightarrow> emits (enc_bytes v) (to_canonical (Bytes v))"
  using emits_then [OF emits_len emits_extend, of "length v" 2 v] by (simp add: emits_def enc_bytes_def)

lemma emits_text: "length v < 2 ^ 64 \<Longrightarrow> emits (enc_text v) (to_canonical (Text v))"
  using emits_then [OF emits_len emits_extend, of "length v" 3 "as_bytes v"] by (simp add: emits_def enc_text_def)

lemma emits_bool: "emits (enc_bool b) (to_canonical (Bool b))"
  using emits_extend [of "[if b then 0xf5 else 0xf4]"] by (simp add: enc_bool_def split: if_splits)

lemma emits_null: "emits enc_null (to_canonical Null)"
  by (simp add: enc_null_def emits_extend)

lemmas emits_steps = emits_Cons emits_append emits_uint emits_int emits_array emits_map_head emits_bytes emits_text
  emits_bool emits_null emits_Nil

section \<open>What the readers consume\<close>

text \<open>
  A reader consumes \<open>R\<close> when it succeeds exactly on an input that goes on with bytes \<open>b\<close> such that \<open>R x b\<close>, returns \<open>x\<close>
  and moves behind \<open>b\<close>.
\<close>

definition consumes :: "'a reader \<Rightarrow> ('a \<Rightarrow> bytes \<Rightarrow> bool) \<Rightarrow> bool" where
  "consumes m R \<longleftrightarrow>
     (\<forall>pre rest x c. length (pre @ rest) < 2 ^ 64 \<longrightarrow>
        (m \<lparr>cu_bytes = pre @ rest, cu_position = length pre\<rparr> = Inr (x, c)) =
        (\<exists>b post. rest = b @ post \<and> R x b \<and> c = \<lparr>cu_bytes = pre @ rest, cu_position = length (pre @ b)\<rparr>))"

lemma consumesI:
  assumes "\<And>pre rest x c. length (pre @ rest) < 2 ^ 64 \<Longrightarrow>
    (m \<lparr>cu_bytes = pre @ rest, cu_position = length pre\<rparr> = Inr (x, c)) =
    (\<exists>b post. rest = b @ post \<and> R x b \<and> c = \<lparr>cu_bytes = pre @ rest, cu_position = length (pre @ b)\<rparr>)"
  shows "consumes m R"
  using assms by (simp add: consumes_def)

lemma consumesD:
  assumes "consumes m R" "length (pre @ rest) < 2 ^ 64"
  shows "(m \<lparr>cu_bytes = pre @ rest, cu_position = length pre\<rparr> = Inr (x, c)) =
    (\<exists>b post. rest = b @ post \<and> R x b \<and> c = \<lparr>cu_bytes = pre @ rest, cu_position = length (pre @ b)\<rparr>)"
  using assms unfolding consumes_def by blast

lemma consumes_cong:
  assumes "consumes m R" "\<And>x b. R x b = R' x b"
  shows "consumes m R'"
proof -
  have "R = R'" using assms(2) by blast
  then show ?thesis using assms(1) by simp
qed

lemma consumes_bind:
  assumes m: "consumes m R" and f: "\<And>x b. R x b \<Longrightarrow> consumes (f x) (S x)"
  shows "consumes (rd_bind m f) (\<lambda>y b. \<exists>x b1 b2. b = b1 @ b2 \<and> R x b1 \<and> S x y b2)"
proof (rule consumesI)
  fix pre rest :: bytes and y c
  let ?at = "\<lambda>n. \<lparr>cu_bytes = pre @ rest, cu_position = n\<rparr>"
  assume len: "length (pre @ rest) < 2 ^ 64"
  have step: "(f x (?at (length (pre @ b1))) = Inr (y, c)) =
      (\<exists>b2 post. post1 = b2 @ post \<and> S x y b2 \<and> c = ?at (length (pre @ b1 @ b2)))"
    if "rest = b1 @ post1" "R x b1" for x b1 post1
    using consumesD [OF f [OF that(2)], of "pre @ b1" post1 y c] that len by (simp add: ac_simps)
  have run: "(rd_bind m f (?at (length pre)) = Inr (y, c)) =
      (\<exists>x c1. m (?at (length pre)) = Inr (x, c1) \<and> f x c1 = Inr (y, c))"
    by (auto simp: rd_bind_def bind_result_Inr_iff)
  show "(rd_bind m f (?at (length pre)) = Inr (y, c)) =
      (\<exists>b post. rest = b @ post \<and> (\<exists>x b1 b2. b = b1 @ b2 \<and> R x b1 \<and> S x y b2) \<and> c = ?at (length (pre @ b)))"
  proof
    assume "rd_bind m f (?at (length pre)) = Inr (y, c)"
    then obtain x b1 post1 where 1: "rest = b1 @ post1" "R x b1" and "f x (?at (length (pre @ b1))) = Inr (y, c)"
      unfolding run consumesD [OF m len] by blast
    then obtain b2 post where "post1 = b2 @ post" "S x y b2" "c = ?at (length (pre @ b1 @ b2))"
      unfolding step [OF 1] by blast
    with 1 show "\<exists>b post. rest = b @ post \<and> (\<exists>x b1 b2. b = b1 @ b2 \<and> R x b1 \<and> S x y b2) \<and> c = ?at (length (pre @ b))"
      by (intro exI [of _ "b1 @ b2"] exI [of _ post]) auto
  next
    assume "\<exists>b post. rest = b @ post \<and> (\<exists>x b1 b2. b = b1 @ b2 \<and> R x b1 \<and> S x y b2) \<and> c = ?at (length (pre @ b))"
    then obtain x b1 b2 post where 2: "rest = b1 @ b2 @ post" "R x b1" "S x y b2" "c = ?at (length (pre @ b1 @ b2))"
      by auto
    then have "m (?at (length pre)) = Inr (x, ?at (length (pre @ b1)))"
      unfolding consumesD [OF m len] by blast
    moreover have "f x (?at (length (pre @ b1))) = Inr (y, c)"
      unfolding step [OF 2(1,2)] using 2 by blast
    ultimately show "rd_bind m f (?at (length pre)) = Inr (y, c)"
      unfolding run by blast
  qed
qed

lemma consumes_return: "consumes (rd_return x) (\<lambda>y b. y = x \<and> b = [])"
  by (auto intro!: consumesI simp: rd_return_def)

lemma consumes_lift: "consumes (rd_lift r) (\<lambda>x b. r = Inr x \<and> b = [])"
  by (auto intro!: consumesI simp: rd_lift_def bind_result_Inr_iff)

lemma consumes_fail: "consumes (rd_lift (Inl e)) (\<lambda>x b. False)"
  by (rule consumes_cong [OF consumes_lift]) simp

lemma read_head_iff:
  assumes "m < 8"
  shows "(read_head bs = Inr (m, a, rest)) = (bs = write_head m a @ rest)"
  using assms read_head_Inr read_write_head by blast

lemma read_head_major:
  assumes "read_head bs = Inr (m, a, rest)"
  shows "m < 8"
proof -
  obtain b where m: "m = drop_bit 5 (b :: u8)"
    using assms by (auto simp: read_head_def bind_result_Inr_iff split: list.splits)
  have "unat b < 256" using unsigned_less [of b, where ?'a = nat] by simp
  then have "take_bit 8 (unat b) = unat b" "drop_bit 5 (unat b) < 8"
    by (simp_all add: take_bit_nat_eq_self drop_bit_eq_div div_less_iff_less_mult)
  then show ?thesis
    by (simp add: m word_less_nat_alt unsigned_drop_bit_eq)
qed

lemma consumes_any_head: "consumes cu_any_head (\<lambda>(m, a) b. m < 8 \<and> b = write_head m a)"
proof (rule consumesI, clarify)
  fix pre rest :: bytes and m a c
  assume len: "length (pre @ rest) < 2 ^ 64"
  have "(cu_any_head \<lparr>cu_bytes = pre @ rest, cu_position = length pre\<rparr> = Inr ((m, a), c)) =
    (\<exists>post. read_head rest = Inr (m, a, post) \<and>
       c = \<lparr>cu_bytes = pre @ rest, cu_position = length pre + (length rest - length post)\<rparr>)"
    using len
    by (auto simp: cu_any_head_def get_from_def bind_result_Inr_iff ok_or_Inr_iff map_err_Inr_iff)
  also have "\<dots> = (\<exists>post. m < 8 \<and> rest = write_head m a @ post \<and>
       c = \<lparr>cu_bytes = pre @ rest, cu_position = length (pre @ write_head m a)\<rparr>)"
    using read_head_iff [of m rest a] read_head_major [of rest m a] by (cases "m < 8") auto
  finally show "(cu_any_head \<lparr>cu_bytes = pre @ rest, cu_position = length pre\<rparr> = Inr ((m, a), c)) =
    (\<exists>b post. rest = b @ post \<and> (m < 8 \<and> b = write_head m a) \<and>
       c = \<lparr>cu_bytes = pre @ rest, cu_position = length (pre @ b)\<rparr>)"
    by auto
qed

lemma consumes_head:
  assumes "m < 8"
  shows "consumes (cu_head m) (\<lambda>a b. b = write_head m a)"
proof (rule consumesI)
  fix pre rest :: bytes and a c
  assume len: "length (pre @ rest) < 2 ^ 64"
  have "(cu_head m \<lparr>cu_bytes = pre @ rest, cu_position = length pre\<rparr> = Inr (a, c)) =
    (\<exists>post. read_head rest = Inr (m, a, post) \<and>
       c = \<lparr>cu_bytes = pre @ rest, cu_position = length pre + (length rest - length post)\<rparr>)"
    using len
    by (auto simp: cu_head_def get_from_def bind_result_Inr_iff ok_or_Inr_iff map_err_Inr_iff split: if_splits)
  then show "(cu_head m \<lparr>cu_bytes = pre @ rest, cu_position = length pre\<rparr> = Inr (a, c)) =
    (\<exists>b post. rest = b @ post \<and> b = write_head m a \<and> c = \<lparr>cu_bytes = pre @ rest, cu_position = length (pre @ b)\<rparr>)"
    by (auto simp: read_head_iff [OF assms])
qed

lemma consumes_uint: "consumes cu_uint (\<lambda>v b. b = to_canonical (Uint v))"
  by (simp add: cu_uint_def consumes_head)

lemma unat_of_nat_max: "maximum < 2 ^ 64 \<Longrightarrow> n \<le> maximum \<Longrightarrow> unat (of_nat n :: u64) = n"
  by (simp add: unat_of_nat_len)

lemma consumes_container:
  assumes "m < 8" "maximum < 2 ^ 64"
  shows "consumes (cu_container m maximum) (\<lambda>n b. n \<le> maximum \<and> b = write_head m (of_nat n))"
  unfolding cu_container_def
  by (rule consumes_cong, rule consumes_bind [OF consumes_head [OF assms(1)] consumes_lift])
    (use unat_of_nat_max [OF assms(2)] in \<open>auto simp: not_less split: if_splits intro!: exI [of _ "of_nat _"]\<close>)

lemma consumes_exact_map:
  assumes "n < 2 ^ 64"
  shows "consumes (cu_exact_map n) (\<lambda>_ b. b = write_head 5 (of_nat n))"
  unfolding cu_exact_map_def
  by (rule consumes_cong, rule consumes_bind [OF consumes_container consumes_lift]) (use assms in \<open>auto simp: ensure_Inr_iff\<close>)

lemma consumes_key: "consumes (cu_key k) (\<lambda>_ b. b = to_canonical (Uint k))"
  unfolding cu_key_def
  by (rule consumes_cong, rule consumes_bind [OF consumes_uint consumes_lift]) (auto simp: ensure_Inr_iff)

lemma consumes_body: "consumes (cu_body maximum n) (\<lambda>v b. n \<le> maximum \<and> length v = n \<and> b = v)"
proof (rule consumesI)
  fix pre rest v :: bytes and c
  assume len: "length (pre @ rest) < 2 ^ 64"
  have "(cu_body maximum n \<lparr>cu_bytes = pre @ rest, cu_position = length pre\<rparr> = Inr (v, c)) =
    (n \<le> maximum \<and> n \<le> length rest \<and> v = take n rest \<and>
     c = \<lparr>cu_bytes = pre @ rest, cu_position = length pre + n\<rparr>)"
    using len
    by (auto simp: cu_body_def get_range_def bind_result_Inr_iff ok_or_Inr_iff split: if_splits)
  then show "(cu_body maximum n \<lparr>cu_bytes = pre @ rest, cu_position = length pre\<rparr> = Inr (v, c)) =
    (\<exists>b post. rest = b @ post \<and> (n \<le> maximum \<and> length v = n \<and> b = v) \<and>
       c = \<lparr>cu_bytes = pre @ rest, cu_position = length (pre @ b)\<rparr>)"
    by (auto intro: exI [of _ "drop n rest"])
qed

lemma consumes_bytes:
  assumes "maximum < 2 ^ 64"
  shows "consumes (cu_borrowed_bytes maximum) (\<lambda>v b. length v \<le> maximum \<and> b = to_canonical (Bytes v))"
  unfolding cu_borrowed_bytes_def
  by (rule consumes_cong, rule consumes_bind [OF consumes_head consumes_body])
    (use unat_of_nat_max [OF assms] in \<open>auto intro!: exI [of _ "of_nat _"]\<close>)

lemma consumes_hash: "consumes cu_hash (\<lambda>v b. length v = 32 \<and> b = to_canonical (Bytes v))"
  unfolding cu_hash_def
  by (rule consumes_cong, rule consumes_bind [OF consumes_bytes consumes_lift]) (auto split: if_splits)

lemma consumes_text:
  assumes "maximum < 2 ^ 64"
  shows "consumes (cu_borrowed_text maximum)
    (\<lambda>v b. valid_str v \<and> length v \<le> maximum \<and> b = to_canonical (Text v))"
  unfolding cu_borrowed_text_def
  by (rule consumes_cong, rule consumes_bind [OF consumes_head consumes_bind [OF consumes_body consumes_lift]])
    (use unat_of_nat_max [OF assms] in \<open>auto simp: ok_or_Inr_iff from_utf8_Some_iff intro!: exI [of _ "of_nat _"]\<close>)

lemma consumes_bool: "consumes cu_bool (\<lambda>v b. b = to_canonical (Bool v))"
proof (rule consumesI)
  fix pre rest :: bytes and v c
  show "(cu_bool \<lparr>cu_bytes = pre @ rest, cu_position = length pre\<rparr> = Inr (v, c)) =
    (\<exists>b post. rest = b @ post \<and> b = to_canonical (Bool v) \<and>
       c = \<lparr>cu_bytes = pre @ rest, cu_position = length (pre @ b)\<rparr>)"
    by (cases rest) (auto simp: cu_bool_def nth_append)
qed

lemma consumes_int: "consumes cu_int (\<lambda>v b. in_i64 v \<and> b = to_canonical (int_value v))"
proof -
  let ?check = "\<lambda>p :: u8 \<times> u64. case p of (m, a) \<Rightarrow>
    if m = 0 then (if uint a \<le> i64_max then Inr (uint a) else Inl D_Malformed)
    else if m = 1 \<and> uint a \<le> i64_max then Inr (-1 - uint a) else Inl D_Malformed"
  have eq: "cu_int = rd_bind cu_any_head (\<lambda>p. rd_lift (?check p))"
    unfolding cu_int_def by (rule arg_cong [of _ _ "rd_bind cu_any_head"]) (auto simp: fun_eq_iff)
  have "(\<exists>p b1 b2. b = b1 @ b2 \<and> (case p of (m, a) \<Rightarrow> \<lambda>b. m < 8 \<and> b = write_head m a) b1 \<and> ?check p = Inr v \<and> b2 = []) =
      (in_i64 v \<and> b = to_canonical (int_value v))" for v b
  proof
    assume v: "in_i64 v \<and> b = to_canonical (int_value v)"
    have u: "uint (word_of_int i :: u64) = i" if "0 \<le> i" "i \<le> i64_max" for i
      using that by (simp add: uint_word_of_int i64_max_def)
    have pos: "b = write_head 0 (word_of_int v) \<and> ?check (0, word_of_int v) = Inr v" if "v \<ge> 0"
      using that v u [of v] by (simp add: int_value_def in_i64_def)
    have neg: "b = write_head 1 (word_of_int (-1 - v)) \<and> ?check (1, word_of_int (-1 - v)) = Inr v" if "\<not> v \<ge> 0"
    proof -
      have "uint (word_of_int (-1 - v) :: u64) = -1 - v" "-1 - v \<le> i64_max"
        using that v u [of "-1 - v"] by (simp_all add: in_i64_def i64_min_def i64_max_def del: of_int_diff)
      with that v show ?thesis by (simp add: int_value_def del: of_int_diff)
    qed
    show "\<exists>p b1 b2. b = b1 @ b2 \<and> (case p of (m, a) \<Rightarrow> \<lambda>b. m < 8 \<and> b = write_head m a) b1 \<and> ?check p = Inr v \<and> b2 = []"
    proof (cases "v \<ge> 0")
      case True
      show ?thesis using pos [OF True]
        by - (rule exI [of _ "(0, word_of_int v)"], rule exI [of _ b], rule exI [of _ "[]"], simp)
    next
      case False
      show ?thesis using neg [OF False]
        by - (rule exI [of _ "(1, word_of_int (-1 - v))"], rule exI [of _ b], rule exI [of _ "[]"], simp del: of_int_diff)
    qed
  next
    assume "\<exists>p b1 b2. b = b1 @ b2 \<and> (case p of (m, a) \<Rightarrow> \<lambda>b. m < 8 \<and> b = write_head m a) b1 \<and> ?check p = Inr v \<and> b2 = []"
    moreover have "\<not> uint a \<le> -1" for a :: u64
      using unsigned_greater_eq [of a, where ?'a = int] by linarith
    ultimately show "in_i64 v \<and> b = to_canonical (int_value v)"
      by (auto simp: int_value_def i64_defs split: if_splits)
  qed
  then show ?thesis
    unfolding eq by (intro consumes_cong [OF consumes_bind [OF consumes_any_head consumes_lift]])
qed

section \<open>Decoded values\<close>

definition payment_ok :: "payment_summary option \<Rightarrow> bool" where
  "payment_ok p \<longleftrightarrow>
     (case p of
        None \<Rightarrow> True
      | Some p \<Rightarrow> valid_str (ps_payee p) \<and> length (ps_payee p) \<le> MAX_PAYMENT_PAYEE_BYTES
          \<and> valid_str (ps_currency p) \<and> length (ps_currency p) \<le> 3)"

definition payment_size :: "payment_summary option \<Rightarrow> nat" where
  "payment_size p = (case p of None \<Rightarrow> 0 | Some p \<Rightarrow> length (ps_payee p) + length (ps_currency p))"

lemma limits_fit:
  "MAX_PAYMENT_PAYEE_BYTES < 2 ^ 64" "MAX_COUNTERPARTY_BYTES < 2 ^ 64" "MAX_CLAIM_PATH_BYTES < 2 ^ 64"
  "MAX_CLAIM_PATHS_PER_ENTRY < 2 ^ 64" "MAX_ENTRIES < 2 ^ 64" "MAX_CREDENTIALS < 2 ^ 64"
  "MAX_RAW_CREDENTIAL_BYTES < 2 ^ 64" "MAX_ISSUER_ID_BYTES < 2 ^ 64" "MAX_CERTIFICATES_PER_PATH < 2 ^ 64"
  "MAX_CERTIFICATE_BYTES < 2 ^ 64" "MAX_REPLAY_VALUES < 2 ^ 64" "MAX_REPLAY_NONCE_BYTES < 2 ^ 64"
  "length CHECKPOINT_MAGIC < 2 ^ 64" "(3 :: nat) < 2 ^ 64" "(4 :: nat) < 2 ^ 64" "(9 :: nat) < 2 ^ 64"
  "(11 :: nat) < 2 ^ 64" "(2 :: nat) < 2 ^ 64"
  by (simp_all add: MAX_PAYMENT_PAYEE_BYTES_def MAX_COUNTERPARTY_BYTES_def MAX_CLAIM_PATH_BYTES_def
      MAX_CLAIM_PATHS_PER_ENTRY_def MAX_ENTRIES_def MAX_CREDENTIALS_def MAX_RAW_CREDENTIAL_BYTES_def
      MAX_ISSUER_ID_BYTES_def MAX_CERTIFICATES_PER_PATH_def MAX_CERTIFICATE_BYTES_def MAX_REPLAY_VALUES_def
      MAX_REPLAY_NONCE_BYTES_def CHECKPOINT_MAGIC_def)

lemma charge_iff:
  "charge_transaction_payload n a = Inr k \<longleftrightarrow> k = n + a \<and> k \<le> MAX_AGGREGATE_BYTES"
  by (auto simp: charge_transaction_payload_def bind_result_Inr_iff ok_or_Inr_iff MAX_AGGREGATE_BYTES_def split: if_splits)

lemma total_iff:
  "checked_total n a = Inr k \<longleftrightarrow> k = n + a \<and> k \<le> MAX_CREDENTIAL_EVIDENCE_BYTES"
  by (auto simp: checked_total_def bind_result_Inr_iff ok_or_Inr_iff MAX_CREDENTIAL_EVIDENCE_BYTES_def split: if_splits)

lemmas consumes_text_limits = consumes_text [OF limits_fit(1)] consumes_text [OF limits_fit(2)] consumes_text [OF limits_fit(3)]
  consumes_text [OF limits_fit(8)] consumes_text [OF limits_fit(12)] consumes_text [OF limits_fit(14)]

lemmas consumes_bytes_limits = consumes_bytes [OF limits_fit(7)] consumes_bytes [OF limits_fit(10)] consumes_bytes [OF limits_fit(13)]

lemmas consumes_map_limits = consumes_exact_map [OF limits_fit(14)] consumes_exact_map [OF limits_fit(15)]
  consumes_exact_map [OF limits_fit(16)] consumes_exact_map [OF limits_fit(17)] consumes_exact_map [OF limits_fit(18)]

lemma major_four: "(4 :: u8) < 8" by simp

lemmas consumes_array_limits = consumes_container [OF major_four limits_fit(4)] consumes_container [OF major_four limits_fit(5)]
  consumes_container [OF major_four limits_fit(6)] consumes_container [OF major_four limits_fit(9)]
  consumes_container [OF major_four limits_fit(11)]

lemmas consumes_steps = consumes_bind consumes_key consumes_uint consumes_int consumes_hash consumes_bool consumes_lift consumes_return
  consumes_text_limits consumes_bytes_limits consumes_map_limits consumes_array_limits

lemma consumes_payment_map:
  "consumes
     (rd_bind (cu_exact_map 3) (\<lambda>_.
      rd_bind (cu_key 1) (\<lambda>_.
      rd_bind (cu_borrowed_text MAX_PAYMENT_PAYEE_BYTES) (\<lambda>payee.
      rd_bind (rd_lift (charge_transaction_payload payload (length payee))) (\<lambda>payload.
      rd_bind (cu_key 2) (\<lambda>_.
      rd_bind cu_uint (\<lambda>amount_minor.
      rd_bind (cu_key 3) (\<lambda>_.
      rd_bind (cu_borrowed_text 3) (\<lambda>currency.
      rd_bind (rd_lift (charge_transaction_payload payload (length currency))) (\<lambda>payload.
        rd_return
          (Some \<lparr>ps_payee = payee, ps_amount_minor = amount_minor, ps_currency = currency\<rparr>, payload)))))))))))
     (\<lambda>r b. fst r \<noteq> None \<and> payment_ok (fst r) \<and> snd r = payload + payment_size (fst r) \<and> snd r \<le> MAX_AGGREGATE_BYTES
        \<and> b = to_canonical (payment_value (fst r)))"
  apply (rule consumes_cong)
   apply (rule consumes_steps)+
  subgoal for r b
    by (cases r; cases "fst r"; cases "the (fst r)")
      (simp_all add: charge_iff payment_ok_def payment_value_def payment_size_def to_canonical_keyed
        del: to_canonical.simps, auto)
  done

lemma payment_map_head: "0xF6 # r \<noteq> to_canonical (keyed [x, y, z]) @ post"
  by (simp add: to_canonical_keyed write_head_def del: to_canonical.simps)

lemma consumes_null_or_payment:
  assumes "payload \<le> MAX_AGGREGATE_BYTES"
  shows "consumes (cu_null_or_payment payload)
    (\<lambda>r b. payment_ok (fst r) \<and> snd r = payload + payment_size (fst r) \<and> snd r \<le> MAX_AGGREGATE_BYTES
       \<and> b = to_canonical (payment_value (fst r)))"
proof (rule consumesI)
  fix pre rest :: bytes and r c
  assume len: "length (pre @ rest) < 2 ^ 64"
  show "(cu_null_or_payment payload \<lparr>cu_bytes = pre @ rest, cu_position = length pre\<rparr> = Inr (r, c)) =
    (\<exists>b post. rest = b @ post \<and>
       (payment_ok (fst r) \<and> snd r = payload + payment_size (fst r) \<and> snd r \<le> MAX_AGGREGATE_BYTES
        \<and> b = to_canonical (payment_value (fst r))) \<and>
       c = \<lparr>cu_bytes = pre @ rest, cu_position = length (pre @ b)\<rparr>)"
  proof (cases "\<exists>rest'. rest = 0xF6 # rest'")
    case True
    then obtain rest' where rest: "rest = 0xF6 # rest'" by blast
    then have "(cu_null_or_payment payload \<lparr>cu_bytes = pre @ rest, cu_position = length pre\<rparr> = Inr (r, c)) =
      (r = (None, payload) \<and> c = \<lparr>cu_bytes = pre @ rest, cu_position = length pre + 1\<rparr>)"
      by (auto simp: cu_null_or_payment_def)
    with rest assms show ?thesis
      by (cases r; cases "fst r")
        (auto simp: payment_ok_def payment_size_def payment_value_def payment_map_head)
  next
    case False
    then have "\<not> (length pre < length (pre @ rest) \<and> (pre @ rest) ! length pre = 0xF6)"
      by (cases rest) auto
    then show ?thesis
      unfolding cu_null_or_payment_def
      using consumesD [OF consumes_payment_map len, of payload r c] False
      by (cases "fst r") (auto simp: payment_value_def)
  qed
qed

lemma consumes_claims:
  assumes "payload \<le> MAX_AGGREGATE_BYTES"
  shows "consumes (decode_claims n claims payload)
    (\<lambda>r b. \<exists>new. length new = n \<and> fst r = claims @ new
       \<and> (\<forall>p \<in> set new. valid_str p \<and> length p \<le> MAX_CLAIM_PATH_BYTES)
       \<and> snd r = payload + sum_list (map length new) \<and> snd r \<le> MAX_AGGREGATE_BYTES
       \<and> b = concat (map (\<lambda>p. to_canonical (Text p)) new))"
  using assms
proof (induction n arbitrary: claims payload)
  case 0
  show ?case
    by (simp only: decode_claims.simps, rule consumes_cong [OF consumes_return]) (use 0 in auto)
next
  case (Suc n)
  show ?case
    apply (simp only: decode_claims.simps, rule consumes_cong)
     apply (rule consumes_bind consumes_text_limits consumes_lift Suc.IH)+
     apply (simp add: charge_iff)
    apply (auto simp: charge_iff length_Suc_conv)
    done
qed

lemma consumes_unless:
  assumes "\<not> c \<Longrightarrow> consumes m R"
  shows "consumes (if c then rd_lift (Inl e) else m) (\<lambda>x b. \<not> c \<and> R x b)"
  using assms consumes_fail [of e] by (cases c) auto

lemma consumes_pair: "consumes (f (fst p) (snd p)) R \<Longrightarrow> consumes (case p of (x, y) \<Rightarrow> f x y) R"
  by (simp add: case_prod_beta)

lemma consumes_values:
  assumes m: "consumes m (\<lambda>v b. P v \<and> b = e v)" and "successively (<) vs"
  shows "consumes (decode_values m n vs)
    (\<lambda>r b. \<exists>new. length new = n \<and> r = vs @ new \<and> (\<forall>v \<in> set new. P v) \<and> successively (<) r \<and> b = concat (map e new))"
  using assms(2)
proof (induction n arbitrary: vs)
  case 0
  show ?case
    by (simp only: decode_values.simps, rule consumes_cong [OF consumes_return]) (use 0 in auto)
next
  case (Suc n)
  show ?case
    apply (simp only: decode_values.simps, rule consumes_cong)
     apply (rule consumes_bind [OF m] consumes_unless Suc.IH)+
    using Suc.prems apply (auto simp: successively_append_iff not_le) []
    apply (auto simp: length_Suc_conv successively_append_iff not_le)
    done
qed

lemma consumes_certificates:
  assumes "total_bytes \<le> MAX_CREDENTIAL_EVIDENCE_BYTES"
  shows "consumes (decode_certificates n path total_bytes)
    (\<lambda>r b. \<exists>new. length new = n \<and> fst r = path @ new
       \<and> (\<forall>c \<in> set new. c \<noteq> [] \<and> length c \<le> MAX_CERTIFICATE_BYTES)
       \<and> snd r = total_bytes + sum_list (map length new) \<and> snd r \<le> MAX_CREDENTIAL_EVIDENCE_BYTES
       \<and> b = concat (map (\<lambda>c. to_canonical (Bytes c)) new))"
  using assms
proof (induction n arbitrary: path total_bytes)
  case 0
  show ?case
    by (simp only: decode_certificates.simps, rule consumes_cong [OF consumes_return]) (use 0 in auto)
next
  case (Suc n)
  show ?case
    apply (simp only: decode_certificates.simps, rule consumes_cong)
     apply (rule consumes_bind consumes_bytes_limits consumes_lift consumes_unless Suc.IH)+
     apply (simp add: total_iff)
    apply (auto simp: total_iff length_Suc_conv)
    done
qed

section \<open>Credential records\<close>

definition credential_ok :: "credential_record \<Rightarrow> bool" where
  "credential_ok r \<longleftrightarrow>
     (cr_format r = 1 \<or> cr_format r = 2)
     \<and> length (cr_raw r) \<le> MAX_RAW_CREDENTIAL_BYTES
     \<and> valid_str (cr_issuer_identity r) \<and> cr_issuer_identity r \<noteq> []
     \<and> length (cr_issuer_identity r) \<le> MAX_ISSUER_ID_BYTES
     \<and> cr_certificate_path r \<noteq> [] \<and> length (cr_certificate_path r) \<le> MAX_CERTIFICATES_PER_PATH
     \<and> (\<forall>c \<in> set (cr_certificate_path r). c \<noteq> [] \<and> length c \<le> MAX_CERTIFICATE_BYTES)"

definition credential_size :: "credential_record \<Rightarrow> nat" where
  "credential_size r =
     length (cr_raw r) + length (cr_issuer_identity r) + sum_list (map length (cr_certificate_path r))"

lemma format_iff:
  "((if v \<le> 0xFF then Inr (ucast v :: u8) else Inl e) = Inr f) \<longleftrightarrow> (v :: u64) = ucast f"
proof -
  have "ucast (ucast v :: u8) = v" if "v \<le> 0xFF"
  proof -
    have "unat v < 256" using that by (simp add: word_le_nat_alt)
    then show ?thesis
      by (simp add: word_unat_eq_iff unsigned_ucast_eq unsigned_take_bit_eq take_bit_nat_eq_self)
  qed
  moreover have "(ucast f :: u64) \<le> 0xFF"
  proof -
    have "unat f < 256" using unsigned_less [of f, where ?'a = nat] by simp
    then have "take_bit 64 (unat f) \<le> 0xFF"
      using take_bit_nat_less_eq_self [of 64 "unat f"] by linarith
    then show ?thesis by (simp add: word_le_nat_alt unsigned_ucast_eq unsigned_take_bit_eq)
  qed
  moreover have "ucast (ucast f :: u64) = f"
    by (rule bit_word_eqI) (auto simp: bit_ucast_iff)
  ultimately show ?thesis by auto
qed

lemma consumes_credential:
  assumes "total_bytes \<le> MAX_CREDENTIAL_EVIDENCE_BYTES"
  shows "consumes (decode_credential total_bytes)
    (\<lambda>r b. credential_ok (fst r) \<and> snd r = total_bytes + credential_size (fst r)
       \<and> snd r \<le> MAX_CREDENTIAL_EVIDENCE_BYTES \<and> b = to_canonical (credential_value (fst r)))"
  unfolding decode_credential_def
  apply (rule consumes_cong)
   apply (rule consumes_steps consumes_pair consumes_certificates)+
   apply (simp add: total_iff)
   apply (rule consumes_steps consumes_pair)+
  subgoal for r b
    apply (cases r; cases "fst r")
    apply (simp add: format_iff total_iff credential_ok_def credential_value_def credential_size_def to_canonical_keyed ensure_Inr_iff
        comp_def del: to_canonical.simps(1-4,6-))
    apply (intro iffI; elim conjE; intro conjI; (assumption | simp only: add.assoc))
    done
  done

definition precedes :: "credential_record \<Rightarrow> credential_record \<Rightarrow> bool" where
  "precedes a b \<longleftrightarrow> cmp_canonical a b = Less"

lemma consumes_credentials:
  assumes "total_bytes \<le> MAX_CREDENTIAL_EVIDENCE_BYTES" "successively precedes cs"
  shows "consumes (decode_credentials n cs total_bytes)
    (\<lambda>r b. \<exists>new. length new = n \<and> r = cs @ new \<and> (\<forall>c \<in> set new. credential_ok c) \<and> successively precedes r
       \<and> total_bytes + sum_list (map credential_size new) \<le> MAX_CREDENTIAL_EVIDENCE_BYTES
       \<and> b = concat (map (\<lambda>c. to_canonical (credential_value c)) new))"
  using assms
proof (induction n arbitrary: cs total_bytes)
  case 0
  show ?case
    by (simp only: decode_credentials.simps, rule consumes_cong [OF consumes_return]) (use 0 in auto)
next
  case (Suc n)
  show ?case
    apply (simp only: decode_credentials.simps, rule consumes_cong)
     apply (rule consumes_bind consumes_credential [OF Suc.prems(1)] consumes_pair consumes_unless Suc.IH)+
      apply simp
    using Suc.prems apply (auto simp: successively_append_iff precedes_def) []
    apply (auto simp: length_Suc_conv successively_append_iff precedes_def add.assoc)
    done
qed

section \<open>Log entries\<close>

definition entry_ok :: "log_entry \<Rightarrow> bool" where
  "entry_ok e \<longleftrightarrow>
     in_i64 (en_epoch e)
     \<and> valid_str (en_counterparty e) \<and> length (en_counterparty e) \<le> MAX_COUNTERPARTY_BYTES
     \<and> length (en_consent_hash e) = 32
     \<and> length (en_claim_paths e) \<le> MAX_CLAIM_PATHS_PER_ENTRY
     \<and> (\<forall>p \<in> set (en_claim_paths e). valid_str p \<and> length p \<le> MAX_CLAIM_PATH_BYTES)
     \<and> payment_ok (en_payment e)
     \<and> length (en_prev_hash e) = 32 \<and> length (en_entry_hash e) = 32"

definition entry_size :: "log_entry \<Rightarrow> nat" where
  "entry_size e =
     length (en_counterparty e) + sum_list (map length (en_claim_paths e)) + payment_size (en_payment e)"

lemma kind_of_code_iff: "kind_of_code v = Inr k \<longleftrightarrow> v = kind_code k"
  by (cases k) (auto simp: kind_of_code_def kind_code_def)

lemma outcome_of_code_iff: "outcome_of_code v = Inr k \<longleftrightarrow> v = outcome_code k"
  by (cases k) (auto simp: outcome_of_code_def outcome_code_def)

lemma consumes_entry:
  assumes "payload \<le> MAX_AGGREGATE_BYTES"
  shows "consumes (decode_transaction_entry payload)
    (\<lambda>r b. entry_ok (fst r) \<and> snd r = payload + entry_size (fst r) \<and> snd r \<le> MAX_AGGREGATE_BYTES
       \<and> b = to_canonical (entry_value (fst r)))"
  unfolding decode_transaction_entry_def
  apply (rule consumes_cong)
   apply (rule consumes_steps consumes_pair consumes_claims)+
    apply (simp add: charge_iff)
   apply (rule consumes_steps consumes_pair consumes_null_or_payment)+
    apply clarsimp
   apply (rule consumes_steps consumes_pair)+
  subgoal for r b
    apply (cases r; cases "fst r")
    apply (simp add: charge_iff kind_of_code_iff outcome_of_code_iff entry_ok_def entry_size_def entry_value_def
        to_canonical_keyed comp_def del: to_canonical.simps(1-4,6-))
    apply (intro iffI; elim conjE; intro conjI; (assumption | simp only: add.assoc))
    done
  done

lemma consumes_entries:
  assumes "payload \<le> MAX_AGGREGATE_BYTES"
  shows "consumes (decode_entries n es payload)
    (\<lambda>r b. \<exists>new. length new = n \<and> r = es @ new \<and> (\<forall>e \<in> set new. entry_ok e)
       \<and> payload + sum_list (map entry_size new) \<le> MAX_AGGREGATE_BYTES
       \<and> b = concat (map (\<lambda>e. to_canonical (entry_value e)) new))"
  using assms
proof (induction n arbitrary: es payload)
  case 0
  show ?case
    by (simp only: decode_entries.simps, rule consumes_cong [OF consumes_return]) (use 0 in auto)
next
  case (Suc n)
  show ?case
    apply (simp only: decode_entries.simps, rule consumes_cong)
     apply (rule consumes_bind consumes_entry [OF Suc.prems] consumes_pair Suc.IH)+
     apply simp
    apply (auto simp: length_Suc_conv add.assoc)
    done
qed

section \<open>The whole checkpoint\<close>

definition replay_ok :: "replay_sets \<Rightarrow> bool" where
  "replay_ok r \<longleftrightarrow>
     length (rs_presentation r) \<le> MAX_REPLAY_VALUES \<and> successively (<) (rs_presentation r)
     \<and> (\<forall>n \<in> set (rs_presentation r). valid_str n \<and> length n \<le> MAX_REPLAY_NONCE_BYTES)
     \<and> length (rs_payment r) \<le> MAX_REPLAY_VALUES \<and> successively (<) (rs_payment r)
     \<and> length (rs_issuance r) \<le> MAX_REPLAY_VALUES \<and> successively (<) (rs_issuance r)
     \<and> length (rs_qes r) \<le> MAX_REPLAY_VALUES \<and> successively (<) (rs_qes r)"

definition replay_value :: "replay_sets \<Rightarrow> cbor_value" where
  "replay_value r =
     keyed [Array (map Text (rs_presentation r)), Array (map Uint (rs_payment r)), Array (map Uint (rs_issuance r)),
       Array (map Uint (rs_qes r))]"

definition context_ok :: "context_hashes \<Rightarrow> bool" where
  "context_ok c \<longleftrightarrow>
     length (ch_wallet_client_id c) = 32 \<and> length (ch_device_key_ref c) = 32 \<and> length (ch_device_public_key c) = 32"

definition checkpoint_ok :: "checkpoint \<Rightarrow> bool" where
  "checkpoint_ok cp \<longleftrightarrow>
     cp_generation cp \<noteq> 0 \<and> context_ok (cp_context cp)
     \<and> 0 < cp_clock_high_water cp \<and> cp_clock_high_water cp \<le> i64_max
     \<and> length (cp_credentials cp) \<le> MAX_CREDENTIALS \<and> (\<forall>c \<in> set (cp_credentials cp). credential_ok c)
     \<and> successively precedes (cp_credentials cp)
     \<and> sum_list (map credential_size (cp_credentials cp)) \<le> MAX_CREDENTIAL_EVIDENCE_BYTES
     \<and> replay_ok (cp_replay cp)
     \<and> length (cp_transaction_entries cp) \<le> MAX_ENTRIES \<and> (\<forall>e \<in> set (cp_transaction_entries cp). entry_ok e)
     \<and> sum_list (map entry_size (cp_transaction_entries cp)) \<le> MAX_AGGREGATE_BYTES
     \<and> length (cp_transaction_head cp) = 32"

lemma consumes_replay:
  "consumes decode_replay (\<lambda>r b. length r \<le> MAX_REPLAY_VALUES \<and> successively (<) r \<and> b = to_canonical (Array (map Uint r)))"
  unfolding decode_replay_def
  apply (rule consumes_cong)
   apply (rule consumes_bind consumes_array_limits consumes_values [where P = "\<lambda>_. True" and e = "\<lambda>v. to_canonical (Uint v)"])+
    apply (simp add: consumes_uint del: to_canonical.simps)
   apply simp
  apply (auto simp: comp_def)
  done

lemma consumes_replay_str:
  "consumes decode_replay_str
     (\<lambda>r b. length r \<le> MAX_REPLAY_VALUES \<and> successively (<) r
        \<and> (\<forall>n \<in> set r. valid_str n \<and> length n \<le> MAX_REPLAY_NONCE_BYTES) \<and> b = to_canonical (Array (map Text r)))"
  unfolding decode_replay_str_def
  apply (rule consumes_cong)
   apply (rule consumes_bind consumes_array_limits consumes_values [where P = "\<lambda>n. valid_str n \<and> length n \<le> MAX_REPLAY_NONCE_BYTES"
      and e = "\<lambda>v. to_canonical (Text v)"])+
    apply (simp add: consumes_text_limits del: to_canonical.simps)
   apply simp
  apply (auto simp: comp_def)
  done

lemma consumes_replay_sets: "consumes decode_replay_sets (\<lambda>r b. replay_ok r \<and> b = to_canonical (replay_value r))"
  unfolding decode_replay_sets_def
  apply (rule consumes_cong)
   apply (rule consumes_steps consumes_replay consumes_replay_str)+
  subgoal for r b
    apply (cases r)
    apply (simp add: replay_ok_def replay_value_def to_canonical_keyed del: to_canonical.simps)
    apply auto
    done
  done

lemma consumes_log:
  "consumes decode_log
     (\<lambda>r b. length (fst r) \<le> MAX_ENTRIES \<and> (\<forall>e \<in> set (fst r). entry_ok e)
        \<and> sum_list (map entry_size (fst r)) \<le> MAX_AGGREGATE_BYTES \<and> length (snd r) = 32
        \<and> b = to_canonical (keyed [Array (map entry_value (fst r)), Bytes (snd r)]))"
  unfolding decode_log_def
  apply (rule consumes_cong)
   apply (rule consumes_steps consumes_entries)+
    apply simp
   apply (rule consumes_steps)+
  subgoal for r b
    by (cases r) (auto simp: to_canonical_keyed comp_def simp del: to_canonical.simps(1-4,6-))
  done

definition header_values :: "u64 \<times> context_hashes \<times> int \<times> u64 \<Rightarrow> cbor_value list" where
  "header_values h =
     (case h of (generation, c, clock, trust) \<Rightarrow>
       [Bytes CHECKPOINT_MAGIC, Uint CHECKPOINT_VERSION, Uint generation,
        keyed [Bytes (ch_wallet_client_id c), Bytes (ch_device_key_ref c), Bytes (ch_device_public_key c)],
        keyed [int_value clock, Uint trust]])"

lemma consumes_header:
  "consumes decode_header
     (\<lambda>h b. (case h of (generation, c, clock, trust) \<Rightarrow>
          generation \<noteq> 0 \<and> context_ok c \<and> 0 < clock \<and> clock \<le> i64_max)
        \<and> b = write_head 5 9
            @ concat (map (\<lambda>p. to_canonical (fst p) @ to_canonical (snd p)) (numbered 1 (header_values h))))"
  unfolding decode_header_def
  apply (rule consumes_cong)
   apply (rule consumes_steps)+
  subgoal for h b
    apply (cases h; cases "fst (snd h)")
    apply (simp add: context_ok_def header_values_def in_i64_def i64_min_def to_canonical_keyed ensure_Inr_iff
        del: to_canonical.simps)
    apply (intro iffI; elim conjE; intro conjI; (assumption | simp del: to_canonical.simps))
    done
  done

lemma consumes_fields:
  "consumes decode_fields (\<lambda>cp b. checkpoint_ok cp \<and> b = to_canonical (checkpoint_value cp))"
  unfolding decode_fields_def
  apply (rule consumes_cong)
   apply (rule consumes_steps consumes_header consumes_credentials consumes_replay_sets consumes_log consumes_pair)+
     apply simp
    apply simp
   apply (rule consumes_steps consumes_replay_sets consumes_log consumes_pair)+
  subgoal for cp b
    apply (cases cp)
    apply (simp add: checkpoint_ok_def checkpoint_value_def header_values_def replay_value_def to_canonical_keyed comp_def
        del: to_canonical.simps(1-4,6-))
    apply (intro iffI; elim conjE; intro conjI; (assumption | simp del: to_canonical.simps))
    done
  done

lemma decode_fields_iff:
  assumes "length bytes < 2 ^ 64"
  shows "(\<exists>c. decode_fields (cursor_new bytes) = Inr (cp, c) \<and> cu_position c = length bytes) \<longleftrightarrow>
    checkpoint_ok cp \<and> bytes = to_canonical (checkpoint_value cp)"
proof -
  have "(decode_fields (cursor_new bytes) = Inr (cp, c)) =
    (\<exists>b post. bytes = b @ post \<and> (checkpoint_ok cp \<and> b = to_canonical (checkpoint_value cp)) \<and>
       c = \<lparr>cu_bytes = bytes, cu_position = length b\<rparr>)" for c
    using consumesD [OF consumes_fields, of "[]" bytes cp c] assms unfolding cursor_new_def append.simps list.size by blast
  then have "(\<exists>c. decode_fields (cursor_new bytes) = Inr (cp, c) \<and> cu_position c = length bytes) \<longleftrightarrow>
    (\<exists>b post. bytes = b @ post \<and> (checkpoint_ok cp \<and> b = to_canonical (checkpoint_value cp)) \<and> length b = length bytes)"
    by (metis cursor.select_convs(2))
  then show ?thesis by (metis append_Nil2 append_eq_append_conv)
qed

section \<open>What is encoded\<close>

lemma emits_eq: "emits op xs \<Longrightarrow> xs = ys \<Longrightarrow> emits op ys"
  by simp

lemma emits_payment:
  assumes "payment_ok p"
  shows "emits (enc_all (encode_payment p)) (to_canonical (payment_value p))"
proof (cases p)
  case None
  show ?thesis
    unfolding None encode_payment_def payment_value_def option.case
    by (rule emits_eq, (rule emits_steps)+) simp
next
  case (Some q)
  have fits: "length (ps_payee q) < 2 ^ 64" "length (ps_currency q) < 2 ^ 64"
    using assms limits_fit(1,14) unfolding Some payment_ok_def option.case by linarith+
  show ?thesis
    unfolding Some encode_payment_def payment_value_def option.case
    apply (rule emits_eq)
     apply (rule emits_steps fits limits_fit)+
    apply (simp add: to_canonical_keyed del: to_canonical.simps)
    done
qed

lemma hash_fits: "(32 :: nat) < 2 ^ 64"
  by simp

lemma emits_entry:
  assumes "entry_ok e"
  shows "emits (enc_all (encode_transaction_entry e)) (to_canonical (entry_value e))"
proof -
  have fits: "length (en_counterparty e) < 2 ^ 64" "length (en_consent_hash e) < 2 ^ 64"
    "length (en_claim_paths e) < 2 ^ 64" "length (en_prev_hash e) < 2 ^ 64" "length (en_entry_hash e) < 2 ^ 64"
    using assms limits_fit(2,4) hash_fits unfolding entry_ok_def by linarith+
  have paths: "length p < 2 ^ 64" if "p \<in> set (en_claim_paths e)" for p
  proof -
    have "length p \<le> MAX_CLAIM_PATH_BYTES" using that assms unfolding entry_ok_def by blast
    then show ?thesis using limits_fit(3) by linarith
  qed
  have payment: "emits (enc_all (encode_payment (en_payment e))) (to_canonical (payment_value (en_payment e)))"
    using assms by (intro emits_payment) (simp add: entry_ok_def)
  show ?thesis
    unfolding encode_transaction_entry_def append.simps
    apply (rule emits_eq)
     apply (rule emits_steps fits limits_fit payment emits_map paths | assumption)+
    apply (simp add: entry_value_def kind_code_def outcome_code_def to_canonical_keyed comp_def del: to_canonical.simps(1-4,6-))
    done
qed

lemma emits_credential:
  assumes "credential_ok c"
  shows "emits (enc_all (encode_credential c)) (to_canonical (credential_value c))"
proof -
  have fits: "length (cr_raw c) < 2 ^ 64" "length (cr_issuer_identity c) < 2 ^ 64"
    "length (cr_certificate_path c) < 2 ^ 64"
    using assms limits_fit(7-9) unfolding credential_ok_def by linarith+
  have path: "length p < 2 ^ 64" if "p \<in> set (cr_certificate_path c)" for p
  proof -
    have "length p \<le> MAX_CERTIFICATE_BYTES" using that assms unfolding credential_ok_def by blast
    then show ?thesis using limits_fit(10) by linarith
  qed
  show ?thesis
    unfolding encode_credential_def append.simps
    apply (rule emits_eq)
     apply (rule emits_steps fits limits_fit emits_map path | assumption)+
    apply (simp add: credential_value_def to_canonical_keyed comp_def del: to_canonical.simps(1-4,6-))
    done
qed

lemma emits_checkpoint:
  assumes "checkpoint_ok cp"
  shows "encode_checkpoint cp = Inr bytes \<longleftrightarrow>
    bytes = to_canonical (checkpoint_value cp) \<and> length bytes \<le> MAX_CHECKPOINT_BYTES"
proof -
  let ?r = "cp_replay cp"
  have fits: "length (ch_wallet_client_id (cp_context cp)) < 2 ^ 64" "length (ch_device_key_ref (cp_context cp)) < 2 ^ 64"
    "length (ch_device_public_key (cp_context cp)) < 2 ^ 64" "length (cp_credentials cp) < 2 ^ 64"
    "length (rs_presentation ?r) < 2 ^ 64" "length (rs_payment ?r) < 2 ^ 64" "length (rs_issuance ?r) < 2 ^ 64"
    "length (rs_qes ?r) < 2 ^ 64" "length (cp_transaction_entries cp) < 2 ^ 64" "length (cp_transaction_head cp) < 2 ^ 64"
    using assms limits_fit(5,6,11) hash_fits unfolding checkpoint_ok_def context_ok_def replay_ok_def by linarith+
  have nonces: "length n < 2 ^ 64" if "n \<in> set (rs_presentation ?r)" for n
  proof -
    have "length n \<le> MAX_REPLAY_NONCE_BYTES" using that assms unfolding checkpoint_ok_def replay_ok_def by blast
    then show ?thesis using limits_fit(12) by linarith
  qed
  have credentials: "credential_ok c" if "c \<in> set (cp_credentials cp)" for c
    using that assms unfolding checkpoint_ok_def by blast
  have entries: "entry_ok e" if "e \<in> set (cp_transaction_entries cp)" for e
    using that assms unfolding checkpoint_ok_def by blast
  have "\<exists>ops. encode_checkpoint cp = enc_all ops [] \<and> emits (enc_all ops) (to_canonical (checkpoint_value cp))"
    unfolding encode_checkpoint_def encode_replay_def append.simps
    apply (rule exI, rule conjI, rule refl)
    apply (rule emits_eq)
     apply (rule emits_steps fits limits_fit emits_concat emits_map emits_credential emits_entry nonces credentials entries | assumption)+
    apply (simp add: checkpoint_value_def to_canonical_keyed comp_def del: to_canonical.simps(1-4,6-))
    done
  then obtain ops where ops: "encode_checkpoint cp = enc_all ops []"
    and "emits (enc_all ops) (to_canonical (checkpoint_value cp))" by blast
  then have "(enc_all ops [] = Inr bytes) =
      (bytes = [] @ to_canonical (checkpoint_value cp) \<and> length bytes \<le> MAX_CHECKPOINT_BYTES)"
    unfolding emits_def by (metis le0 list.size(3))
  then show ?thesis by (simp only: ops append.simps)
qed

section \<open>The scan of an encoded value\<close>

text \<open>The items of a value, and the payload bytes of its strings.\<close>

fun value_nodes :: "cbor_value \<Rightarrow> nat" where
  "value_nodes (Array xs) = Suc (sum_list (map value_nodes xs))"
| "value_nodes (Map ps) = Suc (sum_list (map (\<lambda>p. value_nodes (fst p) + value_nodes (snd p)) ps))"
| "value_nodes (Tag t v) = Suc (value_nodes v)"
| "value_nodes _ = 1"

fun value_payload :: "cbor_value \<Rightarrow> nat" where
  "value_payload (Bytes b) = length b"
| "value_payload (Text s) = length s"
| "value_payload (Array xs) = sum_list (map value_payload xs)"
| "value_payload (Map ps) = sum_list (map (\<lambda>p. value_payload (fst p) + value_payload (snd p)) ps)"
| "value_payload (Tag t v) = value_payload v"
| "value_payload _ = 0"

text \<open>What the scan checks of a value met at depth \<open>d\<close>, apart from the budget.\<close>

fun scannable :: "nat \<Rightarrow> cbor_value \<Rightarrow> bool" where
  "scannable d (Bytes b) \<longleftrightarrow> d \<le> MAX_SCHEMA_DEPTH \<and> length b \<le> MAX_RAW_CREDENTIAL_BYTES"
| "scannable d (Text s) \<longleftrightarrow> d \<le> MAX_SCHEMA_DEPTH \<and> valid_str s \<and> length s \<le> MAX_RAW_CREDENTIAL_BYTES"
| "scannable d (Array xs) \<longleftrightarrow>
     d \<le> MAX_SCHEMA_DEPTH \<and> length xs \<le> MAX_CONTAINER_ITEMS \<and> list_all (scannable (Suc d)) xs"
| "scannable d (Map ps) \<longleftrightarrow>
     d \<le> MAX_SCHEMA_DEPTH \<and> length ps \<le> MAX_MAP_PAIRS
     \<and> list_all (\<lambda>p. scannable (Suc d) (fst p) \<and> scannable (Suc d) (snd p)) ps \<and> sorted_wrt (<) (map key_bytes ps)"
| "scannable d (Tag t v) \<longleftrightarrow> d \<le> MAX_SCHEMA_DEPTH \<and> scannable (Suc d) v"
| "scannable d _ \<longleftrightarrow> d \<le> MAX_SCHEMA_DEPTH"

definition scans :: "nat \<Rightarrow> cbor_value \<Rightarrow> bool" where
  "scans d v \<longleftrightarrow>
     (\<forall>pre post nodes payload.
        length (pre @ to_canonical v @ post) < 2 ^ 64 \<and> value_nodes v \<le> nodes
        \<and> payload + value_payload v \<le> MAX_DECODED_PAYLOAD_BYTES \<longrightarrow>
        scan_item (pre @ to_canonical v @ post) (length pre) d \<lparr>sb_remaining_nodes = nodes, sb_payload_bytes = payload\<rparr> =
        Inr (length (pre @ to_canonical v),
          \<lparr>sb_remaining_nodes = nodes - value_nodes v, sb_payload_bytes = payload + value_payload v\<rparr>))"

lemma scansD:
  assumes "scans d v" "length (pre @ to_canonical v @ post) < 2 ^ 64" "value_nodes v \<le> nodes"
    "payload + value_payload v \<le> MAX_DECODED_PAYLOAD_BYTES"
  shows "scan_item (pre @ to_canonical v @ post) (length pre) d \<lparr>sb_remaining_nodes = nodes, sb_payload_bytes = payload\<rparr> =
    Inr (length (pre @ to_canonical v),
      \<lparr>sb_remaining_nodes = nodes - value_nodes v, sb_payload_bytes = payload + value_payload v\<rparr>)"
  using assms unfolding scans_def by blast

lemma value_nodes_pos: "0 < value_nodes v"
  by (cases v) simp_all

lemma scan_head_written:
  assumes "m < 8" "length (pre @ write_head m a @ rest) < 2 ^ 64"
  shows "scan_head (pre @ write_head m a @ rest) (length pre) =
    Inr (hd (write_head m a), m, a, length (pre @ write_head m a))"
proof -
  have "write_head m a \<noteq> []" using hd_write_head(1) [OF assms(1)] .
  then obtain f fs where "write_head m a = f # fs" by (cases "write_head m a") auto
  with assms read_write_head [OF assms(1), of a rest] show ?thesis
    by (simp add: scan_head_def get_from_def checked_sub_usize_def checked_add_usize_def)
qed

lemma scan_items_written:
  assumes "\<And>x. x \<in> set xs \<Longrightarrow> scans d x"
    and "length (pre @ concat (map to_canonical xs) @ post) < 2 ^ 64" "sum_list (map value_nodes xs) \<le> nodes"
    and "payload + sum_list (map value_payload xs) \<le> MAX_DECODED_PAYLOAD_BYTES"
  shows "scan_items (pre @ concat (map to_canonical xs) @ post) (length xs) (length pre) d
      \<lparr>sb_remaining_nodes = nodes, sb_payload_bytes = payload\<rparr> =
    Inr (length (pre @ concat (map to_canonical xs)),
      \<lparr>sb_remaining_nodes = nodes - sum_list (map value_nodes xs),
        sb_payload_bytes = payload + sum_list (map value_payload xs)\<rparr>)"
  using assms
proof (induction xs arbitrary: pre nodes payload)
  case (Cons x xs)
  let ?rest = "concat (map to_canonical xs)"
  have one: "scan_item (pre @ to_canonical x @ ?rest @ post) (length pre) d
      \<lparr>sb_remaining_nodes = nodes, sb_payload_bytes = payload\<rparr> =
    Inr (length (pre @ to_canonical x),
      \<lparr>sb_remaining_nodes = nodes - value_nodes x, sb_payload_bytes = payload + value_payload x\<rparr>)"
    using Cons.prems by (intro scansD) simp_all
  have "scan_items ((pre @ to_canonical x) @ ?rest @ post) (length xs) (length (pre @ to_canonical x)) d
      \<lparr>sb_remaining_nodes = nodes - value_nodes x, sb_payload_bytes = payload + value_payload x\<rparr> =
    Inr (length ((pre @ to_canonical x) @ ?rest),
      \<lparr>sb_remaining_nodes = (nodes - value_nodes x) - sum_list (map value_nodes xs),
        sb_payload_bytes = (payload + value_payload x) + sum_list (map value_payload xs)\<rparr>)"
    using Cons.prems by (intro Cons.IH) simp_all
  with one show ?case by (simp add: add.assoc)
qed simp

abbreviation pairs_bytes :: "(cbor_value \<times> cbor_value) list \<Rightarrow> bytes" where
  "pairs_bytes ps \<equiv> concat (map (\<lambda>p. to_canonical (fst p) @ to_canonical (snd p)) ps)"

abbreviation pairs_nodes :: "(cbor_value \<times> cbor_value) list \<Rightarrow> nat" where
  "pairs_nodes ps \<equiv> sum_list (map (\<lambda>p. value_nodes (fst p) + value_nodes (snd p)) ps)"

abbreviation pairs_payload :: "(cbor_value \<times> cbor_value) list \<Rightarrow> nat" where
  "pairs_payload ps \<equiv> sum_list (map (\<lambda>p. value_payload (fst p) + value_payload (snd p)) ps)"

lemma slice_between_mid: "slice_between (pre @ b @ post) (length pre, length (pre @ b)) = b"
  by (simp add: slice_between_def)

lemma scan_pairs_written:
  assumes "\<And>p. p \<in> set ps \<Longrightarrow> scans d (fst p)" "\<And>p. p \<in> set ps \<Longrightarrow> scans d (snd p)"
    and "sorted_wrt (<) (map key_bytes ps)"
    and "\<And>r p. prev = Some r \<Longrightarrow> p \<in> set ps \<Longrightarrow> slice_between (pre @ pairs_bytes ps @ post) r < key_bytes p"
    and "length (pre @ pairs_bytes ps @ post) < 2 ^ 64" "pairs_nodes ps \<le> nodes"
    and "payload + pairs_payload ps \<le> MAX_DECODED_PAYLOAD_BYTES"
  shows "scan_pairs (pre @ pairs_bytes ps @ post) (length ps) prev (length pre) d
      \<lparr>sb_remaining_nodes = nodes, sb_payload_bytes = payload\<rparr> =
    Inr (length (pre @ pairs_bytes ps),
      \<lparr>sb_remaining_nodes = nodes - pairs_nodes ps, sb_payload_bytes = payload + pairs_payload ps\<rparr>)"
  using assms
proof (induction ps arbitrary: pre prev nodes payload)
  case (Cons p ps)
  let ?k = "to_canonical (fst p)" and ?v = "to_canonical (snd p)" and ?rest = "pairs_bytes ps @ post"
  let ?all = "pre @ ?k @ ?v @ ?rest"
  have key: "scan_item (pre @ ?k @ (?v @ ?rest)) (length pre) d \<lparr>sb_remaining_nodes = nodes, sb_payload_bytes = payload\<rparr> =
    Inr (length (pre @ ?k),
      \<lparr>sb_remaining_nodes = nodes - value_nodes (fst p), sb_payload_bytes = payload + value_payload (fst p)\<rparr>)"
    using Cons.prems by (intro scansD) simp_all
  have val: "scan_item ((pre @ ?k) @ ?v @ ?rest) (length (pre @ ?k)) d
      \<lparr>sb_remaining_nodes = nodes - value_nodes (fst p), sb_payload_bytes = payload + value_payload (fst p)\<rparr> =
    Inr (length ((pre @ ?k) @ ?v),
      \<lparr>sb_remaining_nodes = nodes - value_nodes (fst p) - value_nodes (snd p),
        sb_payload_bytes = payload + value_payload (fst p) + value_payload (snd p)\<rparr>)"
    using Cons.prems by (intro scansD) simp_all
  have here: "slice_between ?all (length pre, length (pre @ ?k)) = ?k"
    using slice_between_mid [of pre ?k "?v @ ?rest"] by simp
  have order: "cmp (slice_between ?all r) ?k = Less" if "prev = Some r" for r
    using Cons.prems(4) [OF that, of p] by (simp add: cmp_def)
  have "scan_pairs ((pre @ ?k @ ?v) @ ?rest) (length ps) (Some (length pre, length (pre @ ?k))) (length (pre @ ?k @ ?v)) d
      \<lparr>sb_remaining_nodes = nodes - value_nodes (fst p) - value_nodes (snd p),
        sb_payload_bytes = payload + value_payload (fst p) + value_payload (snd p)\<rparr> =
    Inr (length ((pre @ ?k @ ?v) @ pairs_bytes ps),
      \<lparr>sb_remaining_nodes = (nodes - value_nodes (fst p) - value_nodes (snd p)) - pairs_nodes ps,
        sb_payload_bytes = (payload + value_payload (fst p) + value_payload (snd p)) + pairs_payload ps\<rparr>)"
    using Cons.prems(1-3,5-) here by (intro Cons.IH) auto
  with key val here order show ?case by (cases prev) (auto simp: add.assoc)
qed simp

lemma length_le_nodes: "length xs \<le> sum_list (map value_nodes xs)"
proof (induction xs)
  case (Cons x xs)
  then show ?case using value_nodes_pos [of x] by simp
qed simp

lemma length_le_pairs_nodes: "length ps * 2 \<le> pairs_nodes ps"
proof (induction ps)
  case (Cons p ps)
  then show ?case using value_nodes_pos [of "fst p"] value_nodes_pos [of "snd p"] by simp
qed simp

lemma first_byte_null: "hd (write_head 7 20) = 0xF4" "hd (write_head 7 21) = 0xF5" "hd (write_head 7 22) = 0xF6"
  by (simp_all add: write_head_def)

lemma simple_as_head: "to_canonical (Bool b) = write_head 7 (if b then 21 else 20)" "to_canonical Null = write_head 7 22"
  by (simp_all add: write_head_def)

lemma scan_string_written:
  assumes "length body \<le> MAX_RAW_CREDENTIAL_BYTES" "payload + length body \<le> MAX_DECODED_PAYLOAD_BYTES"
    and "length (pre @ body @ post) < 2 ^ 64" "m = 3 \<Longrightarrow> from_utf8 body \<noteq> None"
  shows "scan_string (pre @ body @ post) m (length body) (length pre)
      \<lparr>sb_remaining_nodes = nodes, sb_payload_bytes = payload\<rparr> =
    Inr (length (pre @ body), \<lparr>sb_remaining_nodes = nodes, sb_payload_bytes = payload + length body\<rparr>)"
proof -
  have "payload + length body < 2 ^ 64"
    using assms(2) max_checkpoint_fits [of "payload + length body"] by (simp only: MAX_DECODED_PAYLOAD_BYTES_def)
  with assms show ?thesis
    by (auto simp: scan_string_def checked_add_usize_def get_range_def)
qed

lemma scans_scannable: "scannable d v \<Longrightarrow> scans d v"
proof (induction v arbitrary: d)
  case (Uint n)
  then show ?case
    by (auto simp: scans_def scan_item.simps scan_head_written)
next
  case (Nint n)
  then show ?case
    by (auto simp: scans_def scan_item.simps scan_head_written)
next
  case (Bool b)
  then show ?case
    by (auto simp: scans_def scan_item.simps scan_head_written simple_as_head first_byte_null simp del: to_canonical.simps)
next
  case Null
  then show ?case
    by (auto simp: scans_def scan_item.simps scan_head_written simple_as_head first_byte_null simp del: to_canonical.simps)
next
  case (Tag t v)
  show ?case
    unfolding scans_def
  proof (intro allI impI, elim conjE)
    fix pre post :: bytes and nodes payload :: nat
    assume len: "length (pre @ to_canonical (Tag t v) @ post) < 2 ^ 64" and nodes: "value_nodes (Tag t v) \<le> nodes"
      and payload: "payload + value_payload (Tag t v) \<le> MAX_DECODED_PAYLOAD_BYTES"
    have "scan_item ((pre @ write_head 6 t) @ to_canonical v @ post) (length (pre @ write_head 6 t)) (Suc d)
        \<lparr>sb_remaining_nodes = nodes - 1, sb_payload_bytes = payload\<rparr> =
      Inr (length ((pre @ write_head 6 t) @ to_canonical v),
        \<lparr>sb_remaining_nodes = nodes - 1 - value_nodes v, sb_payload_bytes = payload + value_payload v\<rparr>)"
      using Tag len nodes payload by (intro scansD) auto
    with len nodes Tag.prems show "scan_item (pre @ to_canonical (Tag t v) @ post) (length pre) d
        \<lparr>sb_remaining_nodes = nodes, sb_payload_bytes = payload\<rparr> =
      Inr (length (pre @ to_canonical (Tag t v)), \<lparr>sb_remaining_nodes = nodes - value_nodes (Tag t v),
        sb_payload_bytes = payload + value_payload (Tag t v)\<rparr>)"
      by (simp add: scan_item.simps [of _ _ d] scan_head_written)
  qed
next
  case (Bytes b)
  have "unat (of_nat (length b) :: u64) = length b"
    using Bytes limits_fit(7) by (intro unat_of_nat_max) auto
  with Bytes scan_string_written [of b _ "_ @ write_head 2 (of_nat (length b))" _ 2] show ?case
    by (auto simp: scans_def scan_item.simps scan_head_written)
next
  case (Text b)
  have "unat (of_nat (length b) :: u64) = length b"
    using Text limits_fit(7) by (intro unat_of_nat_max) auto
  with Text scan_string_written [of "as_bytes b" _ "_ @ write_head 3 (of_nat (length b))" _ 3] show ?case
    by (auto simp: scans_def scan_item.simps scan_head_written)
next
  case (Array xs)
  show ?case
    unfolding scans_def
  proof (intro allI impI, elim conjE)
    fix pre post :: bytes and nodes payload :: nat
    assume len: "length (pre @ to_canonical (Array xs) @ post) < 2 ^ 64" and nodes: "value_nodes (Array xs) \<le> nodes"
      and payload: "payload + value_payload (Array xs) \<le> MAX_DECODED_PAYLOAD_BYTES"
    let ?h = "write_head 4 (of_nat (length xs))"
    have "scan_items ((pre @ ?h) @ concat (map to_canonical xs) @ post) (length xs) (length (pre @ ?h)) (Suc d)
        \<lparr>sb_remaining_nodes = nodes - 1, sb_payload_bytes = payload\<rparr> =
      Inr (length ((pre @ ?h) @ concat (map to_canonical xs)),
        \<lparr>sb_remaining_nodes = nodes - 1 - sum_list (map value_nodes xs),
          sb_payload_bytes = payload + sum_list (map value_payload xs)\<rparr>)"
      using Array len nodes payload by (intro scan_items_written) (auto simp: list_all_iff)
    moreover have "unat (of_nat (length xs) :: u64) = length xs"
      using Array.prems limits_fit(11) by (intro unat_of_nat_max) (auto simp: MAX_CONTAINER_ITEMS_def)
    ultimately show "scan_item (pre @ to_canonical (Array xs) @ post) (length pre) d
        \<lparr>sb_remaining_nodes = nodes, sb_payload_bytes = payload\<rparr> =
      Inr (length (pre @ to_canonical (Array xs)), \<lparr>sb_remaining_nodes = nodes - value_nodes (Array xs),
        sb_payload_bytes = payload + value_payload (Array xs)\<rparr>)"
      using len nodes Array.prems length_le_nodes [of xs] by (simp add: scan_item.simps [of _ _ d] scan_head_written)
  qed
next
  case (Map ps)
  show ?case
    unfolding scans_def
  proof (intro allI impI, elim conjE)
    fix pre post :: bytes and nodes payload :: nat
    assume len: "length (pre @ to_canonical (Map ps) @ post) < 2 ^ 64" and nodes: "value_nodes (Map ps) \<le> nodes"
      and payload: "payload + value_payload (Map ps) \<le> MAX_DECODED_PAYLOAD_BYTES"
    let ?h = "write_head 5 (of_nat (length ps))"
    have map: "to_canonical (Map ps) = ?h @ pairs_bytes ps"
      using Map.prems by (intro to_canonical_sorted_map) simp
    have "scan_pairs ((pre @ ?h) @ pairs_bytes ps @ post) (length ps) None (length (pre @ ?h)) (Suc d)
        \<lparr>sb_remaining_nodes = nodes - 1, sb_payload_bytes = payload\<rparr> =
      Inr (length ((pre @ ?h) @ pairs_bytes ps),
        \<lparr>sb_remaining_nodes = nodes - 1 - pairs_nodes ps, sb_payload_bytes = payload + pairs_payload ps\<rparr>)"
      using Map len nodes payload unfolding map
      by (intro scan_pairs_written) (auto simp: list_all_iff fsts.simps snds.simps)
    moreover have "unat (of_nat (length ps) :: u64) = length ps"
      using Map.prems by (intro unat_of_nat_max [of MAX_MAP_PAIRS]) (auto simp: MAX_MAP_PAIRS_def)
    ultimately show "scan_item (pre @ to_canonical (Map ps) @ post) (length pre) d
        \<lparr>sb_remaining_nodes = nodes, sb_payload_bytes = payload\<rparr> =
      Inr (length (pre @ to_canonical (Map ps)), \<lparr>sb_remaining_nodes = nodes - value_nodes (Map ps),
        sb_payload_bytes = payload + value_payload (Map ps)\<rparr>)"
      using len nodes Map.prems length_le_pairs_nodes [of ps]
      by (simp add: map scan_item.simps [of _ _ d] scan_head_written del: to_canonical.simps)
  qed
qed

lemma payload_le_length: "scannable d v \<Longrightarrow> value_payload v \<le> length (to_canonical v)"
proof (induction v arbitrary: d)
  case (Array xs)
  then have "sum_list (map value_payload xs) \<le> sum_list (map (\<lambda>x. length (to_canonical x)) xs)"
    by (intro sum_list_mono) (auto simp: list_all_iff)
  then show ?case by (simp add: length_concat comp_def)
next
  case (Map ps)
  have "pairs_payload ps \<le> sum_list (map (\<lambda>p. length (to_canonical (fst p) @ to_canonical (snd p))) ps)"
    using Map by (intro sum_list_mono) (fastforce simp: list_all_iff fsts.simps snds.simps intro!: add_mono)
  moreover have "to_canonical (Map ps) = write_head 5 (of_nat (length ps)) @ pairs_bytes ps"
    using Map.prems by (intro to_canonical_sorted_map) simp
  ultimately show ?case by (simp add: length_concat comp_def del: to_canonical.simps)
qed (auto intro: trans_le_add2)

section \<open>The scan accepts every encoded checkpoint\<close>

lemma numbered_all:
  assumes "\<And>k. P (Uint k)" "list_all P vs"
  shows "list_all (\<lambda>p. P (fst p) \<and> P (snd p)) (numbered k vs)"
  using assms by (induction k vs rule: numbered.induct) auto

lemma scannable_keyed:
  assumes "d < MAX_SCHEMA_DEPTH" "length vs \<le> 16" "list_all (scannable (Suc d)) vs"
  shows "scannable d (keyed vs)"
  using assms numbered_all [of "scannable (Suc d)" vs 1] numbered_keys_sorted [OF assms(2)]
  by (simp add: keyed_def MAX_MAP_PAIRS_def)

lemma numbered_nodes: "pairs_nodes (numbered k vs) = length vs + sum_list (map value_nodes vs)"
  by (induction k vs rule: numbered.induct) simp_all

lemma nodes_keyed [simp]: "value_nodes (keyed vs) = Suc (length vs + sum_list (map value_nodes vs))"
  by (simp add: keyed_def numbered_nodes)

lemma scannable_int: "d \<le> MAX_SCHEMA_DEPTH \<Longrightarrow> scannable d (int_value v)"
  by (simp add: int_value_def)

lemma nodes_int [simp]: "value_nodes (int_value v) = 1"
  by (simp add: int_value_def)

lemma string_limits:
  "n \<le> MAX_PAYMENT_PAYEE_BYTES \<Longrightarrow> n \<le> MAX_RAW_CREDENTIAL_BYTES"
  "n \<le> MAX_COUNTERPARTY_BYTES \<Longrightarrow> n \<le> MAX_RAW_CREDENTIAL_BYTES"
  "n \<le> MAX_CLAIM_PATH_BYTES \<Longrightarrow> n \<le> MAX_RAW_CREDENTIAL_BYTES"
  "n \<le> MAX_ISSUER_ID_BYTES \<Longrightarrow> n \<le> MAX_RAW_CREDENTIAL_BYTES"
  "n \<le> MAX_CERTIFICATE_BYTES \<Longrightarrow> n \<le> MAX_RAW_CREDENTIAL_BYTES"
  "n \<le> MAX_REPLAY_NONCE_BYTES \<Longrightarrow> n \<le> MAX_RAW_CREDENTIAL_BYTES"
  "n \<le> 32 \<Longrightarrow> n \<le> MAX_RAW_CREDENTIAL_BYTES"
  "n \<le> 3 \<Longrightarrow> n \<le> MAX_RAW_CREDENTIAL_BYTES"
  by (simp_all add: MAX_PAYMENT_PAYEE_BYTES_def MAX_COUNTERPARTY_BYTES_def MAX_CLAIM_PATH_BYTES_def
      MAX_ISSUER_ID_BYTES_def MAX_CERTIFICATE_BYTES_def MAX_REPLAY_NONCE_BYTES_def MAX_RAW_CREDENTIAL_BYTES_def)

lemma item_limits:
  "n \<le> MAX_CLAIM_PATHS_PER_ENTRY \<Longrightarrow> n \<le> MAX_CONTAINER_ITEMS"
  "n \<le> MAX_CERTIFICATES_PER_PATH \<Longrightarrow> n \<le> MAX_CONTAINER_ITEMS"
  "n \<le> MAX_CREDENTIALS \<Longrightarrow> n \<le> MAX_CONTAINER_ITEMS"
  "n \<le> MAX_ENTRIES \<Longrightarrow> n \<le> MAX_CONTAINER_ITEMS"
  "n \<le> MAX_REPLAY_VALUES \<Longrightarrow> n \<le> MAX_CONTAINER_ITEMS"
  by (simp_all add: MAX_CLAIM_PATHS_PER_ENTRY_def MAX_CERTIFICATES_PER_PATH_def MAX_CREDENTIALS_def MAX_ENTRIES_def
      MAX_REPLAY_VALUES_def MAX_CONTAINER_ITEMS_def)

lemma sum_list_bound: "(\<And>x. x \<in> set xs \<Longrightarrow> f x \<le> (k :: nat)) \<Longrightarrow> sum_list (map f xs) \<le> k * length xs"
  by (induction xs) (simp, fastforce)

lemma payment_scannable:
  assumes "payment_ok p"
  shows "scannable 4 (payment_value p)" "value_nodes (payment_value p) \<le> 7"
  using assms
  by (auto simp: payment_ok_def payment_value_def MAX_SCHEMA_DEPTH_def string_limits split: option.splits
      intro!: scannable_keyed)

lemma entry_scannable:
  assumes e: "entry_ok e"
  shows "scannable 3 (entry_value e)"
proof -
  have "list_all (scannable 5) (map Text (en_claim_paths e))"
    using e by (auto simp: entry_ok_def list_all_iff MAX_SCHEMA_DEPTH_def string_limits)
  with e payment_scannable(1) [of "en_payment e"] show ?thesis
    unfolding entry_value_def
    by (intro scannable_keyed)
      (simp_all add: entry_ok_def MAX_SCHEMA_DEPTH_def string_limits item_limits scannable_int)
qed

lemma entry_nodes: "entry_ok e \<Longrightarrow> value_nodes (entry_value e) \<le> 157"
  using payment_scannable(2) [of "en_payment e"]
  by (simp add: entry_ok_def entry_value_def MAX_CLAIM_PATHS_PER_ENTRY_def comp_def sum_list_triv)

lemma credential_scannable:
  assumes c: "credential_ok c"
  shows "scannable 2 (credential_value c)"
proof -
  have "list_all (scannable 4) (map Bytes (cr_certificate_path c))"
    using c by (auto simp: credential_ok_def list_all_iff MAX_SCHEMA_DEPTH_def string_limits)
  with c show ?thesis
    unfolding credential_value_def
    by (intro scannable_keyed)
      (simp_all add: credential_ok_def MAX_SCHEMA_DEPTH_def string_limits item_limits)
qed

lemma credential_nodes: "credential_ok c \<Longrightarrow> value_nodes (credential_value c) \<le> 25"
  by (simp add: credential_ok_def credential_value_def MAX_CERTIFICATES_PER_PATH_def comp_def sum_list_triv)

lemma checkpoint_scannable:
  assumes cp: "checkpoint_ok cp"
  shows "scannable 0 (checkpoint_value cp)"
proof -
  have replay: "replay_ok (cp_replay cp)" and contexts: "context_ok (cp_context cp)"
    using cp by (simp_all add: checkpoint_ok_def)
  have "list_all (scannable 2) (map credential_value (cp_credentials cp))"
    using cp credential_scannable by (auto simp: checkpoint_ok_def list_all_iff)
  moreover have "list_all (scannable 3) (map entry_value (cp_transaction_entries cp))"
    using cp entry_scannable by (auto simp: checkpoint_ok_def list_all_iff)
  moreover have "scannable 1 (replay_value (cp_replay cp))"
    unfolding replay_value_def
    using replay by (intro scannable_keyed)
      (auto simp: replay_ok_def list_all_iff MAX_SCHEMA_DEPTH_def item_limits string_limits)
  ultimately show ?thesis
    using cp contexts unfolding checkpoint_value_def replay_value_def
    by (intro scannable_keyed)
      (auto simp: checkpoint_ok_def context_ok_def MAX_SCHEMA_DEPTH_def CHECKPOINT_MAGIC_def item_limits string_limits
        scannable_int numeral_2_eq_2 numeral_3_eq_3 intro!: scannable_keyed)
qed

lemma checkpoint_nodes:
  assumes cp: "checkpoint_ok cp"
  shows "value_nodes (checkpoint_value cp) \<le> MAX_STRUCTURAL_NODES"
proof -
  have "sum_list (map (\<lambda>c. value_nodes (credential_value c)) (cp_credentials cp)) \<le> 25 * length (cp_credentials cp)"
    using cp by (intro sum_list_bound credential_nodes) (simp add: checkpoint_ok_def)
  moreover have "sum_list (map (\<lambda>e. value_nodes (entry_value e)) (cp_transaction_entries cp))
      \<le> 157 * length (cp_transaction_entries cp)"
    using cp by (intro sum_list_bound entry_nodes) (simp add: checkpoint_ok_def)
  ultimately show ?thesis
    using cp
    by (simp add: checkpoint_ok_def replay_ok_def checkpoint_value_def comp_def sum_list_triv
        MAX_CREDENTIALS_def MAX_ENTRIES_def MAX_REPLAY_VALUES_def MAX_STRUCTURAL_NODES_def)
qed

lemma preflight_accepts:
  assumes v: "scannable 0 v" and nodes: "value_nodes v \<le> MAX_STRUCTURAL_NODES"
    and len: "length (to_canonical v) \<le> MAX_CHECKPOINT_BYTES"
  shows "structural_preflight (to_canonical v) = Inr ()"
proof -
  have "scan_item ([] @ to_canonical v @ []) (length ([] :: bytes)) 0
      \<lparr>sb_remaining_nodes = MAX_STRUCTURAL_NODES, sb_payload_bytes = 0\<rparr> =
    Inr (length ([] @ to_canonical v),
      \<lparr>sb_remaining_nodes = MAX_STRUCTURAL_NODES - value_nodes v, sb_payload_bytes = 0 + value_payload v\<rparr>)"
    using nodes len max_checkpoint_fits [OF len] payload_le_length [OF v] scans_scannable [OF v]
    by (intro scansD) (simp_all add: MAX_DECODED_PAYLOAD_BYTES_def)
  with len show ?thesis by (simp add: structural_preflight_def ensure_def)
qed

lemma preflight_length: "structural_preflight bytes = Inr u \<Longrightarrow> length bytes \<le> MAX_CHECKPOINT_BYTES"
  by (simp add: structural_preflight_def not_less split: if_splits)

lemma decode_checkpoint_iff:
  "decode_checkpoint bytes = Inr cp \<longleftrightarrow> checkpoint_ok cp \<and> encode_checkpoint cp = Inr bytes"
proof
  assume "decode_checkpoint bytes = Inr cp"
  then obtain c u where pre: "structural_preflight bytes = Inr u"
    and c: "decode_fields (cursor_new bytes) = Inr (cp, c)" "cu_position c = length bytes"
    by (auto simp: decode_checkpoint_def bind_result_Inr_iff ensure_Inr_iff)
  from preflight_length [OF pre] have len: "length bytes \<le> MAX_CHECKPOINT_BYTES" .
  have "checkpoint_ok cp" "bytes = to_canonical (checkpoint_value cp)"
    using decode_fields_iff [OF max_checkpoint_fits [OF len], of cp] c by blast+
  with len emits_checkpoint [of cp bytes] show "checkpoint_ok cp \<and> encode_checkpoint cp = Inr bytes" by blast
next
  assume *: "checkpoint_ok cp \<and> encode_checkpoint cp = Inr bytes"
  then have bytes: "bytes = to_canonical (checkpoint_value cp)" and len: "length bytes \<le> MAX_CHECKPOINT_BYTES"
    using emits_checkpoint [of cp bytes] by blast+
  from * len have "structural_preflight bytes = Inr ()"
    unfolding bytes by (intro preflight_accepts checkpoint_scannable checkpoint_nodes) simp_all
  moreover obtain c where "decode_fields (cursor_new bytes) = Inr (cp, c)" "cu_position c = length bytes"
    using decode_fields_iff [OF max_checkpoint_fits [OF len], of cp] * bytes by blast
  ultimately show "decode_checkpoint bytes = Inr cp"
    by (simp add: decode_checkpoint_def ensure_def)
qed

text \<open>
  C7. The checkpoint format is exact: a byte string decodes to a checkpoint if and only if the checkpoint is within the
  format's limits (non-zero generation, positive clock, 32-byte hashes, bounded texts and counts, strictly sorted
  credentials and replay sets, bounded evidence and log payload) and encodes to exactly that byte string. So the
  encoding round-trips, the structural scan never rejects what the encoder writes, and no second byte string is
  accepted for a checkpoint.
\<close>

theorem checkpoint_format_exact:
  "decode_checkpoint bytes = Inr cp \<longleftrightarrow> checkpoint_ok cp \<and> encode_checkpoint cp = Inr bytes"
  by (rule decode_checkpoint_iff)

section \<open>What the scan accepts\<close>

text \<open>A value found in the input at \<open>start\<close>, ending at \<open>fin\<close>, with the budget it uses.\<close>

definition found :: "bytes \<Rightarrow> nat \<Rightarrow> nat \<Rightarrow> bytes \<Rightarrow> bool" where
  "found bytes start fin b \<longleftrightarrow> fin = start + length b \<and> fin \<le> length bytes \<and> take (length b) (drop start bytes) = b"

lemma found_append: "found bytes i j a \<Longrightarrow> found bytes j k b \<Longrightarrow> found bytes i k (a @ b)"
  by (auto simp: found_def take_add add.commute)

lemma found_Nil: "i \<le> length bytes \<Longrightarrow> found bytes i i []"
  by (simp add: found_def)

lemma found_slice: "found bytes i j b \<Longrightarrow> slice_between bytes (i, j) = b"
  by (simp add: found_def slice_between_def)

lemma found_whole: "found bytes 0 (length bytes) b \<Longrightarrow> bytes = b"
  by (auto simp: found_def)

lemma scan_head_found:
  assumes "scan_head bytes start = Inr (first, m, a, cursor)"
  shows "found bytes start cursor (write_head m a)" "m < 8" "first = hd (write_head m a)"
proof -
  from assms obtain tail rest where start: "start \<le> length bytes" and tail: "drop start bytes = first # tail"
    and rest: "read_head (first # tail) = Inr (m, a, rest)"
    and cursor: "cursor = length bytes - length rest" "length rest \<le> length bytes - start"
    by (auto simp: scan_head_def get_from_def bind_result_Inr_iff ok_or_Inr_iff map_err_Inr_iff split: if_splits list.splits)
  show "m < 8" using read_head_major [OF rest] .
  have drop: "drop start bytes = write_head m a @ rest" using read_head_Inr [OF rest] tail by simp
  then show "found bytes start cursor (write_head m a)"
  proof -
    have "length bytes - start = length (write_head m a) + length rest"
      using arg_cong [OF drop, of length] by simp
    then show ?thesis using start cursor drop by (simp add: found_def)
  qed
  show "first = hd (write_head m a)"
    using tail drop hd_write_head(1) [OF \<open>m < 8\<close>, of a] by (metis hd_append2 list.sel(1))
qed

lemma scan_string_found:
  assumes "scan_string bytes m n cursor before = Inr (fin, after)"
  obtains body where "found bytes cursor fin body" "length body = n" "n \<le> MAX_RAW_CREDENTIAL_BYTES"
    "m = 3 \<Longrightarrow> from_utf8 body \<noteq> None" "sb_remaining_nodes after = sb_remaining_nodes before"
    "sb_payload_bytes after = sb_payload_bytes before + n"
  using assms
  by (auto simp: scan_string_def get_range_def found_def bind_result_Inr_iff ok_or_Inr_iff not_less split: if_splits)

definition scanned :: "bytes \<Rightarrow> nat \<Rightarrow> nat \<Rightarrow> cbor_value list \<Rightarrow> scan_budget \<Rightarrow> scan_budget \<Rightarrow> bool" where
  "scanned bytes start fin vs before after \<longleftrightarrow>
     found bytes start fin (concat (map to_canonical vs))
     \<and> sb_remaining_nodes before = sb_remaining_nodes after + sum_list (map value_nodes vs)
     \<and> sb_payload_bytes after = sb_payload_bytes before + sum_list (map value_payload vs)"

lemma scanned_append:
  "scanned bytes i j vs b1 b2 \<Longrightarrow> scanned bytes j k ws b2 b3 \<Longrightarrow> scanned bytes i k (vs @ ws) b1 b3"
  by (auto simp: scanned_def intro: found_append)

lemma scanned_wrap:
  assumes "found bytes start cursor h" "scanned bytes cursor fin vs b1 b2"
    and "to_canonical v = h @ concat (map to_canonical vs)" "value_nodes v = Suc (sum_list (map value_nodes vs))"
    and "value_payload v = sum_list (map value_payload vs)"
    and "0 < sb_remaining_nodes b" "b1 = b\<lparr>sb_remaining_nodes := sb_remaining_nodes b - 1\<rparr>"
  shows "scanned bytes start fin [v] b b2"
  using assms found_append [of bytes start cursor h fin] by (auto simp: scanned_def)

lemma scanned_none: "found bytes i j b \<Longrightarrow> scanned bytes j j [] c c"
  by (simp add: scanned_def found_def)

lemma pairs_concat: "concat (map to_canonical (concat (map (\<lambda>p. [fst p, snd p]) ps))) = pairs_bytes ps"
  by (induction ps) (simp_all del: to_canonical.simps)

lemma pairs_sum: "sum_list (map f (concat (map (\<lambda>p. [fst p, snd p]) ps))) = sum_list (map (\<lambda>p. f (fst p) + (f (snd p) :: nat)) ps)"
  by (induction ps) simp_all

lemma small_word_cases:
  assumes "unat (w :: 'a :: len word) < n"
  shows "w \<in> set (map of_nat [0..<n])"
proof -
  have "w = of_nat (unat w)" by simp
  with assms show ?thesis by (metis atLeast_upt image_eqI lessThan_iff list.set_map)
qed

lemma scan_major_cases:
  assumes "(m :: u8) < 8"
  shows "m = 0 \<or> m = 1 \<or> (m = 2 \<or> m = 3) \<or> m = 4 \<or> m = 5 \<or> m = 6 \<or> m = 7"
  using small_word_cases [of m 8] assms by (auto simp: word_less_nat_alt upt_rec)

lemma simple_head:
  assumes "0xF4 \<le> hd (write_head 7 a)" "hd (write_head 7 a) \<le> 0xF6"
  shows "a = 20 \<or> a = 21 \<or> a = 22"
proof (cases "a \<le> 23")
  case True
  then have "a \<in> set (map of_nat [0..<24])" by (intro small_word_cases) (simp add: word_le_nat_alt)
  with assms True show ?thesis by (auto simp: write_head_def upt_rec)
next
  case False
  with assms show ?thesis by (auto simp: write_head_def Let_def split: if_splits)
qed

lemma simple_encoding:
  assumes "0xF4 \<le> hd (write_head 7 a)" "hd (write_head 7 a) \<le> 0xF6"
  shows "to_canonical (if a = 22 then Null else Bool (a = 21)) = write_head 7 a"
  using simple_head [OF assms] simple_as_head by (auto simp del: to_canonical.simps)

lemma map_encoding:
  assumes "sorted_wrt (<) (map key_bytes ps)"
  shows "to_canonical (Map ps) =
    write_head 5 (of_nat (length ps)) @ concat (map to_canonical (concat (map (\<lambda>p. [fst p, snd p]) ps)))"
  using to_canonical_sorted_map [OF assms] by (simp add: pairs_concat del: to_canonical.simps)

lemma scan_string_scanned:
  assumes h: "found bytes start cursor (write_head m a)" and m: "m = 2 \<or> m = 3"
    and run: "scan_string bytes m (unat a) cursor (budget\<lparr>sb_remaining_nodes := sb_remaining_nodes budget - 1\<rparr>) = Inr (fin, budget')"
    and nodes: "0 < sb_remaining_nodes budget" and d: "depth \<le> MAX_SCHEMA_DEPTH"
  shows "\<exists>v. scannable depth v \<and> scanned bytes start fin [v] budget budget'"
proof -
  from run obtain body where body: "found bytes cursor fin body" "length body = unat a"
    "unat a \<le> MAX_RAW_CREDENTIAL_BYTES" "m = 3 \<Longrightarrow> from_utf8 body \<noteq> None"
    and budget': "sb_remaining_nodes budget' = sb_remaining_nodes budget - 1"
    "sb_payload_bytes budget' = sb_payload_bytes budget + unat a"
    by (rule scan_string_found) auto
  have whole: "found bytes start fin (write_head m a @ body)" using found_append [OF h body(1)] .
  have a: "of_nat (length body) = a" by (simp add: body(2))
  show ?thesis
  proof (cases "m = 3")
    case True
    then obtain t where t: "valid_str t" "body = as_bytes t" using body(4) by (auto simp: from_utf8_Some_iff)
    with True whole budget' body a nodes d show ?thesis
      by (intro exI [of _ "Text t"]) (simp add: scanned_def)
  next
    case False
    with m whole budget' body a nodes d show ?thesis
      by (intro exI [of _ "Bytes body"]) (simp add: scanned_def)
  qed
qed

lemma scan_sound:
  "scan_item bytes start d budget = Inr (fin, budget') \<Longrightarrow>
     \<exists>v. scannable d v \<and> scanned bytes start fin [v] budget budget'"
  "scan_items bytes n cursor d budget = Inr (fin, budget') \<Longrightarrow> cursor \<le> length bytes \<Longrightarrow>
     \<exists>vs. length vs = n \<and> list_all (scannable d) vs \<and> scanned bytes cursor fin vs budget budget'"
  "scan_pairs bytes n prev key_start d budget = Inr (fin, budget') \<Longrightarrow> key_start \<le> length bytes \<Longrightarrow>
     \<exists>ps. length ps = n \<and> list_all (\<lambda>p. scannable d (fst p) \<and> scannable d (snd p)) ps
       \<and> sorted_wrt (<) ((case prev of None \<Rightarrow> [] | Some r \<Rightarrow> [slice_between bytes r]) @ map key_bytes ps)
       \<and> scanned bytes key_start fin (concat (map (\<lambda>p. [fst p, snd p]) ps)) budget budget'"
proof (induction bytes start d budget and bytes n cursor d budget and bytes n prev key_start d budget
    arbitrary: fin budget' and fin budget' and fin budget' rule: scan_item_scan_items_scan_pairs.induct)
  case (1 bytes start depth budget)
  let ?b = "budget\<lparr>sb_remaining_nodes := sb_remaining_nodes budget - 1\<rparr>"
  from 1(4) obtain first m a cursor where d: "depth \<le> MAX_SCHEMA_DEPTH" and nodes: "0 < sb_remaining_nodes budget"
    and head: "scan_head bytes start = Inr (first, m, a, cursor)"
    by (auto simp: scan_item.simps [of bytes start] bind_result_Inr_iff Let_def split: if_splits)
  note h = scan_head_found [OF head]
  have cursor: "cursor \<le> length bytes" using h(1) by (simp add: found_def)
  note run = 1(4) [unfolded scan_item.simps [of bytes start] head Let_def]
  have d': "\<not> MAX_SCHEMA_DEPTH < depth" and nodes': "sb_remaining_nodes budget \<noteq> 0" using d nodes by simp_all
  note ih = d' nodes' refl head refl refl refl
  note wrap = scanned_wrap [OF h(1) _ _ _ _ nodes refl]
  consider "m = 0" | "m = 1" | "m = 2 \<or> m = 3" | "m = 4" | "m = 5" | "m = 6" | "m = 7"
    using scan_major_cases [OF h(2)] by blast
  then show ?case
  proof cases
    case 1
    with run d nodes have "fin = cursor" "budget' = ?b" by simp_all
    with wrap [OF scanned_none [OF h(1)], of "Uint a"] 1 d show ?thesis by (intro exI [of _ "Uint a"]) simp
  next
    case 2
    with run d nodes have "fin = cursor" "budget' = ?b" by simp_all
    with wrap [OF scanned_none [OF h(1)], of "Nint a"] 2 d show ?thesis by (intro exI [of _ "Nint a"]) simp
  next
    case 3
    with run d nodes have "scan_string bytes m (unat a) cursor ?b = Inr (fin, budget')" by auto
    from scan_string_scanned [OF h(1) 3 this nodes d] show ?thesis .
  next
    case 4
    with run d nodes have limits: "\<not> MAX_CONTAINER_ITEMS < unat a" "\<not> sb_remaining_nodes ?b < unat a"
      and items: "scan_items bytes (unat a) cursor (depth + 1) ?b = Inr (fin, budget')"
      by (auto split: if_splits)
    from 1(1) [OF ih _ _ 4 limits items cursor] 4 obtain vs where
      vs: "length vs = unat a" "list_all (scannable (depth + 1)) vs" "scanned bytes cursor fin vs ?b budget'" by auto
    have "to_canonical (Array vs) = write_head m a @ concat (map to_canonical vs)" using 4 by (simp add: vs(1))
    with wrap [OF vs(3), of "Array vs"] d limits vs(1,2) show ?thesis
      by (intro exI [of _ "Array vs"]) (simp del: to_canonical.simps)
  next
    case 5
    with run d nodes have limits: "\<not> MAX_MAP_PAIRS < unat a" "\<not> sb_remaining_nodes ?b < unat a * 2"
      and items: "scan_pairs bytes (unat a) None cursor (depth + 1) ?b = Inr (fin, budget')"
      by (auto split: if_splits)
    from 1(2) [OF ih _ _ _ 5 limits items cursor] 5 obtain ps where ps: "length ps = unat a"
      "list_all (\<lambda>p. scannable (depth + 1) (fst p) \<and> scannable (depth + 1) (snd p)) ps"
      "sorted_wrt (<) (map key_bytes ps)"
      "scanned bytes cursor fin (concat (map (\<lambda>p. [fst p, snd p]) ps)) ?b budget'" by auto
    with wrap [OF ps(4), of "Map ps"] map_encoding [OF ps(3)] 5 d limits show ?thesis
      by (intro exI [of _ "Map ps"]) (simp add: pairs_sum del: to_canonical.simps)
  next
    case 6
    with run d nodes have item: "scan_item bytes cursor (depth + 1) ?b = Inr (fin, budget')" by simp
    from 1(3) [OF ih _ _ _ _ 6 item] 6 obtain v where v: "scannable (depth + 1) v" "scanned bytes cursor fin [v] ?b budget'"
      by auto
    with wrap [OF v(2), of "Tag a v"] 6 d show ?thesis by (intro exI [of _ "Tag a v"]) simp
  next
    case 7
    with run d nodes have "fin = cursor" "budget' = ?b" and first: "0xF4 \<le> first" "first \<le> 0xF6"
      by (auto split: if_splits)
    with wrap [OF scanned_none [OF h(1)], of "if a = 22 then Null else Bool (a = 21)"] d
      simple_encoding [of a] h(3) 7 show ?thesis
      by (intro exI [of _ "if a = 22 then Null else Bool (a = 21)"]) (simp del: to_canonical.simps)
  qed
next
  case (2 bytes cursor depth budget)
  then show ?case by (auto simp: scanned_def found_Nil)
next
  case (3 bytes n cursor depth budget)
  from 3(3) obtain c b where one: "scan_item bytes cursor depth budget = Inr (c, b)"
    and more: "scan_items bytes n c depth b = Inr (fin, budget')"
    by (auto simp: bind_result_Inr_iff)
  from 3(1) [OF one] obtain v where v: "scannable depth v" "scanned bytes cursor c [v] budget b" by blast
  then have "c \<le> length bytes" by (simp add: scanned_def found_def)
  from 3(2) [OF one refl more this] obtain vs where
    "length vs = n" "list_all (scannable depth) vs" "scanned bytes c fin vs b budget'" by blast
  with v show ?case
    using scanned_append [of bytes cursor c "[v]" budget b fin vs budget'] by (intro exI [of _ "v # vs"]) simp
next
  case (4 bytes prev cursor depth budget)
  then show ?case by (auto simp: scanned_def found_Nil split: option.splits)
next
  case (5 bytes n prev key_start depth budget)
  from 5(4) obtain c b c' b' where key: "scan_item bytes key_start depth budget = Inr (c, b)"
    and order: "\<And>r. prev = Some r \<Longrightarrow> cmp (slice_between bytes r) (slice_between bytes (key_start, c)) = Less"
    and val: "scan_item bytes c depth b = Inr (c', b')"
    and more: "scan_pairs bytes n (Some (key_start, c)) c' depth b' = Inr (fin, budget')"
    by (auto simp: bind_result_Inr_iff split: if_splits option.splits)
  have ok: "\<not> (case prev of None \<Rightarrow> False
      | Some r \<Rightarrow> cmp (slice_between bytes r) (slice_between bytes (key_start, c)) \<noteq> Less)"
    using order by (simp split: option.splits)
  from 5(1) [OF key] obtain k where k: "scannable depth k" "scanned bytes key_start c [k] budget b" by blast
  from 5(2) [OF key refl ok val] obtain v where v: "scannable depth v" "scanned bytes c c' [v] b b'" by blast
  then have "c' \<le> length bytes" by (simp add: scanned_def found_def)
  from 5(3) [OF key refl ok val refl more this] obtain ps where ps: "length ps = n"
    "list_all (\<lambda>p. scannable depth (fst p) \<and> scannable depth (snd p)) ps"
    "sorted_wrt (<) (slice_between bytes (key_start, c) # map key_bytes ps)"
    "scanned bytes c' fin (concat (map (\<lambda>p. [fst p, snd p]) ps)) b' budget'" by auto
  have kb: "slice_between bytes (key_start, c) = to_canonical k"
    using k(2) by (intro found_slice) (simp add: scanned_def)
  have all: "scanned bytes key_start fin ([k] @ [v] @ concat (map (\<lambda>p. [fst p, snd p]) ps)) budget budget'"
    using k(2) v(2) ps(4) by (blast intro: scanned_append)
  show ?case
    using k(1) v(1) ps(1-3) all order
    by (intro exI [of _ "(k, v) # ps"]) (auto simp: kb cmp_def split: option.splits if_splits)
qed

lemma write_head_grows:
  assumes "m < 8" "n \<le> k"
  shows "Suc n \<le> length (write_head m a) + k"
proof -
  have "0 < length (write_head m a)" using hd_write_head(1) [OF assms(1)] by simp
  with assms(2) show ?thesis by linarith
qed

lemma nodes_le_length: "scannable d v \<Longrightarrow> value_nodes v \<le> length (to_canonical v)"
proof (induction v arbitrary: d)
  case (Array xs)
  then have "sum_list (map value_nodes xs) \<le> sum_list (map (\<lambda>x. length (to_canonical x)) xs)"
    by (intro sum_list_mono) (auto simp: list_all_iff)
  then show ?case by (simp add: length_concat comp_def write_head_grows)
next
  case (Map ps)
  have "pairs_nodes ps \<le> sum_list (map (\<lambda>p. length (to_canonical (fst p) @ to_canonical (snd p))) ps)"
    using Map by (intro sum_list_mono) (fastforce simp: list_all_iff fsts.simps snds.simps intro!: add_mono)
  moreover have "to_canonical (Map ps) = write_head 5 (of_nat (length ps)) @ pairs_bytes ps"
    using Map.prems by (intro to_canonical_sorted_map) simp
  ultimately show ?case by (simp add: length_concat comp_def write_head_grows del: to_canonical.simps)
next
  case (Tag t v)
  then show ?case using write_head_grows [of 6] by auto
qed (use write_head_grows [of _ 0 0] write_head_grows [of _ 0] in auto)


text \<open>
  C8. The structural scan that runs before any decoding accepts exactly the canonical CBOR encodings of one value within
  the limits: at most 32 MiB, nesting depth 8, arrays of 65536 items, maps of 16 pairs with strictly ascending encoded
  keys, strings of 2 MiB, well-formed UTF-8 and a million nodes.
\<close>

theorem preflight_exact:
  "structural_preflight bytes = Inr () \<longleftrightarrow>
     length bytes \<le> MAX_CHECKPOINT_BYTES
     \<and> (\<exists>v. bytes = to_canonical v \<and> scannable 0 v \<and> value_nodes v \<le> MAX_STRUCTURAL_NODES)"
proof
  assume pre: "structural_preflight bytes = Inr ()"
  then obtain budget where
    "scan_item bytes 0 0 \<lparr>sb_remaining_nodes = MAX_STRUCTURAL_NODES, sb_payload_bytes = 0\<rparr> = Inr (length bytes, budget)"
    by (auto simp: structural_preflight_def bind_result_Inr_iff ensure_Inr_iff split: if_splits)
  from scan_sound(1) [OF this] obtain v where "scannable 0 v" "value_nodes v \<le> MAX_STRUCTURAL_NODES"
    "found bytes 0 (length bytes) (to_canonical v)" by (auto simp: scanned_def)
  with preflight_length [OF pre] found_whole show "length bytes \<le> MAX_CHECKPOINT_BYTES
     \<and> (\<exists>v. bytes = to_canonical v \<and> scannable 0 v \<and> value_nodes v \<le> MAX_STRUCTURAL_NODES)" by blast
next
  assume "length bytes \<le> MAX_CHECKPOINT_BYTES
     \<and> (\<exists>v. bytes = to_canonical v \<and> scannable 0 v \<and> value_nodes v \<le> MAX_STRUCTURAL_NODES)"
  then show "structural_preflight bytes = Inr ()" using preflight_accepts by blast
qed


end
