(* ===== verification/Ingestion_Sound.thy ===== *)
theory Ingestion_Sound
  imports Ingestion X509_Path
begin

text \<open>
  What the storage boundary of \<open>crates/wallet-core/src/lib.rs\<close> guarantees: an accepted credential
  comes from an issuer whose certificate path ends in a granted anchor of the service its type requires, is signed
  by that issuer, bound to the device key and in its validity period; every stored credential passed that check;
  the status gate opens only on fresh lists of trusted providers.
\<close>

section \<open>Resolved issuers\<close>

definition issuer_rooted :: "core_env \<Rightarrow> core \<Rightarrow> credential_issuer_evidence \<Rightarrow> bool" where
  "issuer_rooted E core ev \<longleftrightarrow>
     (\<exists>l a path. ts_current (co_trust_store core) = Some l
        \<and> tl_valid_from l \<le> co_now_epoch core \<and> co_now_epoch core \<le> tl_valid_until l
        \<and> a \<in> set (tl_anchors l) \<and> ta_service_type a = trust_service (ev_service ev) \<and> ta_status a = Granted
        \<and> path \<noteq> [] \<and> parse_cert (ce_der E) (ta_certificate_der a) = Inr (last path)
        \<and> list_all (\<lambda>(child, parent). issued_by (ce_certs E) child parent) (zip path (tl path))
        \<and> list_all (in_force (ce_certs E) (co_now_epoch core)) path
        \<and> \<not> pc_is_ca (hd path) \<and> pc_uri_sans (hd path) = [ev_identity ev]
        \<and> pc_public_key_raw (hd path) = ev_public_key_raw ev)"

lemma check_credential_issuer_Inr:
  assumes "check_credential_issuer D chain anchors now v = Inr validated"
  obtains path where "validate_path D chain anchors now v = Inr path" "\<not> pc_is_ca (hd path)"
    "pc_uri_sans (hd path) = [vi_identity validated]" "pc_public_key_raw (hd path) = vi_public_key_raw validated"
proof -
  from assms obtain path where path: "validate_path D chain anchors now v = Inr path" "\<not> pc_is_ca (hd path)"
    unfolding check_credential_issuer_def Let_def bind_result_Inr_iff [where r = "validate_path D chain anchors now v"]
    by (metis Inl_Inr_False)
  have "pc_uri_sans (hd path) = [vi_identity validated] \<and> pc_public_key_raw (hd path) = vi_public_key_raw validated"
  proof (cases "pc_uri_sans (hd path)")
    case Nil
    then show ?thesis using assms path by (simp add: check_credential_issuer_def Let_def)
  next
    case (Cons i rest)
    then show ?thesis using assms path
      by (cases rest) (auto simp: check_credential_issuer_def Let_def split: if_splits)
  qed
  then show ?thesis using that path by blast
qed

lemma resolve_issuer_in_rooted:
  assumes "resolve_issuer_in E core chain service = Some ev"
  shows "issuer_rooted E core ev" "ev_service ev = service" "ev_certificate_path ev = chain"
proof -
  let ?anchors = "parsed_anchors_at (ce_der E) (co_trust_store core) (trust_service service) (co_now_epoch core)"
  from assms obtain validated where
    v: "check_credential_issuer (ce_der E) chain ?anchors (co_now_epoch core) (ce_certs E) = Inr validated" and
    ev: "ev = \<lparr>ev_identity = vi_identity validated, ev_service = service, ev_public_key_raw = vi_public_key_raw validated,
      ev_certificate_path = chain, ev_not_before = vi_not_before validated, ev_not_after = vi_not_after validated\<rparr>"
    by (auto simp: resolve_issuer_in_def Let_def split: if_splits sum.splits)
  from v obtain path where path: "validate_path (ce_der E) chain ?anchors (co_now_epoch core) (ce_certs E) = Inr path"
    "\<not> pc_is_ca (hd path)" "pc_uri_sans (hd path) = [vi_identity validated]"
    "pc_public_key_raw (hd path) = vi_public_key_raw validated"
    by (rule check_credential_issuer_Inr)
  note A = validate_path_accepted [OF path(1)]
  have "list_all (\<lambda>(child, parent). issued_by (ce_certs E) child parent) (zip path (tl path))"
    using A(7) by (auto simp: list_all_length nth_tl)
  moreover have "list_all (in_force (ce_certs E) (co_now_epoch core)) path" using A(3) by (simp add: list_all_iff)
  ultimately show "issuer_rooted E core ev"
    unfolding issuer_rooted_def ev using parsed_anchors_at_source [OF A(2)] A(1) path(2-4)
    by (metis credential_issuer_evidence.select_convs(1,2,3))
  show "ev_service ev = service" "ev_certificate_path ev = chain" by (simp_all add: ev)
qed

lemma resolve_credential_issuers_rooted:
  assumes "ev \<in> set (resolve_credential_issuers E core chain)"
  shows "issuer_rooted E core ev" "ev_certificate_path ev = chain"
  using assms resolve_issuer_in_rooted unfolding resolve_credential_issuers_def set_map_filter by blast+

lemma consistent_key:
  "issuer_candidates_are_consistent issuers \<Longrightarrow> ev \<in> set issuers \<Longrightarrow> ev_public_key_raw (issuers ! 0) = ev_public_key_raw ev"
  by (cases issuers) (auto simp: issuer_candidates_are_consistent_def list_all_iff)

lemma issuer_for_type_Inr:
  assumes "issuer_for_type core issuers ty = Inr ev"
  obtains t where "cat_get (co_catalogue core) ty = Some t" "ev_service ev = at_issuer_trust_domain t" "ev \<in> set issuers"
  using assms by (auto simp: issuer_for_type_def bind_result_Inr_iff catalogue_trust_domain_def find_Some_iff)

section \<open>Validity and binding\<close>

definition current_at :: "credential_validity \<Rightarrow> int \<Rightarrow> bool" where
  "current_at v now \<longleftrightarrow>
     (case cv_not_before v of None \<Rightarrow> True | Some nbf \<Rightarrow> nbf \<le> now)
     \<and> (case cv_expires_at v of None \<Rightarrow> True | Some ex \<Rightarrow> now < ex)
     \<and> (case cv_issued_at v of None \<Rightarrow> True | Some iat \<Rightarrow> iat \<le> now + 300)"

lemma validate_at_Inr:
  assumes "validate_at v now = Inr u" "0 \<le> now"
  shows "current_at v now"
proof -
  have "saturating_add_i64 now IAT_CLOCK_SKEW_SECONDS \<le> now + 300"
    using assms(2) by (simp add: IAT_CLOCK_SKEW_SECONDS_def saturating_add_i64_def i64_defs)
  then show ?thesis
    using assms(1) by (auto simp: validate_at_def current_at_def split: if_splits option.splits)
qed

lemma json_validity_Inr:
  assumes "json_validity claims now = Inr v" "0 \<le> now"
  shows "current_at v now" "json_epoch_claim claims ''exp'' = Inr (cv_expires_at v)"
    "json_epoch_claim claims ''nbf'' = Inr (cv_not_before v)"
  using assms validate_at_Inr by (auto simp: json_validity_def bind_result_Inr_iff Let_def)

lemma mdoc_validity_Inr:
  assumes "mdoc_validity validity now = Inr v" "0 \<le> now"
  shows "current_at v now"
    "\<exists>t. tdate_parse (valid_until validity) = Some t \<and> cv_expires_at v = Some (unix_seconds_ceil t)"
    "\<exists>t. tdate_parse (valid_from validity) = Some t \<and> cv_not_before v = Some (unix_seconds_ceil t)"
  using assms validate_at_Inr by (auto simp: mdoc_validity_def bind_result_Inr_iff Let_def split: if_splits)

text \<open>An uncompressed point is the tag and its two coordinates.\<close>

lemma uncompressed_point_parts:
  assumes "uncompressed_point key"
  shows "key = 0x04 # take 32 (drop 1 key) @ take 32 (drop 33 key)"
proof -
  from assms obtain k where k: "key = 0x04 # k" "length k = 64"
    by (cases key) (auto simp: uncompressed_point_def)
  have "take 32 k @ take 32 (drop 32 k) = k" using k(2) by (simp add: take_add [symmetric])
  then show ?thesis using k by simp
qed

section \<open>Accepted credentials\<close>

lemma verify_and_process_signed:
  assumes "verify_and_process C vc verify digest key alg = Inr processed"
  shows "\<exists>header payload input sig. split_jws C (issuer_jwt vc) = Inr (header, payload, input, sig)
    \<and> verify alg key (as_bytes input) sig = Inr ()"
  using assms by (auto simp: verify_and_process_def bind_result_Inr_iff split: if_splits)

lemma verify_sdjwt_credential_Inr:
  assumes "verify_sdjwt_credential E core bytes issuers assertion = Inr (credential, ev)"
  obtains compact sd processed payload vct t holding validity st where
    "from_utf8 bytes = Some compact" "sdjwt_parse compact = Inr sd"
    "verify_and_process (ce_codec E) sd (ce_verify E) (ce_sha256 E) (ev_public_key_raw (issuers ! 0)) Es256 = Inr processed"
    "issuer_payload (ce_codec E) sd = Inr payload" "validate_sdjwt_issuer_profile sd payload processed = Inr ()"
    "map_of (ps_claims processed) ''iss'' = Some (JString (ev_identity ev))" "assertion = ev_identity ev"
    "map_of (ps_claims processed) ''vct'' = Some (JString vct)" "cat_get (co_catalogue core) vct = Some t"
    "at_format t = ''dc+sd-jwt''" "check_special_type E core vct (ps_claims processed) = Inr ()"
    "issuer_for_type core issuers vct = Inr ev" "issuer_allowed (co_catalogue core) vct (ev_identity ev)"
    "satisfies_mandatory (co_catalogue core) vct (map fst (ps_claims processed))"
    "json_validity (ps_claims processed) (co_now_epoch core) = Inr validity"
    "sdjwt_device_binding_matches E (ps_claims processed) (co_device_public_key core)"
    "status_reference_from_claims (ps_claims processed) = Inr st"
    "held_credential_from_verified_sd sd processed st = Inr holding"
    "credential = VerifiedSdJwt holding processed validity"
proof -
  from assms obtain compact sd processed payload vct t holding validity st where
    "from_utf8 bytes = Some compact" "sdjwt_parse compact = Inr sd"
    "verify_and_process (ce_codec E) sd (ce_verify E) (ce_sha256 E) (ev_public_key_raw (issuers ! 0)) Es256 = Inr processed"
    "issuer_payload (ce_codec E) sd = Inr payload" "validate_sdjwt_issuer_profile sd payload processed = Inr ()"
    "map_of (ps_claims processed) ''iss'' = Some (JString (ev_identity ev))" "assertion = ev_identity ev"
    "map_of (ps_claims processed) ''vct'' = Some (JString vct)" "cat_get (co_catalogue core) vct = Some t"
    "at_format t = ''dc+sd-jwt''" "check_special_type E core vct (ps_claims processed) = Inr ()"
    "issuer_for_type core issuers vct = Inr ev" "issuer_allowed (co_catalogue core) vct (ev_identity ev)"
    "satisfies_mandatory (co_catalogue core) vct (map fst (ps_claims processed))"
    "json_validity (ps_claims processed) (co_now_epoch core) = Inr validity"
    "sdjwt_device_binding_matches E (ps_claims processed) (co_device_public_key core)"
    "status_reference_from_claims (ps_claims processed) = Inr st"
    "held_credential_from_verified_sd sd processed st = Inr holding"
    "credential = VerifiedSdJwt holding processed validity"
    unfolding verify_sdjwt_credential_def Let_def bind_result_Inr_iff map_err_Inr_iff ok_or_Inr_iff ensure_Inr_iff
    by (auto simp: bind_eq_Some_conv split: option.splits if_splits)
  then show ?thesis by (rule that)
qed

lemma verify_mdoc_credential_Inr:
  assumes "verify_mdoc_credential E core issued issuers assertion = Inr (credential, ev)"
  obtains mso t validity where
    "verify_issuer_signed issued (ce_verify E) (ce_sha256 E) (ev_public_key_raw (issuers ! 0)) Es256 = Inr mso"
    "mso_version mso = ''1.0''" "digest_algorithm mso = ''SHA-256''" "cat_get (co_catalogue core) (doc_type mso) = Some t"
    "at_format t = ''mso_mdoc''"
    "issuer_for_type core issuers (doc_type mso) = Inr ev" "assertion = ev_identity ev"
    "issuer_allowed (co_catalogue core) (doc_type mso) (ev_identity ev)"
    "satisfies_mandatory_mdoc (co_catalogue core) (doc_type mso) (mdoc_held_claims issued)"
    "mdoc_validity (mso_validity_info mso) (co_now_epoch core) = Inr validity"
    "mdoc_device_binding_matches (device_key mso) (co_device_public_key core)"
    "credential = VerifiedMdoc \<lparr>mh_doctype = doc_type mso, mh_issuer_signed = issued\<rparr> validity"
proof -
  from assms show ?thesis
    unfolding verify_mdoc_credential_def Let_def bind_result_Inr_iff map_err_Inr_iff ok_or_Inr_iff ensure_Inr_iff
    by (auto intro: that)
qed

lemma authenticate_sdjwt_Inr:
  assumes "authenticate_received_credential E core DcSdJwt bytes chain assertion = Inr auth"
  obtains "0 < co_now_epoch core" "issuer_candidates_are_consistent (resolve_credential_issuers E core chain)"
    "verify_sdjwt_credential E core bytes (resolve_credential_issuers E core chain) assertion
      = Inr (ac_credential auth, cp_issuer (ac_provenance auth))"
    "cp_format (ac_provenance auth) = DcSdJwt" "cp_raw_credential (ac_provenance auth) = bytes"
  using assms
  by (auto simp: authenticate_received_credential_def bind_result_Inr_iff Let_def split: if_splits)

lemma authenticate_mdoc_Inr:
  assumes "authenticate_received_credential E core MsoMdoc bytes chain assertion = Inr auth"
  obtains issued embedded where "0 < co_now_epoch core" "decode_mdoc_credential E bytes = Inr issued"
    "embedded_mdoc_issuer_chain issued = Inr embedded"
    "issuer_candidates_are_consistent (resolve_credential_issuers E core embedded)"
    "verify_mdoc_credential E core issued (resolve_credential_issuers E core embedded) assertion
      = Inr (ac_credential auth, cp_issuer (ac_provenance auth))"
    "cp_format (ac_provenance auth) = MsoMdoc" "cp_raw_credential (ac_provenance auth) = bytes"
  using assms
  by (auto simp: authenticate_received_credential_def bind_result_Inr_iff Let_def split: if_splits)

definition issuer_permitted :: "core \<Rightarrow> string \<Rightarrow> credential_issuer_evidence \<Rightarrow> bool" where
  "issuer_permitted core ty ev \<longleftrightarrow>
     (\<exists>t. cat_get (co_catalogue core) ty = Some t \<and> ev_service ev = at_issuer_trust_domain t
        \<and> ev_identity ev \<in> set (at_trusted_issuers t))"

lemma permitted_issuer:
  assumes "issuer_for_type core (resolve_credential_issuers E core chain) ty = Inr ev"
    "issuer_candidates_are_consistent (resolve_credential_issuers E core chain)"
    "issuer_allowed (co_catalogue core) ty (ev_identity ev)"
  shows "issuer_permitted core ty ev" "issuer_rooted E core ev" "ev_certificate_path ev = chain"
    "ev_public_key_raw (resolve_credential_issuers E core chain ! 0) = ev_public_key_raw ev"
proof -
  from assms(1) obtain t where t: "cat_get (co_catalogue core) ty = Some t" "ev_service ev = at_issuer_trust_domain t"
    "ev \<in> set (resolve_credential_issuers E core chain)"
    by (rule issuer_for_type_Inr)
  show "issuer_permitted core ty ev" using t(1,2) assms(3) by (simp add: issuer_permitted_def issuer_allowed_def)
  show "issuer_rooted E core ev" "ev_certificate_path ev = chain" using resolve_credential_issuers_rooted [OF t(3)] by simp_all
  show "ev_public_key_raw (resolve_credential_issuers E core chain ! 0) = ev_public_key_raw ev"
    by (rule consistent_key [OF assms(2) t(3)])
qed

lemma sdjwt_binding:
  assumes "sdjwt_device_binding_matches E claims key"
  shows "\<exists>cnf jwk x y. map_of claims ''cnf'' = Some cnf \<and> json_get ''jwk'' cnf = Some (JObject jwk)
    \<and> jwk_coordinate E jwk ''x'' = Some x \<and> jwk_coordinate E jwk ''y'' = Some y
    \<and> \<not> has_key ''d'' jwk \<and> key = 0x04 # x @ y"
  using assms uncompressed_point_parts [of key]
  by (auto simp: sdjwt_device_binding_matches_def bind_eq_Some_conv split: option.splits)

lemma mdoc_binding:
  assumes "mdoc_device_binding_matches dk key"
  shows "\<exists>pairs x y. dk = Map pairs \<and> cbor_get pairs (Nint 1) = Some (Bytes x) \<and> cbor_get pairs (Nint 2) = Some (Bytes y)
    \<and> Nint 3 \<notin> set (map fst pairs) \<and> key = 0x04 # x @ y"
  using assms uncompressed_point_parts [of key]
  by (auto simp: mdoc_device_binding_matches_def list_ex_iff split: cbor_value.splits)

lemma issuer_profile_Inr:
  assumes "validate_sdjwt_issuer_profile sd payload processed = Inr u"
  shows "key_binding_jwt sd = None"
    "list_all (\<lambda>c. map_of (ps_claims processed) c = map_of payload c) SDJWT_CONTROL_CLAIMS"
  using assms
  by (auto simp: validate_sdjwt_issuer_profile_def control_claim_ok_def list_all_iff split: if_splits option.splits)


lemma verify_issuer_signed_Inr:
  assumes "verify_issuer_signed issued verify sha key alg = Inr mso"
  shows "cose_verify (issuer_auth issued) verify alg key [] None = Inr ()" "decode_mso issued = Inr mso"
    "check_items sha (value_digests mso) (is_name_spaces issued)"
  using assms by (auto simp: verify_issuer_signed_def decode_mso_def bind_result_Inr_iff)


section \<open>Stored credentials\<close>

text \<open>The operations on the core that a shell can call in a production build.\<close>

inductive core_step :: "core_env \<Rightarrow> core \<Rightarrow> core \<Rightarrow> bool" for E where
  clock: "core_step E core (snd (set_clock epoch core))"
| device_key: "core_step E core (load_device_key key core)"
| attestation: "core_step E core (snd (load_wua E jwt provider core))"
| trust: "core_step E core (snd (load_trust_list E signed_list operator_key core))"
| ingest: "core_step E core (snd (ingest_credential E format bytes chain issuer_id core))"
| status: "core_step E core (snd (load_status_list E uri token provider_chain core))"

inductive core_reachable :: "core_env \<Rightarrow> core \<Rightarrow> bool" for E where
  new: "core_reachable E core_new"
| step: "core_reachable E core \<Longrightarrow> core_step E core core' \<Longrightarrow> core_reachable E core'"

text \<open>A credential was admitted when it passed authentication in an earlier state of the core.\<close>

definition admitted :: "core_env \<Rightarrow> verified_credential \<Rightarrow> stored_provenance \<Rightarrow> bool" where
  "admitted E credential provenance \<longleftrightarrow>
     (\<exists>earlier p chain assertion. core_reachable E earlier \<and> provenance = AuthenticatedProvenance p
        \<and> authenticate_received_credential E earlier (cp_format p) (cp_raw_credential p) chain assertion
            = Inr \<lparr>ac_credential = credential, ac_provenance = p\<rparr>)"

definition stored_admitted :: "core_env \<Rightarrow> core \<Rightarrow> bool" where
  "stored_admitted E core \<longleftrightarrow>
     list_all (\<lambda>s. \<exists>processed. ss_authenticated s = Some processed
        \<and> admitted E (VerifiedSdJwt (ss_holding s) processed (ss_validity s)) (ss_provenance s)) (co_credentials core)
     \<and> list_all (\<lambda>s. admitted E (VerifiedMdoc (sm_holding s) (sm_validity s)) (sm_provenance s)) (co_mdoc_holdings core)
     \<and> distinct (map ss_holding (co_credentials core)) \<and> distinct (map sm_holding (co_mdoc_holdings core))"

lemma update_first_None: "update_first P f xs = None \<longleftrightarrow> list_all (\<lambda>x. \<not> P x) xs"
  by (induction xs) auto

lemma update_first_Some:
  "update_first P f xs = Some ys \<Longrightarrow> \<exists>as x bs. xs = as @ x # bs \<and> P x \<and> ys = as @ f x # bs"
proof (induction xs arbitrary: ys)
  case (Cons x xs)
  show ?case
  proof (cases "P x")
    case True
    then show ?thesis using Cons.prems by (intro exI [of _ "[]"]) auto
  next
    case False
    then obtain zs where zs: "update_first P f xs = Some zs" "ys = x # zs" using Cons.prems by auto
    from Cons.IH [OF zs(1)] obtain as y bs where "xs = as @ y # bs" "P y" "zs = as @ f y # bs" by blast
    then show ?thesis using zs(2) by (metis append_Cons)
  qed
qed simp

lemma update_or_push_keyed:
  assumes "list_all Q xs" "distinct (map key xs)" "Q new" "key new = k"
    "\<And>x. key x = k \<Longrightarrow> Q (f x) \<and> key (f x) = k"
  shows "list_all Q (update_or_push (\<lambda>x. key x = k) f new xs)
    \<and> distinct (map key (update_or_push (\<lambda>x. key x = k) f new xs))"
proof (cases "update_first (\<lambda>x. key x = k) f xs")
  case None
  then have "k \<notin> set (map key xs)" by (auto simp: update_first_None list_all_iff)
  then show ?thesis using assms(1-4) None by (simp add: update_or_push_def)
next
  case (Some ys)
  from update_first_Some [OF this] obtain as x bs where "xs = as @ x # bs" "key x = k" "ys = as @ f x # bs" by blast
  then show ?thesis using assms(1,2) assms(5) [of x] Some by (simp add: update_or_push_def)
qed

lemma authenticate_provenance:
  "authenticate_received_credential E core format bytes chain assertion = Inr auth
    \<Longrightarrow> cp_format (ac_provenance auth) = format \<and> cp_raw_credential (ac_provenance auth) = bytes"
  by (cases format) (auto elim: authenticate_sdjwt_Inr authenticate_mdoc_Inr)

lemma store_admitted:
  assumes "stored_admitted E core" "core_reachable E core"
    "authenticate_received_credential E core format bytes chain assertion = Inr auth"
  shows "stored_admitted E (store_verified_credential auth core)"
proof -
  have adm: "admitted E (ac_credential auth) (AuthenticatedProvenance (ac_provenance auth))"
  proof -
    have "auth = \<lparr>ac_credential = ac_credential auth, ac_provenance = ac_provenance auth\<rparr>" by simp
    then show ?thesis unfolding admitted_def using assms(2,3) authenticate_provenance [OF assms(3)] by metis
  qed
  show ?thesis
  proof (cases "ac_credential auth")
    case (VerifiedSdJwt holding processed validity)
    let ?Q = "\<lambda>s. \<exists>processed. ss_authenticated s = Some processed
      \<and> admitted E (VerifiedSdJwt (ss_holding s) processed (ss_validity s)) (ss_provenance s)"
    have eq: "co_credentials (store_verified_credential auth core) =
      update_or_push (\<lambda>s. ss_holding s = holding)
        (\<lambda>s. s\<lparr>ss_authenticated := Some processed, ss_validity := validity,
           ss_provenance := AuthenticatedProvenance (ac_provenance auth)\<rparr>)
        \<lparr>ss_holding = holding, ss_authenticated = Some processed, ss_validity = validity,
           ss_provenance = AuthenticatedProvenance (ac_provenance auth)\<rparr> (co_credentials core)"
      by (simp add: store_verified_credential_def Let_def VerifiedSdJwt)
    have "list_all ?Q (co_credentials (store_verified_credential auth core))
      \<and> distinct (map ss_holding (co_credentials (store_verified_credential auth core)))"
      unfolding eq
      by (rule update_or_push_keyed) (use assms(1) adm VerifiedSdJwt in \<open>auto simp: stored_admitted_def\<close>)
    then show ?thesis using assms(1) VerifiedSdJwt by (simp add: stored_admitted_def store_verified_credential_def Let_def)
  next
    case (VerifiedMdoc holding validity)
    let ?Q = "\<lambda>s. admitted E (VerifiedMdoc (sm_holding s) (sm_validity s)) (sm_provenance s)"
    have eq: "co_mdoc_holdings (store_verified_credential auth core) =
      update_or_push (\<lambda>s. sm_holding s = holding)
        (\<lambda>s. s\<lparr>sm_validity := validity, sm_provenance := AuthenticatedProvenance (ac_provenance auth)\<rparr>)
        \<lparr>sm_holding = holding, sm_validity = validity, sm_provenance = AuthenticatedProvenance (ac_provenance auth)\<rparr>
        (co_mdoc_holdings core)"
      by (simp add: store_verified_credential_def Let_def VerifiedMdoc)
    have "list_all ?Q (co_mdoc_holdings (store_verified_credential auth core))
      \<and> distinct (map sm_holding (co_mdoc_holdings (store_verified_credential auth core)))"
      unfolding eq
      by (rule update_or_push_keyed) (use assms(1) adm VerifiedMdoc in \<open>auto simp: stored_admitted_def\<close>)
    then show ?thesis using assms(1) VerifiedMdoc by (simp add: stored_admitted_def store_verified_credential_def Let_def)
  qed
qed

lemma other_steps_keep_holdings:
  "co_credentials (snd (set_clock epoch core)) = co_credentials core"
  "co_mdoc_holdings (snd (set_clock epoch core)) = co_mdoc_holdings core"
  "co_credentials (load_device_key key core) = co_credentials core"
  "co_mdoc_holdings (load_device_key key core) = co_mdoc_holdings core"
  "co_credentials (snd (load_wua E jwt provider core)) = co_credentials core"
  "co_mdoc_holdings (snd (load_wua E jwt provider core)) = co_mdoc_holdings core"
  "co_credentials (snd (load_trust_list E signed_list operator_key core)) = co_credentials core"
  "co_mdoc_holdings (snd (load_trust_list E signed_list operator_key core)) = co_mdoc_holdings core"
  "co_credentials (snd (load_status_list E uri token provider_chain core)) = co_credentials core"
  "co_mdoc_holdings (snd (load_status_list E uri token provider_chain core)) = co_mdoc_holdings core"
  by (simp_all add: set_clock_def load_device_key_def load_wua_def load_trust_list_def load_status_list_def Let_def
      split: sum.splits prod.splits option.splits)


section \<open>The status cache and gate\<close>

definition cache_ok :: "core \<Rightarrow> bool" where
  "cache_ok core \<longleftrightarrow> btree_ok (co_status_lists core) \<and> length (co_status_lists core) \<le> 8
     \<and> list_all (\<lambda>(uri, cached). sl_subject (cl_list cached) = uri \<and> valid_status_uri uri) (co_status_lists core)"

lemma parse_and_verify_subject:
  "parse_and_verify dec from_json infl token uri key verify alg now = Inr l \<Longrightarrow> sl_subject l = uri"
  by (auto simp: parse_and_verify_def bind_result_Inr_iff Let_def status_subject_def)

lemma btree_insert_length:
  "length (btree_insert k v m) \<le> Suc (length m)"
  "btree_ok m \<Longrightarrow> has_key k m \<Longrightarrow> length (btree_insert k v m) = length m"
  subgoal by (induction k v m rule: btree_insert.induct) auto
  subgoal by (induction k v m rule: btree_insert.induct) (auto simp: btree_ok_def has_key_def)
  done

lemma set_btree_insert: "set (btree_insert k v m) \<subseteq> insert (k, v) (set m)"
  by (induction k v m rule: btree_insert.induct) auto

lemma btree_ok_filter: "btree_ok m \<Longrightarrow> btree_ok (filter P m)"
  by (induction m) (auto simp: btree_ok_def)

abbreviation fresh_lists :: "core \<Rightarrow> (string \<times> cached_status_list) list" where
  "fresh_lists core \<equiv> filter (\<lambda>(_, cached). is_fresh_at (cl_list cached) (co_now_epoch core)) (co_status_lists core)"

lemma load_status_list_cases:
  obtains "snd (load_status_list E uri token chain core) = core"
  | "snd (load_status_list E uri token chain core) = core\<lparr>co_status_lists := fresh_lists core\<rparr>"
  | l where "valid_status_uri uri" "sl_subject l = uri" "has_key uri (fresh_lists core) \<or> length (fresh_lists core) < 8"
      "snd (load_status_list E uri token chain core) = core\<lparr>co_status_lists :=
         btree_insert uri \<lparr>cl_list = l, cl_provider_cert_chain = chain\<rparr> (fresh_lists core)\<rparr>"
proof (cases "co_now_epoch core \<le> 0 \<or> \<not> valid_status_uri uri")
  case True
  then show ?thesis using that(1) by (auto simp: load_status_list_def)
next
  case ok: False
  show ?thesis
  proof (cases "resolve_status_provider_key E core chain")
    case None
    then show ?thesis using that(1) ok by (simp add: load_status_list_def)
  next
    case (Some key)
    show ?thesis
    proof (cases "parse_and_verify (b64_decode (ce_codec E)) (json_from_slice (ce_codec E)) (ce_inflate E)
        token uri key (ce_verify E) Es256 (co_now_epoch core)")
      case (Inl e)
      then show ?thesis using that(1) ok Some by (simp add: load_status_list_def)
    next
      case (Inr l)
      show ?thesis
      proof (cases "\<not> has_key uri (fresh_lists core) \<and> length (fresh_lists core) \<ge> MAX_CACHED_STATUS_LISTS")
        case True
        then show ?thesis using that(2) ok Some Inr by (simp add: load_status_list_def)
      next
        case False
        then show ?thesis using that(3) [of l] ok Some Inr parse_and_verify_subject [OF Inr]
          by (auto simp: load_status_list_def MAX_CACHED_STATUS_LISTS_def)
      qed
    qed
  qed
qed

lemma load_status_cache_ok:
  assumes "cache_ok core"
  shows "cache_ok (snd (load_status_list E uri token chain core))"
proof -
  have fresh: "btree_ok (fresh_lists core)" "length (fresh_lists core) \<le> 8"
    "list_all (\<lambda>(uri, cached). sl_subject (cl_list cached) = uri \<and> valid_status_uri uri) (fresh_lists core)"
    subgoal using assms by (simp add: cache_ok_def btree_ok_filter)
    subgoal using assms by (auto simp: cache_ok_def intro: order.trans [OF length_filter_le])
    subgoal using assms by (auto simp: cache_ok_def list_all_iff)
    done
  show ?thesis
  proof (cases rule: load_status_list_cases [of E uri token chain core])
    case 1
    then show ?thesis using assms by simp
  next
    case 2
    then show ?thesis using fresh by (simp add: cache_ok_def)
  next
    case (3 l)
    let ?m = "btree_insert uri \<lparr>cl_list = l, cl_provider_cert_chain = chain\<rparr> (fresh_lists core)"
    have "length ?m \<le> 8"
    proof (cases "has_key uri (fresh_lists core)")
      case True
      then show ?thesis using fresh(2) btree_insert_length(2) [OF fresh(1) True] by simp
    next
      case False
      then have "length (fresh_lists core) < 8" using 3(3) by blast
      then show ?thesis
        using btree_insert_length(1) [of uri "\<lparr>cl_list = l, cl_provider_cert_chain = chain\<rparr>" "fresh_lists core"]
        by linarith
    qed
    moreover have "list_all (\<lambda>(uri, cached). sl_subject (cl_list cached) = uri \<and> valid_status_uri uri) ?m"
    proof -
      have "set ?m \<subseteq> insert (uri, \<lparr>cl_list = l, cl_provider_cert_chain = chain\<rparr>) (set (fresh_lists core))"
        by (rule set_btree_insert)
      moreover have "sl_subject (cl_list \<lparr>cl_list = l, cl_provider_cert_chain = chain\<rparr>) = uri \<and> valid_status_uri uri"
        using 3(1,2) by simp
      ultimately show ?thesis using fresh(3) unfolding list_all_iff by blast
    qed
    ultimately show ?thesis using 3(4) btree_insert_ok [OF fresh(1)] by (simp add: cache_ok_def)
  qed
qed

lemma store_keeps_cache [simp]: "co_status_lists (store_verified_credential auth core) = co_status_lists core"
  by (simp add: store_verified_credential_def Let_def split: verified_credential.splits)

lemma reachable_cache_ok:
  assumes "core_reachable E core"
  shows "cache_ok core"
  using assms
proof induction
  case new
  then show ?case by (simp add: cache_ok_def core_new_def btree_ok_def)
next
  case (step core core')
  have same: "co_status_lists core' = co_status_lists core \<Longrightarrow> ?case" using step.IH by (simp add: cache_ok_def)
  from step.hyps(2) show ?case
  proof cases
    case status
    then show ?thesis using load_status_cache_ok [OF step.IH] by simp
  qed (rule same, simp add: set_clock_def load_device_key_def load_wua_def load_trust_list_def ingest_credential_def
      split: sum.splits prod.splits option.splits)+
qed

text \<open>A status reference is satisfied when a fresh list with its URI as subject, from a provider that the trust list
  admits now, marks its index valid.\<close>

definition status_valid :: "core_env \<Rightarrow> core \<Rightarrow> status_reference \<Rightarrow> bool" where
  "status_valid E core r \<longleftrightarrow>
     (\<exists>cached. map_of (co_status_lists core) (sr_uri r) = Some cached
        \<and> is_fresh_at (cl_list cached) (co_now_epoch core)
        \<and> resolve_status_provider_key E core (cl_provider_cert_chain cached) \<noteq> None
        \<and> status_at (cl_list cached) (unat (sr_index r)) = Cs_Valid)"

lemma push_new_not_Nil: "push_new x xs \<noteq> []"
  by (cases xs) (auto simp: push_new_def)

lemma check_references_grows: "check_references E core refs uris = Inr uris' \<Longrightarrow> set uris \<subseteq> set uris'"
  by (induction refs arbitrary: uris)
    (fastforce simp: push_new_def split: option.splits if_splits credential_status.splits)+

lemma check_references_ready:
  "check_references E core refs uris = Inr [] \<Longrightarrow> list_all (status_valid E core) refs"
proof (induction refs arbitrary: uris)
  case (Cons r refs)
  have stuck: "check_references E core refs (push_new (sr_uri r) uris) \<noteq> Inr []"
    using check_references_grows push_new_not_Nil [of "sr_uri r" uris] by fastforce
  then show ?case
    using Cons by (auto simp: status_valid_def split: option.splits if_splits credential_status.splits)
qed simp

lemma collect_references_keeps:
  "collect_references sources refs = Inr refs' \<Longrightarrow> set refs \<subseteq> set refs'
    \<and> (\<forall>source \<in> set sources. \<exists>r. source_status source = Inr r \<and> set_option r \<subseteq> set refs')"
proof (induction sources arbitrary: refs)
  case (Cons source sources)
  from Cons.prems obtain r where r: "source_status source = Inr r"
    "collect_references sources (case r of None \<Rightarrow> refs | Some r \<Rightarrow> push_new r refs) = Inr refs'"
    by (auto simp: bind_result_Inr_iff)
  note IH = Cons.IH [OF r(2)]
  have "set refs \<union> set_option r \<subseteq> set refs'"
    using IH by (auto simp: push_new_def split: option.splits if_splits)
  then show ?case using r(1) IH by auto
qed simp

lemma gate_not_ready_early:
  "check_references E core refs uris \<noteq> Inl Gate_Ready"
  "collect_references sources refs \<noteq> Inl Gate_Ready"
  subgoal by (induction refs arbitrary: uris) (auto split: option.splits credential_status.splits)
  subgoal
  proof (induction sources arbitrary: refs)
    case (Cons source sources)
    have "source_status source \<noteq> Inl Gate_Ready"
      by (simp add: source_status_def split: presentation_credential_reference.split option.split sum.split)
    then show ?case using Cons.IH by (cases "source_status source") auto
  qed simp
  done


section \<open>A concrete issuer\<close>

text \<open>A leaf, an intermediate authority and an anchor; an SD-JWT and an mdoc signed by the leaf.\<close>

definition bundle_leaf :: certificate where
  "bundle_leaf = sample_leaf\<lparr>ct_signature := Some [0x69], ct_issuer := sample_name 0x69, ct_issuer_der := Some [0x69]\<rparr>"

definition bundle_ca :: certificate where
  "bundle_ca = sample_certificate 0x69 0x61
     [\<lparr>extn_id = OID_BASIC_CONSTRAINTS, extn_critical = True, extn_value = []\<rparr>,
      \<lparr>extn_id = OID_KEY_USAGE, extn_critical = True, extn_value = [1]\<rparr>,
      \<lparr>extn_id = OID_POLICIES, extn_critical = False, extn_value = []\<rparr>]"

definition bundle_codec :: der_codec where
  "bundle_codec = sample_codec\<lparr>certificate_from_der :=
     (\<lambda>b. if b = [1] then Some bundle_leaf else if b = [3] then Some bundle_ca
          else if b = [2] then Some sample_anchor_cert else None),
     san_from_der := (\<lambda>_. Some [DnsName ''x.a.b'', UniformResourceIdentifier ''https://issuer.example''])\<rparr>"

definition leaf_parsed :: parsed_cert where
  "leaf_parsed = (sample_parsed 0x6C 0x69 False None [''x.a.b''])
     \<lparr>pc_uri_sans := [''https://issuer.example''],
      pc_constraints := (pc_constraints (sample_parsed 0x6C 0x69 False None [''x.a.b'']))
        \<lparr>cc_names := (cc_names (pc_constraints (sample_parsed 0x6C 0x69 False None [''x.a.b''])))
          \<lparr>cn_uris := [''https://issuer.example'']\<rparr>\<rparr>\<rparr>"

definition ca_parsed :: parsed_cert where
  "ca_parsed = (sample_parsed 0x69 0x61 True None [])
     \<lparr>pc_policies := [''1.2''],
      pc_constraints := (pc_constraints (sample_parsed 0x69 0x61 True None []))
        \<lparr>cc_policy := no_policy_state\<lparr>ps_policies := Some [''1.2'']\<rparr>\<rparr>\<rparr>"

lemma parse_leaf: "parse_cert bundle_codec [1] = Inr leaf_parsed"
  by (simp add: parse_sample_defs bundle_codec_def bundle_leaf_def leaf_parsed_def)

lemma parse_ca: "parse_cert bundle_codec [3] = Inr ca_parsed"
  by (simp add: parse_sample_defs bundle_codec_def bundle_ca_def ca_parsed_def)

lemma parse_anchor2: "parse_cert bundle_codec [2] = Inr sample_anchor"
proof -
  have "canonical_dns_name ''a.b'' = Some ''a.b''" by code_simp
  then show ?thesis by (simp add: parse_sample_defs bundle_codec_def)
qed

lemmas bundle_defs = leaf_parsed_def ca_parsed_def sample_parsed_def

lemma bundle_names:
  "issuer_name_matches leaf_parsed ca_parsed" "issuer_name_matches ca_parsed sample_anchor"
  "\<not> issuer_name_matches ca_parsed leaf_parsed" "\<not> issuer_name_matches leaf_parsed leaf_parsed"
  "\<not> issuer_name_matches ca_parsed ca_parsed" "\<not> issuer_name_matches leaf_parsed sample_anchor"
  "authority_key_matches leaf_parsed c" "authority_key_matches ca_parsed c"
  by (simp_all add: issuer_name_matches_def authority_key_matches_def bundle_defs)

lemma bundle_search:
  "leaf_indices [ca_parsed, leaf_parsed] = [1]"
  "sr_complete (explore_paths 1 [ca_parsed, leaf_parsed] [sample_anchor] [1] path_search_default)
    = [\<lparr>bp_supplied_indices = [1, 0], bp_anchor_index = 0\<rparr>]"
  "\<not> sr_budget_exceeded (explore_paths 1 [ca_parsed, leaf_parsed] [sample_anchor] [1] path_search_default)"
  subgoal by (simp add: leaf_indices_def bundle_names upt_rec [of 0] upt_rec [of 1])
  by (simp_all add: explore_paths.simps explore_parents.simps explore_anchors.simps count_step_def path_search_default_def
      MAX_PATH_BUILD_STEPS_def MAX_ISSUER_CANDIDATES_def MAX_COMPLETE_PATHS_def bundle_names)

lemma bundle_path:
  "validate_path bundle_codec [[1], [3]] [sample_anchor] 15 X509_Path.sample_verifier = Inr [leaf_parsed, ca_parsed, sample_anchor]"
  "validate_path bundle_codec [[3], [1]] [sample_anchor] 15 X509_Path.sample_verifier = Inr [leaf_parsed, ca_parsed, sample_anchor]"
proof -
  have dns: "canonical_dns_name ''x.a.b'' = Some ''x.a.b''" by code_simp
  have m: "dns_constraint_matches ''x.a.b'' ''a.b''" by code_simp
  have names: "validate_name_constraints [leaf_parsed, ca_parsed, sample_anchor] = Inr ()"
    by (simp add: validate_name_constraints_def constrained_subjects_def bundle_defs enforce_name_constraints_def
        dns m List.map_filter_def dns_of_def email_of_def uri_of_def ip_of_def directory_of_def check_subtrees_def)
  have pol: "validate_certificate_policies [leaf_parsed, ca_parsed, sample_anchor] = Inr [''1.2'']"
    by (simp add: OID_ANY_POLICY_def set_insert_def validate_certificate_policies_def policy_step_def bundle_defs no_policy_state_def
        intersect_policies_def min_limit_def saturating_dec_def set_collect_def Let_def)
  have b: "validate_built_path X509_Path.sample_verifier 15 [leaf_parsed, ca_parsed, sample_anchor] = Inr [''1.2'']"
    by (simp add: validate_built_path_def names pol)
      (simp add: check_certificate_def check_leaf_def check_issuer_def check_link_def X509_Path.sample_verifier_def bundle_defs
        no_policy_state_def issuer_name_matches_def authority_key_matches_def signature_compatible_with_issuer_def self_issued_def)
  have sort: "sort_certificates [leaf_parsed, ca_parsed] = [ca_parsed, leaf_parsed]"
    "sort_certificates [ca_parsed, leaf_parsed] = [ca_parsed, leaf_parsed]" "sort_certificates [sample_anchor] = [sample_anchor]"
    by (simp_all add: sort_certificates_def bundle_defs)
  have "\<not> certificate_eq leaf_parsed sample_anchor" "\<not> certificate_eq ca_parsed sample_anchor"
    by (simp_all add: certificate_eq_def bundle_defs)
  moreover have "leaf_parsed\<lparr>pc_policies := [''1.2'']\<rparr> = leaf_parsed" by (simp add: bundle_defs)
  ultimately show
    "validate_path bundle_codec [[1], [3]] [sample_anchor] 15 X509_Path.sample_verifier = Inr [leaf_parsed, ca_parsed, sample_anchor]"
    "validate_path bundle_codec [[3], [1]] [sample_anchor] 15 X509_Path.sample_verifier = Inr [leaf_parsed, ca_parsed, sample_anchor]"
    using bundle_search b sort
    by (simp_all add: validate_path_def parse_leaf parse_ca MAX_SUPPLIED_CERTIFICATES_def MAX_TRUST_ANCHORS_def
        candidate_path_def Let_def del: One_nat_def)
qed

definition bundle_list :: "service_type \<Rightarrow> trust_list" where
  "bundle_list service = \<lparr>tl_sequence_number = 5, tl_valid_from = 10, tl_valid_until = 20,
     tl_anchors = [\<lparr>ta_certificate_der = [2], ta_service_type = service, ta_status = Granted\<rparr>],
     tl_relying_parties = [], tl_credential_issuers = []\<rparr>"

definition holder_key :: bytes where
  "holder_key = 4 # replicate 32 1 @ replicate 32 2"

definition sd_header_json :: json where
  "sd_header_json = JObject [(''alg'', JString ''ES256''), (''typ'', JString ''dc+sd-jwt'')]"

definition sd_jwk_json :: json where
  "sd_jwk_json = JObject [(''jwk'', JObject [(''crv'', JString ''P-256''), (''kty'', JString ''EC''),
     (''x'', JString ''x''), (''y'', JString ''y'')])]"

definition sd_claims :: "(string \<times> json) list" where
  "sd_claims = [(''cnf'', sd_jwk_json), (''driving_privileges'', JString ''B''), (''exp'', JNumber (PosInt 18)),
     (''family_name'', JString ''f''), (''given_name'', JString ''g''), (''iss'', JString ''https://issuer.example''),
     (''issuing_country'', JString ''NO''), (''vct'', JString ''urn:eudi:mdl:1'')]"

definition bundle_text :: text_codec where
  "bundle_text = \<lparr>b64_decode = (\<lambda>s. if s = ''x'' then Some (replicate 32 1) else if s = ''y'' then Some (replicate 32 2)
       else if s = ''c'' then Some [2] else Some (as_bytes s)),
     b64_encode = (\<lambda>_. []),
     json_from_slice = (\<lambda>b. if b = as_bytes ''h'' then Some sd_header_json else if b = as_bytes ''p'' then Some (JObject sd_claims)
       else if b = as_bytes ''t'' then Some (JObject [(''anchors'', JArray [JObject [(''cert'', JString ''c''),
           (''service'', JString ''attestation''), (''status'', JString ''granted'')]]), (''seq'', JNumber (PosInt 5)),
         (''valid_from'', JNumber (PosInt 10)), (''valid_until'', JNumber (PosInt 20))]) else None),
     json_to_vec = (\<lambda>_. Some [])\<rparr>"

definition bundle_env :: core_env where
  "bundle_env = \<lparr>ce_codec = bundle_text, ce_base64 = (\<lambda>_. None), ce_inflate = (\<lambda>b _. Inr b), ce_der = bundle_codec,
     ce_verify = (\<lambda>_ key _ _. if key = replicate 32 0x6C \<or> key = [7] then Inr () else Inl NotFound), ce_sha256 = (\<lambda>b. b),
     ce_certs = X509_Path.sample_verifier\<rparr>"

definition bundle_core :: "service_type \<Rightarrow> core" where
  "bundle_core service = core_new\<lparr>co_now_epoch := 15, co_device_public_key := holder_key,
     co_trust_store := \<lparr>ts_current = Some (bundle_list service)\<rparr>\<rparr>"

lemma bundle_anchors:
  "parsed_anchors_at bundle_codec \<lparr>ts_current = Some (bundle_list service)\<rparr> s 15 = (if s = service then [sample_anchor] else [])"
  by (simp add: parsed_anchors_at_def granted_anchors_at_def granted_anchors_def is_valid_at_def bundle_list_def
        parse_cert_ok_def parse_anchor2 List.map_filter_def)


lemma bundle_identity: "valid_https_issuer_identity ''https://issuer.example''"
proof -
  have "is_ascii ''https://issuer.example''" "valid_canonical_dns_name ''issuer.example''" by code_simp+
  moreover have "\<not> list_ex (\<lambda>b. is_ascii_control b \<or> is_whitespace (unat b)) (as_bytes ''https://issuer.example'')"
    by (simp add: as_bytes_def is_ascii_control_def is_whitespace_def)
  ultimately show ?thesis
    by (simp add: valid_https_issuer_identity_def find_any_def position.simps count_chr_def rsplit_once_str_def)
qed

abbreviation bundle_evidence :: credential_issuer_evidence where
  "bundle_evidence \<equiv> \<lparr>ev_identity = ''https://issuer.example'', ev_service = Dom_Attestation,
     ev_public_key_raw = replicate 32 0x6C, ev_certificate_path = [[1], [3]], ev_not_before = 10, ev_not_after = 20\<rparr>"

lemma bundle_core_fields:
  "co_now_epoch (bundle_core service) = 15" "co_device_public_key (bundle_core service) = holder_key"
  "co_credentials (bundle_core service) = []" "co_status_lists (bundle_core service) = []"
  by (simp_all add: bundle_core_def core_new_def)

lemma bundle_issuers:
  "resolve_credential_issuers bundle_env (bundle_core AttestationProvider) [[1], [3]] =
     [bundle_evidence]"
proof -
  have "check_credential_issuer bundle_codec [[1], [3]] [sample_anchor] 15 X509_Path.sample_verifier
      = Inr \<lparr>vi_identity = ''https://issuer.example'', vi_public_key_raw = replicate 32 0x6C, vi_not_before = 10, vi_not_after = 20\<rparr>"
    by (simp add: check_credential_issuer_def bundle_path(1)) (simp add: bundle_defs bundle_identity)
  then show ?thesis
    by (simp add: resolve_credential_issuers_def resolve_issuer_in_def bundle_env_def bundle_core_def bundle_anchors
        trust_service_def List.map_filter_def)
qed

definition sd_token :: bytes where "sd_token = as_bytes ''h.p.s~''"

lemma sd_token_text: "from_utf8 sd_token = Some ''h.p.s~''"
  by code_simp

abbreviation sd_parsed :: sdjwt_vc where
  "sd_parsed \<equiv> \<lparr>issuer_jwt = ''h.p.s'', vc_disclosures = [], key_binding_jwt = None\<rparr>"

lemma sd_parse: "sdjwt_parse ''h.p.s~'' = Inr sd_parsed"
  by (simp add: sdjwt_parse_def MAX_COMPACT_BYTES_def MAX_JWS_BYTES_def MAX_DISCLOSURES_def count_char_def)

lemma mdl_split: "split_jws bundle_text ''h.p.s'' = Inr (sd_header_json, as_bytes ''p'', ''h.p'', as_bytes ''s'')"
  by (simp add: split_jws_def MAX_JWS_BYTES_def bundle_text_def as_bytes_def)

lemma sd_walk: "process_value bundle_text (JObject sd_claims) [] None 0 True st = Inr (JObject sd_claims, st)"
  by (simp add: process_value.simps process_members.simps process_digests.simps sd_claims_def sd_jwk_json_def open_object_def
      SD_CLAIM_def SD_ALG_CLAIM_def MAX_NESTING_DEPTH_def map_remove_def has_key_def)

lemma mdl_process:
  "verify_and_process bundle_text sd_parsed (ce_verify bundle_env) digest (replicate 32 0x6C) Es256
    = Inr \<lparr>ps_claims = sd_claims, ps_disclosures = []\<rparr>"
proof -
  have "parse_jose_alg sd_header_json = Inr Es256" "json_get_str ''typ'' sd_header_json = Some ''dc+sd-jwt''"
    by (simp_all add: sd_header_json_def parse_jose_alg_def json_as_object_def json_get_str_def json_get_def json_as_str_def)
  moreover have "json_from_slice bundle_text (as_bytes ''p'') = Some (JObject sd_claims)" "json_to_vec bundle_text v = Some []" for v
    by (simp_all add: bundle_text_def as_bytes_def)
  moreover have "check_hash_alg sd_claims = Inr ()" by (simp add: check_hash_alg_def SD_ALG_CLAIM_def sd_claims_def)
  moreover have "ce_verify bundle_env Es256 (replicate 32 0x6C) m s = Inr ()" for m s by (simp add: bundle_env_def)
  ultimately show ?thesis by (simp add: verify_and_process_def mdl_split sd_walk json_as_object_def)
qed

lemma sd_ingested_with:
  "authenticate_received_credential (bundle_env\<lparr>ce_sha256 := digest\<rparr>) (bundle_core AttestationProvider) DcSdJwt sd_token [[1], [3]] ''https://issuer.example''
    = Inr \<lparr>ac_credential = VerifiedSdJwt \<lparr>hc_issuer_jwt = ''h.p.s'', hc_disclosures_by_claim = [], hc_status = None\<rparr>
          \<lparr>ps_claims = sd_claims, ps_disclosures = []\<rparr> \<lparr>cv_issued_at = None, cv_not_before = None, cv_expires_at = Some 18\<rparr>,
        ac_provenance = \<lparr>cp_format = DcSdJwt, cp_raw_credential = sd_token,
          cp_issuer = bundle_evidence\<rparr>\<rparr>"
proof -
  let ?E = "bundle_env\<lparr>ce_sha256 := digest\<rparr>"
  have alg: "issuer_algorithm bundle_text sd_parsed = Inr Es256"
    by (simp add: issuer_algorithm_def mdl_split)
      (simp add: sd_header_json_def parse_jose_alg_def json_as_object_def json_get_str_def json_get_def json_as_str_def)
  have pay: "issuer_payload bundle_text sd_parsed = Inr sd_claims"
    by (simp add: issuer_payload_def mdl_split) (simp add: bundle_text_def as_bytes_def json_as_object_def)
  have prof: "validate_sdjwt_issuer_profile sd_parsed sd_claims \<lparr>ps_claims = sd_claims, ps_disclosures = []\<rparr> = Inr ()"
    by (simp add: validate_sdjwt_issuer_profile_def SDJWT_CONTROL_CLAIMS_def control_claim_ok_def sd_claims_def sd_jwk_json_def has_key_def)
  have cat: "cat_get default_catalogue ''urn:eudi:mdl:1'' = Some mdl_type"
    by (simp add: cat_get_def default_catalogue_def register_all_def register_def catalogue_new_def tlsn_type_def pid_type_def
      pid_mdoc_type_def mdl_type_def mdl_mdoc_type_def passport_type_def nid_type_def german_pid_type_def)
  have claims: "map_of sd_claims ''iss'' = Some (JString ''https://issuer.example'')" "map_of sd_claims ''vct'' = Some (JString ''urn:eudi:mdl:1'')"
    "map_of sd_claims ''status'' = None" "has_key ''cnf'' sd_claims"
    "json_validity sd_claims 15 = Inr \<lparr>cv_issued_at = None, cv_not_before = None, cv_expires_at = Some 18\<rparr>"
    by (simp_all add: sd_claims_def has_key_def json_validity_def json_epoch_claim_def json_as_i64_def validate_at_def i64_defs)
  have bind: "sdjwt_device_binding_matches ?E sd_claims holder_key"
    by (simp add: sdjwt_device_binding_matches_def uncompressed_point_def holder_key_def sd_claims_def sd_jwk_json_def json_get_def
      jwk_coordinate_def bundle_env_def bundle_text_def has_key_def json_as_object_def json_as_str_def)
  have mand: "satisfies_mandatory default_catalogue ''urn:eudi:mdl:1'' (map fst sd_claims)"
    by (simp add: satisfies_mandatory_def cat mandatory_claims_def mdl_type_def json_claim_def sd_claims_def)
  have env: "ce_codec ?E = bundle_text" "ce_sha256 ?E = digest" "ce_verify ?E = ce_verify bundle_env"
    by (simp_all add: bundle_env_def)
  have env_same: "ce_der ?E = ce_der bundle_env" "ce_certs ?E = ce_certs bundle_env" by simp_all
  have "resolve_issuer_in ?E core path = resolve_issuer_in bundle_env core path" for core path
    unfolding resolve_issuer_in_def env_same by (rule refl)
  then have issuers: "resolve_credential_issuers ?E core path = resolve_credential_issuers bundle_env core path" for core path
    by (simp only: resolve_credential_issuers_def)
  have mdl: "at_format mdl_type = ''dc+sd-jwt''" "at_issuer_trust_domain mdl_type = Dom_Attestation"
    "at_trusted_issuers mdl_type = [''https://issuer.example'']" by (simp_all add: mdl_type_def)
  have holder_key_nonempty: "holder_key \<noteq> []" by (simp add: holder_key_def)
  show ?thesis
    by (simp add: authenticate_received_credential_def issuers bundle_issuers)
      (simp add: bundle_core_def core_new_def issuer_candidates_are_consistent_def is_internally_consistent_def holder_key_nonempty
        verify_sdjwt_credential_def sd_token_text sd_parse env alg pay prof claims bind mand cat mdl_process mdl issuer_for_type_def
        catalogue_trust_domain_def issuer_allowed_def check_special_type_def PID_SD_JWT_VCT_def status_reference_from_claims_def
        held_credential_from_verified_sd_def json_as_str_def)
qed

lemmas sd_ingested = sd_ingested_with [of "ce_sha256 bundle_env", simplified]


definition trust_token :: bytes where "trust_token = as_bytes ''h.t.s''"

lemma trust_token_text: "from_utf8 trust_token = Some ''h.t.s''"
  by code_simp

lemma bundle_list_verifies:
  "trust_parse_and_verify bundle_text trust_token [7] (ce_verify bundle_env) Es256 15 = Inr (bundle_list AttestationProvider)"
  by (simp add: trust_parse_and_verify_def trust_token_text bundle_text_def bundle_env_def trust_b64_def sd_header_json_def
      as_bytes_def json_defs parse_trust_payload_def parse_anchor_def
      service_type_parse_def optional_array_def bundle_list_def i64_max_def Let_def)

lemma bundle_core_reachable: "core_reachable bundle_env (bundle_core AttestationProvider)"
proof -
  let ?a = "snd (set_clock 15 core_new)"
  let ?b = "load_device_key holder_key ?a"
  have "core_reachable bundle_env (snd (load_trust_list bundle_env trust_token [7] ?b))"
    by (rule core_reachable.step [OF core_reachable.step [OF core_reachable.step [OF core_reachable.new core_step.clock]
          core_step.device_key] core_step.trust])
  moreover have "snd (load_trust_list bundle_env trust_token [7] ?b) = bundle_core AttestationProvider"
    using bundle_list_verifies
    by (simp add: load_trust_list_def load_device_key_def set_clock_def core_new_def bundle_core_def trust_update_def
        trust_store_new_def bundle_env_def)
  ultimately show ?thesis by simp
qed



abbreviation md_validity :: validity_info where
  "md_validity \<equiv> \<lparr>vi_signed = ''1970-01-01T00:00:10Z'', valid_from = ''1970-01-01T00:00:10Z'', valid_until = ''1970-01-01T00:00:20Z''\<rparr>"

definition md_device_key :: cbor_value where
  "md_device_key = Map [(Uint 1, Uint 2), (Nint 0, Uint 1), (Nint 1, Bytes (replicate 32 1)), (Nint 2, Bytes (replicate 32 2))]"

definition md_mso :: mobile_security_object where
  "md_mso = mso_of [] ''d'' md_device_key md_validity None (\<lambda>b. b)"

lemma md_dates: "tdate_parse ''1970-01-01T00:00:10Z'' = Some \<lparr>unix_seconds = 10, fraction = []\<rparr>"
  "tdate_parse ''1970-01-01T00:00:20Z'' = Some \<lparr>unix_seconds = 20, fraction = []\<rparr>"
  by code_simp+

lemma md_length: "length (to_canonical (Map (mso_entries md_mso))) < 2 ^ 64"
  by (simp add: md_mso_def md_device_key_def mso_entries_def mso_of_def digest_name_spaces_def value_digests_value_def
      validity_value_def mso_status_entry_def encode_sample)

lemma md_mso_ok: "mso_ok md_mso"
proof -
  have "dates_ok md_validity"
    by (simp add: dates_ok_def md_dates text_ok_def valid_str_def valid_utf8_def as_bytes_def)
  moreover have "canonical md_device_key" "within_depth 2 md_device_key"
    by (simp_all add: md_device_key_def write_head_def MAX_DEPTH_def)
  ultimately show ?thesis
    using md_length
    by (simp add: mso_ok_def md_mso_def mso_of_def digest_name_spaces_def value_digests_ok_def digests_ok_def text_ok_def btree_ok_def
        valid_str_def valid_utf8_def as_bytes_def del: to_canonical.simps)
qed

definition md_payload :: bytes where "md_payload = tag24 (to_canonical (Map (mso_entries md_mso)))"

definition md_auth :: cose_sign1 where
  "md_auth = \<lparr>cs_protected = encode_protected_header Es256,
     cs_unprotected = \<lparr>up_kid = None, up_x5chain = Some (Chain [[1], [3]]), private_labels = []\<rparr>,
     cs_payload = Some md_payload, cs_signature = [9]\<rparr>"

abbreviation md_issued :: issuer_signed where
  "md_issued \<equiv> \<lparr>is_name_spaces = [], issuer_auth = md_auth\<rparr>"

definition md_wire :: cbor_value where
  "md_wire = Map [(Text ''issuerAuth'', cose_to_value md_auth), (Text ''nameSpaces'', Map [])]"

lemma md_header: "check_header_collisions \<lparr>ph_alg = Es256, ph_kid = None, ph_x5chain = None\<rparr> (cs_unprotected md_auth) = Inr ()"
  by (simp add: check_header_collisions_def md_auth_def x5chain_validate_def check_certificate_size_def cose_limits)

lemma md_payload_length: "length md_payload < 2 ^ 64"
  by (simp add: md_payload_def md_mso_def md_device_key_def mso_entries_def mso_of_def digest_name_spaces_def
      value_digests_value_def validity_value_def mso_status_entry_def encode_sample)

lemma md_parse: "issuer_signed_parse (to_canonical md_wire) = Inr md_issued"
proof -
  have "unprotected_ok (cs_unprotected md_auth)"
    by (simp add: md_auth_def unprotected_ok_def private_ok_def x5chain_validate_def check_certificate_size_def cose_limits)
  then have "cose_from_value (cose_to_value md_auth) = Inr md_auth"
    using encoded_header_parses [of Es256] md_header by (intro cose_reparses) (simp_all add: md_auth_def)
  then have "issuer_signed_from_value md_wire = Inr md_issued"
    by (simp add: issuer_signed_from_value_def md_wire_def map_get_def)
  moreover have "cbor_accepted md_wire"
    using protected_header_length [of Es256] md_payload_length
    by (simp add: md_wire_def cose_to_value_def md_auth_def unprotected_pairs_def x5chain_to_value_def
        cose_labels MAX_DEPTH_def write_head_def valid_str_def valid_utf8_def as_bytes_def)
  then have "from_canonical_slice (to_canonical md_wire) = Inr md_wire" by (rule cbor.dec_enc)
  ultimately show ?thesis by (simp add: issuer_signed_parse_def)
qed

definition md_type :: attestation_type where
  "md_type = \<lparr>at_id = ''d'', at_display_name = [], at_format = ''mso_mdoc'', at_issuer_trust_domain = Dom_Attestation,
     at_claims = [], at_trusted_issuers = [''https://issuer.example'']\<rparr>"

definition md_core :: core where
  "md_core = (bundle_core AttestationProvider)\<lparr>co_catalogue := \<lparr>cat_types = [md_type]\<rparr>\<rparr>"

definition md_env :: core_env where
  "md_env = bundle_env\<lparr>ce_codec := bundle_text\<lparr>b64_decode := (\<lambda>_. Some (to_canonical md_wire))\<rparr>\<rparr>"

lemma md_issuers: "resolve_credential_issuers md_env md_core [[1], [3]] = [bundle_evidence]"
proof -
  have "resolve_issuer_in md_env md_core = resolve_issuer_in bundle_env (bundle_core AttestationProvider)"
    by (intro ext) (simp add: resolve_issuer_in_def Let_def md_env_def md_core_def)
  then show ?thesis using bundle_issuers unfolding resolve_credential_issuers_def by simp
qed

lemma md_verified:
  "verify_issuer_signed md_issued (ce_verify md_env) (ce_sha256 md_env) (replicate 32 0x6C) Es256 = Inr md_mso"
proof -
  have "cose_verify md_auth (ce_verify md_env) Es256 (replicate 32 0x6C) [] None = Inr ()"
    using md_header by (simp add: cose_verify_def md_auth_def encoded_header_parses md_env_def bundle_env_def)
  then show ?thesis
    by (subst verify_by_payload [OF _ md_mso_ok])
      (simp_all add: md_auth_def md_payload_def check_items_def del: to_canonical.simps)
qed

lemma md_ingested:
  "authenticate_received_credential md_env md_core MsoMdoc (as_bytes ''m'') [] ''https://issuer.example''
    = Inr \<lparr>ac_credential = VerifiedMdoc \<lparr>mh_doctype = ''d'', mh_issuer_signed = md_issued\<rparr>
          \<lparr>cv_issued_at = Some 10, cv_not_before = Some 10, cv_expires_at = Some 20\<rparr>,
        ac_provenance = \<lparr>cp_format = MsoMdoc, cp_raw_credential = as_bytes ''m'', cp_issuer = bundle_evidence\<rparr>\<rparr>"
proof -
  have core: "co_now_epoch md_core = 15" "co_device_public_key md_core = holder_key" "holder_key \<noteq> []"
    "co_catalogue md_core = \<lparr>cat_types = [md_type]\<rparr>"
    by (simp_all add: md_core_def bundle_core_fields holder_key_def)
  have dec: "decode_mdoc_credential md_env (as_bytes ''m'') = Inr md_issued"
  proof -
    have "from_utf8 (as_bytes ''m'') = Some ''m''" by code_simp
    then show ?thesis by (simp add: decode_mdoc_credential_def md_env_def md_parse)
  qed
  have chain: "embedded_mdoc_issuer_chain md_issued = Inr [[1], [3]]"
    using md_header
    by (simp add: embedded_mdoc_issuer_chain_def cose_x5chain_def md_auth_def encoded_header_parses certificates_def)
  have cat: "cat_get (co_catalogue md_core) ''d'' = Some md_type" by (simp add: core cat_get_def md_type_def)
  have val: "mdoc_validity md_validity 15 = Inr \<lparr>cv_issued_at = Some 10, cv_not_before = Some 10, cv_expires_at = Some 20\<rparr>"
    by (simp add: mdoc_validity_def md_dates tdate_cmp_def cmp_def unix_seconds_ceil_def saturating_add_i64_def validate_at_def
        IAT_CLOCK_SKEW_SECONDS_def i64_defs)
  have bind: "mdoc_device_binding_matches md_device_key holder_key" "md_device_key \<noteq> Null"
    by (simp_all add: mdoc_device_binding_matches_def md_device_key_def holder_key_def uncompressed_point_def cbor_get_def)
  have cons: "issuer_candidates_are_consistent [bundle_evidence]"
    by (simp add: issuer_candidates_are_consistent_def is_internally_consistent_def)
  have mso: "mso_version md_mso = ''1.0''" "digest_algorithm md_mso = ''SHA-256''" "doc_type md_mso = ''d''"
    "mso_validity_info md_mso = md_validity" "device_key md_mso = md_device_key"
    by (simp_all add: md_mso_def mso_of_def)
  have md: "at_format md_type = ''mso_mdoc''" "at_issuer_trust_domain md_type = Dom_Attestation"
    "at_trusted_issuers md_type = [''https://issuer.example'']" "mandatory_claims md_type = []"
    by (simp_all add: md_type_def mandatory_claims_def)
  show ?thesis
    by (simp add: authenticate_received_credential_def core(1-3) dec chain md_issuers cons verify_mdoc_credential_def md_verified mso cat md
        PID_MDOC_DOCTYPE_def issuer_for_type_def catalogue_trust_domain_def issuer_allowed_def satisfies_mandatory_mdoc_def
        val bind)
qed


end
