(* ===== verification/Durable_Sound.thy ===== *)
theory Durable_Sound
  imports Durable Checkpoint_Sound Ingestion_Sound
begin

text \<open>
  What restoration and export of durable state guarantee, and the invariants of the engine handle.
\<close>

section \<open>Restored credentials\<close>

text \<open>A stored credential that the present environment authenticates to exactly what is stored.\<close>

definition reauthenticates :: "core_env \<Rightarrow> core \<Rightarrow> credential_provenance \<Rightarrow> verified_credential \<Rightarrow> bool" where
  "reauthenticates E core p v \<longleftrightarrow>
     authenticate_received_credential E core (cp_format p) (cp_raw_credential p) (ev_certificate_path (cp_issuer p))
       (ev_identity (cp_issuer p)) = Inr \<lparr>ac_credential = v, ac_provenance = p\<rparr>"

definition sdjwt_current :: "core_env \<Rightarrow> core \<Rightarrow> stored_sdjwt_credential \<Rightarrow> bool" where
  "sdjwt_current E core s \<longleftrightarrow>
     (\<exists>p a. ss_provenance s = AuthenticatedProvenance p \<and> ss_authenticated s = Some a
        \<and> reauthenticates E core p (VerifiedSdJwt (ss_holding s) a (ss_validity s)))"

definition mdoc_current :: "core_env \<Rightarrow> core \<Rightarrow> stored_mdoc_credential \<Rightarrow> bool" where
  "mdoc_current E core s \<longleftrightarrow>
     (\<exists>p. sm_provenance s = AuthenticatedProvenance p
        \<and> reauthenticates E core p (VerifiedMdoc (sm_holding s) (sm_validity s)))"

definition staged_ok :: "core_env \<Rightarrow> core \<Rightarrow> staged \<Rightarrow> bool" where
  "staged_ok E core st \<longleftrightarrow>
     (\<forall>s \<in> set (fst st). sdjwt_current E core s) \<and> distinct (map ss_holding (fst st))
     \<and> (\<forall>s \<in> set (snd st). mdoc_current E core s) \<and> distinct (map sm_holding (snd st))"

lemma stage_record_Inr:
  assumes "stage_record E core index r st = Inr st'" "staged_ok E core st"
  shows "staged_ok E core st'" "length (fst st') + length (snd st') = Suc (length (fst st) + length (snd st))"
proof -
  obtain sd md where st: "st = (sd, md)" by (cases st)
  from assms(1) obtain format auth where
    auth: "authenticate_received_credential E core format (cr_raw r) (cr_certificate_path r) (cr_issuer_identity r) = Inr auth"
    and same: "cp_format (ac_provenance auth) = format" "cp_raw_credential (ac_provenance auth) = cr_raw r"
      "ev_identity (cp_issuer (ac_provenance auth)) = cr_issuer_identity r"
      "ev_certificate_path (cp_issuer (ac_provenance auth)) = cr_certificate_path r"
    and result: "(case ac_credential auth of
        VerifiedSdJwt holding authenticated validity \<Rightarrow>
          if list_ex (\<lambda>s. ss_holding s = holding) sd then Inl D_DuplicateCredential
          else Inr (sd @ [\<lparr>ss_holding = holding, ss_authenticated = Some authenticated, ss_validity = validity,
            ss_provenance = AuthenticatedProvenance (ac_provenance auth)\<rparr>], md)
      | VerifiedMdoc holding validity \<Rightarrow>
          if list_ex (\<lambda>s. sm_holding s = holding) md then Inl D_DuplicateCredential
          else Inr (sd, md @ [\<lparr>sm_holding = holding, sm_validity = validity,
            sm_provenance = AuthenticatedProvenance (ac_provenance auth)\<rparr>])) = Inr st'"
    by (auto simp: st stage_record_def bind_result_Inr_iff map_err_Inr_iff Let_def split: if_splits)
  have "reauthenticates E core (ac_provenance auth) (ac_credential auth)"
    using auth same by (simp add: reauthenticates_def)
  with result assms(2) show "staged_ok E core st'"
    "length (fst st') + length (snd st') = Suc (length (fst st) + length (snd st))"
    by (auto simp: st staged_ok_def sdjwt_current_def mdoc_current_def list_ex_iff split: verified_credential.splits if_splits)
qed

lemma stage_records_Inr:
  assumes "stage_records E core index rs st = Inr st'" "staged_ok E core st"
  shows "staged_ok E core st' \<and> length (fst st') + length (snd st') = length rs + (length (fst st) + length (snd st))"
  using assms
proof (induction rs arbitrary: index st)
  case (Cons r rs)
  then obtain st1 where "stage_record E core index r st = Inr st1" "stage_records E core (Suc index) rs st1 = Inr st'"
    by (auto simp: bind_result_Inr_iff)
  with Cons.IH [of "Suc index" st1] stage_record_Inr [of E core index r st st1] Cons.prems(2) show ?case by simp
qed simp

lemma check_context_Inr: "check_context a b = Inr u \<longleftrightarrow> a = b"
  by (cases a; cases b) (auto simp: check_context_def)

lemma prepare_restore_Inr:
  assumes "prepare_restore E bytes generation w = Inr (cp, st, staged_log)"
  obtains seq where "decode_checkpoint bytes = Inr cp" "generation \<noteq> 0" "cp_generation cp = generation"
    "current_context E w = Inr (cp_context cp)" "require_current_environment w = Inr seq"
    "cp_clock_high_water cp \<le> co_now_epoch (w_core w)" "cp_trust_sequence_high_water cp \<le> seq"
    "stage_records E (w_core w) 0 (cp_credentials cp) ([], []) = Inr st"
    "validate_transaction_clock (cp_transaction_entries cp) (cp_clock_high_water cp) = Inr ()"
    "restore_checked (ce_sha256 E) (cp_transaction_entries cp) (cp_transaction_head cp) = Inr staged_log"
  using assms
  by (auto simp: prepare_restore_def bind_result_Inr_iff map_err_Inr_iff check_context_Inr not_less split: if_splits)

lemma operation_id_seed_range: "1 \<le> unat (operation_id_seed random) \<and> unat (operation_id_seed random) \<le> 2 ^ 62"
proof -
  let ?x = "of_nat (be_value random) :: u64"
  have seed: "operation_id_seed random = take_bit 62 ?x + 1"
    unfolding operation_id_seed_def by (simp add: take_bit_eq_mask mask_eq_exp_minus_1 push_bit_eq_mult)
  have "unat (take_bit 62 ?x) < 2 ^ 62"
    unfolding unsigned_take_bit_eq by (rule take_bit_nat_less_exp)
  moreover from this have "unat (take_bit 62 ?x + 1) = unat (take_bit 62 ?x) + 1"
    by (simp add: unat_word_ariths)
  ultimately show ?thesis by (simp add: seed)
qed

lemma operation_id_fresh: "staged_operation_id random w \<noteq> w_next_operation_id w"
proof (cases "operation_id_seed random = w_next_operation_id w")
  case True
  let ?s = "operation_id_seed random"
  have mod62: "unat (?s mod push_bit 62 1) = unat ?s mod 2 ^ 62"
    by (simp add: unat_mod_distrib push_bit_eq_mult)
  have "unat (?s mod push_bit 62 1 + 1) = unat ?s mod 2 ^ 62 + 1"
  proof -
    have "unat ?s mod 2 ^ 62 < 2 ^ 62" by simp
    then show ?thesis unfolding mod62 [symmetric] by (simp add: unat_word_ariths)
  qed
  moreover have "unat ?s mod 2 ^ 62 + 1 \<noteq> unat ?s"
    using operation_id_seed_range [of random] by (cases "unat ?s = 2 ^ 62") auto
  ultimately have "?s mod push_bit 62 1 + 1 \<noteq> ?s" by metis
  then show ?thesis using True by (simp add: staged_operation_id_def)
qed (simp add: staged_operation_id_def Let_def)

section \<open>Authentication depends on the environment only\<close>

definition same_environment :: "core \<Rightarrow> core \<Rightarrow> bool" where
  "same_environment a b \<longleftrightarrow>
     co_now_epoch a = co_now_epoch b \<and> co_trust_store a = co_trust_store b
     \<and> co_device_public_key a = co_device_public_key b \<and> co_wua a = co_wua b \<and> co_catalogue a = co_catalogue b"

lemma authenticate_cong:
  assumes eqs: "co_now_epoch a = co_now_epoch b" "co_trust_store a = co_trust_store b"
    "co_device_public_key a = co_device_public_key b" "co_catalogue a = co_catalogue b"
  shows "authenticate_received_credential E a = authenticate_received_credential E b"
proof -
  have "resolve_issuer_in E a = resolve_issuer_in E b"
    by (intro ext) (simp only: resolve_issuer_in_def Let_def eqs)
  then have issuers: "resolve_credential_issuers E a = resolve_credential_issuers E b"
    by (intro ext) (simp only: resolve_credential_issuers_def)
  have for_type: "issuer_for_type a = issuer_for_type b"
    by (intro ext) (simp only: issuer_for_type_def eqs)
  have special: "check_special_type E a = check_special_type E b"
    by (intro ext) (simp only: check_special_type_def eqs)
  have sd: "verify_sdjwt_credential E a = verify_sdjwt_credential E b"
    by (intro ext) (simp only: verify_sdjwt_credential_def Let_def for_type special eqs)
  have md: "verify_mdoc_credential E a = verify_mdoc_credential E b"
    by (intro ext) (simp only: verify_mdoc_credential_def for_type eqs)
  show ?thesis
    by (intro ext) (simp only: authenticate_received_credential_def Let_def issuers sd md eqs)
qed

lemma authenticate_same_environment:
  "same_environment a b \<Longrightarrow> authenticate_received_credential E a = authenticate_received_credential E b"
  by (rule authenticate_cong) (simp_all add: same_environment_def)

lemma authenticate_shape:
  assumes "authenticate_received_credential E core f raw path i = Inr auth"
  shows "cp_format (ac_provenance auth) = f" "cp_raw_credential (ac_provenance auth) = raw"
    "verified_format (ac_credential auth) = f"
proof -
  have sd: "verified_format v = DcSdJwt" if "verify_sdjwt_credential E core b issuers a = Inr (v, ev)" for b issuers a v ev
    using that by (auto simp: verify_sdjwt_credential_def bind_result_Inr_iff Let_def verified_format_def)
  have md: "verified_format v = MsoMdoc" if "verify_mdoc_credential E core b issuers a = Inr (v, ev)" for b issuers a v ev
    using that by (auto simp: verify_mdoc_credential_def bind_result_Inr_iff verified_format_def)
  show "cp_format (ac_provenance auth) = f" "cp_raw_credential (ac_provenance auth) = raw"
    "verified_format (ac_credential auth) = f"
    using assms
    by (auto simp: authenticate_received_credential_def bind_result_Inr_iff Let_def split: if_splits credential_format.splits
        dest: sd md)
qed

section \<open>The exported records\<close>

definition provenance_record :: "u8 \<Rightarrow> credential_provenance \<Rightarrow> credential_record" where
  "provenance_record format p =
     \<lparr>cr_format = format, cr_raw = cp_raw_credential p, cr_issuer_identity = ev_identity (cp_issuer p),
       cr_certificate_path = ev_certificate_path (cp_issuer p)\<rparr>"

type_synonym stored_item = "stored_sdjwt_credential + stored_mdoc_credential"

fun item_provenance :: "stored_item \<Rightarrow> credential_provenance option" where
  "item_provenance (Inl s) = authenticated_provenance (ss_provenance s)"
| "item_provenance (Inr s) = authenticated_provenance (sm_provenance s)"

fun item_record :: "stored_item \<Rightarrow> credential_record" where
  "item_record (Inl s) = provenance_record 1 (the (item_provenance (Inl s)))"
| "item_record (Inr s) = provenance_record 2 (the (item_provenance (Inr s)))"

fun item_current :: "core_env \<Rightarrow> core \<Rightarrow> stored_item \<Rightarrow> bool" where
  "item_current E core (Inl s) \<longleftrightarrow> sdjwt_current E core s"
| "item_current E core (Inr s) \<longleftrightarrow> mdoc_current E core s"

definition record_bounded :: "credential_record \<Rightarrow> bool" where
  "record_bounded r \<longleftrightarrow>
     length (cr_raw r) \<le> MAX_RAW_CREDENTIAL_BYTES
     \<and> cr_issuer_identity r \<noteq> [] \<and> length (cr_issuer_identity r) \<le> MAX_ISSUER_ID_BYTES
     \<and> cr_certificate_path r \<noteq> [] \<and> length (cr_certificate_path r) \<le> MAX_CERTIFICATES_PER_PATH
     \<and> (\<forall>c \<in> set (cr_certificate_path r). c \<noteq> [] \<and> length c \<le> MAX_CERTIFICATE_BYTES)"

lemma validate_certificates_Inr:
  assumes "validate_certificates path n = Inr k"
  shows "(\<forall>c \<in> set path. c \<noteq> [] \<and> length c \<le> MAX_CERTIFICATE_BYTES) \<and> k = n + sum_list (map length path)
    \<and> (n \<le> MAX_CREDENTIAL_EVIDENCE_BYTES \<longrightarrow> k \<le> MAX_CREDENTIAL_EVIDENCE_BYTES)"
  using assms by (induction path arbitrary: n) (fastforce simp: bind_result_Inr_iff total_iff split: if_splits)+

lemma validate_record_parts_Inr:
  assumes "validate_record_parts raw i path n = Inr k"
  shows "length raw \<le> MAX_RAW_CREDENTIAL_BYTES \<and> i \<noteq> [] \<and> length i \<le> MAX_ISSUER_ID_BYTES \<and> path \<noteq> []
    \<and> length path \<le> MAX_CERTIFICATES_PER_PATH \<and> (\<forall>c \<in> set path. c \<noteq> [] \<and> length c \<le> MAX_CERTIFICATE_BYTES)
    \<and> k = n + length raw + length i + sum_list (map length path) \<and> k \<le> MAX_CREDENTIAL_EVIDENCE_BYTES"
  using assms
  by (auto simp: validate_record_parts_def bind_result_Inr_iff total_iff not_less split: if_splits
      dest!: validate_certificates_Inr)

lemma export_record_Inr:
  assumes "export_record E core format p matches (rs, n) = Inr (rs', k)"
  shows "rs' = rs @ [provenance_record format p]" "record_bounded (provenance_record format p)"
    "k = n + credential_size (provenance_record format p)" "k \<le> MAX_CREDENTIAL_EVIDENCE_BYTES"
    "\<exists>v. reauthenticates E core p v \<and> matches v"
proof -
  from assms obtain fresh where
    parts: "validate_record_parts (cp_raw_credential p) (ev_identity (cp_issuer p)) (ev_certificate_path (cp_issuer p)) n = Inr k"
    and fresh: "authenticate_received_credential E core (cp_format p) (cp_raw_credential p) (ev_certificate_path (cp_issuer p))
      (ev_identity (cp_issuer p)) = Inr fresh" "ac_provenance fresh = p" "matches (ac_credential fresh)"
    and rs': "rs' = rs @ [provenance_record format p]"
    by (auto simp: export_record_def provenance_record_def bind_result_Inr_iff map_err_Inr_iff Let_def split: if_splits)
  note v = validate_record_parts_Inr [OF parts]
  show "rs' = rs @ [provenance_record format p]" by (rule rs')
  show "record_bounded (provenance_record format p)"
    "k = n + credential_size (provenance_record format p)" "k \<le> MAX_CREDENTIAL_EVIDENCE_BYTES"
    using v by (simp_all add: record_bounded_def provenance_record_def credential_size_def)
  have "reauthenticates E core p (ac_credential fresh)"
    using fresh(1,2) by (simp add: reauthenticates_def)
  with fresh(3) show "\<exists>v. reauthenticates E core p v \<and> matches v" by blast
qed

definition exported :: "core_env \<Rightarrow> core \<Rightarrow> stored_item list \<Rightarrow> credential_record list \<times> nat \<Rightarrow> credential_record list \<times> nat \<Rightarrow> bool" where
  "exported E core items before after \<longleftrightarrow>
     (\<forall>i \<in> set items. item_provenance i \<noteq> None \<and> item_current E core i \<and> record_bounded (item_record i))
     \<and> fst after = fst before @ map item_record items
     \<and> snd after = snd before + sum_list (map credential_size (map item_record items))
     \<and> (snd before \<le> MAX_CREDENTIAL_EVIDENCE_BYTES \<longrightarrow> snd after \<le> MAX_CREDENTIAL_EVIDENCE_BYTES)"

lemma exported_Cons:
  assumes "item_provenance i \<noteq> None" "item_current E core i" "record_bounded (item_record i)"
    and "exported E core items (rs @ [item_record i], k) after" "k = n + credential_size (item_record i)"
    and "k \<le> MAX_CREDENTIAL_EVIDENCE_BYTES"
  shows "exported E core (i # items) (rs, n) after"
  using assms by (auto simp: exported_def)

lemma export_sdjwts_Inr:
  assumes "export_sdjwts E core cs acc = Inr after"
  shows "exported E core (map Inl (filter (\<lambda>s. authenticated_provenance (ss_provenance s) \<noteq> None) cs)) acc after"
  using assms
proof (induction cs arbitrary: acc)
  case Nil
  then show ?case by (simp add: exported_def)
next
  case (Cons s cs)
  show ?case
  proof (cases "authenticated_provenance (ss_provenance s)")
    case None
    with Cons show ?thesis by simp
  next
    case (Some p)
    with Cons.prems obtain acc1 where one: "export_record E core 1 p (sdjwt_matches s) acc = Inr acc1"
      and more: "export_sdjwts E core cs acc1 = Inr after"
      by (auto simp: bind_result_Inr_iff)
    obtain rs n rs' k where acc: "acc = (rs, n)" "acc1 = (rs', k)" by (cases acc; cases acc1)
    note r = export_record_Inr [OF one [unfolded acc]]
    obtain v where v: "reauthenticates E core p v" "sdjwt_matches s v"
      using r(5) by blast
    have "sdjwt_current E core s"
      using v Some
      by (cases v) (auto simp: sdjwt_current_def sdjwt_matches_def authenticated_provenance_def split: stored_provenance.splits)
    with r Some exported_Cons [of "Inl s" E core _ rs k after n] Cons.IH [OF more] show ?thesis by (simp add: acc)
  qed
qed

lemma export_mdocs_Inr:
  assumes "export_mdocs E core cs acc = Inr after"
  shows "exported E core (map Inr (filter (\<lambda>s. authenticated_provenance (sm_provenance s) \<noteq> None) cs)) acc after"
  using assms
proof (induction cs arbitrary: acc)
  case Nil
  then show ?case by (simp add: exported_def)
next
  case (Cons s cs)
  show ?case
  proof (cases "authenticated_provenance (sm_provenance s)")
    case None
    with Cons show ?thesis by simp
  next
    case (Some p)
    with Cons.prems obtain acc1 where one: "export_record E core 2 p (mdoc_matches s) acc = Inr acc1"
      and more: "export_mdocs E core cs acc1 = Inr after"
      by (auto simp: bind_result_Inr_iff)
    obtain rs n rs' k where acc: "acc = (rs, n)" "acc1 = (rs', k)" by (cases acc; cases acc1)
    note r = export_record_Inr [OF one [unfolded acc]]
    obtain v where v: "reauthenticates E core p v" "mdoc_matches s v"
      using r(5) by blast
    have "mdoc_current E core s"
      using v Some
      by (cases v) (auto simp: mdoc_current_def mdoc_matches_def authenticated_provenance_def split: stored_provenance.splits)
    with r Some exported_Cons [of "Inr s" E core _ rs k after n] Cons.IH [OF more] show ?thesis by (simp add: acc)
  qed
qed

section \<open>Sorting and staging the records\<close>

lemma mset_insert_by [simp]: "mset (insert_by c x ys) = add_mset x (mset ys)"
  by (induction ys) auto

lemma mset_sort_by [simp]: "mset (sort_by c xs) = mset xs"
  unfolding sort_by_def by (induction xs) simp_all

lemma insert_by_map: "insert_by c (f x) (map f ys) = map f (insert_by (\<lambda>a b. c (f a) (f b)) x ys)"
  by (induction ys) simp_all

lemma sort_by_map: "sort_by c (map f xs) = map f (sort_by (\<lambda>a b. c (f a) (f b)) xs)"
  unfolding sort_by_def by (induction xs) (simp_all add: insert_by_map)

lemma windows_ascending_iff: "windows_ascending rs \<longleftrightarrow> successively precedes rs"
  by (induction rs rule: windows_ascending.induct) (simp_all add: precedes_def)

definition lefts :: "('a + 'b) list \<Rightarrow> 'a list" where "lefts xs = map projl (filter isl xs)"
definition rights :: "('a + 'b) list \<Rightarrow> 'b list" where "rights xs = map projr (filter (\<lambda>x. \<not> isl x) xs)"

lemma lefts_rights_simps [simp]:
  "lefts [] = []" "lefts (Inl a # xs) = a # lefts xs" "lefts (Inr b # xs) = lefts xs" "lefts (xs @ ys) = lefts xs @ lefts ys"
  "rights [] = []" "rights (Inl a # xs) = rights xs" "rights (Inr b # xs) = b # rights xs"
  "rights (xs @ ys) = rights xs @ rights ys"
  "lefts (map Inl as) = as" "rights (map Inl as) = []" "lefts (map Inr bs) = []" "rights (map Inr bs) = bs"
  by (simp_all add: lefts_def rights_def filter_map comp_def map_idI)

lemma mset_lefts_rights:
  assumes "mset xs = mset ys"
  shows "mset (lefts xs) = mset (lefts ys)" "mset (rights xs) = mset (rights ys)"
  using assms by (simp_all add: lefts_def rights_def mset_filter)

lemma distinct_map_mset: "mset xs = mset ys \<Longrightarrow> distinct (map f xs) \<longleftrightarrow> distinct (map f ys)"
  by (metis mset_eq_imp_distinct_iff mset_map)

lemma duplicate_holding_distinct:
  "\<not> duplicate_holding prov holding cs \<Longrightarrow>
     distinct (map holding (filter (\<lambda>s. authenticated_provenance (prov s) \<noteq> None) cs))"
  by (induction cs) (auto simp: list_ex_iff image_iff)

lemma stage_sdjwt:
  assumes "sdjwt_current E core s" "ss_holding s \<notin> ss_holding ` set sd"
  shows "stage_record E core index (item_record (Inl s)) (sd, md) = Inr (sd @ [s], md)"
proof -
  from assms(1) obtain p a where p: "ss_provenance s = AuthenticatedProvenance p" "ss_authenticated s = Some a"
    and auth: "authenticate_received_credential E core (cp_format p) (cp_raw_credential p) (ev_certificate_path (cp_issuer p))
       (ev_identity (cp_issuer p)) = Inr \<lparr>ac_credential = VerifiedSdJwt (ss_holding s) a (ss_validity s), ac_provenance = p\<rparr>"
    by (auto simp: sdjwt_current_def reauthenticates_def)
  from authenticate_shape (3) [OF auth] have "cp_format p = DcSdJwt" by (simp add: verified_format_def)
  with p auth assms(2) show ?thesis
    by (cases s) (auto simp: stage_record_def provenance_record_def authenticated_provenance_def record_format_def list_ex_iff)
qed

lemma stage_mdoc:
  assumes "mdoc_current E core s" "sm_holding s \<notin> sm_holding ` set md"
  shows "stage_record E core index (item_record (Inr s)) (sd, md) = Inr (sd, md @ [s])"
proof -
  from assms(1) obtain p where p: "sm_provenance s = AuthenticatedProvenance p"
    and auth: "authenticate_received_credential E core (cp_format p) (cp_raw_credential p) (ev_certificate_path (cp_issuer p))
       (ev_identity (cp_issuer p)) = Inr \<lparr>ac_credential = VerifiedMdoc (sm_holding s) (sm_validity s), ac_provenance = p\<rparr>"
    by (auto simp: mdoc_current_def reauthenticates_def)
  from authenticate_shape (3) [OF auth] have "cp_format p = MsoMdoc" by (simp add: verified_format_def)
  with p auth assms(2) show ?thesis
    by (cases s) (auto simp: stage_record_def provenance_record_def authenticated_provenance_def record_format_def list_ex_iff)
qed

lemma stage_items:
  assumes "\<forall>i \<in> set items. item_current E core i"
    and "distinct (map ss_holding (sd @ lefts items))" "distinct (map sm_holding (md @ rights items))"
  shows "stage_records E core index (map item_record items) (sd, md) = Inr (sd @ lefts items, md @ rights items)"
  using assms
proof (induction items arbitrary: index sd md)
  case (Cons i items)
  show ?case
  proof (cases i)
    case (Inl s)
    with Cons.prems stage_sdjwt [of E core s sd index md] Cons.IH [of "sd @ [s]" md "Suc index"] show ?thesis
      by (simp del: item_record.simps)
  next
    case (Inr s)
    with Cons.prems stage_mdoc [of E core s md index sd] Cons.IH [of sd "md @ [s]" "Suc index"] show ?thesis
      by (simp del: item_record.simps)
  qed
qed simp

definition authenticated_items :: "core \<Rightarrow> stored_item list" where
  "authenticated_items core =
     map Inl (filter (\<lambda>s. authenticated_provenance (ss_provenance s) \<noteq> None) (co_credentials core))
     @ map Inr (filter (\<lambda>s. authenticated_provenance (sm_provenance s) \<noteq> None) (co_mdoc_holdings core))"

lemma authenticated_records_Inr:
  assumes "authenticated_records E core = Inr rs"
  obtains items where "mset items = mset (authenticated_items core)" "rs = map item_record items"
    "\<forall>i \<in> set items. item_provenance i \<noteq> None \<and> item_current E core i \<and> record_bounded (item_record i)"
    "length rs \<le> MAX_CREDENTIALS" "successively precedes rs"
    "sum_list (map credential_size rs) \<le> MAX_CREDENTIAL_EVIDENCE_BYTES"
    "distinct (map ss_holding (lefts items))" "distinct (map sm_holding (rights items))"
proof -
  from assms obtain acc k records where
    small: "length (authenticated_items core) \<le> MAX_CREDENTIALS"
    and dup: "\<not> duplicate_holding ss_provenance ss_holding (co_credentials core)"
      "\<not> duplicate_holding sm_provenance sm_holding (co_mdoc_holdings core)"
    and sd: "export_sdjwts E core (co_credentials core) ([], 0) = Inr acc"
    and md: "export_mdocs E core (co_mdoc_holdings core) acc = Inr (records, k)"
    and rs: "rs = sort_by cmp_canonical records" "windows_ascending rs"
    by (auto simp: authenticated_records_def authenticated_items_def bind_result_Inr_iff Let_def not_less split: if_splits prod.splits)
  let ?all = "authenticated_items core"
  let ?items = "sort_by (\<lambda>a b. cmp_canonical (item_record a) (item_record b)) ?all"
  have ex: "exported E core ?all ([], 0) (records, k)"
    using export_sdjwts_Inr [OF sd] export_mdocs_Inr [OF md]
    by (auto simp: exported_def authenticated_items_def)
  then have records: "records = map item_record ?all" by (simp add: exported_def)
  have perm: "mset ?items = mset ?all" by simp
  then have set_eq: "set ?items = set ?all" by (rule mset_eq_setD)
  have rs_items: "rs = map item_record ?items"
    unfolding rs(1) records by (rule sort_by_map)
  have "mset (map credential_size rs) = mset (map credential_size records)"
    by (simp add: rs(1))
  then have size: "sum_list (map credential_size rs) = k"
    using ex by (simp add: exported_def records flip: sum_mset_sum_list)
  have len: "length rs = length ?all"
    using mset_eq_length [OF perm] rs_items by simp
  show thesis
  proof (rule that [OF perm rs_items])
    show "\<forall>i \<in> set ?items. item_provenance i \<noteq> None \<and> item_current E core i \<and> record_bounded (item_record i)"
      using ex unfolding set_eq exported_def by blast
    show "length rs \<le> MAX_CREDENTIALS" using len small by simp
    show "successively precedes rs" using rs(2) by (simp add: windows_ascending_iff)
    show "sum_list (map credential_size rs) \<le> MAX_CREDENTIAL_EVIDENCE_BYTES"
      using size ex by (simp add: exported_def)
    show "distinct (map ss_holding (lefts ?items))"
      unfolding distinct_map_mset [OF mset_lefts_rights(1) [OF perm]]
      using duplicate_holding_distinct [OF dup(1)] by (simp add: authenticated_items_def)
    show "distinct (map sm_holding (rights ?items))"
      unfolding distinct_map_mset [OF mset_lefts_rights(2) [OF perm]]
      using duplicate_holding_distinct [OF dup(2)] by (simp add: authenticated_items_def)
  qed
qed

section \<open>What the export writes is a checkpoint\<close>

text \<open>What the Rust types guarantee of the values an export reads: texts are UTF-8, hashes have 32 bytes, times are
  \<open>i64\<close>.\<close>

definition entry_types :: "log_entry \<Rightarrow> bool" where
  "entry_types e \<longleftrightarrow>
     in_i64 (en_epoch e) \<and> valid_str (en_counterparty e) \<and> length (en_consent_hash e) = 32
     \<and> (\<forall>p \<in> set (en_claim_paths e). valid_str p)
     \<and> (case en_payment e of None \<Rightarrow> True | Some p \<Rightarrow> valid_str (ps_payee p) \<and> valid_str (ps_currency p))
     \<and> length (en_prev_hash e) = 32 \<and> length (en_entry_hash e) = 32"

definition wallet_types :: "wallet \<Rightarrow> bool" where
  "wallet_types w \<longleftrightarrow>
     in_i64 (co_now_epoch (w_core w)) \<and> (\<forall>n \<in> set (w_seen_nonces w). valid_str n)
     \<and> (\<forall>i \<in> set (authenticated_items (w_core w)). valid_str (cr_issuer_identity (item_record i)))
     \<and> (\<forall>e \<in> set (tl_entries (w_log w)). entry_types e)"

lemma path_texts_bounded:
  "validate_path_texts ps = Inr u \<Longrightarrow> \<forall>p \<in> set ps. length p \<le> MAX_CLAIM_PATH_BYTES"
  by (induction ps) (auto simp: bind_result_Inr_iff validate_text_def not_less split: if_splits)

lemma validate_payment_Inr:
  "validate_payment k pay c ps n = Inr u \<Longrightarrow>
     (case pay of None \<Rightarrow> True | Some p \<Rightarrow> length (ps_payee p) \<le> MAX_PAYMENT_PAYEE_BYTES \<and> length (ps_currency p) \<le> 3)"
  by (cases k; cases pay)
    (auto simp: validate_payment_def bind_result_Inr_iff validate_text_def not_less split: if_splits)

lemma validated_entry_ok:
  assumes "validate_entry d i p e = Inr n" "entry_types e"
  shows "entry_ok e" "entry_size e \<le> n"
proof -
  have "entry_ok e"
  proof (cases "en_redacted e")
    case True
    with assms show ?thesis
      by (auto simp: validate_entry_def redacted_entry_is_canonical_def entry_ok_def entry_types_def payment_ok_def
          split: if_splits)
  next
    case False
    with assms(1) have "validate_text (en_counterparty e) F_Counterparty MAX_COUNTERPARTY_BYTES False = Inr ()"
      "length (en_claim_paths e) \<le> MAX_CLAIM_PATHS_PER_ENTRY" "validate_path_texts (en_claim_paths e) = Inr ()"
      "validate_payment (en_kind e) (en_payment e) (en_counterparty e) (en_claim_paths e) (en_seq e) = Inr ()"
      by (auto simp: validate_entry_def validate_entry_fields_def validate_claim_paths_def bind_result_Inr_iff not_less
          split: if_splits)
    with assms(2) path_texts_bounded [of "en_claim_paths e"] validate_payment_Inr [of "en_kind e" "en_payment e"] show ?thesis
      by (fastforce simp: entry_ok_def entry_types_def payment_ok_def validate_text_def not_less split: option.splits if_splits)
  qed
  moreover have "entry_size e \<le> n"
    using validated_size [OF assms(1)]
    by (auto simp: accounted_entry_bytes_def accounted_fields_Inr entry_size_def payment_size_def sum_list_addf
        split: option.splits)
  ultimately show "entry_ok e" "entry_size e \<le> n" .
qed

lemma validated_entries_ok:
  assumes "validate_entries_from d i p a es = Inr (h, b)" "\<forall>e \<in> set es. entry_types e"
  shows "(\<forall>e \<in> set es. entry_ok e) \<and> a + sum_list (map entry_size es) \<le> b"
  using assms
proof (induction es arbitrary: i p a)
  case (Cons e es)
  then obtain n where "validate_entry d (of_nat i) p e = Inr n"
    "validate_entries_from d (i + 1) (en_entry_hash e) (a + n) es = Inr (h, b)"
    by (auto simp: validate_from_Inr split: if_splits)
  with Cons.IH [of "i + 1" "en_entry_hash e" "a + n"] Cons.prems(2) validated_entry_ok [of d "of_nat i" p e n] show ?case
    by auto
qed simp

lemma head_hash_length: "(\<forall>e \<in> set (tl_entries log'). entry_types e) \<Longrightarrow> length (head_hash log') = 32"
proof -
  have "length (chain_head en_entry_hash h es) = 32" if "length h = 32" "\<forall>e \<in> set es. entry_types e" for h es
    using that by (induction es arbitrary: h) (auto simp: entry_types_def)
  then show "(\<forall>e \<in> set (tl_entries log'). entry_types e) \<Longrightarrow> length (head_hash log') = 32"
    by (simp add: head_hash_def ZERO_HASH_def)
qed

lemma sorted_remdups_strict: "sorted xs \<Longrightarrow> successively (<) (remdups_adj xs)" for xs :: "'a :: linorder list"
  by (induction xs rule: remdups_adj.induct) (auto simp: successively_Cons hd_remdups_adj order.strict_iff_order)

lemma strictly_sorted: "successively (<) (remdups_adj (sort xs))" for xs :: "'a :: linorder list"
  by (simp add: sorted_remdups_strict)

lemma remdups_sort_length: "length (remdups_adj (sort xs)) \<le> length xs" for xs :: "'a :: linorder list"
  using remdups_adj_length [of "sort xs"] by simp

lemma replays_ok:
  assumes "sorted_replay_str a = Inr pr" "sorted_replay b = Inr pa" "sorted_replay c = Inr iss" "sorted_replay d = Inr qe"
    and "\<forall>n \<in> set a. valid_str n"
  shows "replay_ok \<lparr>rs_presentation = pr, rs_payment = pa, rs_issuance = iss, rs_qes = qe\<rparr>"
    "set pr = set a" "set pa = set b" "set iss = set c" "set qe = set d"
proof -
  have "length a \<le> MAX_REPLAY_VALUES" "\<forall>n \<in> set a. length n \<le> MAX_REPLAY_NONCE_BYTES" "pr = remdups_adj (sort a)"
    using assms(1) by (auto simp: sorted_replay_str_def find_None_iff not_less split: if_splits option.splits)
  moreover have "length b \<le> MAX_REPLAY_VALUES" "pa = remdups_adj (sort b)" "length c \<le> MAX_REPLAY_VALUES"
    "iss = remdups_adj (sort c)" "length d \<le> MAX_REPLAY_VALUES" "qe = remdups_adj (sort d)"
    using assms(2-4) by (auto simp: sorted_replay_def not_less split: if_splits)
  ultimately show "replay_ok \<lparr>rs_presentation = pr, rs_payment = pa, rs_issuance = iss, rs_qes = qe\<rparr>"
    "set pr = set a" "set pa = set b" "set iss = set c" "set qe = set d"
    using assms(5) remdups_sort_length [of a] remdups_sort_length [of b] remdups_sort_length [of c] remdups_sort_length [of d]
    by (auto simp: replay_ok_def strictly_sorted)
qed

lemma current_context_ok:
  assumes "current_context E w = Inr ctx" "\<And>x. length (ce_sha256 E x) = 32"
  shows "context_ok ctx"
  using assms
  by (auto simp: current_context_def context_ok_def context_hash_def bind_result_Inr_iff Let_def split: if_splits)

lemma exported_checkpoint_ok:
  assumes export: "export_durable_checkpoint E generation w = Inr bytes" and types: "wallet_types w"
    and sha: "\<And>x. length (ce_sha256 E x) = 32"
  obtains cp items seq staged_log where "checkpoint_ok cp" "encode_checkpoint cp = Inr bytes" "cp_generation cp = generation"
    "current_context E w = Inr (cp_context cp)" "require_current_environment w = Inr seq"
    "cp_clock_high_water cp = co_now_epoch (w_core w)" "cp_trust_sequence_high_water cp = seq"
    "cp_credentials cp = map item_record items" "mset items = mset (authenticated_items (w_core w))"
    "\<forall>i \<in> set items. item_current E (w_core w) i"
    "distinct (map ss_holding (lefts items))" "distinct (map sm_holding (rights items))"
    "set (rs_presentation (cp_replay cp)) = set (w_seen_nonces w)" "set (rs_payment (cp_replay cp)) = set (w_pay_seen_nonces w)"
    "set (rs_issuance (cp_replay cp)) = set (w_iss_seen_c_nonces w)" "set (rs_qes (cp_replay cp)) = set (w_qes_seen_nonces w)"
    "validate_transaction_clock (cp_transaction_entries cp) (cp_clock_high_water cp) = Inr ()"
    "restore_checked (ce_sha256 E) (cp_transaction_entries cp) (cp_transaction_head cp) = Inr staged_log"
    "cp_transaction_entries cp = tl_entries (w_log w)"
    "cp_issuance_interrupted cp = (w_active w = Flow_Issuance \<and> issuance_document_summary E Ds_Preparing w \<noteq> None)"
proof -
  from export obtain ctx seq rs pr pa iss qe staged_log where gen: "generation \<noteq> 0"
    and ctx: "current_context E w = Inr ctx" and env: "require_current_environment w = Inr seq"
    and rs: "authenticated_records E (w_core w) = Inr rs"
    and replay: "sorted_replay_str (w_seen_nonces w) = Inr pr" "sorted_replay (w_pay_seen_nonces w) = Inr pa"
      "sorted_replay (w_iss_seen_c_nonces w) = Inr iss" "sorted_replay (w_qes_seen_nonces w) = Inr qe"
    and small: "length (tl_entries (w_log w)) \<le> MAX_ENTRIES"
    and clock: "validate_transaction_clock (tl_entries (w_log w)) (co_now_epoch (w_core w)) = Inr ()"
    and restored: "restore_checked (ce_sha256 E) (tl_entries (w_log w)) (head_hash (w_log w)) = Inr staged_log"
    and enc: "encode_checkpoint
      \<lparr>cp_generation = generation, cp_context = ctx, cp_clock_high_water = co_now_epoch (w_core w),
        cp_trust_sequence_high_water = seq, cp_credentials = rs,
        cp_replay = \<lparr>rs_presentation = pr, rs_payment = pa, rs_issuance = iss, rs_qes = qe\<rparr>,
        cp_transaction_entries = tl_entries (w_log w), cp_transaction_head = head_hash (w_log w),
        cp_issuance_interrupted = (w_active w = Flow_Issuance \<and> issuance_document_summary E Ds_Preparing w \<noteq> None)\<rparr> = Inr bytes"
      (is "encode_checkpoint ?cp = _")
    by (auto simp: export_durable_checkpoint_def bind_result_Inr_iff map_err_Inr_iff not_less split: if_splits)
  from authenticated_records_Inr [OF rs] obtain items where perm: "mset items = mset (authenticated_items (w_core w))"
    and items: "rs = map item_record items"
      "\<forall>i \<in> set items. item_provenance i \<noteq> None \<and> item_current E (w_core w) i \<and> record_bounded (item_record i)"
      "length rs \<le> MAX_CREDENTIALS" "successively precedes rs"
      "sum_list (map credential_size rs) \<le> MAX_CREDENTIAL_EVIDENCE_BYTES"
      "distinct (map ss_holding (lefts items))" "distinct (map sm_holding (rights items))" .
  have now: "0 < co_now_epoch (w_core w)" "co_now_epoch (w_core w) \<le> i64_max"
    using env types by (auto simp: require_current_environment_def wallet_types_def in_i64_def Let_def split: if_splits)
  have typed: "\<forall>n \<in> set (w_seen_nonces w). valid_str n" "\<forall>e \<in> set (tl_entries (w_log w)). entry_types e"
    using types by (simp_all add: wallet_types_def)
  note replays = replays_ok [OF replay typed(1)]
  have records: "credential_ok (item_record i)" if "i \<in> set items" for i
  proof -
    have "valid_str (cr_issuer_identity (item_record i))"
      using that types mset_eq_setD [OF perm] by (auto simp: wallet_types_def)
    moreover have "cr_format (item_record i) = 1 \<or> cr_format (item_record i) = 2"
      by (cases i) (simp_all add: provenance_record_def)
    ultimately show ?thesis
      using items(2) that by (simp add: credential_ok_def record_bounded_def)
  qed
  from restored have valid: "validate_entries_from (ce_sha256 E) 0 ZERO_HASH 0 (tl_entries (w_log w)) = Inr (head_hash (w_log w), tl_accounted_bytes staged_log)"
    by (auto simp: restore_checked_Inr log_valid_def)
  have entries: "\<forall>e \<in> set (tl_entries (w_log w)). entry_ok e"
    "sum_list (map entry_size (tl_entries (w_log w))) \<le> MAX_AGGREGATE_BYTES"
    using validated_entries_ok [OF valid typed(2)] validate_from_bound [OF valid] by auto
  have ok: "checkpoint_ok ?cp"
    using gen current_context_ok [OF ctx sha] now items(3-5) records replays(1) small entries head_hash_length [OF typed(2)]
    by (simp add: checkpoint_ok_def items(1))
  show thesis
    by (rule that [OF ok enc _ _ env _ _ _ perm, where staged_log = staged_log])
      (use ctx items replays clock restored in simp_all)
qed

section \<open>Restoration\<close>

text \<open>No flow is in progress: every protocol machine is at its start, nothing is pending and no session is held.\<close>

definition wallet_quiet :: "wallet \<Rightarrow> bool" where
  "wallet_quiet w \<longleftrightarrow>
     w_active w = Flow_None \<and> w_pending_operations w = []
     \<and> w_vp w = Vp_Idle \<and> w_session w = None \<and> w_pending_rp_provenance w = None
     \<and> w_payment w = Pay_Idle \<and> w_pay_pending w = None \<and> w_pay_summary w = None \<and> w_pay_consent_hash w = ZERO_HASH
     \<and> w_issuance w = Vci_Idle \<and> w_pending_verified_credential w = None \<and> w_issuance_consent_hash w = ZERO_HASH
     \<and> \<not> w_issuer_trusted_current w \<and> w_issuer_candidates_current w = []
     \<and> w_qes w = Qes_Idle \<and> w_qes_consent_hash w = ZERO_HASH
     \<and> w_w2w w = W2w_Idle \<and> w_w2w_credential w = None"

text \<open>The durable content of a wallet is what the checkpoint records, authenticated in the environment of the wallet.\<close>

definition holds_checkpoint :: "core_env \<Rightarrow> checkpoint \<Rightarrow> wallet \<Rightarrow> bool" where
  "holds_checkpoint E cp w \<longleftrightarrow>
     staged_ok E (w_core w) (co_credentials (w_core w), co_mdoc_holdings (w_core w))
     \<and> length (co_credentials (w_core w)) + length (co_mdoc_holdings (w_core w)) = length (cp_credentials cp)
     \<and> w_seen_nonces w = rs_presentation (cp_replay cp) \<and> w_pay_seen_nonces w = rs_payment (cp_replay cp)
     \<and> w_iss_seen_c_nonces w = rs_issuance (cp_replay cp) \<and> w_qes_seen_nonces w = rs_qes (cp_replay cp)
     \<and> tl_entries (w_log w) = cp_transaction_entries cp \<and> head_hash (w_log w) = cp_transaction_head cp
     \<and> log_valid (ce_sha256 E) (w_log w)
     \<and> w_durable_issuance_interrupted w = cp_issuance_interrupted cp"

definition same_configuration :: "wallet \<Rightarrow> wallet \<Rightarrow> bool" where
  "same_configuration v w \<longleftrightarrow>
     w_wallet_client_id v = w_wallet_client_id w \<and> w_device_key_ref v = w_device_key_ref w
     \<and> same_environment (w_core v) (w_core w)"

lemma staged_ok_same_environment: "same_environment a b \<Longrightarrow> staged_ok E a st \<longleftrightarrow> staged_ok E b st"
  by (simp add: staged_ok_def sdjwt_current_def mdoc_current_def reauthenticates_def authenticate_same_environment [of a b])

lemma item_current_same_environment: "same_environment a b \<Longrightarrow> item_current E a i \<longleftrightarrow> item_current E b i"
  by (cases i) (simp_all add: sdjwt_current_def mdoc_current_def reauthenticates_def authenticate_same_environment [of a b])

lemma commit_restore_configuration: "same_configuration w (commit_restore cp st l n w)"
  by (simp add: same_configuration_def same_environment_def commit_restore_def)

lemma current_context_same: "same_configuration v w \<Longrightarrow> current_context E v = current_context E w"
  by (simp add: same_configuration_def same_environment_def current_context_def Let_def)

lemma require_current_environment_same:
  assumes "same_configuration v w"
  shows "require_current_environment v = require_current_environment w"
proof -
  have eqs: "co_now_epoch (w_core v) = co_now_epoch (w_core w)" "co_trust_store (w_core v) = co_trust_store (w_core w)"
    "co_device_public_key (w_core v) = co_device_public_key (w_core w)" "co_wua (w_core v) = co_wua (w_core w)"
    using assms by (simp_all add: same_configuration_def same_environment_def)
  show ?thesis unfolding require_current_environment_def Let_def eqs by (rule refl)
qed

lemma exported_prepares:
  assumes "export_durable_checkpoint E generation w = Inr bytes" "wallet_types w" "\<And>x. length (ce_sha256 E x) = 32"
    and same: "same_configuration w v"
  obtains cp st l where "prepare_restore E bytes generation v = Inr (cp, st, l)"
    "mset (fst st) = mset (filter (\<lambda>s. authenticated_provenance (ss_provenance s) \<noteq> None) (co_credentials (w_core w)))"
    "mset (snd st) = mset (filter (\<lambda>s. authenticated_provenance (sm_provenance s) \<noteq> None) (co_mdoc_holdings (w_core w)))"
    "set (rs_presentation (cp_replay cp)) = set (w_seen_nonces w)" "set (rs_payment (cp_replay cp)) = set (w_pay_seen_nonces w)"
    "set (rs_issuance (cp_replay cp)) = set (w_iss_seen_c_nonces w)" "set (rs_qes (cp_replay cp)) = set (w_qes_seen_nonces w)"
    "tl_entries l = tl_entries (w_log w)"
    "cp_issuance_interrupted cp = (w_active w = Flow_Issuance \<and> issuance_document_summary E Ds_Preparing w \<noteq> None)"
proof -
  have env: "same_environment (w_core w) (w_core v)" using same by (simp add: same_configuration_def)
  from exported_checkpoint_ok [OF assms(1-3)] obtain cp items seq l where
    cp: "checkpoint_ok cp" "encode_checkpoint cp = Inr bytes" "cp_generation cp = generation"
    and ctx: "current_context E w = Inr (cp_context cp)" "require_current_environment w = Inr seq"
    and clock: "cp_clock_high_water cp = co_now_epoch (w_core w)" "cp_trust_sequence_high_water cp = seq"
    and items: "cp_credentials cp = map item_record items" "mset items = mset (authenticated_items (w_core w))"
      "\<forall>i \<in> set items. item_current E (w_core w) i"
      "distinct (map ss_holding (lefts items))" "distinct (map sm_holding (rights items))"
    and replay: "set (rs_presentation (cp_replay cp)) = set (w_seen_nonces w)"
      "set (rs_payment (cp_replay cp)) = set (w_pay_seen_nonces w)"
      "set (rs_issuance (cp_replay cp)) = set (w_iss_seen_c_nonces w)" "set (rs_qes (cp_replay cp)) = set (w_qes_seen_nonces w)"
    and entries: "validate_transaction_clock (cp_transaction_entries cp) (cp_clock_high_water cp) = Inr ()"
      "restore_checked (ce_sha256 E) (cp_transaction_entries cp) (cp_transaction_head cp) = Inr l"
      "cp_transaction_entries cp = tl_entries (w_log w)"
    and flag: "cp_issuance_interrupted cp = (w_active w = Flow_Issuance \<and> issuance_document_summary E Ds_Preparing w \<noteq> None)" .
  have decoded: "decode_checkpoint bytes = Inr cp" "generation \<noteq> 0"
    using cp by (auto simp: decode_checkpoint_iff checkpoint_ok_def)
  have now: "co_now_epoch (w_core v) = cp_clock_high_water cp"
    using env clock(1) by (simp add: same_environment_def)
  have staged: "stage_records E (w_core v) 0 (cp_credentials cp) ([], []) = Inr (lefts items, rights items)"
    using stage_items [of items E "w_core v" "[]" "[]" 0] items item_current_same_environment [OF env] by simp
  have "prepare_restore E bytes generation v = Inr (cp, (lefts items, rights items), l)"
    using decoded cp(3) ctx current_context_same [OF same] require_current_environment_same [OF same] clock(2) now staged entries(1,2)
    by (simp add: prepare_restore_def check_context_def)
  moreover have "tl_entries l = tl_entries (w_log w)" using entries(2,3) by (simp add: restore_checked_Inr)
  moreover have "mset (lefts items) = mset (filter (\<lambda>s. authenticated_provenance (ss_provenance s) \<noteq> None) (co_credentials (w_core w)))"
    "mset (rights items) = mset (filter (\<lambda>s. authenticated_provenance (sm_provenance s) \<noteq> None) (co_mdoc_holdings (w_core w)))"
    using mset_lefts_rights [OF items(2)] by (simp_all add: authenticated_items_def)
  ultimately show thesis using that [of cp "(lefts items, rights items)" l] replay flag by simp
qed

lemma exported_restores:
  assumes "export_durable_checkpoint E generation w = Inr bytes" "wallet_types w" "\<And>x. length (ce_sha256 E x) = 32"
    and "same_configuration w v"
  shows "\<exists>v'. restore_durable_checkpoint E random bytes generation v = (Inr (), v')
    \<and> mset (co_credentials (w_core v'))
      = mset (filter (\<lambda>s. authenticated_provenance (ss_provenance s) \<noteq> None) (co_credentials (w_core w)))
    \<and> mset (co_mdoc_holdings (w_core v'))
      = mset (filter (\<lambda>s. authenticated_provenance (sm_provenance s) \<noteq> None) (co_mdoc_holdings (w_core w)))
    \<and> set (w_seen_nonces v') = set (w_seen_nonces w) \<and> set (w_pay_seen_nonces v') = set (w_pay_seen_nonces w)
    \<and> set (w_iss_seen_c_nonces v') = set (w_iss_seen_c_nonces w) \<and> set (w_qes_seen_nonces v') = set (w_qes_seen_nonces w)
    \<and> tl_entries (w_log v') = tl_entries (w_log w)
    \<and> w_durable_issuance_interrupted v' = (w_active w = Flow_Issuance \<and> issuance_document_summary E Ds_Preparing w \<noteq> None)"
  by (rule exported_prepares [OF assms]) (simp add: restore_durable_checkpoint_def commit_restore_def)

lemma restore_Inr:
  assumes "restore_durable_checkpoint E random bytes generation w = (Inr (), w')"
  obtains cp st l where "prepare_restore E bytes generation w = Inr (cp, st, l)"
    "w' = commit_restore cp st l (staged_operation_id random w) w"
  using assms by (auto simp: restore_durable_checkpoint_def split: sum.splits prod.splits)


text \<open>
  C2. An export can always be restored: the bytes a wallet exports are accepted, at the generation they were exported for,
  by every wallet with the same identifiers under the same environment, whatever it held before. It then holds exactly the
  authenticated credentials of the exporting wallet, the same replay sets and the same log, and it knows whether an
  issuance was interrupted.
\<close>

theorem export_restore_roundtrip:
  assumes "export_durable_checkpoint E generation w = Inr bytes" "wallet_types w" "\<And>x. length (ce_sha256 E x) = 32"
    and "same_configuration w v"
  shows "\<exists>v'. restore_durable_checkpoint E random bytes generation v = (Inr (), v')
    \<and> mset (co_credentials (w_core v'))
      = mset (filter (\<lambda>s. authenticated_provenance (ss_provenance s) \<noteq> None) (co_credentials (w_core w)))
    \<and> mset (co_mdoc_holdings (w_core v'))
      = mset (filter (\<lambda>s. authenticated_provenance (sm_provenance s) \<noteq> None) (co_mdoc_holdings (w_core w)))
    \<and> set (w_seen_nonces v') = set (w_seen_nonces w) \<and> set (w_pay_seen_nonces v') = set (w_pay_seen_nonces w)
    \<and> set (w_iss_seen_c_nonces v') = set (w_iss_seen_c_nonces w) \<and> set (w_qes_seen_nonces v') = set (w_qes_seen_nonces w)
    \<and> tl_entries (w_log v') = tl_entries (w_log w)
    \<and> w_durable_issuance_interrupted v' = (w_active w = Flow_Issuance \<and> issuance_document_summary E Ds_Preparing w \<noteq> None)"
  using assms by (rule exported_restores)

section \<open>A wallet that is exported and restored\<close>

definition durable_env :: core_env where
  "durable_env = bundle_env\<lparr>ce_sha256 := \<lambda>_. replicate 32 7\<rparr>"

definition durable_credential :: stored_sdjwt_credential where
  "durable_credential =
     \<lparr>ss_holding = \<lparr>hc_issuer_jwt = ''h.p.s'', hc_disclosures_by_claim = [], hc_status = None\<rparr>,
       ss_authenticated = Some \<lparr>ps_claims = sd_claims, ps_disclosures = []\<rparr>,
       ss_validity = \<lparr>cv_issued_at = None, cv_not_before = None, cv_expires_at = Some 18\<rparr>,
       ss_provenance = AuthenticatedProvenance
         \<lparr>cp_format = DcSdJwt, cp_raw_credential = sd_token, cp_issuer = bundle_evidence\<rparr>\<rparr>"

definition durable_fresh :: wallet where
  "durable_fresh =
     (wallet_new ''c'' ''k'' [])\<lparr>w_core := (bundle_core AttestationProvider)
       \<lparr>co_wua := Some \<lparr>wu_device_public_key = holder_key, wu_assurance_level = High, wu_valid_until = 30\<rparr>\<rparr>\<rparr>"

definition durable_wallet :: wallet where
  "durable_wallet =
     durable_fresh\<lparr>w_core := (w_core durable_fresh)\<lparr>co_credentials := [durable_credential]\<rparr>, w_seen_nonces := [''n'']\<rparr>"

definition durable_record :: credential_record where
  "durable_record = \<lparr>cr_format = 1, cr_raw = sd_token, cr_issuer_identity = ''https://issuer.example'', cr_certificate_path = [[1], [3]]\<rparr>"

definition durable_checkpoint :: checkpoint where
  "durable_checkpoint =
     \<lparr>cp_generation = 7, cp_context = \<lparr>ch_wallet_client_id = replicate 32 7, ch_device_key_ref = replicate 32 7,
         ch_device_public_key = replicate 32 7\<rparr>,
       cp_clock_high_water = 15, cp_trust_sequence_high_water = 5, cp_credentials = [durable_record],
       cp_replay = \<lparr>rs_presentation = [''n''], rs_payment = [], rs_issuance = [], rs_qes = []\<rparr>,
       cp_transaction_entries = [], cp_transaction_head = ZERO_HASH, cp_issuance_interrupted = False\<rparr>"

lemma durable_core_fields:
  "co_now_epoch (w_core durable_wallet) = 15" "co_device_public_key (w_core durable_wallet) = holder_key"
  "co_credentials (w_core durable_wallet) = [durable_credential]" "co_mdoc_holdings (w_core durable_wallet) = []"
  "co_trust_store (w_core durable_wallet) = \<lparr>ts_current = Some (bundle_list AttestationProvider)\<rparr>"
  "co_wua (w_core durable_wallet) = Some \<lparr>wu_device_public_key = holder_key, wu_assurance_level = High, wu_valid_until = 30\<rparr>"
  by (simp_all add: durable_wallet_def durable_fresh_def bundle_core_def core_new_def)

lemma durable_wallet_fields:
  "w_wallet_client_id durable_wallet = ''c''" "w_device_key_ref durable_wallet = ''k''" "w_seen_nonces durable_wallet = [''n'']"
  "w_pay_seen_nonces durable_wallet = []" "w_iss_seen_c_nonces durable_wallet = []" "w_qes_seen_nonces durable_wallet = []"
  "w_log durable_wallet = txn_new" "w_audit_log_available durable_wallet" "w_active durable_wallet = Flow_None"
  by (simp_all add: durable_wallet_def durable_fresh_def wallet_new_def)

lemma durable_authenticated:
  "authenticate_received_credential durable_env (w_core durable_wallet) DcSdJwt sd_token [[1], [3]] ''https://issuer.example''
    = Inr \<lparr>ac_credential = VerifiedSdJwt (ss_holding durable_credential) \<lparr>ps_claims = sd_claims, ps_disclosures = []\<rparr>
        (ss_validity durable_credential),
      ac_provenance = \<lparr>cp_format = DcSdJwt, cp_raw_credential = sd_token, cp_issuer = bundle_evidence\<rparr>\<rparr>"
proof -
  have "authenticate_received_credential durable_env (w_core durable_wallet)
      = authenticate_received_credential durable_env (bundle_core AttestationProvider)"
    by (rule authenticate_cong) (simp_all add: durable_wallet_def durable_fresh_def)
  then show ?thesis
    by (simp add: durable_env_def sd_ingested_with durable_credential_def)
qed

lemma durable_records: "authenticated_records durable_env (w_core durable_wallet) = Inr [durable_record]"
proof -
  have parts: "validate_record_parts sd_token ''https://issuer.example'' [[1], [3]] 0 = Inr 30"
    by (simp add: validate_record_parts_def sd_token_def checked_total_def checked_add_usize_def MAX_RAW_CREDENTIAL_BYTES_def
        MAX_ISSUER_ID_BYTES_def MAX_CERTIFICATES_PER_PATH_def MAX_CERTIFICATE_BYTES_def MAX_CREDENTIAL_EVIDENCE_BYTES_def as_bytes_def
        bind_result_def ok_or_def)
  show ?thesis
    by (simp add: authenticated_records_def durable_core_fields export_record_def durable_authenticated parts
        sdjwt_matches_def sort_by_def durable_record_def checked_add_usize_def MAX_CREDENTIALS_def
        durable_credential_def authenticated_provenance_def)
qed

lemma durable_checkpoint_ok: "checkpoint_ok durable_checkpoint"
  by (simp add: checkpoint_ok_def durable_checkpoint_def context_ok_def replay_ok_def credential_ok_def durable_record_def
      credential_size_def MAX_CREDENTIALS_def MAX_RAW_CREDENTIAL_BYTES_def MAX_ISSUER_ID_BYTES_def MAX_CERTIFICATES_PER_PATH_def
      MAX_CERTIFICATE_BYTES_def MAX_CREDENTIAL_EVIDENCE_BYTES_def MAX_REPLAY_VALUES_def MAX_REPLAY_NONCE_BYTES_def
      sd_token_def as_bytes_def ZERO_HASH_def i64_max_def valid_str_def valid_utf8_def)

lemma durable_exported: "\<exists>bytes. export_durable_checkpoint durable_env 7 durable_wallet = Inr bytes"
proof -
  have "length (to_canonical (checkpoint_value durable_checkpoint)) \<le> MAX_CHECKPOINT_BYTES"
    by (simp add: durable_checkpoint_def checkpoint_value_def replay_value_def credential_value_def durable_record_def
        to_canonical_keyed write_head_def sd_token_def int_value_def as_bytes_def ZERO_HASH_def MAX_CHECKPOINT_BYTES_def CHECKPOINT_MAGIC_def)
  then have enc: "encode_checkpoint durable_checkpoint = Inr (to_canonical (checkpoint_value durable_checkpoint))"
    using emits_checkpoint [OF durable_checkpoint_ok] by blast
  have ctx: "current_context durable_env durable_wallet = Inr (cp_context durable_checkpoint)"
    by (simp add: current_context_def check_context_value_def durable_wallet_fields durable_core_fields MAX_CONTEXT_VALUE_BYTES_def
        ensure_def durable_checkpoint_def context_hash_def durable_env_def holder_key_def as_bytes_def)
  have env: "require_current_environment durable_wallet = Inr 5"
    by (simp add: require_current_environment_def durable_core_fields sequence_number_def is_valid_at_def bundle_list_def
        is_valid_for_at_def is_valid_for_def attests_key_def meets_def)
  have replay: "sorted_replay_str [''n''] = Inr [''n'']" "sorted_replay [] = Inr []"
    by (simp_all add: sorted_replay_str_def sorted_replay_def MAX_REPLAY_VALUES_def MAX_REPLAY_NONCE_BYTES_def)
  have restored: "restore_checked d [] ZERO_HASH = Inr txn_new" for d
    by (simp add: restore_checked_def validate_entries_def txn_new_def MAX_ENTRIES_def)
  have "export_durable_checkpoint durable_env 7 durable_wallet = encode_checkpoint durable_checkpoint"
    by (simp add: export_durable_checkpoint_def ctx env durable_wallet_fields durable_records replay restored txn_new_def head_hash_def
        validate_transaction_clock_def MAX_ENTRIES_def durable_core_fields)
      (simp add: durable_checkpoint_def)
  with enc show ?thesis by simp
qed

lemma durable_wallet_types: "wallet_types durable_wallet"
  by (simp add: wallet_types_def durable_core_fields durable_wallet_fields in_i64_def i64_max_def i64_min_def txn_new_def
      authenticated_items_def durable_credential_def authenticated_provenance_def provenance_record_def
      valid_str_def valid_utf8_def as_bytes_def)

lemma durable_fresh_same: "same_configuration durable_wallet durable_fresh"
  by (simp add: same_configuration_def same_environment_def durable_wallet_def)

lemmas durable_sample = durable_wallet_types durable_fresh_same


theorem export_restore_roundtrip_witness:
  "\<exists>bytes v'. export_durable_checkpoint durable_env 7 durable_wallet = Inr bytes
    \<and> restore_durable_checkpoint durable_env [] bytes 7 durable_fresh = (Inr (), v')
    \<and> co_credentials (w_core v') = [durable_credential] \<and> set (w_seen_nonces v') = {''n''}"
proof -
  obtain bytes where export: "export_durable_checkpoint durable_env 7 durable_wallet = Inr bytes" using durable_exported by blast
  from export_restore_roundtrip [OF export durable_wallet_types _ durable_fresh_same, of "[]"]
  obtain v' where "restore_durable_checkpoint durable_env [] bytes 7 durable_fresh = (Inr (), v')"
    "mset (co_credentials (w_core v')) = {#durable_credential#}" "set (w_seen_nonces v') = {''n''}"
    by (auto simp: durable_env_def durable_core_fields durable_wallet_fields authenticated_provenance_def durable_credential_def)
  with export show ?thesis by (intro exI [of _ bytes] exI [of _ v']) simp
qed

end
