(* ===== verification/Jwe.thy ===== *)
theory Jwe
  imports Wallet_Std Crypto_Traits
begin

text \<open>
  JWE compact serialization with ECDH-ES and A256GCM, \<open>crates/jwe/src/lib.rs\<close>: the Concat KDF,
  encryption, parsing of the five segments and opening. Key agreement, SHA-256, the AEAD and the random
  source come through \<open>crypto_traits\<close> and are arguments, as are base64url and JSON.
\<close>

record jwe_crypto =
  ecdh_es_p256 :: "bytes \<Rightarrow> crypto_error + (bytes \<times> bytes)"
  jwe_sha256 :: digest
  aead_seal :: "bytes \<Rightarrow> bytes \<Rightarrow> bytes \<Rightarrow> bytes \<Rightarrow> crypto_error + bytes"
  aead_open :: "bytes \<Rightarrow> bytes \<Rightarrow> bytes \<Rightarrow> bytes \<Rightarrow> crypto_error + bytes"
  random_fill :: "nat \<Rightarrow> bytes"

definition ENC :: string where "ENC = ''A256GCM''"
definition IV_LEN :: nat where "IV_LEN = 12"
definition TAG_LEN :: nat where "TAG_LEN = 16"
definition KEYDATALEN_BITS :: nat where "KEYDATALEN_BITS = 256"

datatype jwe_error = Jwe_Crypto crypto_error | Jwe_Malformed string

definition unb64 :: "text_codec \<Rightarrow> string \<Rightarrow> string \<Rightarrow> jwe_error + bytes" where
  "unb64 C s what = ok_or (b64_decode C s) (Jwe_Malformed what)"

text \<open>\<open>len as u32\<close> drops the high bits.\<close>

definition u32_be_len :: "'a list \<Rightarrow> bytes" where
  "u32_be_len xs = be_bytes 4 (length xs mod 2 ^ 32)"

definition kdf_input :: "bytes \<Rightarrow> bytes \<Rightarrow> bytes \<Rightarrow> bytes" where
  "kdf_input z apu apv =
     be_bytes 4 1 @ z @ u32_be_len ENC @ as_bytes ENC @ u32_be_len apu @ apu @ u32_be_len apv @ apv
     @ be_bytes 4 KEYDATALEN_BITS"

definition concat_kdf_a256gcm :: "digest \<Rightarrow> bytes \<Rightarrow> bytes \<Rightarrow> bytes \<Rightarrow> bytes" where
  "concat_kdf_a256gcm digest z apu apv = digest (kdf_input z apu apv)"

definition quoted :: "string \<Rightarrow> string" where
  "quoted s = CHR 0x22 # s @ [CHR 0x22]"

definition jmember :: "string \<Rightarrow> string \<Rightarrow> string" where
  "jmember name v = quoted name @ '':'' @ quoted v"

definition jwe_header :: "string \<Rightarrow> string \<Rightarrow> string \<Rightarrow> string \<Rightarrow> string" where
  "jwe_header x y apu apv =
     ''{'' @ jmember ''alg'' ''ECDH-ES'' @ '','' @ jmember ''enc'' ''A256GCM'' @ '',''
     @ quoted ''epk'' @ '':{'' @ jmember ''kty'' ''EC'' @ '','' @ jmember ''crv'' ''P-256'' @ '','' @ jmember ''x'' x @ '',''
     @ jmember ''y'' y @ ''},'' @ jmember ''apu'' apu @ '','' @ jmember ''apv'' apv @ ''}''"

definition encrypt_ecdh_es_a256gcm ::
    "text_codec \<Rightarrow> jwe_crypto \<Rightarrow> bytes \<Rightarrow> bytes \<Rightarrow> bytes \<Rightarrow> bytes \<Rightarrow> jwe_error + string" where
  "encrypt_ecdh_es_a256gcm C K plaintext recipient_public apu apv =
     bind_result (map_err Jwe_Crypto (ecdh_es_p256 K recipient_public)) (\<lambda>(ephemeral_public, shared_secret).
     if length ephemeral_public \<noteq> 65 \<or> hd ephemeral_public \<noteq> 0x04
     then Inl (Jwe_Malformed ''ephemeral key is not an uncompressed P-256 point'')
     else
       let x = take 32 (drop 1 ephemeral_public); y = take 32 (drop 33 ephemeral_public);
           header = jwe_header (b64_encode C x) (b64_encode C y) (b64_encode C apu) (b64_encode C apv);
           protected_b64 = b64_encode C (as_bytes header);
           cek = concat_kdf_a256gcm (jwe_sha256 K) shared_secret apu apv;
           iv = random_fill K IV_LEN
       in bind_result (map_err Jwe_Crypto (aead_seal K cek iv (as_bytes protected_b64) plaintext)) (\<lambda>sealed.
          if length sealed < TAG_LEN then Inl (Jwe_Malformed ''aead output shorter than the tag'')
          else
            let ciphertext = take (length sealed - TAG_LEN) sealed; tag = drop (length sealed - TAG_LEN) sealed in
            Inr (protected_b64 @ ''..'' @ b64_encode C iv @ ''.'' @ b64_encode C ciphertext @ ''.'' @ b64_encode C tag)))"

record jwe_parts =
  jp_ephemeral_public :: bytes
  jp_apu :: bytes
  jp_apv :: bytes
  jp_protected_b64 :: string
  jp_iv :: bytes
  jp_ciphertext :: bytes
  jp_tag :: bytes

definition epk_coord :: "text_codec \<Rightarrow> json \<Rightarrow> string \<Rightarrow> jwe_error + bytes" where
  "epk_coord C epk key =
     bind_result (ok_or (json_get_str key epk) (Jwe_Malformed ''epk missing a coordinate'')) (\<lambda>s.
     bind_result (unb64 C s ''bad epk coordinate base64'') (\<lambda>v.
       if length v \<noteq> 32 then Inl (Jwe_Malformed ''epk coordinate is not 32 bytes'') else Inr v))"

text \<open>\<open>header[k]\<close> is \<open>Null\<close> when the member is missing.\<close>

definition json_index :: "string \<Rightarrow> json \<Rightarrow> json" where
  "json_index k v = unwrap_or JNull (json_get k v)"

definition jwe_field :: "text_codec \<Rightarrow> json \<Rightarrow> string \<Rightarrow> bytes" where
  "jwe_field C header k = unwrap_or [] (Option.bind (json_get_str k header) (b64_decode C))"

definition parse_compact :: "text_codec \<Rightarrow> string \<Rightarrow> jwe_error + jwe_parts" where
  "parse_compact C compact =
     (let seg = split_str (CHR ''.'') compact in
      if length seg \<noteq> 5 then Inl (Jwe_Malformed ''a compact JWE has exactly five segments'')
      else if seg ! 1 \<noteq> [] then Inl (Jwe_Malformed ''ECDH-ES direct requires an empty encrypted_key'')
      else
        bind_result (unb64 C (seg ! 0) ''bad protected-header base64'') (\<lambda>header_bytes.
        bind_result (ok_or (json_from_slice C header_bytes) (Jwe_Malformed ''bad header JSON'')) (\<lambda>header.
        if json_index ''alg'' header \<noteq> JString ''ECDH-ES'' \<or> json_index ''enc'' header \<noteq> JString ''A256GCM''
        then Inl (Jwe_Malformed ''unsupported JWE alg/enc'')
        else
          let epk = json_index ''epk'' header in
          if json_index ''kty'' epk \<noteq> JString ''EC'' \<or> json_index ''crv'' epk \<noteq> JString ''P-256''
          then Inl (Jwe_Malformed ''epk is not a P-256 EC key'')
          else
            bind_result (epk_coord C epk ''x'') (\<lambda>x.
            bind_result (epk_coord C epk ''y'') (\<lambda>y.
            bind_result (unb64 C (seg ! 2) ''bad iv base64'') (\<lambda>iv.
            bind_result (unb64 C (seg ! 3) ''bad ciphertext base64'') (\<lambda>ciphertext.
            bind_result (unb64 C (seg ! 4) ''bad tag base64'') (\<lambda>tag.
              Inr \<lparr>jp_ephemeral_public = 0x04 # x @ y, jp_apu = jwe_field C header ''apu'',
                jp_apv = jwe_field C header ''apv'', jp_protected_b64 = seg ! 0, jp_iv = iv,
                jp_ciphertext = ciphertext, jp_tag = tag\<rparr>))))))))"

definition jwe_open :: "jwe_crypto \<Rightarrow> jwe_parts \<Rightarrow> bytes \<Rightarrow> jwe_error + bytes" where
  "jwe_open K p z =
     (let cek = concat_kdf_a256gcm (jwe_sha256 K) z (jp_apu p) (jp_apv p) in
      map_err Jwe_Crypto (aead_open K cek (jp_iv p) (as_bytes (jp_protected_b64 p)) (jp_ciphertext p @ jp_tag p)))"

section \<open>The derived key binds the parties\<close>

lemma u32_be_len_inject:
  assumes "length a < 2 ^ 32" "length b < 2 ^ 32" "u32_be_len a = u32_be_len b"
  shows "length a = length b"
proof -
  have p: "(2 :: nat) ^ 32 = 256 ^ 4" by simp
  have "be_value (be_bytes 4 (length a)) = length a" "be_value (be_bytes 4 (length b)) = length b"
    using assms(1,2) unfolding p by (blast intro: be_value_be_bytes)+
  moreover have "be_bytes 4 (length a) = be_bytes 4 (length b)"
    using assms by (simp only: u32_be_len_def mod_less)
  ultimately show ?thesis by metis
qed

lemma length_u32_be_len [simp]: "length (u32_be_len a) = 4"
  by (simp add: u32_be_len_def)

lemma kdf_input_binds:
  assumes "length z = length z'" "length apu < 2 ^ 32" "length apu' < 2 ^ 32" "length apv < 2 ^ 32" "length apv' < 2 ^ 32"
  shows "kdf_input z apu apv = kdf_input z' apu' apv' \<longleftrightarrow> z = z' \<and> apu = apu' \<and> apv = apv'"
proof
  assume "kdf_input z apu apv = kdf_input z' apu' apv'"
  then have z: "z = z'" and r: "u32_be_len apu @ apu @ u32_be_len apv @ apv @ be_bytes 4 KEYDATALEN_BITS
      = u32_be_len apu' @ apu' @ u32_be_len apv' @ apv' @ be_bytes 4 KEYDATALEN_BITS"
    using assms(1) by (auto simp: kdf_input_def)
  then have "u32_be_len apu = u32_be_len apu'" and r2: "apu @ u32_be_len apv @ apv @ be_bytes 4 KEYDATALEN_BITS
      = apu' @ u32_be_len apv' @ apv' @ be_bytes 4 KEYDATALEN_BITS"
    by (simp_all add: append_eq_append_conv)
  then have "length apu = length apu'" using u32_be_len_inject assms(2,3) by blast
  with r2 z show "z = z' \<and> apu = apu' \<and> apv = apv'" by (simp add: append_eq_append_conv)
qed simp

section \<open>Opening what was encrypted\<close>

text \<open>What the round trip needs of the libraries: base64url decodes what it encodes and its alphabet has no dot,
  the JSON parser reads the protected header the encryptor writes, and the AEAD opens what it sealed.\<close>

definition b64_law :: "text_codec \<Rightarrow> bool" where
  "b64_law C \<longleftrightarrow> (\<forall>b. b64_decode C (b64_encode C b) = Some b \<and> CHR ''.'' \<notin> set (b64_encode C b))"

definition jwe_header_json :: "string \<Rightarrow> string \<Rightarrow> string \<Rightarrow> string \<Rightarrow> json" where
  "jwe_header_json x y apu apv =
     JObject [(''alg'', JString ''ECDH-ES''), (''apu'', JString apu), (''apv'', JString apv), (''enc'', JString ''A256GCM''),
       (''epk'', JObject [(''crv'', JString ''P-256''), (''kty'', JString ''EC''), (''x'', JString x), (''y'', JString y)])]"

definition header_law :: "text_codec \<Rightarrow> bool" where
  "header_law C \<longleftrightarrow> (\<forall>x y u v. json_from_slice C (as_bytes (jwe_header (b64_encode C x) (b64_encode C y) (b64_encode C u) (b64_encode C v)))
     = Some (jwe_header_json (b64_encode C x) (b64_encode C y) (b64_encode C u) (b64_encode C v)))"

definition aead_law :: "jwe_crypto \<Rightarrow> bool" where
  "aead_law K \<longleftrightarrow> (\<forall>k iv aad p c. aead_seal K k iv aad p = Inr c \<longrightarrow> aead_open K k iv aad c = Inr p)"

lemma split_five:
  assumes "CHR ''.'' \<notin> set a" "CHR ''.'' \<notin> set b" "CHR ''.'' \<notin> set c" "CHR ''.'' \<notin> set d"
  shows "split_str (CHR ''.'') (a @ ''..'' @ b @ ''.'' @ c @ ''.'' @ d) = [a, [], b, c, d]"
  using assms by (simp add: split_str_sep split_str_no_sep)

text \<open>What is encrypted to a recipient parses as a compact JWE that carries the ephemeral key and both
  party infos, and with the shared secret of that agreement it opens to the plaintext.\<close>

theorem jwe_roundtrip:
  assumes "encrypt_ecdh_es_a256gcm C K plaintext recipient apu apv = Inr compact"
    and "ecdh_es_p256 K recipient = Inr (epk, z)" "b64_law C" "header_law C" "aead_law K"
  shows "\<exists>p. parse_compact C compact = Inr p \<and> jp_ephemeral_public p = epk \<and> jp_apu p = apu \<and> jp_apv p = apv
    \<and> jwe_open K p z = Inr plaintext"
proof -
  let ?x = "take 32 (drop 1 epk)" and ?y = "take 32 (drop 33 epk)" and ?e = "b64_encode C"
  let ?h = "?e (as_bytes (jwe_header (?e ?x) (?e ?y) (?e apu) (?e apv)))"
  let ?k = "concat_kdf_a256gcm (jwe_sha256 K) z apu apv" and ?iv = "random_fill K IV_LEN"
  from assms(1,2) obtain sealed where epk: "length epk = 65" "hd epk = 0x04"
    and seal: "aead_seal K ?k ?iv (as_bytes ?h) plaintext = Inr sealed"
    and compact: "compact = ?h @ ''..'' @ ?e ?iv @ ''.'' @ ?e (take (length sealed - TAG_LEN) sealed) @ ''.''
        @ ?e (drop (length sealed - TAG_LEN) sealed)"
    by (auto simp: encrypt_ecdh_es_a256gcm_def bind_result_Inr_iff Let_def split: if_splits)
  have point: "0x04 # ?x @ ?y = epk"
  proof -
    obtain b bs where e: "epk = b # bs" using epk(1) by (cases epk) auto
    then have "take 32 bs @ take 32 (drop 32 bs) = bs" using epk(1) by (simp add: append_take_drop_id [of 32 bs] take_all)
    with e epk(2) show ?thesis by simp
  qed
  have "split_str (CHR ''.'') compact = [?h, [], ?e ?iv, ?e (take (length sealed - TAG_LEN) sealed),
      ?e (drop (length sealed - TAG_LEN) sealed)]"
    unfolding compact using assms(3) by (intro split_five) (simp_all add: b64_law_def)
  then have "parse_compact C compact = Inr \<lparr>jp_ephemeral_public = epk, jp_apu = apu, jp_apv = apv, jp_protected_b64 = ?h,
      jp_iv = ?iv, jp_ciphertext = take (length sealed - TAG_LEN) sealed, jp_tag = drop (length sealed - TAG_LEN) sealed\<rparr>"
    using assms(3,4) epk(1) point
    by (simp add: parse_compact_def b64_law_def header_law_def unb64_def jwe_header_json_def json_index_def json_get_def
        epk_coord_def json_get_str_def jwe_field_def json_as_str_def)
  then show ?thesis using seal assms(5) by (auto simp: jwe_open_def aead_law_def Let_def)
qed

section \<open>A concrete codec\<close>

text \<open>Two letters a byte instead of base64url, a reader for the protected header only, and an AEAD that
  appends the first sixteen bytes of the padded key and associated data.\<close>

definition nibble_char :: "nat \<Rightarrow> char" where
  "nibble_char n = char_of (65 + n)"

fun nibble_encode :: "bytes \<Rightarrow> string" where
  "nibble_encode [] = []"
| "nibble_encode (b # bs) = nibble_char (unat b div 16) # nibble_char (unat b mod 16) # nibble_encode bs"

fun nibble_decode :: "string \<Rightarrow> bytes option" where
  "nibble_decode [] = Some []"
| "nibble_decode [_] = None"
| "nibble_decode (a # b # s) =
     map_option (Cons (of_nat ((of_char a - 65) * 16 + (of_char b - 65)))) (nibble_decode s)"

definition read_header :: "bytes \<Rightarrow> json option" where
  "read_header b = (let p = split_str (CHR 0x22) (map char_of_byte b) in
     if length p = 35 then Some (jwe_header_json (p ! 21) (p ! 25) (p ! 29) (p ! 33)) else None)"

definition nibble_codec :: text_codec where
  "nibble_codec = \<lparr>b64_decode = nibble_decode, b64_encode = nibble_encode, json_from_slice = read_header,
     json_to_vec = (\<lambda>_. None)\<rparr>"

definition sample_tag :: "bytes \<Rightarrow> bytes \<Rightarrow> bytes" where
  "sample_tag k aad = take 16 (k @ aad @ replicate 16 0)"

definition sample_crypto :: jwe_crypto where
  "sample_crypto = \<lparr>ecdh_es_p256 = (\<lambda>rp. Inr (0x04 # replicate 64 7, rp)), jwe_sha256 = take 32,
     aead_seal = (\<lambda>k iv aad p. Inr (p @ sample_tag k aad)),
     aead_open = (\<lambda>k iv aad c. let n = length c - 16 in
       if drop n c = sample_tag k aad then Inr (take n c) else Inl NotFound),
     random_fill = (\<lambda>n. replicate n 9)\<rparr>"

lemma nibble_char_of: "n < 16 \<Longrightarrow> of_char (nibble_char n) = 65 + n"
  by (simp add: nibble_char_def of_char_of)

lemma nibble_chars: "c \<in> set (nibble_encode b) \<Longrightarrow> 65 \<le> (of_char c :: nat)"
proof (induction b)
  case (Cons x b)
  have "unat x div 16 < 16" "unat x mod 16 < 16" using unat_byte_lt [of x] by (simp_all add: less_mult_imp_div_less)
  with Cons show ?case by (auto simp: nibble_char_of)
qed simp

lemma nibble_roundtrip: "nibble_decode (nibble_encode b) = Some b"
proof (induction b)
  case (Cons x b)
  have "unat x div 16 < 16" "unat x mod 16 < 16" using unat_byte_lt [of x] by (simp_all add: less_mult_imp_div_less)
  moreover have "unat x div 16 * 16 + unat x mod 16 = unat x" by simp
  ultimately show ?case using Cons by (simp add: nibble_char_of)
qed simp

lemma nibble_no_quote: "CHR 0x22 \<notin> set (nibble_encode b)" "CHR ''.'' \<notin> set (nibble_encode b)"
  using nibble_chars [of "CHR 0x22" b] nibble_chars [of "CHR ''.''" b] by auto

lemma split_header:
  assumes "CHR 0x22 \<notin> set x" "CHR 0x22 \<notin> set y" "CHR 0x22 \<notin> set u" "CHR 0x22 \<notin> set v"
  shows "split_str (CHR 0x22) (jwe_header x y u v) =
    [''{'', ''alg'', '':'', ''ECDH-ES'', '','', ''enc'', '':'', ''A256GCM'', '','', ''epk'', '':{'', ''kty'', '':'', ''EC'', '','', ''crv'', '':'',
     ''P-256'', '','', ''x'', '':'', x, '','', ''y'', '':'', y, ''},'', ''apu'', '':'', u, '','', ''apv'', '':'', v, ''}'']"
  using assms by (simp add: jwe_header_def jmember_def quoted_def split_str_sep)

lemma nibble_codec_laws: "b64_law nibble_codec" "header_law nibble_codec"
  by (simp_all add: b64_law_def header_law_def nibble_codec_def nibble_roundtrip nibble_no_quote read_header_def split_header)

lemma sample_crypto_law: "aead_law sample_crypto"
  by (auto simp: aead_law_def sample_crypto_def sample_tag_def Let_def)

lemma sample_encrypts:
  "\<exists>compact. encrypt_ecdh_es_a256gcm nibble_codec sample_crypto [1, 2, 3] (replicate 32 5) [8] [] = Inr compact"
  by (simp add: encrypt_ecdh_es_a256gcm_def sample_crypto_def sample_tag_def TAG_LEN_def Let_def)

theorem jwe_roundtrip_witness:
  "\<exists>compact p. encrypt_ecdh_es_a256gcm nibble_codec sample_crypto [1, 2, 3] (replicate 32 5) [8] [] = Inr compact
    \<and> parse_compact nibble_codec compact = Inr p \<and> jwe_open sample_crypto p (replicate 32 5) = Inr [1, 2, 3]"
proof -
  obtain compact where
    c: "encrypt_ecdh_es_a256gcm nibble_codec sample_crypto [1, 2, 3] (replicate 32 5) [8] [] = Inr compact"
    using sample_encrypts by blast
  have "ecdh_es_p256 sample_crypto (replicate 32 5) = Inr (0x04 # replicate 64 7, replicate 32 5)"
    by (simp add: sample_crypto_def)
  from jwe_roundtrip [OF c this nibble_codec_laws sample_crypto_law] c show ?thesis by blast
qed

end
