(* ===== verification/Zkp.thy ===== *)
theory Zkp
  imports Wallet_Std Crypto_Traits
begin

text \<open>
  The proof-provider boundary, \<open>crates/zkp/src/lib.rs\<close>: predicates, the fallback provider that has no
  zero-knowledge scheme, and the transcript commitment.
\<close>

datatype predicate_stmt = AgeOver u32 | AttributeEquals string string | AttributeDisclosed string

record proof_profile =
  pf_id :: string

definition PROFILE_NONE :: proof_profile where
  "PROFILE_NONE = \<lparr>pf_id = ''none/selective-disclosure''\<rparr>"

datatype zkp_error = Zkp_Unsupported | UnsatisfiedPredicate | Zkp_Backend string

definition fallback_profile :: proof_profile where
  "fallback_profile = PROFILE_NONE"

definition fallback_prove :: "predicate_stmt \<Rightarrow> bytes \<Rightarrow> bytes \<Rightarrow> zkp_error + bytes" where
  "fallback_prove predicate credential nonce =
     (case predicate of
        AgeOver _ \<Rightarrow> Inl Zkp_Unsupported
      | AttributeEquals _ _ \<Rightarrow> Inl Zkp_Unsupported
      | AttributeDisclosed _ \<Rightarrow> Inr [])"

definition fallback_verify :: "predicate_stmt \<Rightarrow> bytes \<Rightarrow> bytes \<Rightarrow> zkp_error + bool" where
  "fallback_verify predicate proof_bytes nonce =
     (case predicate of AttributeDisclosed _ \<Rightarrow> Inr (proof_bytes = []) | _ \<Rightarrow> Inl Zkp_Unsupported)"

definition transcript_input :: "proof_profile \<Rightarrow> bytes \<Rightarrow> bytes" where
  "transcript_input profile nonce = as_bytes ''eudi-zkp-transcript:'' @ as_bytes (pf_id profile) @ [0x7C] @ nonce"

definition transcript_commitment :: "digest \<Rightarrow> proof_profile \<Rightarrow> bytes \<Rightarrow> bytes" where
  "transcript_commitment digest profile nonce = digest (transcript_input profile nonce)"

text \<open>What the fallback proves it also accepts, and it proves a predicate exactly when it can verify one.\<close>

lemma fallback_complete:
  "fallback_prove p c n = Inr proof_bytes \<Longrightarrow> fallback_verify p proof_bytes n' = Inr True"
  "isl (fallback_prove p c n) = isl (fallback_verify p proof_bytes n')"
  by (cases p; auto simp: fallback_prove_def fallback_verify_def)+

text \<open>Profile identifiers without a bar: the committed bytes determine profile and nonce.\<close>

lemma transcript_input_binds:
  assumes "CHR ''|'' \<notin> set (pf_id p)" "CHR ''|'' \<notin> set (pf_id q)" "transcript_input p n = transcript_input q m"
  shows "p = q \<and> n = m"
proof -
  have b: "(0x7C :: u8) \<notin> set (as_bytes s)" if "CHR ''|'' \<notin> set s" for s
  proof
    assume "(0x7C :: u8) \<in> set (as_bytes s)"
    then obtain c where "c \<in> set s" "of_char c = (0x7C :: u8)" by (auto simp: as_bytes_def)
    then have "c = char_of_byte 0x7C" by (metis char_of_byte_of_char)
    moreover have "char_of_byte 0x7C = CHR ''|''" by code_simp
    ultimately show False using \<open>c \<in> set s\<close> that by simp
  qed
  have "as_bytes (pf_id p) @ 0x7C # n = as_bytes (pf_id q) @ 0x7C # m" using assms(3) by (simp add: transcript_input_def)
  moreover have "takeWhile (\<lambda>x. x \<noteq> 0x7C) (as_bytes (pf_id r) @ 0x7C # k) = as_bytes (pf_id r)" if "CHR ''|'' \<notin> set (pf_id r)" for r :: proof_profile and k
    using b [OF that] by (subst takeWhile_append2) auto
  ultimately have "as_bytes (pf_id p) = as_bytes (pf_id q) \<and> n = m"
    using assms(1,2) by (metis same_append_eq list.inject)
  then show ?thesis by (metis map_char_of_byte_as_bytes proof_profile.equality old.unit.exhaust)
qed

end
