(* ===== verification/Spec2Isabelle.thy ===== *)
theory Spec2Isabelle
  imports Durable_Sound Payment Qes W2w Proximity Status Mdoc Txnlog Sdjwt Oid4vp Oid4vci Trust Wua Jwe Presenter Catalogue Zkp
begin

text \<open>
  EUWallet is a wallet for European digital identity. Its core, the Rust crates under \<open>src/crates\<close>, does no
  input or output: the native shell hands it events and carries out the effects it returns. This library models the core
  and proves what its parts promise each other.

  \<^bold>\<open>Conventions.\<close> A Rust \<open>struct\<close> is a record, an \<open>enum\<close> a datatype, \<open>Result\<close> a sum with the error on the left,
  \<open>Option\<close> an option. \<open>u8\<close> to \<open>u64\<close> are words; \<open>i64\<close> is an integer with its bounds written out where they matter;
  \<open>usize\<close> is a natural number whose checked operations fail at \<open>2^64\<close>. A \<open>String\<close> is a list of characters that stand for
  its UTF-8 bytes. Methods with \<open>&mut self\<close> return the new state. What is not under \<open>src\<close> is an argument: the base64url
  and JSON codecs (\<open>text_codec\<close>), the DER decoders (\<open>der_codec\<close>), signature verification, signing, digests, key
  agreement, authenticated encryption, decompression and randomness. Statements that need more of them than their type
  say so in a hypothesis (for instance that encoding and decoding of base64url are inverse on the value at hand, or that
  a digest has 32 bytes).

  \<^bold>\<open>Shared theories.\<close> \<open>Wallet_Prelude\<close> and \<open>Wallet_Std\<close> hold the word, string and result operations of the standard
  library and the lemmas the components share; \<open>Wallet_Interfaces\<close> holds the contracts as locales (canonical codecs, hash
  chains, machines that release only after consent, machines that release once, machines that refine a reference model),
  each interpreted on the components' own definitions; \<open>Crypto_Traits\<close> is \<open>crypto-traits\<close>.

  \<^bold>\<open>Encodings.\<close> \<open>Cbor\<close> and \<open>Cose\<close> model \<open>cose/src/cbor.rs\<close> and \<open>cose/src/lib.rs\<close>: the decoder accepts exactly the
  canonical encodings, and a signature pins payload, protected header and context. \<open>Jwe\<close> models \<open>jwe\<close>. \<open>Tdate\<close> and
  \<open>Mdoc\<close> model \<open>mdoc\<close>: only items the issuer signed verify. \<open>Sdjwt\<close> models \<open>sdjwt\<close>: claims come from the issuer or from
  disclosures whose digest the issuer signed, each used once, and the key binding is unique. \<open>Checkpoint\<close> models the
  format of \<open>wallet-core/src/durable.rs\<close>; \<open>Checkpoint_Sound\<close> proves it exact in both directions, including the
  structural scan that runs first, and that the scan always moves on.

  \<^bold>\<open>Trust.\<close> \<open>X509\<close> and \<open>X509_Path\<close> model \<open>x509\<close>: certificates, constraints, policies, and the bounded search for
  the only valid path. \<open>Trust\<close> models \<open>trust\<close>, \<open>Wua\<close> models \<open>wua\<close>, \<open>Status\<close> models \<open>status\<close>, \<open>Catalogue\<close> models
  \<open>catalogue\<close>, \<open>Zkp\<close> models \<open>zkp/src/lib.rs\<close>.

  \<^bold>\<open>Protocols.\<close> \<open>Uri\<close>, \<open>Dcql\<close> and \<open>Oid4vp\<close> model \<open>oid4vp\<close>, \<open>Oid4vci\<close> and \<open>Pid_Profile\<close> model the issuance machine and
  the portrait profile of \<open>oid4vci\<close>, \<open>Payment\<close>, \<open>Qes\<close> and \<open>W2w\<close> model the crates of these names, \<open>Proximity\<close> models
  \<open>iso18013-5\<close>, \<open>Presenter\<close> models \<open>presenter\<close>. For each machine: what is sent was shown and approved, and the
  production step refines the reference model that the crate replays conformance traces against.

  \<^bold>\<open>The wallet.\<close> \<open>Ingestion\<close> models how \<open>wallet-core/src/lib.rs\<close> authenticates and stores credentials and gates
  presentations on status; \<open>Ingestion_Sound\<close> proves that only authenticated credentials are ever stored.
  \<open>Wallet_State\<close> models the fields of \<open>Core\<close>, the one active flow and its end, and the guards on the audit log.
  \<open>Txnlog\<close> models \<open>txnlog\<close>: the log is tamper-evident, and always restorable. \<open>Durable\<close> models export and restoration
  of durable state and the phases of the engine handle; \<open>Durable_Sound\<close> proves that what is restored is authenticated
  again, belongs to this wallet and this generation, and that every export can be restored. This theory composes
  \<open>Oid4vp\<close> and \<open>Sdjwt\<close>: the presentation the wallet sends is one the verifier's routine accepts.

  \<^bold>\<open>Bounds.\<close> No definition uses fuel. The recursions that are not structural have a measure: the structural scan
  descends at most 8 levels and takes one step per declared item, the certificate search consumes its budget of
  expansions, the CBOR and JSON readers consume their input or a nesting budget of the source.

  \<^bold>\<open>Not modelled.\<close> The event dispatcher of \<open>wallet-core/src/lib.rs\<close> and the drivers that turn outputs of the machines
  into effects; \<open>dcapi.rs\<close>, \<open>export.rs\<close>, \<open>proximity_session.rs\<close>, \<open>delivery.rs\<close> (dormant in the source), \<open>agent.rs\<close> and
  \<open>delegation.rs\<close>; the HTTP profile of OpenID4VCI in \<open>foundation.rs\<close>, \<open>authorization.rs\<close> and \<open>credential.rs\<close>; the
  cryptographic back end, the experimental hybrid and zero-knowledge providers, which wrap primitives that are not under
  \<open>src\<close>; the shells, bindings, benchmarks, demonstrations and tests.
\<close>

section \<open>What is sent is what the verifier accepts\<close>

definition b64_clean :: "text_codec \<Rightarrow> bytes \<Rightarrow> bool" where
  "b64_clean C b \<longleftrightarrow> b64_decode C (b64_encode C b) = Some b
     \<and> CHR ''.'' \<notin> set (b64_encode C b) \<and> CHR ''~'' \<notin> set (b64_encode C b)"

lemma build_presentation_text:
  "build_presentation j ds = presentation_text \<lparr>issuer_jwt = j, vc_disclosures = ds, key_binding_jwt = kb\<rparr>"
  by (simp add: build_presentation_def presentation_text_def)

lemma sdjwt_parse_serialise:
  assumes "CHR ''~'' \<notin> set j" "\<forall>d \<in> set ds. CHR ''~'' \<notin> set d \<and> d \<noteq> [] \<and> length d \<le> MAX_DISCLOSURE_BYTES"
    and "CHR ''~'' \<notin> set kb" "kb \<noteq> []" "j \<noteq> []" "count_char (CHR ''.'') j = 2" "count_char (CHR ''.'') kb = 2"
    and "length j \<le> MAX_JWS_BYTES" "length kb \<le> MAX_JWS_BYTES" "length ds \<le> MAX_DISCLOSURES"
    and "length (serialise \<lparr>issuer_jwt = j, vc_disclosures = ds, key_binding_jwt = Some kb\<rparr>) \<le> MAX_COMPACT_BYTES"
  shows "sdjwt_parse (serialise \<lparr>issuer_jwt = j, vc_disclosures = ds, key_binding_jwt = Some kb\<rparr>)
    = Inr \<lparr>issuer_jwt = j, vc_disclosures = ds, key_binding_jwt = Some kb\<rparr>"
proof -
  have "split_str (CHR ''~'') (serialise \<lparr>issuer_jwt = j, vc_disclosures = ds, key_binding_jwt = Some kb\<rparr>) = j # ds @ [kb]"
    unfolding serialise_join using assms(1-3) by (simp add: split_join_str)
  then show ?thesis
    using assms by (auto simp: sdjwt_parse_def Let_def list_ex_iff not_less)
qed

lemma count_char_simps [simp]: "count_char c (s @ t) = count_char c s + count_char c t"
  "count_char c (x # s) = (if x = c then 1 else 0) + count_char c s" "count_char c [] = 0"
  by (simp_all add: count_char_def)

lemma count_char_0: "c \<notin> set s \<Longrightarrow> count_char c s = 0"
  by (induction s) auto

lemma verify_and_disclose_cong:
  assumes "issuer_jwt vc = issuer_jwt vc'" "vc_disclosures vc = vc_disclosures vc'"
  shows "verify_and_disclose C vc verifier digest pk alg = verify_and_disclose C vc' verifier digest pk alg"
  unfolding verify_and_disclose_def verify_and_process_def assms ..

definition kb_text :: "text_codec \<Rightarrow> bytes \<Rightarrow> bytes \<Rightarrow> string" where
  "kb_text C payload sig = b64_encode C (as_bytes kb_header_text) @ ''.'' @ b64_encode C payload @ ''.'' @ b64_encode C sig"

lemma split_jws_kb_text:
  assumes "length (kb_text C payload sig) \<le> MAX_JWS_BYTES"
    and "b64_clean C (as_bytes kb_header_text)" "b64_clean C payload" "b64_clean C sig"
    and "json_from_slice C (as_bytes kb_header_text) = Some header"
  shows "split_jws C (kb_text C payload sig)
    = Inr (header, payload, b64_encode C (as_bytes kb_header_text) @ ''.'' @ b64_encode C payload, sig)"
proof -
  have "split_str (CHR ''.'') (kb_text C payload sig)
      = [b64_encode C (as_bytes kb_header_text), b64_encode C payload, b64_encode C sig]"
    unfolding kb_text_def using assms(2-4) by (simp add: b64_clean_def split_str_sep split_str_no_sep)
  then show ?thesis using assms by (simp add: split_jws_def b64_clean_def)
qed

text \<open>
  C23. The presentation and the verification code agree: take an SD-JWT credential whose selected
  disclosures verify under the issuer's key. The token the machine assembles from it with a valid device
  signature parses, and the presentation verifier accepts it for the audience and the nonce of the
  request and returns the same claims, at any time of the wallet's clock. The codec is only asked to
  round-trip the three texts of the key-binding JWT, and sizes are those the parser allows.
\<close>

theorem vp_sdjwt_presentation_verifies:
  assumes built: "build_sub C env req (Sel_SdJwt j ds dcql_id) = Some sub"
    and issuer: "verify_and_disclose C \<lparr>issuer_jwt = j, vc_disclosures = ds, key_binding_jwt = None\<rparr>
        verifier (ve_digest env) pk alg = Inr claims"
    and device: "verifier Es256 dpk (sub_signing_input sub) sig = Inr ()"
    and clock: "in_i64 (ve_now_epoch env)"
    and header: "b64_clean C (as_bytes kb_header_text)"
      "json_from_slice C (as_bytes kb_header_text) = Some (JObject [(''alg'', JString ''ES256''), (''typ'', JString ''kb+jwt'')])"
    and payload: "json_to_vec C (kb_payload (ar_nonce req) (ar_client_id req) (ve_now_epoch env)
          (b64_encode C (ve_digest env (as_bytes (build_presentation j ds))))) = Some payload" "b64_clean C payload"
      "json_from_slice C payload = Some (kb_payload (ar_nonce req) (ar_client_id req) (ve_now_epoch env)
          (b64_encode C (ve_digest env (as_bytes (build_presentation j ds)))))"
    and sig: "b64_clean C sig"
    and texts: "CHR ''~'' \<notin> set j" "j \<noteq> []" "count_char (CHR ''.'') j = 2"
      "\<forall>d \<in> set ds. CHR ''~'' \<notin> set d \<and> d \<noteq> [] \<and> length d \<le> MAX_DISCLOSURE_BYTES"
    and sizes: "length j \<le> MAX_JWS_BYTES" "length (kb_text C payload sig) \<le> MAX_JWS_BYTES" "length ds \<le> MAX_DISCLOSURES"
      "length (cp_vp_token (complete_presentation C sub sig)) \<le> MAX_COMPACT_BYTES"
  shows "\<exists>vc. sdjwt_parse (cp_vp_token (complete_presentation C sub sig)) = Inr vc
    \<and> verify_presentation C vc verifier (ve_digest env) pk alg
       \<lparr>kb_device_public_key = dpk, kb_expected_aud = ar_client_id req, kb_expected_nonce = ar_nonce req, kb_device_alg = Es256\<rparr>
       = Inr claims"
proof -
  let ?kb = "kb_text C payload sig"
  let ?vc = "\<lparr>issuer_jwt = j, vc_disclosures = ds, key_binding_jwt = Some ?kb\<rparr>"
  let ?in = "b64_encode C (as_bytes kb_header_text) @ ''.'' @ b64_encode C payload"
  have sub: "sub = Sub_SdJwt (build_presentation j ds) ?in dcql_id"
    using built payload(1) by (simp add: build_sub_def kb_jwt_signing_input_def Let_def)
  have token: "cp_vp_token (complete_presentation C sub sig) = serialise ?vc"
    unfolding sub build_presentation_text [of j ds "Some ?kb"] by (simp add: complete_presentation_def serialise_def kb_text_def)
  have "CHR ''~'' \<notin> set ?kb" "count_char (CHR ''.'') ?kb = 2" "?kb \<noteq> []"
    using header(1) payload(2) sig by (auto simp: kb_text_def b64_clean_def count_char_0)
  then have parse: "sdjwt_parse (serialise ?vc) = Inr ?vc"
    using texts sizes token by (intro sdjwt_parse_serialise) simp_all
  have issuer': "verify_and_disclose C ?vc verifier (ve_digest env) pk alg = Inr claims"
    using issuer by (subst verify_and_disclose_cong) simp_all
  have hash: "build_presentation j ds = presentation_text ?vc" by (rule build_presentation_text)
  have "verify_presentation C ?vc verifier (ve_digest env) pk alg
       \<lparr>kb_device_public_key = dpk, kb_expected_aud = ar_client_id req, kb_expected_nonce = ar_nonce req, kb_device_alg = Es256\<rparr>
       = Inr claims"
    using device payload(3) json_of_i64_read [OF clock]
    by (simp add: verify_presentation_def issuer' split_jws_kb_text [OF sizes(2) header(1) payload(2) sig header(2)]
        parse_jose_alg_def json_as_object_def json_get_str_def json_get_def json_as_str_def sub kb_payload_def hash)
  with token parse show ?thesis by auto
qed


text \<open>The sample credential of the SD-JWT theory, presented for the sample request.\<close>

definition kb_sample :: json where
  "kb_sample = kb_payload ''n-1'' ''x509_san_dns:rp'' 7 (sd_hash_of ''~'')"

definition kb_codec :: text_codec where
  "kb_codec = sd_codec\<lparr>
     json_from_slice := (\<lambda>b. if b = as_bytes kb_header_text then Some (JObject [(''alg'', JString ''ES256''), (''typ'', JString ''kb+jwt'')])
       else if b = as_bytes ''R'' then Some kb_sample else sd_json b),
     json_to_vec := (\<lambda>v. if v = kb_sample then Some (as_bytes ''R'') else Some [0])\<rparr>"

definition kb_env :: vp_env where
  "kb_env = vp_env0\<lparr>ve_digest := sd_digest\<rparr>"

lemma kb_codec_simps [simp]:
  "b64_decode kb_codec s = Some (as_bytes s)" "b64_encode kb_codec b = map char_of_byte b"
  "json_from_slice kb_codec (as_bytes kb_header_text) = Some (JObject [(''alg'', JString ''ES256''), (''typ'', JString ''kb+jwt'')])"
  "json_from_slice kb_codec (as_bytes ''R'') = Some kb_sample"
  "json_from_slice kb_codec (as_bytes ''H'') = sd_json (as_bytes ''H'')"
  "json_from_slice kb_codec (as_bytes ''P'') = sd_json (as_bytes ''P'')"
  "json_from_slice kb_codec (as_bytes ''x'') = sd_json (as_bytes ''x'')"
  "json_from_slice kb_codec (as_bytes ''y'') = sd_json (as_bytes ''y'')"
  "json_to_vec kb_codec v = (if v = kb_sample then Some (as_bytes ''R'') else Some [0])"
  by (simp_all add: kb_codec_def kb_header_text_def)

lemma kb_sample_neq [simp]: "JObject ((''_sd'', v) # m) \<noteq> kb_sample" "JObject ((''city'', v) # m) \<noteq> kb_sample"
  "JObject ((''address'', v) # m) \<noteq> kb_sample" "JString s \<noteq> kb_sample"
  by (simp_all add: kb_sample_def kb_payload_def)

lemma kb_indexed: "index_disclosures kb_codec sd_digest [''y'', ''x''] [] = Inr sd_index"
  by (simp add: disclosure_parse_def MAX_DISCLOSURE_BYTES_def digest_b64_def has_key_def sd_index_def json_defs Let_def)

lemma kb_process: "\<exists>st. process_value kb_codec
    (JObject [(''_sd'', JArray [JString (sd_hash_of ''x''), JString (sd_hash_of ''z'')]), (''vct'', JString ''t'')]) [] None 0 True
    \<lparr>disclosure_by_digest = sd_index, used_disclosures = [], encountered_digests = [], dp_verified = [],
      embedded_digest_count = 0, output_budget = 1\<rparr> = Inr (JObject (ps_claims sd_processed), st)
    \<and> used_disclosures st = [sd_hash_of ''x'', sd_hash_of ''y''] \<and> disclosure_by_digest st = sd_index"
  by (simp add: process_value.simps process_members.simps process_digests.simps open_object_def SD_ALG_CLAIM_def SD_CLAIM_def
      map_remove_def has_key_def MAX_NESTING_DEPTH_def json_defs encounter_digest_def checked_add_usize_def
      MAX_EMBEDDED_DIGESTS_def sd_index_def member_name_def consume_budget_def MAX_PROCESSED_JSON_BYTES_def
      record_disclosure_def sd_processed_def)

lemma kb_accepts: "verify_and_disclose kb_codec \<lparr>issuer_jwt = ''H.P.S'', vc_disclosures = [''y'', ''x''], key_binding_jwt = None\<rparr>
    sd_verifier sd_digest [] Es256 = Inr (ps_claims sd_processed)"
proof -
  have len: "length sd_index = 2" by (simp add: sd_index_def)
  have claims: "JObject (ps_claims sd_processed) \<noteq> kb_sample" by (simp add: sd_processed_def)
  have split: "split_jws kb_codec ''H.P.S''
     = Inr (JObject [(''alg'', JString ''ES256''), (''typ'', JString ''dc+sd-jwt'')], as_bytes ''P'', ''H.P'', as_bytes ''S'')"
    by (simp add: split_jws_def MAX_JWS_BYTES_def)
  obtain st where "process_value kb_codec
      (JObject [(''_sd'', JArray [JString (sd_hash_of ''x''), JString (sd_hash_of ''z'')]), (''vct'', JString ''t'')]) [] None 0 True
      \<lparr>disclosure_by_digest = sd_index, used_disclosures = [], encountered_digests = [], dp_verified = [],
        embedded_digest_count = 0, output_budget = 1\<rparr> = Inr (JObject (ps_claims sd_processed), st)"
      "used_disclosures st = [sd_hash_of ''x'', sd_hash_of ''y'']" "disclosure_by_digest st = sd_index"
    using kb_process by blast
  then show ?thesis
    by (simp add: verify_and_disclose_def verify_and_process_def split parse_jose_alg_def json_defs json_as_object_def check_hash_alg_def
        SD_ALG_CLAIM_def kb_indexed len claims MAX_PROCESSED_JSON_BYTES_def del: index_disclosures.simps)
qed

theorem vp_sdjwt_presentation_verifies_witness:
  "\<exists>sub vc. build_sub kb_codec kb_env vp_req0 (Sel_SdJwt ''H.P.S'' [''y'', ''x''] None) = Some sub
    \<and> sdjwt_parse (cp_vp_token (complete_presentation kb_codec sub (as_bytes ''S''))) = Inr vc
    \<and> verify_presentation kb_codec vc sd_verifier sd_digest [] Es256
       \<lparr>kb_device_public_key = [], kb_expected_aud = ''x509_san_dns:rp'', kb_expected_nonce = ''n-1'', kb_device_alg = Es256\<rparr>
       = Inr (ps_claims sd_processed)"
proof -
  have dig: "ve_digest kb_env = sd_digest" "ve_now_epoch kb_env = 7" by (simp_all add: kb_env_def vp_env0_def)
  have req: "ar_nonce vp_req0 = ''n-1''" "ar_client_id vp_req0 = ''x509_san_dns:rp''" by (simp_all add: vp_req0_def)
  have pres: "build_presentation ''H.P.S'' [''y'', ''x''] = ''H.P.S~y~x~''" by (simp add: build_presentation_def)
  have hash: "b64_encode kb_codec (ve_digest kb_env (as_bytes (build_presentation ''H.P.S'' [''y'', ''x'']))) = sd_hash_of ''~''"
    unfolding pres dig by simp
  have h: "sd_hash_of ''H.P.S~y~x~'' = sd_hash_of ''~''" by simp
  obtain sub where sub: "build_sub kb_codec kb_env vp_req0 (Sel_SdJwt ''H.P.S'' [''y'', ''x''] None) = Some sub"
    by (simp add: build_sub_def Let_def)
  have tok: "cp_vp_token (complete_presentation kb_codec sub (as_bytes ''S''))
      = ''H.P.S~y~x~'' @ kb_header_text @ ''.R.S''"
  proof -
    have "sub = Sub_SdJwt ''H.P.S~y~x~'' (kb_header_text @ ''.R'') None"
      using sub by (simp add: build_sub_def dig req kb_jwt_signing_input_def pres h kb_sample_def [symmetric])
    then show ?thesis by (simp add: complete_presentation_def)
  qed
  have clean: "b64_clean kb_codec (as_bytes kb_header_text)" "b64_clean kb_codec (as_bytes ''R'')" "b64_clean kb_codec (as_bytes ''S'')"
    by (simp_all add: b64_clean_def kb_header_text_def)
  have "\<exists>vc. sdjwt_parse (cp_vp_token (complete_presentation kb_codec sub (as_bytes ''S''))) = Inr vc
    \<and> verify_presentation kb_codec vc sd_verifier (ve_digest kb_env) [] Es256
       \<lparr>kb_device_public_key = [], kb_expected_aud = ar_client_id vp_req0, kb_expected_nonce = ar_nonce vp_req0, kb_device_alg = Es256\<rparr>
       = Inr (ps_claims sd_processed)"
    by (rule vp_sdjwt_presentation_verifies [OF sub, where payload = "as_bytes ''R''"])
      (simp_all add: pres h dig req kb_accepts kb_sample_def [symmetric] clean tok i64_defs MAX_DISCLOSURE_BYTES_def MAX_JWS_BYTES_def
        MAX_DISCLOSURES_def MAX_COMPACT_BYTES_def kb_text_def, simp_all add: kb_header_text_def)
  with sub show ?thesis unfolding dig req by blast
qed

end
